(* ===== verification/Prelude.thy ===== *)
theory Prelude
  imports Main "HOL-Library.Word" "HOL-Library.Char_ord" "HOL-Library.List_Lexorder"
    "HOL-Library.Multiset" "HOL-Library.AList"
begin

text \<open>
  Shared vocabulary of the development: the C++ value types (bytes, results with
  exceptions), checked access to vectors, the associative containers
  (\<open>std::map\<close> as a key-sorted association list, \<open>std::unordered_map\<close> as an
  association list), \<open>std::sort\<close> as an interface, hexadecimal rendering and the
  little- and big-endian integer encodings that several classes of the repository use.
\<close>

unbundle bit_operations_syntax

named_theorems codec_simps \<open>round trips of the byte encodings\<close>
named_theorems container_simps \<open>laws of the associative containers\<close>

section \<open>Results and errors\<close>

type_synonym byte = "8 word"
type_synonym bytes = "8 word list"

text \<open>
  The exceptions the modelled code throws, with their messages, the undefined behaviour of an
  out-of-range \<open>operator[]\<close>, and the end of the process when an exception leaves a destructor.
\<close>

datatype cpp_error =
    InvalidArgument string
  | RuntimeError string
  | UndefinedBehaviour
  | Terminated

type_synonym 'a res = "cpp_error + 'a"

definition bind_res :: "'a res \<Rightarrow> ('a \<Rightarrow> 'b res) \<Rightarrow> 'b res" where
  "bind_res r f = (case r of Inl e \<Rightarrow> Inl e | Inr x \<Rightarrow> f x)"

lemma bind_res_simps [simp]:
  "bind_res (Inl e) f = Inl e"
  "bind_res (Inr x) f = f x"
  by (simp_all add: bind_res_def)

lemma bind_res_Inr_iff:
  "bind_res r f = Inr y \<longleftrightarrow> (\<exists>x. r = Inr x \<and> f x = Inr y)"
  by (cases r) auto

text \<open>Checked \<open>operator[]\<close> of a vector: an index out of range is undefined behaviour.\<close>

definition vec_get :: "'a list \<Rightarrow> nat \<Rightarrow> 'a res" where
  "vec_get xs i = (if i < length xs then Inr (xs ! i) else Inl UndefinedBehaviour)"

lemma vec_get_Inr [simp]: "i < length xs \<Longrightarrow> vec_get xs i = Inr (xs ! i)"
  by (simp add: vec_get_def)

text \<open>Running a fallible operation over a list, left to right, stopping at the first error.\<close>

fun map_res :: "('a \<Rightarrow> 'b res) \<Rightarrow> 'a list \<Rightarrow> 'b list res" where
  "map_res f [] = Inr []"
| "map_res f (x # xs) =
     bind_res (f x) (\<lambda>y. bind_res (map_res f xs) (\<lambda>ys. Inr (y # ys)))"

fun fold_res :: "('a \<Rightarrow> 's \<Rightarrow> 's res) \<Rightarrow> 'a list \<Rightarrow> 's \<Rightarrow> 's res" where
  "fold_res f [] s = Inr s"
| "fold_res f (x # xs) s = bind_res (f x s) (fold_res f xs)"

lemma fold_res_append:
  "fold_res f (xs @ ys) s = bind_res (fold_res f xs s) (fold_res f ys)"
  by (induction xs arbitrary: s) (auto simp: bind_res_def split: sum.splits)

lemma map_res_Inr:
  "(\<And>x. x \<in> set xs \<Longrightarrow> f x = Inr (g x)) \<Longrightarrow> map_res f xs = Inr (map g xs)"
  by (induction xs) auto

lemma fold_res_Inr:
  "(\<And>x s. x \<in> set xs \<Longrightarrow> f x s = Inr (g x s)) \<Longrightarrow> fold_res f xs s = Inr (fold g xs s)"
  by (induction xs arbitrary: s) auto

lemma map_res_cong [fundef_cong]:
  "xs = ys \<Longrightarrow> (\<And>x. x \<in> set ys \<Longrightarrow> f x = g x) \<Longrightarrow> map_res f xs = map_res g ys"
  by (induction xs arbitrary: ys) auto

section \<open>Lock files\<close>

text \<open>
  What the operating system answers to the calls on a lock file: whether another process's file is
  there at the \<open>i\<close>-th exclusive \<open>open\<close>, and whether \<open>std::filesystem::remove\<close>, which throws when it
  cannot remove a file that is there, fails on a stale file and on the file of the lock that is held.
\<close>

record lock_io =
  lk_taken :: "nat \<Rightarrow> bool"
  lk_stale_stuck :: bool
  lk_remove_fails :: bool

abbreviation filesystem_error :: cpp_error where
  "filesystem_error \<equiv> RuntimeError ''filesystem_error''"

section \<open>Associative containers\<close>

text \<open>
  \<open>std::map\<close>: an association list kept in the order of its keys, so that iterating the
  list is iterating the container. \<open>map_put\<close> is \<open>m[k] = v\<close>, \<open>map_del\<close> is
  \<open>m.erase(k)\<close>, \<open>map_of\<close> is \<open>m.find(k)\<close>.
\<close>

fun map_put :: "'k::linorder \<Rightarrow> 'v \<Rightarrow> ('k \<times> 'v) list \<Rightarrow> ('k \<times> 'v) list" where
  "map_put k v [] = [(k, v)]"
| "map_put k v ((k', v') # m) =
     (if k < k' then (k, v) # (k', v') # m
      else if k = k' then (k, v) # m
      else (k', v') # map_put k v m)"

definition map_del :: "'k \<Rightarrow> ('k \<times> 'v) list \<Rightarrow> ('k \<times> 'v) list" where
  "map_del k m = filter (\<lambda>p. fst p \<noteq> k) m"

definition map_wf :: "('k::linorder \<times> 'v) list \<Rightarrow> bool" where
  "map_wf m \<longleftrightarrow> sorted_wrt (<) (map fst m)"

lemma map_of_map_del: "map_of (map_del k m) = (map_of m)(k := None)"
  by (induction m) (auto simp: map_del_def)

lemma set_map_put: "set (map_put k v m) \<subseteq> insert (k, v) (set m)"
  by (induction k v m rule: map_put.induct) auto

lemma keys_map_put: "fst ` set (map_put k v m) = insert k (fst ` set m)"
  by (induction k v m rule: map_put.induct) auto

lemma map_wf_put: "map_wf m \<Longrightarrow> map_wf (map_put k v m)"
proof (induction k v m rule: map_put.induct)
  case (2 k v k' v' m)
  have "\<forall>x \<in> set (map fst (map_put k v m)). x = k \<or> x \<in> fst ` set m"
    using keys_map_put [of k v m] by auto
  with 2 show ?case by (force simp: map_wf_def)
qed (simp add: map_wf_def)

lemma map_of_not_key:
  fixes k :: "'k::linorder"
  shows "\<forall>p \<in> set m. k < fst p \<Longrightarrow> map_of m k = None"
  by (induction m) auto

lemma map_of_map_put: "map_wf m \<Longrightarrow> map_of (map_put k v m) = (map_of m)(k \<mapsto> v)"
proof (induction k v m rule: map_put.induct)
  case (2 k v k' v' m)
  then show ?case
    by (auto simp: map_wf_def fun_eq_iff)
qed simp

lemma map_wf_del: "map_wf m \<Longrightarrow> map_wf (map_del k m)"
  by (induction m) (auto simp: map_wf_def map_del_def)

lemma map_wf_Nil [simp]: "map_wf []"
  by (simp add: map_wf_def)

lemma map_wf_distinct: "map_wf m \<Longrightarrow> distinct (map fst m)"
  by (auto simp: map_wf_def strict_sorted_iff)

text \<open>
  The interface the components use, whichever container holds the data: looking a key up
  after a write, and the invariant every write keeps.
\<close>

locale assoc =
  fixes get :: "'m \<Rightarrow> 'k \<Rightarrow> 'v option"
    and put :: "'k \<Rightarrow> 'v \<Rightarrow> 'm \<Rightarrow> 'm"
    and del :: "'k \<Rightarrow> 'm \<Rightarrow> 'm"
    and inv :: "'m \<Rightarrow> bool"
  assumes get_put: "inv m \<Longrightarrow> get (put k v m) = (get m)(k \<mapsto> v)"
    and get_del: "inv m \<Longrightarrow> get (del k m) = (get m)(k := None)"
    and inv_put: "inv m \<Longrightarrow> inv (put k v m)"
    and inv_del: "inv m \<Longrightarrow> inv (del k m)"
begin

lemma get_put_same: "inv m \<Longrightarrow> get (put k v m) k = Some v"
  by (simp add: get_put)

lemma get_put_other: "inv m \<Longrightarrow> k' \<noteq> k \<Longrightarrow> get (put k v m) k' = get m k'"
  by (simp add: get_put)

lemma get_del_same: "inv m \<Longrightarrow> get (del k m) k = None"
  by (simp add: get_del)

lemma get_del_other: "inv m \<Longrightarrow> k' \<noteq> k \<Longrightarrow> get (del k m) k' = get m k'"
  by (simp add: get_del)

lemma inv_fold_put: "inv m \<Longrightarrow> inv (fold (\<lambda>(k, v). put k v) kvs m)"
  by (induction kvs arbitrary: m) (auto simp: inv_put)

lemma inv_fold_del: "inv m \<Longrightarrow> inv (fold del ks m)"
  by (induction ks arbitrary: m) (auto simp: inv_del)

lemma get_fold_del: "inv m \<Longrightarrow> get (fold del ks m) k = (if k \<in> set ks then None else get m k)"
  by (induction ks arbitrary: m) (auto simp: inv_del get_del)

lemma dom_put: "inv m \<Longrightarrow> dom (get (put k v m)) = insert k (dom (get m))"
  by (simp add: get_put)

end

interpretation std_map: assoc map_of map_put map_del map_wf
  by unfold_locales (simp_all add: map_of_map_put map_of_map_del map_wf_put map_wf_del)

text \<open>
  \<open>std::unordered_map\<close>: an association list with distinct keys in some order. Nothing
  proved about it depends on that order, which the C++ standard leaves open.
\<close>

definition umap_wf :: "('k \<times> 'v) list \<Rightarrow> bool" where
  "umap_wf m \<longleftrightarrow> distinct (map fst m)"

lemma umap_wf_Nil [simp]: "umap_wf []"
  by (simp add: umap_wf_def)

lemma umap_wf_del: "umap_wf m \<Longrightarrow> umap_wf (map_del k m)"
  unfolding umap_wf_def map_del_def by (rule distinct_map_filter)

interpretation std_umap: assoc map_of AList.update map_del umap_wf
proof unfold_locales
  fix m :: "('a \<times> 'b) list" and k v
  assume "umap_wf m"
  then show "umap_wf (AList.update k v m)"
    by (simp add: umap_wf_def distinct_update)
qed (simp_all add: update_conv' map_of_map_del umap_wf_del)

lemmas container_laws [container_simps] =
  std_map.get_put std_map.get_del std_map.inv_put std_map.inv_del
  std_umap.get_put std_umap.get_del std_umap.inv_put std_umap.inv_del

section \<open>Sorting\<close>

text \<open>
  \<open>std::sort(first, last, lt)\<close> promises a permutation of its range in which no element
  is \<open>lt\<close> an earlier one; it does not promise the order of elements that compare equal.
  Code that sorts therefore takes the sorting function as a parameter, and lemmas about
  it hold for every function that meets this contract.
\<close>

locale std_sort =
  fixes lt :: "'a \<Rightarrow> 'a \<Rightarrow> bool"
    and srt :: "'a list \<Rightarrow> 'a list"
  assumes mset_srt: "mset (srt xs) = mset xs"
    and sorted_srt: "sorted_wrt (\<lambda>a b. \<not> lt b a) (srt xs)"
begin

lemma set_srt: "set (srt xs) = set xs"
  by (metis mset_srt set_mset_mset)

lemma length_srt: "length (srt xs) = length xs"
  by (metis mset_srt size_mset)

lemma distinct_map_srt: "distinct (map f (srt xs)) = distinct (map f xs)"
  by (metis mset_srt mset_map mset_eq_imp_distinct_iff)

lemma hd_srt_least:
  assumes "y \<in> set xs" and "\<not> lt (hd (srt xs)) (hd (srt xs))"
  shows "\<not> lt y (hd (srt xs))"
proof (cases "srt xs")
  case Nil
  with assms set_srt [of xs] show ?thesis by simp
next
  case (Cons z zs)
  with assms sorted_srt [of xs] set_srt [of xs] show ?thesis by auto
qed

end

text \<open>Insertion sort, which libstdc++ runs on ranges of at most 16 elements.\<close>

fun ins_by :: "('a \<Rightarrow> 'a \<Rightarrow> bool) \<Rightarrow> 'a \<Rightarrow> 'a list \<Rightarrow> 'a list" where
  "ins_by lt x [] = [x]"
| "ins_by lt x (y # ys) = (if lt y x then y # ins_by lt x ys else x # y # ys)"

definition ins_sort :: "('a \<Rightarrow> 'a \<Rightarrow> bool) \<Rightarrow> 'a list \<Rightarrow> 'a list" where
  "ins_sort lt xs = foldr (ins_by lt) xs []"

lemma ins_sort_simps [simp]:
  "ins_sort lt [] = []"
  "ins_sort lt (x # xs) = ins_by lt x (ins_sort lt xs)"
  by (simp_all add: ins_sort_def)

lemma mset_ins_by: "mset (ins_by lt x ys) = add_mset x (mset ys)"
  by (induction ys) auto

lemma mset_ins_sort: "mset (ins_sort lt xs) = mset xs"
  by (induction xs) (auto simp: mset_ins_by)

lemma set_ins_by: "set (ins_by lt x ys) = insert x (set ys)"
  by (induction ys) auto

lemma sorted_ins_by:
  fixes key :: "'a \<Rightarrow> 'b::linorder"
  shows "sorted_wrt (\<lambda>a b. key a \<le> key b) ys \<Longrightarrow>
    sorted_wrt (\<lambda>a b. key a \<le> key b) (ins_by (\<lambda>a b. key a < key b) x ys)"
  by (induction ys) (auto simp: set_ins_by not_less)

lemma sorted_ins_sort:
  fixes key :: "'a \<Rightarrow> 'b::linorder"
  shows "sorted_wrt (\<lambda>a b. key a \<le> key b) (ins_sort (\<lambda>a b. key a < key b) xs)"
  by (induction xs) (auto intro: sorted_ins_by)

lemma std_sort_ins_sort:
  fixes key :: "'a \<Rightarrow> 'b::linorder"
  shows "std_sort (\<lambda>a b. key a < key b) (ins_sort (\<lambda>a b. key a < key b))"
  by unfold_locales (simp_all add: mset_ins_sort not_less sorted_ins_sort)

end
