(* ===== verification/VotingMethods.thy ===== *)
theory VotingMethods
  imports Prelude
begin

text \<open>
  \<open>voting_method.hpp\<close>, \<open>voting_method.cpp\<close>: the enumeration of voting methods, its
  string form and the security level of each method. The two tables of the source are
  \<open>std::map\<close>s keyed by the enumeration, so they are iterated in enumeration order.
\<close>

datatype VotingMethod =
    Plurality | Approval | Weighted | Borda | Score | YesNo | YesNoAbstain | Supermajority
  | RankedChoice | TwoRound | STAR | STV | Quadratic | Consensus | ConsentBased

datatype SecurityLevel = FullyHomomorphic | MultiRound | Insecure

definition METHOD_TO_STRING :: "(VotingMethod \<times> string) list" where
  "METHOD_TO_STRING =
    [(Plurality, ''plurality''),
     (Approval, ''approval''),
     (Weighted, ''weighted''),
     (Borda, ''borda''),
     (Score, ''score''),
     (YesNo, ''yes-no''),
     (YesNoAbstain, ''yes-no-abstain''),
     (Supermajority, ''supermajority''),
     (RankedChoice, ''ranked-choice''),
     (TwoRound, ''two-round''),
     (STAR, ''star''),
     (STV, ''stv''),
     (Quadratic, ''quadratic''),
     (Consensus, ''consensus''),
     (ConsentBased, ''consent-based'')]"

definition METHOD_SECURITY :: "(VotingMethod \<times> SecurityLevel) list" where
  "METHOD_SECURITY =
    [(Plurality, FullyHomomorphic),
     (Approval, FullyHomomorphic),
     (Weighted, FullyHomomorphic),
     (Borda, FullyHomomorphic),
     (Score, FullyHomomorphic),
     (YesNo, FullyHomomorphic),
     (YesNoAbstain, FullyHomomorphic),
     (Supermajority, FullyHomomorphic),
     (RankedChoice, MultiRound),
     (TwoRound, MultiRound),
     (STAR, MultiRound),
     (STV, MultiRound),
     (Quadratic, Insecure),
     (Consensus, Insecure),
     (ConsentBased, Insecure)]"

definition votingMethodToString :: "VotingMethod \<Rightarrow> string res" where
  "votingMethodToString m =
     (case map_of METHOD_TO_STRING m of
        None \<Rightarrow> Inl (InvalidArgument ''Unknown voting method'')
      | Some s \<Rightarrow> Inr s)"

text \<open>The range-for over the table, returning the first method whose name matches.\<close>

fun find_method :: "(VotingMethod \<times> string) list \<Rightarrow> string \<Rightarrow> VotingMethod option" where
  "find_method [] str = None"
| "find_method ((m, name) # rest) str = (if name = str then Some m else find_method rest str)"

definition stringToVotingMethod :: "string \<Rightarrow> VotingMethod res" where
  "stringToVotingMethod str =
     (case find_method METHOD_TO_STRING str of
        Some m \<Rightarrow> Inr m
      | None \<Rightarrow> Inl (InvalidArgument (''Unknown voting method string: '' @ str)))"

definition getSecurityLevel :: "VotingMethod \<Rightarrow> SecurityLevel res" where
  "getSecurityLevel m =
     (case map_of METHOD_SECURITY m of
        None \<Rightarrow> Inl (InvalidArgument ''Unknown voting method'')
      | Some l \<Rightarrow> Inr l)"

lemma find_method_sound:
  "find_method tab str = Some m \<Longrightarrow> (m, str) \<in> set tab"
  by (induction tab str rule: find_method.induct) (auto split: if_splits)

lemma method_names_distinct: "distinct (map snd METHOD_TO_STRING)"
  by (simp add: METHOD_TO_STRING_def)

lemma find_method_complete:
  "distinct (map snd tab) \<Longrightarrow> (m, str) \<in> set tab \<Longrightarrow> find_method tab str = Some m"
  by (induction tab str rule: find_method.induct) (auto simp: image_iff)

lemma method_table_functional: "distinct (map fst METHOD_TO_STRING)"
  by (simp add: METHOD_TO_STRING_def)

lemma votingMethodToString_total: "\<exists>s. votingMethodToString m = Inr s"
  by (cases m) (simp_all add: votingMethodToString_def METHOD_TO_STRING_def)

lemma stringToVotingMethod_iff:
  "stringToVotingMethod str = Inr m \<longleftrightarrow> votingMethodToString m = Inr str"
proof -
  have "stringToVotingMethod str = Inr m \<longleftrightarrow> (m, str) \<in> set METHOD_TO_STRING"
    using find_method_complete [OF method_names_distinct]
    by (auto simp: stringToVotingMethod_def dest: find_method_sound split: option.splits)
  also have "\<dots> \<longleftrightarrow> map_of METHOD_TO_STRING m = Some str"
    by (simp add: method_table_functional)
  also have "\<dots> \<longleftrightarrow> votingMethodToString m = Inr str"
    by (auto simp: votingMethodToString_def split: option.splits)
  finally show ?thesis .
qed

lemma getSecurityLevel_cases:
  "getSecurityLevel m = Inr
     (if m \<in> {Quadratic, Consensus, ConsentBased} then Insecure
      else if m \<in> {RankedChoice, TwoRound, STAR, STV} then MultiRound
      else FullyHomomorphic)"
  by (cases m) (simp_all add: getSecurityLevel_def METHOD_SECURITY_def)

end
