(* ===== verification/Codec.thy ===== *)
theory Codec
  imports Prelude
begin

text \<open>
  The integer and text encodings that several classes define for themselves in the same
  form: lower-case hexadecimal of a byte vector (\<open>toHex\<close>, \<open>toKey\<close>), the shift-and-mask
  loops that write an integer in little- or big-endian order, and the shift-and-or loops
  that read it back.
\<close>

section \<open>Hexadecimal\<close>

definition hex_digit :: "nat \<Rightarrow> char" where
  "hex_digit d = ''0123456789abcdef'' ! d"

definition hex_byte :: "byte \<Rightarrow> string" where
  "hex_byte b = [hex_digit (unat b div 16), hex_digit (unat b mod 16)]"

definition toHex :: "bytes \<Rightarrow> string" where
  "toHex bs = concat (map hex_byte bs)"

definition hex_val :: "char \<Rightarrow> nat option" where
  "hex_val c =
     (let n = of_char c :: nat in
      if 48 \<le> n \<and> n \<le> 57 then Some (n - 48)
      else if 97 \<le> n \<and> n \<le> 102 then Some (n - 87)
      else if 65 \<le> n \<and> n \<le> 70 then Some (n - 55)
      else None)"

lemma less_16_cases:
  "(d::nat) < 16 \<Longrightarrow> d = 0 \<or> d = 1 \<or> d = 2 \<or> d = 3 \<or> d = 4 \<or> d = 5 \<or> d = 6 \<or> d = 7 \<or>
     d = 8 \<or> d = 9 \<or> d = 10 \<or> d = 11 \<or> d = 12 \<or> d = 13 \<or> d = 14 \<or> d = 15"
  by arith

lemma hex_val_digit [simp]: "d < 16 \<Longrightarrow> hex_val (hex_digit d) = Some d"
  by (drule less_16_cases) (auto simp: hex_val_def hex_digit_def)

lemma hex_digit_inj: "d < 16 \<Longrightarrow> e < 16 \<Longrightarrow> hex_digit d = hex_digit e \<longleftrightarrow> d = e"
  by (metis hex_val_digit option.inject)

lemma unat_byte_bound: "unat (b::byte) < 256"
  using unsigned_less [of b] by simp

lemma hex_byte_inj: "hex_byte b = hex_byte c \<longleftrightarrow> b = c"
proof
  assume "hex_byte b = hex_byte c"
  moreover have "unat b div 16 < 16" "unat c div 16 < 16"
    using unat_byte_bound [of b] unat_byte_bound [of c] by auto
  ultimately have "unat b div 16 = unat c div 16" "unat b mod 16 = unat c mod 16"
    by (simp_all add: hex_byte_def hex_digit_inj)
  then have "unat b = unat c" by (metis div_mult_mod_eq)
  then show "b = c" by (simp add: word_unat_eq_iff)
qed simp

lemma toHex_simps [simp]: "toHex [] = []" "toHex (b # bs) = hex_byte b @ toHex bs"
  by (simp_all add: toHex_def)

lemma length_hex_byte [simp]: "length (hex_byte b) = 2"
  by (simp add: hex_byte_def)

lemma length_toHex: "length (toHex bs) = 2 * length bs"
  by (induction bs) auto

lemma toHex_inj [codec_simps]: "toHex as = toHex bs \<longleftrightarrow> as = bs"
proof (induction "as" arbitrary: bs)
  case Nil
  then show ?case by (cases bs) (auto simp: hex_byte_def)
next
  case (Cons a as')
  show ?case
  proof (cases bs)
    case Nil
    then show ?thesis by (simp add: hex_byte_def)
  next
    case (Cons b bs')
    have "toHex (a # as') = toHex (b # bs') \<longleftrightarrow> hex_byte a = hex_byte b \<and> toHex as' = toHex bs'"
      by (simp add: append_eq_append_conv)
    then show ?thesis
      by (simp add: Cons Cons.IH hex_byte_inj)
  qed
qed

section \<open>Little- and big-endian integers\<close>

text \<open>Byte \<open>i\<close> of a word: \<open>static_cast<uint8_t>((w >> (i * 8)) & 0xFF)\<close>.\<close>

definition byte_of :: "'a::len word \<Rightarrow> nat \<Rightarrow> byte" where
  "byte_of w i = ucast (drop_bit (8 * i) w AND 0xFF)"

definition le_bytes :: "nat \<Rightarrow> 'a::len word \<Rightarrow> bytes" where
  "le_bytes n w = map (byte_of w) [0..<n]"

definition be_bytes :: "nat \<Rightarrow> 'a::len word \<Rightarrow> bytes" where
  "be_bytes n w = map (byte_of w) (rev [0..<n])"

fun le_word :: "bytes \<Rightarrow> 'a::len word" where
  "le_word [] = 0"
| "le_word (b # bs) = ucast b OR push_bit 8 (le_word bs)"

text \<open>\<open>acc = 0; for (...) acc = (acc << 8) | data[offset++];\<close>\<close>

definition be_word :: "bytes \<Rightarrow> 'a::len word" where
  "be_word bs = foldl (\<lambda>acc b. push_bit 8 acc OR ucast b) 0 bs"

lemma byte_of_take_bit: "byte_of w i = ucast (take_bit 8 (drop_bit (8 * i) w))"
  by (simp add: byte_of_def take_bit_eq_mask mask_eq_exp_minus_1)

lemma bit_byte_of: "bit (byte_of w i) k \<longleftrightarrow> k < 8 \<and> bit w (8 * i + k)"
  by (auto simp: byte_of_take_bit bit_simps dest: bit_imp_le_length)

lemma bit_le_word:
  "bit (le_word bs :: 'a::len word) k \<longleftrightarrow>
     k < LENGTH('a) \<and> k < 8 * length bs \<and> bit (bs ! (k div 8)) (k mod 8)"
proof (induction bs arbitrary: k)
  case (Cons b bs)
  show ?case
  proof (cases "k < 8")
    case True
    then show ?thesis by (auto simp: bit_simps)
  next
    case False
    then have "(k - 8) div 8 = k div 8 - 1" "(k - 8) mod 8 = k mod 8" "k div 8 \<noteq> 0"
      by (auto simp: le_div_geq le_mod_geq)
    moreover from this have "(b # bs) ! (k div 8) = bs ! (k div 8 - 1)"
      by (simp add: nth_Cons')
    moreover have "\<not> bit b k" using False bit_imp_le_length [of b k] by auto
    moreover have "k - 8 < 8 * length bs \<longleftrightarrow> k < 8 * length (b # bs)" using False by auto
    ultimately show ?thesis using False Cons.IH [of "k - 8"] by (auto simp: bit_simps)
  qed
qed simp

lemma length_le_bytes [simp]: "length (le_bytes n w) = n"
  by (simp add: le_bytes_def)

lemma length_be_bytes [simp]: "length (be_bytes n w) = n"
  by (simp add: be_bytes_def)

lemma le_word_le_bytes [codec_simps]:
  fixes w :: "'a::len word"
  assumes "LENGTH('a) \<le> 8 * n"
  shows "le_word (le_bytes n w) = w"
proof (rule bit_word_eqI)
  fix k assume k: "k < LENGTH('a)"
  with assms have "k div 8 < n" by auto
  with k assms show "bit (le_word (le_bytes n w) :: 'a word) k = bit w k"
    by (simp add: bit_le_word le_bytes_def bit_byte_of)
qed

lemma be_bytes_rev: "be_bytes n w = rev (le_bytes n w)"
  by (simp add: be_bytes_def le_bytes_def rev_map)

lemma be_word_rev: "be_word bs = le_word (rev bs)"
proof (induction bs rule: rev_induct)
  case (snoc b bs)
  then show ?case by (simp add: be_word_def or.commute)
qed (simp add: be_word_def)

lemma be_word_be_bytes [codec_simps]:
  fixes w :: "'a::len word"
  assumes "LENGTH('a) \<le> 8 * n"
  shows "be_word (be_bytes n w) = w"
  using assms by (simp add: be_word_rev be_bytes_rev le_word_le_bytes)

lemma le_bytes_inj:
  "LENGTH('a::len) \<le> 8 * n \<Longrightarrow> le_bytes n (w :: 'a word) = le_bytes n w' \<longleftrightarrow> w = w'"
  by (metis le_word_le_bytes)

lemma be_bytes_inj:
  "LENGTH('a::len) \<le> 8 * n \<Longrightarrow> be_bytes n (w :: 'a word) = be_bytes n w' \<longleftrightarrow> w = w'"
  by (metis be_word_be_bytes)

lemma byte_of_0 [simp]: "byte_of w 0 = ucast w"
  by (rule bit_word_eqI) (simp add: bit_byte_of bit_simps)

text \<open>Splitting off the low byte, the step of the variable-length encodings.\<close>

lemma word_low_byte:
  fixes w :: "'a::len word"
  assumes "8 \<le> LENGTH('a)"
  shows "ucast (ucast w :: byte) OR push_bit 8 (drop_bit 8 w) = w"
proof (rule bit_word_eqI)
  fix k assume "k < LENGTH('a)"
  then show "bit (ucast (ucast w :: byte) OR push_bit 8 (drop_bit 8 w)) k = bit w k"
    by (cases "k < 8") (auto simp: bit_simps)
qed

section \<open>Prefixes\<close>

lemma take_append_exact [simp]: "length xs = n \<Longrightarrow> take n (xs @ ys) = xs"
  by simp

lemma drop_append_exact [simp]: "length xs = n \<Longrightarrow> drop n (xs @ ys) = ys"
  by simp

section \<open>Fields at an offset\<close>

definition field_at :: "nat \<Rightarrow> nat \<Rightarrow> bytes \<Rightarrow> bytes" where
  "field_at offset n bs = take n (drop offset bs)"

lemma field_at_first: "length xs = n \<Longrightarrow> field_at 0 n (xs @ ys) = xs"
  by (simp add: field_at_def)

lemma field_at_skip: "length xs \<le> k \<Longrightarrow> field_at k n (xs @ ys) = field_at (k - length xs) n ys"
  by (simp add: field_at_def)

lemma field_at_Cons: "0 < k \<Longrightarrow> field_at k n (x # ys) = field_at (k - 1) n ys"
  by (cases k) (simp_all add: field_at_def)

lemmas field_at_simps = field_at_first field_at_skip field_at_Cons nth_append

lemma length_field_at: "k + n \<le> length bs \<Longrightarrow> length (field_at k n bs) = n"
  by (simp add: field_at_def)

end
