(* ===== verification/Polls.thy ===== *)
theory Polls
  imports VotingMethods Codec
begin

text \<open>
  \<open>poll.hpp\<close>, \<open>poll.cpp\<close>, \<open>poll_factory.cpp\<close>: a poll collects encrypted votes, hands out signed
  receipts and is closed once. The clock, the random nonce and the ECDSA operations of the
  authority's key are parameters: \<open>sign\<close> may throw (a member without a private key),
  so it returns a \<open>res\<close>. An operation that throws keeps the writes it made before the
  throw, so operations that change the poll return the result and the poll.
\<close>

type_synonym timestamp = "64 word"

record member =
  m_idBytes :: bytes
  m_votingPublicKey :: bool
  m_votingPrivateKey :: bool

definition hasVotingKeys :: "member \<Rightarrow> bool" where
  "hasVotingKeys m \<longleftrightarrow> m_votingPublicKey m"

definition hasVotingPrivateKey :: "member \<Rightarrow> bool" where
  "hasVotingPrivateKey m \<longleftrightarrow> m_votingPrivateKey m"

record EncryptedVote =
  v_choiceIndex :: "int option"
  v_choices :: "int list option"
  v_rankings :: "int list option"
  v_weight :: "bytes option"
  v_score :: "int option"
  v_encrypted :: "bytes list"

definition empty_vote :: EncryptedVote where
  "empty_vote = \<lparr>v_choiceIndex = None, v_choices = None, v_rankings = None, v_weight = None,
                 v_score = None, v_encrypted = []\<rparr>"

record VoteReceipt =
  r_voterId :: bytes
  r_pollId :: bytes
  r_timestamp :: timestamp
  r_signature :: bytes
  r_nonce :: bytes

record Poll =
  p_id :: bytes
  p_choices :: "string list"
  p_method :: VotingMethod
  p_authority :: member
  p_votes :: "(string \<times> bytes list) list"
  p_receipts :: "(string \<times> VoteReceipt) list"
  p_createdAt :: timestamp
  p_closedAt :: "timestamp option"
  p_maxWeight :: "bytes option"

section \<open>Operations\<close>

definition insecure_message :: string where
  "insecure_message = ''Voting method is not cryptographically secure with Paillier. ''
     @ ''Set allowInsecure: true to use anyway (NOT RECOMMENDED).''"

text \<open>The constructor; \<open>createdAt_\<close> is the clock's reading \<open>now\<close>.\<close>

definition mkPoll ::
  "timestamp \<Rightarrow> bytes \<Rightarrow> string list \<Rightarrow> VotingMethod \<Rightarrow> member \<Rightarrow> bytes option \<Rightarrow> bool \<Rightarrow> Poll res" where
  "mkPoll now pollId choices method authority maxWeight allowInsecure =
     (if length choices < 2 then Inl (InvalidArgument ''Poll requires at least 2 choices'')
      else if \<not> hasVotingKeys authority
        then Inl (InvalidArgument ''Authority must have voting keys'')
      else bind_res (getSecurityLevel method) (\<lambda>level.
        if level = Insecure \<and> \<not> allowInsecure then Inl (InvalidArgument insecure_message)
        else Inr \<lparr>p_id = pollId, p_choices = choices, p_method = method, p_authority = authority,
                  p_votes = [], p_receipts = [], p_createdAt = now, p_closedAt = None,
                  p_maxWeight = maxWeight\<rparr>))"

definition isClosed :: "Poll \<Rightarrow> bool" where
  "isClosed p \<longleftrightarrow> p_closedAt p \<noteq> None"

definition voterCount :: "Poll \<Rightarrow> nat" where
  "voterCount p = length (p_receipts p)"

definition getEncryptedVotes :: "Poll \<Rightarrow> (string \<times> bytes list) list" where
  "getEncryptedVotes p = p_votes p"

definition toKey :: "bytes \<Rightarrow> string" where
  "toKey bs = toHex bs"

text \<open>
  This file's \<open>compareBigintBytes\<close>: the shorter vector first, then the first differing
  byte decides (not the comparison of the tallier, which decodes little-endian).
\<close>

fun bytes_less :: "bytes \<Rightarrow> bytes \<Rightarrow> bool" where
  "bytes_less (a # as) (b # bs) = (if a \<noteq> b then a < b else bytes_less as bs)"
| "bytes_less _ _ = False"

definition weight_less :: "bytes \<Rightarrow> bytes \<Rightarrow> bool" where
  "weight_less a b =
     (if length a \<noteq> length b then length a < length b else bytes_less a b)"

definition valid_choice :: "Poll \<Rightarrow> int \<Rightarrow> bool" where
  "valid_choice p c \<longleftrightarrow> \<not> (c < 0 \<or> int (length (p_choices p)) \<le> c)"

fun check_choices :: "Poll \<Rightarrow> int list \<Rightarrow> unit res" where
  "check_choices p [] = Inr ()"
| "check_choices p (c # cs) =
     (if \<not> valid_choice p c then Inl (InvalidArgument ''Invalid choice'') else check_choices p cs)"

text \<open>The ranking loop with its set of choices already \<open>seen\<close>.\<close>

fun check_rankings :: "Poll \<Rightarrow> int set \<Rightarrow> int list \<Rightarrow> unit res" where
  "check_rankings p seen [] = Inr ()"
| "check_rankings p seen (r # rs) =
     (if \<not> valid_choice p r then Inl (InvalidArgument ''Invalid choice'')
      else if r \<in> seen then Inl (InvalidArgument ''Duplicate ranking'')
      else check_rankings p (insert r seen) rs)"

definition validate_method :: "Poll \<Rightarrow> EncryptedVote \<Rightarrow> unit res" where
  "validate_method p v =
     (case p_method p of
        Plurality \<Rightarrow>
          (case v_choiceIndex v of
             None \<Rightarrow> Inl (InvalidArgument ''Choice required'')
           | Some c \<Rightarrow> if \<not> valid_choice p c then Inl (InvalidArgument ''Invalid choice'') else Inr ())
      | Approval \<Rightarrow>
          (case v_choices v of
             None \<Rightarrow> Inl (InvalidArgument ''Choices required'')
           | Some cs \<Rightarrow> if cs = [] then Inl (InvalidArgument ''Choices required'') else check_choices p cs)
      | Weighted \<Rightarrow>
          (if v_choiceIndex v = None then Inl (InvalidArgument ''Choice required'')
           else case v_weight v of
             None \<Rightarrow> Inl (InvalidArgument ''Weight must be positive'')
           | Some w \<Rightarrow>
               if w = [] then Inl (InvalidArgument ''Weight must be positive'')
               else (case p_maxWeight p of
                       None \<Rightarrow> Inr ()
                     | Some mw \<Rightarrow> if weight_less mw w
                                then Inl (InvalidArgument ''Weight exceeds maximum'') else Inr ()))
      | _ \<Rightarrow>
          (if p_method p = Borda \<or> p_method p = RankedChoice then
             (case v_rankings v of
                None \<Rightarrow> Inl (InvalidArgument ''Rankings required'')
              | Some rs \<Rightarrow> if rs = [] then Inl (InvalidArgument ''Rankings required'')
                          else check_rankings p {} rs)
           else Inr ()))"

definition validateVote :: "Poll \<Rightarrow> EncryptedVote \<Rightarrow> unit res" where
  "validateVote p v =
     bind_res (validate_method p v) (\<lambda>_.
       if v_encrypted v = [] then Inl (InvalidArgument ''Encrypted data required'') else Inr ())"

definition receiptData :: "VoteReceipt \<Rightarrow> bytes" where
  "receiptData r = r_voterId r @ r_pollId r @ le_bytes 8 (r_timestamp r) @ r_nonce r"

definition generateReceipt ::
  "(bytes \<Rightarrow> bytes res) \<Rightarrow> timestamp \<Rightarrow> bytes \<Rightarrow> member \<Rightarrow> Poll \<Rightarrow> VoteReceipt res" where
  "generateReceipt sign now nonce voter p =
     (let receipt = \<lparr>r_voterId = m_idBytes voter, r_pollId = p_id p, r_timestamp = now,
                     r_signature = [], r_nonce = nonce\<rparr>
      in bind_res (sign (receiptData receipt)) (\<lambda>s. Inr (receipt\<lparr>r_signature := s\<rparr>)))"

definition vote ::
  "(bytes \<Rightarrow> bytes res) \<Rightarrow> timestamp \<Rightarrow> bytes \<Rightarrow> member \<Rightarrow> EncryptedVote \<Rightarrow> Poll \<Rightarrow> VoteReceipt res \<times> Poll" where
  "vote sign now nonce voter v p =
     (if isClosed p then (Inl (RuntimeError ''Poll is closed''), p)
      else let voterId = toKey (m_idBytes voter) in
        if map_of (p_receipts p) voterId \<noteq> None then (Inl (RuntimeError ''Already voted''), p)
        else case validateVote p v of
          Inl e \<Rightarrow> (Inl e, p)
        | Inr _ \<Rightarrow>
            let p1 = p\<lparr>p_votes := map_put voterId (v_encrypted v) (p_votes p)\<rparr> in
            (case generateReceipt sign now nonce voter p1 of
               Inl e \<Rightarrow> (Inl e, p1)
             | Inr receipt \<Rightarrow>
                 (Inr receipt, p1\<lparr>p_receipts := map_put voterId receipt (p_receipts p1)\<rparr>)))"

definition verifyReceipt :: "(bytes \<Rightarrow> bytes \<Rightarrow> bool) \<Rightarrow> Poll \<Rightarrow> member \<Rightarrow> VoteReceipt \<Rightarrow> bool" where
  "verifyReceipt verify p voter receipt =
     (case map_of (p_receipts p) (toKey (m_idBytes voter)) of
        None \<Rightarrow> False
      | Some _ \<Rightarrow> verify (receiptData receipt) (r_signature receipt))"

definition close :: "timestamp \<Rightarrow> Poll \<Rightarrow> unit res \<times> Poll" where
  "close now p =
     (if isClosed p then (Inl (RuntimeError ''Already closed''), p)
      else (Inr (), p\<lparr>p_closedAt := Some now\<rparr>))"

definition hashVoterId :: "bytes \<Rightarrow> bytes" where
  "hashVoterId voterId = map (\<lambda>i. if i < length voterId then voterId ! i else 0) [0..<32]"

section \<open>The poll factory\<close>

definition factory_create ::
  "timestamp \<Rightarrow> bytes \<Rightarrow> string list \<Rightarrow> VotingMethod \<Rightarrow> member \<Rightarrow> bytes option \<Rightarrow> Poll res" where
  "factory_create now pollId choices method authority maxWeight =
     (if \<not> hasVotingKeys authority
        then Inl (InvalidArgument ''Authority must have voting public key'')
      else mkPoll now pollId choices method authority maxWeight False)"

definition createPlurality :: "timestamp \<Rightarrow> bytes \<Rightarrow> string list \<Rightarrow> member \<Rightarrow> Poll res" where
  "createPlurality now pollId choices authority =
     factory_create now pollId choices Plurality authority None"

definition createApproval :: "timestamp \<Rightarrow> bytes \<Rightarrow> string list \<Rightarrow> member \<Rightarrow> Poll res" where
  "createApproval now pollId choices authority =
     factory_create now pollId choices Approval authority None"

definition createWeighted :: "timestamp \<Rightarrow> bytes \<Rightarrow> string list \<Rightarrow> member \<Rightarrow> bytes \<Rightarrow> Poll res" where
  "createWeighted now pollId choices authority maxWeight =
     factory_create now pollId choices Weighted authority (Some maxWeight)"

definition createBorda :: "timestamp \<Rightarrow> bytes \<Rightarrow> string list \<Rightarrow> member \<Rightarrow> Poll res" where
  "createBorda now pollId choices authority =
     factory_create now pollId choices Borda authority None"

definition createRankedChoice :: "timestamp \<Rightarrow> bytes \<Rightarrow> string list \<Rightarrow> member \<Rightarrow> Poll res" where
  "createRankedChoice now pollId choices authority =
     factory_create now pollId choices RankedChoice authority None"

definition createSTAR :: "timestamp \<Rightarrow> bytes \<Rightarrow> string list \<Rightarrow> member \<Rightarrow> int \<Rightarrow> Poll res" where
  "createSTAR now pollId choices authority maxScore =
     factory_create now pollId choices STAR authority None"

definition createQuadratic :: "timestamp \<Rightarrow> bytes \<Rightarrow> string list \<Rightarrow> member \<Rightarrow> bytes \<Rightarrow> Poll res" where
  "createQuadratic now pollId choices authority maxCredits =
     factory_create now pollId choices Quadratic authority (Some maxCredits)"

section \<open>Steps and reachable polls\<close>

text \<open>
  The operations that change a poll, in any order, with any clock, nonce and signing
  outcome; an operation that throws is a step too.
\<close>

inductive poll_step :: "Poll \<Rightarrow> Poll \<Rightarrow> bool" where
  vote_step: "poll_step p (snd (vote sign now nonce voter v p))"
| close_step: "poll_step p (snd (close now p))"

inductive poll_reach :: "Poll \<Rightarrow> Poll \<Rightarrow> bool" where
  refl: "poll_reach p p"
| step: "poll_reach p q \<Longrightarrow> poll_step q r \<Longrightarrow> poll_reach p r"

inductive_cases poll_stepE: "poll_step p q"

definition poll_ok :: "Poll \<Rightarrow> bool" where
  "poll_ok p \<longleftrightarrow>
     map_wf (p_votes p) \<and> map_wf (p_receipts p) \<and>
     dom (map_of (p_receipts p)) \<subseteq> dom (map_of (p_votes p)) \<and>
     (\<forall>k r. map_of (p_receipts p) k = Some r \<longrightarrow>
        k = toKey (r_voterId r) \<and> r_pollId r = p_id p)"

lemma toKey_inj: "toKey a = toKey b \<longleftrightarrow> a = b"
  by (simp add: toKey_def codec_simps)

lemma generateReceipt_Inr:
  "generateReceipt sign now nonce voter p = Inr r \<Longrightarrow>
     r_voterId r = m_idBytes voter \<and> r_pollId r = p_id p \<and> r_timestamp r = now \<and>
     r_nonce r = nonce \<and> sign (receiptData r) = Inr (r_signature r)"
  by (auto simp: generateReceipt_def Let_def bind_res_Inr_iff receiptData_def)

text \<open>What each outcome of a vote means for the poll.\<close>

lemma vote_Inr:
  assumes "vote sign now nonce voter v p = (Inr r, q)"
  shows "\<not> isClosed p \<and> map_of (p_receipts p) (toKey (m_idBytes voter)) = None \<and>
     validateVote p v = Inr () \<and>
     q = p\<lparr>p_votes := map_put (toKey (m_idBytes voter)) (v_encrypted v) (p_votes p),
          p_receipts := map_put (toKey (m_idBytes voter)) r (p_receipts p)\<rparr> \<and>
     r_voterId r = m_idBytes voter \<and> r_pollId r = p_id p \<and>
     sign (receiptData r) = Inr (r_signature r)"
  using assms
  by (auto simp: vote_def Let_def dest!: generateReceipt_Inr split: if_splits sum.splits)

lemma vote_state:
  "snd (vote sign now nonce voter v p) = p \<or>
   (\<not> isClosed p \<and> map_of (p_receipts p) (toKey (m_idBytes voter)) = None \<and>
    snd (vote sign now nonce voter v p) =
      p\<lparr>p_votes := map_put (toKey (m_idBytes voter)) (v_encrypted v) (p_votes p)\<rparr>) \<or>
   (\<exists>r. vote sign now nonce voter v p = (Inr r, snd (vote sign now nonce voter v p)))"
  by (auto simp: vote_def Let_def split: sum.splits)

lemma vote_cases [consumes 0, case_names same unsigned signed]:
  fixes sign now nonce voter v p
  defines "k \<equiv> toKey (m_idBytes voter)"
  obtains "snd (vote sign now nonce voter v p) = p"
  | "\<not> isClosed p" "map_of (p_receipts p) k = None"
    "snd (vote sign now nonce voter v p) = p\<lparr>p_votes := map_put k (v_encrypted v) (p_votes p)\<rparr>"
  | r where "\<not> isClosed p" "map_of (p_receipts p) k = None" "r_voterId r = m_idBytes voter"
    "r_pollId r = p_id p"
    "snd (vote sign now nonce voter v p) =
       p\<lparr>p_votes := map_put k (v_encrypted v) (p_votes p),
         p_receipts := map_put k r (p_receipts p)\<rparr>"
proof -
  consider (1) "snd (vote sign now nonce voter v p) = p"
    | (2) "\<not> isClosed p \<and> map_of (p_receipts p) k = None \<and>
        snd (vote sign now nonce voter v p) = p\<lparr>p_votes := map_put k (v_encrypted v) (p_votes p)\<rparr>"
    | (3) r where "vote sign now nonce voter v p = (Inr r, snd (vote sign now nonce voter v p))"
    using vote_state [of sign now nonce voter v p] unfolding k_def by auto
  then show thesis
  proof cases
    case (3 r)
    from vote_Inr [OF 3] show thesis by (intro that(3) [of r]) (auto simp: k_def)
  qed (use that in auto)
qed

lemma mkPoll_ok: "mkPoll now pollId choices method authority mw insec = Inr p \<Longrightarrow> poll_ok p"
  by (auto simp: mkPoll_def poll_ok_def bind_res_Inr_iff split: if_splits)

lemma vote_ok: "poll_ok p \<Longrightarrow> poll_ok (snd (vote sign now nonce voter v p))"
  by (rule vote_cases [of sign now nonce voter v p])
    (auto simp: poll_ok_def container_simps split: if_splits)

lemma close_ok: "poll_ok p \<Longrightarrow> poll_ok (snd (close now p))"
  by (auto simp: close_def poll_ok_def)

lemma poll_step_ok: "poll_step p q \<Longrightarrow> poll_ok p \<Longrightarrow> poll_ok q"
  by (auto elim!: poll_stepE intro: vote_ok close_ok)

lemma poll_reach_ok: "poll_reach p q \<Longrightarrow> poll_ok p \<Longrightarrow> poll_ok q"
  by (induction rule: poll_reach.induct) (auto intro: poll_step_ok)

lemma vote_closed: "isClosed p \<Longrightarrow> snd (vote sign now nonce voter v p) = p"
  by (simp add: vote_def)

lemma close_closed: "isClosed p \<Longrightarrow> snd (close now p) = p"
  by (simp add: close_def)

lemma poll_step_frame:
  "poll_step p q \<Longrightarrow> p_id q = p_id p \<and> p_choices q = p_choices p \<and> p_method q = p_method p \<and>
     p_authority q = p_authority p \<and> p_maxWeight q = p_maxWeight p"
  by (erule poll_stepE)
    (auto simp: vote_def close_def Let_def split: if_splits sum.splits)

text \<open>A step never changes the ballot or the receipt of a voter who holds a receipt.\<close>

lemma poll_step_keeps:
  assumes "poll_step p q" and "poll_ok p" and "map_of (p_receipts p) k = Some r"
  shows "map_of (p_receipts q) k = Some r \<and> map_of (p_votes q) k = map_of (p_votes p) k"
  using assms(1)
proof cases
  case (vote_step sign now nonce voter v)
  show ?thesis
    using assms(2,3) unfolding vote_step
    by (cases rule: vote_cases [of sign now nonce voter v p])
      (auto simp: poll_ok_def container_simps)
next
  case (close_step now)
  then show ?thesis using assms(3) by (auto simp: close_def)
qed

lemma poll_reach_keeps:
  "poll_reach p q \<Longrightarrow> poll_ok p \<Longrightarrow> map_of (p_receipts p) k = Some r \<Longrightarrow>
     map_of (p_receipts q) k = Some r \<and> map_of (p_votes q) k = map_of (p_votes p) k"
proof (induction rule: poll_reach.induct)
  case (step p q s)
  then have "poll_ok q" by (blast intro: poll_reach_ok)
  with step show ?case using poll_step_keeps [of q s k r] by metis
qed simp

lemma poll_step_closed: "poll_step p q \<Longrightarrow> isClosed p \<Longrightarrow> q = p"
  by (auto elim!: poll_stepE simp: vote_closed close_closed)

lemma poll_reach_closed: "poll_reach p q \<Longrightarrow> isClosed p \<Longrightarrow> q = p"
  by (induction rule: poll_reach.induct) (auto dest: poll_step_closed)

section \<open>Validation\<close>

lemma check_choices_Inr: "check_choices p cs = Inr () \<longleftrightarrow> list_all (valid_choice p) cs"
  by (induction cs) auto

lemma check_rankings_Inr:
  "check_rankings p seen rs = Inr () \<longleftrightarrow>
     list_all (valid_choice p) rs \<and> distinct rs \<and> set rs \<inter> seen = {}"
  by (induction rs arbitrary: seen) auto

lemmas validate_simps = validateVote_def validate_method_def check_choices_Inr check_rankings_Inr
  bind_res_Inr_iff

lemma receiptData_timestamp:
  "length (r_voterId r) = length (r_voterId r') \<Longrightarrow> length (r_pollId r) = length (r_pollId r') \<Longrightarrow>
   receiptData r = receiptData r' \<Longrightarrow>
   r_voterId r = r_voterId r' \<and> r_pollId r = r_pollId r' \<and> r_timestamp r = r_timestamp r' \<and>
   r_nonce r = r_nonce r'"
  by (simp add: receiptData_def le_bytes_inj)

end
