(* ===== verification/BigintBytes.thy ===== *)
theory BigintBytes
  imports Codec
begin

text \<open>
  The "bigint as bytes" helpers of \<open>poll_tallier.cpp\<close> and \<open>vote_encoder.cpp\<close>: signed
  64-bit integers written as a sign-and-magnitude little-endian byte vector
  (\<open>intToBytes\<close>), read back as a 64-bit word (\<open>bytesToInt\<close>), and the addition and
  comparison the tallies use. An \<open>int64_t\<close> is a \<open>64 word\<close> read with \<open>sint\<close>; a sum or a square that
  leaves its range, which C++ leaves undefined, wraps around here, and the theorems about counts
  are about those that stay in it.
\<close>

type_synonym int64 = "64 word"

text \<open>\<open>result |= static_cast<int64_t>(bytes[i]) << (i * 8)\<close>, for the first 8 bytes.\<close>

definition bytesToInt :: "bytes \<Rightarrow> int64" where
  "bytesToInt bs =
     (if bs = [] then 0
      else foldl (\<lambda>result i. result OR push_bit (8 * i) (ucast (bs ! i))) 0 [0..<min (length bs) 8])"

text \<open>\<open>while (absValue > 0) { push_back(absValue & 0xFF); absValue >>= 8; }\<close>\<close>

function magnitude_bytes :: "int64 \<Rightarrow> bytes" where
  "magnitude_bytes a =
     (if a = 0 then [] else ucast (a AND 0xFF) # magnitude_bytes (drop_bit 8 a))"
  by pat_completeness auto

lemma unat_drop_8: "unat (drop_bit 8 (a :: int64)) = unat a div 256"
proof -
  have "unat (drop_bit 8 a) = drop_bit 8 (take_bit LENGTH(64) (unat a))"
    by (rule unsigned_drop_bit_eq)
  also have "take_bit LENGTH(64) (unat a) = unat a"
    by (rule take_bit_nat_eq_self) (rule unsigned_less)
  also have "drop_bit 8 (unat a) = unat a div 256"
    by (simp add: drop_bit_eq_div)
  finally show ?thesis .
qed

termination magnitude_bytes
proof (relation "measure unat")
  fix a :: int64 assume "a \<noteq> 0"
  then have "unat a \<noteq> 0" by (simp add: unat_eq_0)
  then show "(drop_bit 8 a, a) \<in> measure unat"
    by (simp only: in_measure unat_drop_8)
qed (rule wf_measure)

declare magnitude_bytes.simps [simp del]

definition intToBytes :: "int64 \<Rightarrow> bytes" where
  "intToBytes value =
     (if value = 0 then [0]
      else let negative = sint value < 0;
               absValue = (if negative then - value else value)
           in magnitude_bytes absValue @ (if negative then [0xFF] else []))"

definition addBigintBytes :: "bytes \<Rightarrow> bytes \<Rightarrow> bytes" where
  "addBigintBytes a b = intToBytes (bytesToInt a + bytesToInt b)"

definition compareBigintBytes :: "bytes \<Rightarrow> bytes \<Rightarrow> bool" where
  "compareBigintBytes a b \<longleftrightarrow> sint (bytesToInt a) < sint (bytesToInt b)"

text \<open>The signed value a byte vector stands for, which the tallies compare and add.\<close>

definition big_val :: "bytes \<Rightarrow> int" where
  "big_val bs = sint (bytesToInt bs)"

section \<open>Reading back what was written\<close>

lemma foldl_or_le_word:
  "n \<le> length bs \<Longrightarrow>
     foldl (\<lambda>r i. r OR push_bit (8 * i) (ucast (bs ! i))) 0 [0..<n] = (le_word (take n bs) :: int64)"
proof (induction n)
  case (Suc n)
  have "bit (le_word (take n bs) OR push_bit (8 * n) (ucast (bs ! n)) :: int64) k =
        bit (le_word (take (Suc n) bs) :: int64) k" if "k < 64" for k
  proof (cases "k div 8 = n")
    case True
    then have "8 * n \<le> k" "k - 8 * n = k mod 8" "k < 8 * Suc n"
      by (auto simp: minus_mult_div_eq_mod [symmetric])
    with True Suc.prems that show ?thesis by (auto simp: bit_simps bit_le_word)
  next
    case False
    have "\<not> bit (bs ! n) (k - 8 * n)" if "8 * n \<le> k"
      using that False by (auto dest!: bit_imp_le_length)
    with False Suc.prems \<open>k < 64\<close> show ?thesis
      by (auto simp: bit_simps bit_le_word less_Suc_eq)
  qed
  then have "(le_word (take n bs) OR push_bit (8 * n) (ucast (bs ! n)) :: int64) =
             le_word (take (Suc n) bs)"
    by (intro bit_word_eqI) simp
  with Suc show ?case by simp
qed simp

lemma bytesToInt_le_word: "bytesToInt bs = le_word (take 8 bs)"
  by (auto simp: bytesToInt_def foldl_or_le_word min_def)

lemma le_word_magnitude: "le_word (magnitude_bytes a) = a"
proof (induction a rule: magnitude_bytes.induct)
  case (1 a)
  have "ucast (a AND 0xFF) = (ucast a :: byte)"
    using byte_of_0 [of a] by (simp add: byte_of_def)
  with 1 show ?case
    using word_low_byte [of a] by (subst magnitude_bytes.simps) auto
qed

lemma length_magnitude:
  "unat a < 256 ^ n \<Longrightarrow> length (magnitude_bytes a) \<le> n"
proof (induction n arbitrary: a)
  case 0
  then show ?case by (simp add: word_unat_eq_iff magnitude_bytes.simps)
next
  case (Suc n)
  then have "unat (drop_bit 8 a) < 256 ^ n"
    by (simp add: unat_drop_8 less_mult_imp_div_less mult.commute)
  with Suc.IH [of "drop_bit 8 a"] show ?case
    by (subst magnitude_bytes.simps) simp
qed

lemma length_magnitude_8: "length (magnitude_bytes a) \<le> 8"
  using unsigned_less [of a] by (intro length_magnitude) simp

lemma bytesToInt_intToBytes:
  "0 \<le> sint v \<Longrightarrow> bytesToInt (intToBytes v) = v"
  by (auto simp: bytesToInt_le_word intToBytes_def Let_def le_word_magnitude length_magnitude_8)

lemma big_val_intToBytes:
  "0 \<le> i \<Longrightarrow> i < 2 ^ 63 \<Longrightarrow> big_val (intToBytes (word_of_int i)) = i"
proof -
  assume "0 \<le> i" "i < 2 ^ 63"
  then have "sint (word_of_int i :: int64) = i"
    by (simp add: signed_of_int signed_take_bit_int_eq_self)
  with \<open>0 \<le> i\<close> show ?thesis by (simp add: big_val_def bytesToInt_intToBytes)
qed

lemma big_val_intToBytes_0 [simp]: "big_val (intToBytes 0) = 0"
  by (simp add: big_val_def bytesToInt_intToBytes)

lemma big_val_intToBytes_1 [simp]: "big_val (intToBytes 1) = 1"
  by (simp add: big_val_def bytesToInt_intToBytes)

lemma big_val_add:
  assumes "0 \<le> big_val a + big_val b" and "big_val a + big_val b < 2 ^ 63"
  shows "big_val (addBigintBytes a b) = big_val a + big_val b"
proof -
  have "addBigintBytes a b = intToBytes (word_of_int (big_val a + big_val b))"
    by (simp add: addBigintBytes_def big_val_def)
  then show ?thesis using big_val_intToBytes [OF assms] by (simp only:)
qed

lemma compareBigintBytes_iff: "compareBigintBytes a b \<longleftrightarrow> big_val a < big_val b"
  by (simp add: compareBigintBytes_def big_val_def)

lemma compareBigintBytes_fun: "compareBigintBytes = (\<lambda>a b. big_val a < big_val b)"
  by (simp add: fun_eq_iff compareBigintBytes_iff)

end
