(* ===== verification/Tallying.thy ===== *)
theory Tallying
  imports Polls BigintBytes
begin

text \<open>
  \<open>poll_tallier.cpp\<close>: the counting of a closed poll, one operation per voting method.
  \<open>dec\<close> is the \<open>decrypt\<close> of the tallier's Paillier private key. Reading a ballot at a
  choice it has no ciphertext for is an out-of-range \<open>operator[]\<close>. \<open>srt\<close> and
  \<open>srt_rank\<close> are the \<open>std::sort\<close> calls of the file (the interface \<open>std_sort\<close>).
  Choice indices are naturals; \<open>winner\<close> is an \<open>int\<close> because the code starts it at -1.
\<close>

type_synonym ballots = "(string \<times> bytes list) list"

record RoundResult =
  rr_round :: nat
  rr_tallies :: "bytes list"
  rr_eliminated :: "nat option"
  rr_winner :: "int option"

record PollResults =
  pr_method :: VotingMethod
  pr_choices :: "string list"
  pr_winner :: "int option"
  pr_winners :: "nat list option"
  pr_eliminated :: "nat list option"
  pr_rounds :: "RoundResult list option"
  pr_tallies :: "bytes list"
  pr_voterCount :: nat

text \<open>The fields every tally fills from the poll, with the optional ones unset.\<close>

definition base_results :: "Poll \<Rightarrow> VotingMethod \<Rightarrow> bytes list \<Rightarrow> PollResults" where
  "base_results poll method tallies =
     \<lparr>pr_method = method, pr_choices = p_choices poll, pr_winner = None, pr_winners = None,
      pr_eliminated = None, pr_rounds = None, pr_tallies = tallies,
      pr_voterCount = voterCount poll\<rparr>"

section \<open>Summing ballots\<close>

text \<open>The inner loop over the choices of one ballot; \<open>upd\<close> is the body's update of a tally.\<close>

definition add_ballot ::
  "(bytes \<Rightarrow> bytes) \<Rightarrow> (bytes \<Rightarrow> bytes \<Rightarrow> bytes) \<Rightarrow> nat \<Rightarrow> bytes list \<Rightarrow> bytes list \<Rightarrow> bytes list res" where
  "add_ballot dec upd choiceCount encrypted tallies =
     fold_res (\<lambda>i ts. bind_res (vec_get encrypted i) (\<lambda>c. Inr (ts[i := upd (ts ! i) (dec c)])))
       [0..<choiceCount] tallies"

definition sum_ballots ::
  "(bytes \<Rightarrow> bytes) \<Rightarrow> (bytes \<Rightarrow> bytes \<Rightarrow> bytes) \<Rightarrow> nat \<Rightarrow> ballots \<Rightarrow> bytes list res" where
  "sum_ballots dec upd choiceCount votes =
     fold_res (\<lambda>(_, encrypted). add_ballot dec upd choiceCount encrypted) votes
       (replicate choiceCount (intToBytes 0))"

text \<open>\<open>maxVotes = tallies[0]; for (tally : tallies) if (compare(maxVotes, tally)) maxVotes = tally;\<close>\<close>

definition max_tally :: "bytes list \<Rightarrow> bytes res" where
  "max_tally tallies =
     bind_res (vec_get tallies 0) (\<lambda>t0.
       Inr (foldl (\<lambda>m t. if compareBigintBytes m t then t else m) t0 tallies))"

definition same_votes :: "bytes \<Rightarrow> bytes \<Rightarrow> bool" where
  "same_votes a b \<longleftrightarrow> \<not> compareBigintBytes a b \<and> \<not> compareBigintBytes b a"

definition top_choices :: "nat \<Rightarrow> bytes list \<Rightarrow> bytes \<Rightarrow> nat list" where
  "top_choices choiceCount tallies maxVotes =
     filter (\<lambda>i. same_votes (tallies ! i) maxVotes) [0..<choiceCount]"

text \<open>One winner is stored as \<open>winner\<close>, several as \<open>winners\<close>, none as neither.\<close>

definition set_winners :: "nat list \<Rightarrow> PollResults \<Rightarrow> PollResults" where
  "set_winners winners results =
     (if length winners = 1 then results\<lparr>pr_winner := Some (int (winners ! 0))\<rparr>
      else if winners \<noteq> [] then results\<lparr>pr_winners := Some winners\<rparr>
      else results)"

definition plurality_results :: "Poll \<Rightarrow> VotingMethod \<Rightarrow> nat \<Rightarrow> bytes list \<Rightarrow> PollResults res" where
  "plurality_results poll method choiceCount tallies =
     bind_res (max_tally tallies) (\<lambda>maxVotes.
       Inr (set_winners (top_choices choiceCount tallies maxVotes)
             (base_results poll method tallies)))"

definition tallyAdditive ::
  "(bytes \<Rightarrow> bytes) \<Rightarrow> Poll \<Rightarrow> ballots \<Rightarrow> nat \<Rightarrow> PollResults res" where
  "tallyAdditive dec poll votes choiceCount =
     bind_res (sum_ballots dec addBigintBytes choiceCount votes)
       (plurality_results poll (p_method poll) choiceCount)"

definition tallyScored :: "(bytes \<Rightarrow> bytes) \<Rightarrow> Poll \<Rightarrow> ballots \<Rightarrow> nat \<Rightarrow> PollResults res" where
  "tallyScored dec poll votes choiceCount = tallyAdditive dec poll votes choiceCount"

definition tallyYesNo :: "(bytes \<Rightarrow> bytes) \<Rightarrow> Poll \<Rightarrow> ballots \<Rightarrow> nat \<Rightarrow> PollResults res" where
  "tallyYesNo dec poll votes choiceCount = tallyAdditive dec poll votes choiceCount"

definition add_square :: "bytes \<Rightarrow> bytes \<Rightarrow> bytes" where
  "add_square tally decrypted =
     (let weight = bytesToInt decrypted in addBigintBytes tally (intToBytes (weight * weight)))"

definition tallyQuadratic :: "(bytes \<Rightarrow> bytes) \<Rightarrow> Poll \<Rightarrow> ballots \<Rightarrow> nat \<Rightarrow> PollResults res" where
  "tallyQuadratic dec poll votes choiceCount =
     bind_res (sum_ballots dec add_square choiceCount votes)
       (plurality_results poll Quadratic choiceCount)"

section \<open>Consensus and consent\<close>

definition consensus_threshold :: "nat \<Rightarrow> int" where
  "consensus_threshold totalVoters = (int totalVoters * 95 + 99) div 100"

definition tallyConsensus :: "(bytes \<Rightarrow> bytes) \<Rightarrow> Poll \<Rightarrow> ballots \<Rightarrow> nat \<Rightarrow> PollResults res" where
  "tallyConsensus dec poll votes choiceCount =
     bind_res (sum_ballots dec addBigintBytes choiceCount votes) (\<lambda>tallies.
       Inr (set_winners
             (filter (\<lambda>i. consensus_threshold (length votes) \<le> big_val (tallies ! i)) [0..<choiceCount])
             (base_results poll Consensus tallies)))"

definition count_support :: "bytes \<Rightarrow> bytes \<Rightarrow> bytes" where
  "count_support tally decrypted =
     (if 0 < big_val decrypted then addBigintBytes tally (intToBytes 1) else tally)"

definition count_objection :: "bytes \<Rightarrow> bytes \<Rightarrow> bytes" where
  "count_objection tally decrypted =
     (if big_val decrypted < 0 then addBigintBytes tally (intToBytes 1) else tally)"

text \<open>The single loop that keeps both vectors, as the two passes it is made of.\<close>

definition tallyConsentBased :: "(bytes \<Rightarrow> bytes) \<Rightarrow> Poll \<Rightarrow> ballots \<Rightarrow> nat \<Rightarrow> PollResults res" where
  "tallyConsentBased dec poll votes choiceCount =
     bind_res (sum_ballots dec count_support choiceCount votes) (\<lambda>tallies.
     bind_res (sum_ballots dec count_objection choiceCount votes) (\<lambda>objections.
       Inr (set_winners
             (filter (\<lambda>i. big_val (objections ! i) = 0) [0..<choiceCount])
             (base_results poll ConsentBased tallies))))"

section \<open>Two-round and STAR\<close>

definition total_tally :: "bytes list \<Rightarrow> bytes" where
  "total_tally tallies = foldl addBigintBytes (intToBytes 0) tallies"

text \<open>C++ division by two truncates towards zero.\<close>

definition half :: "int \<Rightarrow> int" where
  "half x = (if x < 0 then - ((- x) div 2) else x div 2)"

definition by_tally_desc :: "nat \<times> bytes \<Rightarrow> nat \<times> bytes \<Rightarrow> bool" where
  "by_tally_desc a b \<longleftrightarrow> compareBigintBytes (snd b) (snd a)"

definition by_tally_asc :: "nat \<times> bytes \<Rightarrow> nat \<times> bytes \<Rightarrow> bool" where
  "by_tally_asc a b \<longleftrightarrow> compareBigintBytes (snd a) (snd b)"

definition indexed :: "nat \<Rightarrow> bytes list \<Rightarrow> (nat \<times> bytes) list" where
  "indexed choiceCount tallies = map (\<lambda>i. (i, tallies ! i)) [0..<choiceCount]"

text \<open>\<open>winner = -1; for (...) if (...) { winner = i; break; }\<close>\<close>

definition first_index :: "nat list \<Rightarrow> int" where
  "first_index is = (case is of [] \<Rightarrow> -1 | i # _ \<Rightarrow> int i)"

definition tallyTwoRound ::
  "((nat \<times> bytes) list \<Rightarrow> (nat \<times> bytes) list) \<Rightarrow> (bytes \<Rightarrow> bytes) \<Rightarrow> Poll \<Rightarrow> ballots \<Rightarrow> nat \<Rightarrow> PollResults res" where
  "tallyTwoRound srt dec poll votes choiceCount =
     bind_res (sum_ballots dec addBigintBytes choiceCount votes) (\<lambda>tallies.
     let majority = half (big_val (total_tally tallies));
         round1 = \<lparr>rr_round = 1, rr_tallies = tallies, rr_eliminated = None, rr_winner = None\<rparr>
     in bind_res (max_tally tallies) (\<lambda>maxVotes.
       if majority < big_val maxVotes then
         let winner = first_index (top_choices choiceCount tallies maxVotes)
         in Inr ((base_results poll TwoRound tallies)
                 \<lparr>pr_winner := Some winner, pr_rounds := Some [round1\<lparr>rr_winner := Some winner\<rparr>]\<rparr>)
       else let sorted_choices = srt (indexed choiceCount tallies) in
         bind_res (vec_get sorted_choices 0) (\<lambda>s0.
         bind_res (vec_get sorted_choices 1) (\<lambda>s1.
           let winner = int (fst s0);
               runoffTallies = (replicate choiceCount (intToBytes 0))[fst s0 := snd s0, fst s1 := snd s1];
               round2 = \<lparr>rr_round = 2, rr_tallies = runoffTallies, rr_eliminated = None,
                         rr_winner = Some winner\<rparr>
           in Inr ((base_results poll TwoRound runoffTallies)
                   \<lparr>pr_winner := Some winner, pr_rounds := Some [round1, round2]\<rparr>)))))"

definition star_ballot ::
  "(bytes \<Rightarrow> bytes) \<Rightarrow> nat \<Rightarrow> nat \<Rightarrow> bytes list \<Rightarrow> bytes list \<Rightarrow> bytes list res" where
  "star_ballot dec top0 top1 encrypted runoff =
     bind_res (vec_get encrypted top0) (\<lambda>c0.
     bind_res (vec_get encrypted top1) (\<lambda>c1.
       let score0 = dec c0; score1 = dec c1 in
       Inr (if compareBigintBytes score1 score0
              then runoff[top0 := addBigintBytes (runoff ! top0) (intToBytes 1)]
            else if compareBigintBytes score0 score1
              then runoff[top1 := addBigintBytes (runoff ! top1) (intToBytes 1)]
            else runoff)))"

definition tallySTAR ::
  "((nat \<times> bytes) list \<Rightarrow> (nat \<times> bytes) list) \<Rightarrow> (bytes \<Rightarrow> bytes) \<Rightarrow> Poll \<Rightarrow> ballots \<Rightarrow> nat \<Rightarrow> PollResults res" where
  "tallySTAR srt dec poll votes choiceCount =
     bind_res (sum_ballots dec addBigintBytes choiceCount votes) (\<lambda>scores.
     let round1 = \<lparr>rr_round = 1, rr_tallies = scores, rr_eliminated = None, rr_winner = None\<rparr>;
         sorted_choices = srt (indexed choiceCount scores) in
     bind_res (vec_get sorted_choices 0) (\<lambda>s0.
     bind_res (vec_get sorted_choices 1) (\<lambda>s1.
       let top0 = fst s0; top1 = fst s1 in
       bind_res (fold_res (\<lambda>(_, encrypted). star_ballot dec top0 top1 encrypted) votes
                   (replicate choiceCount (intToBytes 0))) (\<lambda>runoffTallies.
         let winner = int (if compareBigintBytes (runoffTallies ! top1) (runoffTallies ! top0)
                           then top0 else top1);
             round2 = \<lparr>rr_round = 2, rr_tallies = runoffTallies, rr_eliminated = None,
                       rr_winner = Some winner\<rparr>
         in Inr ((base_results poll STAR runoffTallies)
                 \<lparr>pr_winner := Some winner, pr_rounds := Some [round1, round2]\<rparr>)))))"

section \<open>Rankings\<close>

text \<open>\<open>static_cast<int>(bytesToInt(decrypted))\<close>: the low 32 bits, signed.\<close>

definition rank_of :: "bytes \<Rightarrow> int" where
  "rank_of decrypted = sint (ucast (bytesToInt decrypted) :: 32 word)"

definition by_rank :: "nat \<times> int \<Rightarrow> nat \<times> int \<Rightarrow> bool" where
  "by_rank a b \<longleftrightarrow> snd a < snd b"

definition ranked_choices :: "(bytes \<Rightarrow> bytes) \<Rightarrow> nat \<Rightarrow> bytes list \<Rightarrow> (nat \<times> int) list res" where
  "ranked_choices dec choiceCount encrypted =
     bind_res (map_res (\<lambda>i. bind_res (vec_get encrypted i) (\<lambda>c. Inr (i, rank_of (dec c)))) [0..<choiceCount])
       (\<lambda>ranks. Inr (filter (\<lambda>(i, rank). 0 < rank) ranks))"

definition decryptRankings ::
  "((nat \<times> int) list \<Rightarrow> (nat \<times> int) list) \<Rightarrow> (bytes \<Rightarrow> bytes) \<Rightarrow> ballots \<Rightarrow> nat \<Rightarrow> nat list list res" where
  "decryptRankings srt_rank dec votes choiceCount =
     map_res (\<lambda>(_, encrypted).
       bind_res (ranked_choices dec choiceCount encrypted) (\<lambda>rc. Inr (map fst (srt_rank rc)))) votes"

text \<open>One ballot counts for its first choice that is not eliminated.\<close>

definition count_first :: "nat list \<Rightarrow> nat list \<Rightarrow> bytes list \<Rightarrow> bytes list" where
  "count_first eliminated ranking tallies =
     (case filter (\<lambda>c. c \<notin> set eliminated) ranking of
        [] \<Rightarrow> tallies
      | choice # _ \<Rightarrow> tallies[choice := addBigintBytes (tallies ! choice) (intToBytes 1)])"

definition countFirstChoices :: "nat list list \<Rightarrow> nat list \<Rightarrow> nat \<Rightarrow> bytes list" where
  "countFirstChoices rankings eliminated choiceCount =
     fold (count_first eliminated) rankings (replicate choiceCount (intToBytes 0))"

text \<open>\<open>std::set<int>\<close>: kept sorted, an insertion of a present element does nothing.\<close>

definition set_add :: "nat \<Rightarrow> nat list \<Rightarrow> nat list" where
  "set_add x xs = (if x \<in> set xs then xs else insort x xs)"

section \<open>Ranked choice (instant runoff)\<close>

definition max_remaining :: "nat \<Rightarrow> nat list \<Rightarrow> bytes list \<Rightarrow> bytes" where
  "max_remaining choiceCount eliminated tallies =
     foldl (\<lambda>m i. if i \<notin> set eliminated \<and> compareBigintBytes m (tallies ! i) then tallies ! i else m)
       (intToBytes 0) [0..<choiceCount]"

definition top_remaining :: "nat \<Rightarrow> nat list \<Rightarrow> bytes list \<Rightarrow> bytes \<Rightarrow> nat list" where
  "top_remaining choiceCount eliminated tallies maxVotes =
     filter (\<lambda>i. i \<notin> set eliminated \<and> same_votes (tallies ! i) maxVotes) [0..<choiceCount]"

text \<open>The loop from the last choice down, which keeps the last index with the least votes.\<close>

definition elim_step :: "nat list \<Rightarrow> bytes list \<Rightarrow> bytes \<times> nat option \<Rightarrow> nat \<Rightarrow> bytes \<times> nat option" where
  "elim_step eliminated tallies s i =
     (if i \<notin> set eliminated \<and>
         (compareBigintBytes (tallies ! i) (fst s) \<or> same_votes (tallies ! i) (fst s))
      then (tallies ! i, Some i) else s)"

definition to_eliminate :: "nat \<Rightarrow> nat list \<Rightarrow> bytes list \<Rightarrow> bytes \<Rightarrow> nat option" where
  "to_eliminate choiceCount eliminated tallies totalVotes =
     snd (foldl (elim_step eliminated tallies) (totalVotes, None) (rev [0..<choiceCount]))"

lemma elim_fold_remaining:
  "snd (foldl (elim_step eliminated tallies) (v, None) xs) = Some i \<Longrightarrow>
     i \<in> set xs \<and> i \<notin> set eliminated"
  by (induction xs rule: rev_induct) (auto simp: elim_step_def split: if_splits)

lemma to_eliminate_remaining:
  "to_eliminate choiceCount eliminated tallies totalVotes = Some i \<Longrightarrow>
     i < choiceCount \<and> i \<notin> set eliminated"
  unfolding to_eliminate_def by (drule elim_fold_remaining) simp

text \<open>What the loop leaves behind: the winner, the eliminated set, the rounds, the last tallies.\<close>

type_synonym irv_out = "int \<times> nat list \<times> RoundResult list \<times> bytes list"

function irv_loop ::
  "nat list list \<Rightarrow> nat \<Rightarrow> nat list \<Rightarrow> nat \<Rightarrow> RoundResult list \<Rightarrow> irv_out" where
  "irv_loop rankings choiceCount eliminated round rounds =
     (let tallies = countFirstChoices rankings eliminated choiceCount;
          totalVotes = total_tally tallies;
          majority = half (big_val totalVotes);
          maxVotes = max_remaining choiceCount eliminated tallies;
          topCandidates = top_remaining choiceCount eliminated tallies maxVotes;
          this = \<lparr>rr_round = Suc round, rr_tallies = tallies, rr_eliminated = None, rr_winner = None\<rparr>
      in if majority < big_val maxVotes \<and> length topCandidates = 1 then
           (let w = int (topCandidates ! 0)
            in (w, eliminated, rounds @ [this\<lparr>rr_winner := Some w\<rparr>], tallies))
         else if int choiceCount - int (length eliminated) = 1 then
           (let w = first_index (filter (\<lambda>i. i \<notin> set eliminated) [0..<choiceCount])
            in (w, eliminated, rounds @ [this\<lparr>rr_winner := Some w\<rparr>], tallies))
         else case to_eliminate choiceCount eliminated tallies totalVotes of
           None \<Rightarrow> (0, eliminated, rounds @ [this],
                    countFirstChoices rankings eliminated choiceCount)
         | Some e \<Rightarrow> irv_loop rankings choiceCount (set_add e eliminated) (Suc round)
                      (rounds @ [this\<lparr>rr_eliminated := Some e\<rparr>]))"
  by pat_completeness auto

definition remaining_count :: "nat \<Rightarrow> nat list \<Rightarrow> nat" where
  "remaining_count choiceCount eliminated =
     length (filter (\<lambda>i. i \<notin> set eliminated) [0..<choiceCount])"

lemma set_set_add [simp]: "set (set_add x xs) = insert x (set xs)"
  by (auto simp: set_add_def set_insort_key)

lemma remaining_count_less:
  assumes "i < choiceCount" and "i \<notin> set eliminated" and "insert i (set eliminated) \<subseteq> set eliminated'"
  shows "remaining_count choiceCount eliminated' < remaining_count choiceCount eliminated"
proof -
  have "{j. j < choiceCount \<and> j \<notin> set eliminated'} \<subset> {j. j < choiceCount \<and> j \<notin> set eliminated}"
    using assms by auto
  then have "card {j. j < choiceCount \<and> j \<notin> set eliminated'} < card {j. j < choiceCount \<and> j \<notin> set eliminated}"
    by (intro psubset_card_mono) auto
  moreover have "remaining_count choiceCount xs = card {j. j < choiceCount \<and> j \<notin> set xs}" for xs
    unfolding remaining_count_def
    by (subst distinct_card [symmetric]) (auto intro: arg_cong [of _ _ card])
  ultimately show ?thesis by simp
qed

termination irv_loop
  by (relation "measure (\<lambda>(_, choiceCount, eliminated, _, _). remaining_count choiceCount eliminated)")
    (auto dest!: to_eliminate_remaining intro!: remaining_count_less)

declare irv_loop.simps [simp del]

definition tallyRankedChoice ::
  "((nat \<times> int) list \<Rightarrow> (nat \<times> int) list) \<Rightarrow> (bytes \<Rightarrow> bytes) \<Rightarrow> Poll \<Rightarrow> ballots \<Rightarrow> nat \<Rightarrow> PollResults res" where
  "tallyRankedChoice srt_rank dec poll votes choiceCount =
     bind_res (decryptRankings srt_rank dec votes choiceCount) (\<lambda>rankings.
       let (winner, eliminated, rounds, tallies) = irv_loop rankings choiceCount [] 0 []
       in Inr ((base_results poll RankedChoice tallies)
               \<lparr>pr_winner := Some winner, pr_eliminated := Some eliminated, pr_rounds := Some rounds\<rparr>))"

section \<open>Single transferable vote\<close>

definition stv_seats :: "nat \<Rightarrow> nat" where
  "stv_seats choiceCount = min 3 choiceCount"

definition stv_quota :: "nat \<Rightarrow> nat \<Rightarrow> int" where
  "stv_quota voters choiceCount = int (voters div (stv_seats choiceCount + 1)) + 1"

definition stv_open :: "nat list \<Rightarrow> nat list \<Rightarrow> nat \<Rightarrow> bool" where
  "stv_open eliminated winners i \<longleftrightarrow> i \<notin> set eliminated \<and> i \<notin> set winners"

type_synonym stv_out = "nat list \<times> nat list \<times> RoundResult list"

partial_function (option) stv_loop ::
  "((nat \<times> bytes) list \<Rightarrow> (nat \<times> bytes) list) \<Rightarrow> nat list list \<Rightarrow> int \<Rightarrow> nat \<Rightarrow>
   nat list \<Rightarrow> nat list \<Rightarrow> nat \<Rightarrow> RoundResult list \<Rightarrow> stv_out option" where
  "stv_loop srt rankings quota choiceCount winners eliminated round rounds =
     (if \<not> (length winners < stv_seats choiceCount \<and> length eliminated < choiceCount)
      then Some (winners, eliminated, rounds)
      else let tallies = countFirstChoices rankings eliminated choiceCount;
               this = \<lparr>rr_round = Suc round, rr_tallies = tallies, rr_eliminated = None, rr_winner = None\<rparr>;
               meetingQuota = filter (\<lambda>i. stv_open eliminated winners i \<and> quota \<le> big_val (tallies ! i))
                                [0..<choiceCount]
           in if meetingQuota \<noteq> [] then
                stv_loop srt rankings quota choiceCount (winners @ meetingQuota)
                  (fold set_add meetingQuota eliminated) (Suc round)
                  (rounds @ [this\<lparr>rr_winner := Some (int (meetingQuota ! 0))\<rparr>])
              else let remaining = map (\<lambda>i. (i, tallies ! i))
                         (filter (stv_open eliminated winners) [0..<choiceCount])
                   in if remaining = [] then Some (winners, eliminated, rounds @ [this])
                      else let e = fst (srt remaining ! 0)
                           in stv_loop srt rankings quota choiceCount winners (set_add e eliminated)
                                (Suc round) (rounds @ [this\<lparr>rr_eliminated := Some e\<rparr>]))"

definition tallySTV ::
  "((nat \<times> int) list \<Rightarrow> (nat \<times> int) list) \<Rightarrow> ((nat \<times> bytes) list \<Rightarrow> (nat \<times> bytes) list) \<Rightarrow>
   (bytes \<Rightarrow> bytes) \<Rightarrow> Poll \<Rightarrow> ballots \<Rightarrow> nat \<Rightarrow> PollResults res option" where
  "tallySTV srt_rank srt dec poll votes choiceCount =
     (case decryptRankings srt_rank dec votes choiceCount of
        Inl e \<Rightarrow> Some (Inl e)
      | Inr rankings \<Rightarrow>
          map_option (\<lambda>(winners, eliminated, rounds).
              Inr ((base_results poll STV
                     (fold (\<lambda>w ts. ts[w := intToBytes 1]) winners (replicate choiceCount (intToBytes 0))))
                   \<lparr>pr_winners := Some winners, pr_eliminated := Some eliminated,
                    pr_rounds := Some rounds\<rparr>))
            (stv_loop srt rankings (stv_quota (length votes) choiceCount) choiceCount [] [] 0 []))"

section \<open>The entry point\<close>

definition mkPollTallier :: "member \<Rightarrow> unit res" where
  "mkPollTallier authority =
     (if \<not> hasVotingPrivateKey authority
      then Inl (InvalidArgument ''Authority must have private key'') else Inr ())"

text \<open>\<open>None\<close> would be a count that never returns; only the STV loop can raise the question.\<close>

definition tally ::
  "((nat \<times> int) list \<Rightarrow> (nat \<times> int) list) \<Rightarrow> ((nat \<times> bytes) list \<Rightarrow> (nat \<times> bytes) list) \<Rightarrow>
   ((nat \<times> bytes) list \<Rightarrow> (nat \<times> bytes) list) \<Rightarrow> (bytes \<Rightarrow> bytes) \<Rightarrow> Poll \<Rightarrow> PollResults res option" where
  "tally srt_rank srt_desc srt_asc dec poll =
     (if \<not> isClosed poll then Some (Inl (RuntimeError ''Poll must be closed''))
      else let votes = getEncryptedVotes poll; choiceCount = length (p_choices poll) in
        case p_method poll of
          Plurality \<Rightarrow> Some (tallyAdditive dec poll votes choiceCount)
        | Approval \<Rightarrow> Some (tallyAdditive dec poll votes choiceCount)
        | Weighted \<Rightarrow> Some (tallyAdditive dec poll votes choiceCount)
        | Borda \<Rightarrow> Some (tallyScored dec poll votes choiceCount)
        | Score \<Rightarrow> Some (tallyScored dec poll votes choiceCount)
        | YesNo \<Rightarrow> Some (tallyYesNo dec poll votes choiceCount)
        | YesNoAbstain \<Rightarrow> Some (tallyYesNo dec poll votes choiceCount)
        | Supermajority \<Rightarrow> Some (tallyYesNo dec poll votes choiceCount)
        | RankedChoice \<Rightarrow> Some (tallyRankedChoice srt_rank dec poll votes choiceCount)
        | TwoRound \<Rightarrow> Some (tallyTwoRound srt_desc dec poll votes choiceCount)
        | STAR \<Rightarrow> Some (tallySTAR srt_desc dec poll votes choiceCount)
        | STV \<Rightarrow> tallySTV srt_rank srt_asc dec poll votes choiceCount
        | Quadratic \<Rightarrow> Some (tallyQuadratic dec poll votes choiceCount)
        | Consensus \<Rightarrow> Some (tallyConsensus dec poll votes choiceCount)
        | ConsentBased \<Rightarrow> Some (tallyConsentBased dec poll votes choiceCount))"

end
