(* ===== verification/TallyFacts.thy ===== *)
theory TallyFacts
  imports Tallying
begin

text \<open>
  What the counts of \<open>Tallying\<close> compute, in terms of the integers the byte vectors stand
  for: the total of each choice, the maximum and the choices that reach it, the number of
  ballots whose first remaining choice is a candidate, and the rounds of the eliminations.
\<close>

section \<open>Totals\<close>

definition choice_total :: "(bytes \<Rightarrow> bytes) \<Rightarrow> ballots \<Rightarrow> nat \<Rightarrow> int" where
  "choice_total dec votes i = (\<Sum>(_, e)\<leftarrow>votes. big_val (dec (e ! i)))"

text \<open>Every ballot answers every choice with a value the 64-bit sums can hold.\<close>

definition countable_votes :: "(bytes \<Rightarrow> bytes) \<Rightarrow> ballots \<Rightarrow> nat \<Rightarrow> bool" where
  "countable_votes dec votes choiceCount \<longleftrightarrow>
     (\<forall>(_, e) \<in> set votes. choiceCount \<le> length e \<and>
        (\<forall>i < choiceCount. 0 \<le> big_val (dec (e ! i)))) \<and>
     (\<forall>i < choiceCount. choice_total dec votes i < 2 ^ 63)"

lemma add_ballot_Inr:
  assumes "choiceCount \<le> length e" and "length ts = choiceCount"
  shows "add_ballot dec upd choiceCount e ts =
    Inr (map (\<lambda>i. upd (ts ! i) (dec (e ! i))) [0..<choiceCount])"
proof -
  let ?step = "\<lambda>i ts. bind_res (vec_get e i) (\<lambda>c. Inr (ts[i := upd (ts ! i) (dec c)]))"
  have "fold_res ?step [0..<n] ts =
      Inr (map (\<lambda>i. if i < n then upd (ts ! i) (dec (e ! i)) else ts ! i) [0..<choiceCount])"
    if "n \<le> choiceCount" for n
    using that
  proof (induction n)
    case 0
    then show ?case using assms(2) map_nth [of ts] by simp
  next
    case (Suc n)
    then show ?case
      using assms by (auto simp: fold_res_append intro!: nth_equalityI simp: nth_list_update)
  qed
  from this [of choiceCount] show ?thesis
    by (simp add: add_ballot_def cong: map_cong)
qed

lemma sum_ballots_Inr:
  assumes "\<forall>(_, e) \<in> set votes. choiceCount \<le> length e"
  shows "sum_ballots dec upd choiceCount votes =
    Inr (map (\<lambda>i. fold (\<lambda>(_, e) t. upd t (dec (e ! i))) votes (intToBytes 0)) [0..<choiceCount])"
proof -
  have "fold_res (\<lambda>(_, e). add_ballot dec upd choiceCount e) votes ts =
      Inr (map (\<lambda>i. fold (\<lambda>(_, e) t. upd t (dec (e ! i))) votes (ts ! i)) [0..<choiceCount])"
    if "length ts = choiceCount" for ts
    using that assms
  proof (induction votes arbitrary: ts)
    case Nil
    then show ?case using map_nth [of ts] by simp
  next
    case (Cons kv votes)
    then show ?case by (cases kv) (auto simp: add_ballot_Inr)
  qed
  from this [of "replicate choiceCount (intToBytes 0)"] show ?thesis
    by (simp add: sum_ballots_def cong: map_cong)
qed

text \<open>A ballot with too few ciphertexts makes the count read past the end of the vector.\<close>

lemma add_ballot_total:
  assumes "choiceCount \<le> length e"
  shows "\<exists>us. add_ballot dec upd choiceCount e ts = Inr us"
  using assms unfolding add_ballot_def
  by (induction choiceCount) (auto simp: fold_res_append)

lemma add_ballot_short:
  assumes "length e < choiceCount"
  shows "add_ballot dec upd choiceCount e ts = Inl UndefinedBehaviour"
proof -
  obtain us where us: "add_ballot dec upd (length e) e ts = Inr us"
    using add_ballot_total by blast
  obtain k where "choiceCount = length e + Suc k"
    using assms less_iff_Suc_add [of "length e" choiceCount] by auto
  then have "[0..<choiceCount] = [0..<length e] @ length e # [Suc (length e)..<choiceCount]"
    by (simp only: upt_add_eq_append [OF le0] upt_conv_Cons less_add_Suc1)
  with us show ?thesis by (simp add: add_ballot_def fold_res_append vec_get_def)
qed

lemma sum_ballots_short:
  assumes "(k, e) \<in> set votes" and "length e < choiceCount"
  shows "sum_ballots dec upd choiceCount votes = Inl UndefinedBehaviour"
proof -
  have "fold_res (\<lambda>(_, e). add_ballot dec upd choiceCount e) votes ts = Inl UndefinedBehaviour" for ts
    using assms(1)
  proof (induction votes arbitrary: ts)
    case (Cons kv votes)
    obtain k' e' where kv: "kv = (k', e')" by fastforce
    show ?case
    proof (cases "length e' < choiceCount")
      case True
      then show ?thesis by (simp add: kv add_ballot_short)
    next
      case False
      with Cons.prems assms(2) kv have "(k, e) \<in> set votes" by auto
      moreover obtain us where "add_ballot dec upd choiceCount e' ts = Inr us"
        using False add_ballot_total [of choiceCount e'] by fastforce
      ultimately show ?thesis using Cons.IH by (simp add: kv)
    qed
  qed simp
  then show ?thesis by (simp add: sum_ballots_def)
qed

lemma fold_add_val:
  assumes "0 \<le> big_val t" and "\<forall>v \<in> set vs. 0 \<le> big_val v"
    and "big_val t + sum_list (map big_val vs) < 2 ^ 63"
  shows "big_val (fold (\<lambda>v t. addBigintBytes t v) vs t) = big_val t + sum_list (map big_val vs)"
  using assms
proof (induction vs arbitrary: t)
  case (Cons v vs)
  have "0 \<le> sum_list (map big_val vs)" using Cons.prems(2) by (intro sum_list_nonneg) auto
  then have "big_val (addBigintBytes t v) = big_val t + big_val v"
    using Cons.prems by (intro big_val_add) auto
  then show ?case using Cons.IH [of "addBigintBytes t v"] Cons.prems by (simp add: add.assoc)
qed simp

lemma choice_total_map: "choice_total dec votes i = sum_list (map big_val (map (\<lambda>(_, e). dec (e ! i)) votes))"
  by (simp add: choice_total_def case_prod_unfold comp_def)

lemma fold_ballots_val:
  assumes "countable_votes dec votes choiceCount" and "i < choiceCount"
  shows "big_val (fold (\<lambda>(_, e) t. addBigintBytes t (dec (e ! i))) votes (intToBytes 0)) =
    choice_total dec votes i"
proof -
  have "fold (\<lambda>(_, e) t. addBigintBytes t (dec (e ! i))) votes (intToBytes 0) =
      fold (\<lambda>v t. addBigintBytes t v) (map (\<lambda>(_, e). dec (e ! i)) votes) (intToBytes 0)"
    by (simp add: fold_map comp_def case_prod_unfold)
  moreover have "\<forall>v \<in> set (map (\<lambda>(_, e). dec (e ! i)) votes). 0 \<le> big_val v"
    using assms by (fastforce simp: countable_votes_def)
  moreover have "choice_total dec votes i < 2 ^ 63"
    using assms by (simp add: countable_votes_def)
  ultimately show ?thesis
    using fold_add_val [of "intToBytes 0" "map (\<lambda>(_, e). dec (e ! i)) votes"]
    by (simp only: choice_total_map big_val_intToBytes_0 order.refl add_0)
qed

section \<open>Maxima\<close>

lemma max_fold:
  defines "mx \<equiv> \<lambda>m t. if compareBigintBytes m t then t else m"
  shows "(\<forall>t \<in> insert m (set ts). big_val t \<le> big_val (foldl mx m ts)) \<and>
    foldl mx m ts \<in> insert m (set ts)"
proof (induction ts arbitrary: m)
  case (Cons t ts)
  have m: "big_val m \<le> big_val (mx m t)" "big_val t \<le> big_val (mx m t)" "mx m t \<in> {m, t}"
    by (simp_all add: mx_def compareBigintBytes_iff)
  let ?r = "foldl mx (mx m t) ts"
  from Cons.IH [of "mx m t"] have r: "big_val (mx m t) \<le> big_val ?r"
    "\<forall>t \<in> set ts. big_val t \<le> big_val ?r" "?r \<in> insert (mx m t) (set ts)"
    by simp_all
  from r(1) m(1,2) have "big_val m \<le> big_val ?r" "big_val t \<le> big_val ?r" by linarith+
  moreover from r(3) m(3) have "?r \<in> insert m (set (t # ts))" by force
  ultimately show ?case using r(2) by simp
qed simp

lemma max_tally_Inr:
  assumes "ts \<noteq> []"
  obtains m where "max_tally ts = Inr m" "m \<in> set ts" "\<forall>t \<in> set ts. big_val t \<le> big_val m"
proof -
  let ?m = "foldl (\<lambda>m t. if compareBigintBytes m t then t else m) (ts ! 0) ts"
  have "ts ! 0 \<in> set ts" using assms by simp
  with max_fold [of "ts ! 0" ts] have "?m \<in> set ts" "\<forall>t \<in> set ts. big_val t \<le> big_val ?m"
    by (auto simp: insert_absorb)
  with assms that show thesis by (simp add: max_tally_def)
qed

lemma same_votes_iff: "same_votes a b \<longleftrightarrow> big_val a = big_val b"
  by (auto simp: same_votes_def compareBigintBytes_iff)

lemma top_choices_max:
  assumes "length ts = n" and "m \<in> set ts" and "\<forall>t \<in> set ts. big_val t \<le> big_val m"
  shows "top_choices n ts m =
    filter (\<lambda>i. \<forall>j < n. big_val (ts ! j) \<le> big_val (ts ! i)) [0..<n]"
proof -
  have "same_votes (ts ! i) m \<longleftrightarrow> (\<forall>j < n. big_val (ts ! j) \<le> big_val (ts ! i))" if "i < n" for i
  proof
    assume "same_votes (ts ! i) m"
    with assms show "\<forall>j < n. big_val (ts ! j) \<le> big_val (ts ! i)" by (simp add: same_votes_iff)
  next
    assume *: "\<forall>j < n. big_val (ts ! j) \<le> big_val (ts ! i)"
    obtain j where "j < n" "ts ! j = m" using assms(1,2) by (auto simp: in_set_conv_nth)
    with * have "big_val m \<le> big_val (ts ! i)" by auto
    moreover have "big_val (ts ! i) \<le> big_val m" using assms that by simp
    ultimately show "same_votes (ts ! i) m" by (simp add: same_votes_iff)
  qed
  then show ?thesis by (auto simp: top_choices_def intro!: filter_cong)
qed

text \<open>The choices with the most votes, in index order.\<close>

definition maxima :: "nat \<Rightarrow> (nat \<Rightarrow> int) \<Rightarrow> nat list" where
  "maxima n f = filter (\<lambda>i. \<forall>j < n. f j \<le> f i) [0..<n]"

lemma maxima_cong: "(\<And>i. i < n \<Longrightarrow> f i = g i) \<Longrightarrow> maxima n f = maxima n g"
  by (auto simp: maxima_def intro!: filter_cong)

lemma maxima_nonempty: "0 < n \<Longrightarrow> maxima n f \<noteq> []"
proof -
  assume "0 < n"
  then have "Max (f ` {..<n}) \<in> f ` {..<n}" by (intro Max_in) auto
  then obtain i where i: "i < n" "f i = Max (f ` {..<n})" by auto
  then have "\<forall>j < n. f j \<le> f i" by simp
  with i(1) show ?thesis unfolding maxima_def filter_empty_conv by (metis atLeast0LessThan atLeast_upt lessThan_iff)
qed

lemma set_winners_fields [simp]:
  "pr_tallies (set_winners ws r) = pr_tallies r"
  "pr_method (set_winners ws r) = pr_method r"
  "pr_choices (set_winners ws r) = pr_choices r"
  "pr_voterCount (set_winners ws r) = pr_voterCount r"
  by (simp_all add: set_winners_def)

lemma base_results_fields [simp]:
  "pr_tallies (base_results p m ts) = ts" "pr_method (base_results p m ts) = m"
  "pr_choices (base_results p m ts) = p_choices p"
  "pr_voterCount (base_results p m ts) = voterCount p"
  "pr_winner (base_results p m ts) = None" "pr_winners (base_results p m ts) = None"
  by (simp_all add: base_results_def)

lemma plurality_results_maxima:
  assumes "length ts = n" and "0 < n"
  shows "plurality_results poll method n ts =
    Inr (set_winners (maxima n (\<lambda>i. big_val (ts ! i))) (base_results poll method ts))"
proof -
  from assms obtain m where "max_tally ts = Inr m" "m \<in> set ts" "\<forall>t \<in> set ts. big_val t \<le> big_val m"
    by (metis max_tally_Inr length_greater_0_conv)
  with assms show ?thesis
    by (simp add: plurality_results_def top_choices_max maxima_def)
qed

lemma tallyAdditive_Inr:
  assumes "countable_votes dec votes n" and "0 < n"
  obtains ts where "length ts = n" "\<And>i. i < n \<Longrightarrow> big_val (ts ! i) = choice_total dec votes i"
    "tallyAdditive dec poll votes n =
       Inr (set_winners (maxima n (choice_total dec votes)) (base_results poll (p_method poll) ts))"
proof -
  let ?ts = "map (\<lambda>i. fold (\<lambda>(_, e) t. addBigintBytes t (dec (e ! i))) votes (intToBytes 0)) [0..<n]"
  have v: "big_val (?ts ! i) = choice_total dec votes i" if "i < n" for i
    using fold_ballots_val [OF assms(1) that] that by simp
  have "sum_ballots dec addBigintBytes n votes = Inr ?ts"
    using assms(1) by (intro sum_ballots_Inr) (auto simp: countable_votes_def)
  then have "tallyAdditive dec poll votes n = plurality_results poll (p_method poll) n ?ts"
    by (simp add: tallyAdditive_def)
  also have "\<dots> = Inr (set_winners (maxima n (\<lambda>i. big_val (?ts ! i)))
                       (base_results poll (p_method poll) ?ts))"
    by (rule plurality_results_maxima) (simp_all add: assms(2))
  also have "maxima n (\<lambda>i. big_val (?ts ! i)) = maxima n (choice_total dec votes)"
    by (rule maxima_cong) (rule v)
  finally show thesis using v by (intro that [of ?ts]) auto
qed

end
