(* ===== verification/RunoffFacts.thy ===== *)
theory RunoffFacts
  imports TallyFacts "HOL-Library.Product_Lexorder"
begin

text \<open>
  The two elimination counts of \<open>Tallying\<close> against a specification over natural
  numbers: an instant runoff as an inductive relation on the set of eliminated candidates,
  and the termination and invariants of the single-transferable-vote loop.
\<close>

section \<open>First remaining choices\<close>

definition first_choice :: "nat set \<Rightarrow> nat list \<Rightarrow> nat option" where
  "first_choice out ranking = List.find (\<lambda>c. c \<notin> out) ranking"

definition first_count :: "nat list list \<Rightarrow> nat set \<Rightarrow> nat \<Rightarrow> nat" where
  "first_count rankings out i = length (filter (\<lambda>r. first_choice out r = Some i) rankings)"

lemma first_choice_SomeD: "first_choice out r = Some i \<Longrightarrow> i \<in> set r \<and> i \<notin> out"
  by (induction r) (auto simp: first_choice_def split: if_splits)

lemma count_first_choice:
  "count_first eliminated r ts =
    (case first_choice (set eliminated) r of None \<Rightarrow> ts
     | Some i \<Rightarrow> ts[i := addBigintBytes (ts ! i) (intToBytes 1)])"
proof -
  have "List.find P xs = (case filter P xs of [] \<Rightarrow> None | y # _ \<Rightarrow> Some y)" for P and xs :: "nat list"
    by (induction xs) auto
  then show ?thesis by (auto simp: count_first_def first_choice_def split: list.splits)
qed

lemma length_count_first [simp]: "length (count_first eliminated r ts) = length ts"
  by (simp add: count_first_choice split: option.splits)

lemma length_countFirstChoices [simp]: "length (countFirstChoices rankings eliminated n) = n"
proof -
  have "length (fold (count_first eliminated) rankings ts) = length ts" for ts
    by (induction rankings arbitrary: ts) auto
  then show ?thesis by (simp add: countFirstChoices_def)
qed

lemma count_fold_val:
  assumes "\<forall>i < length ts. 0 \<le> big_val (ts ! i) \<and> big_val (ts ! i) + int (length rankings) < 2 ^ 63"
    and "i < length ts"
  shows "big_val (fold (count_first eliminated) rankings ts ! i) =
    big_val (ts ! i) + int (first_count rankings (set eliminated) i)"
  using assms
proof (induction rankings arbitrary: ts)
  case (Cons r rankings)
  let ?us = "count_first eliminated r ts"
  have us: "big_val (?us ! j) =
      big_val (ts ! j) + (if first_choice (set eliminated) r = Some j then 1 else 0)"
    if "j < length ts" for j
    using Cons.prems(1) that
    by (auto simp: count_first_choice nth_list_update big_val_add split: option.splits)
  have "big_val (fold (count_first eliminated) rankings ?us ! i) =
      big_val (?us ! i) + int (first_count rankings (set eliminated) i)"
    using Cons.prems by (intro Cons.IH) (auto simp: us)
  then show ?case using us [OF Cons.prems(2)] by (simp add: first_count_def)
qed (simp add: first_count_def)

lemma countFirstChoices_val:
  assumes "length rankings < 2 ^ 63" and "i < n"
  shows "big_val (countFirstChoices rankings eliminated n ! i) =
    int (first_count rankings (set eliminated) i)"
proof -
  have "int (length rankings) < 2 ^ 63" using assms(1) by (simp add: zless_nat_conj flip: of_nat_less_iff)
  then show ?thesis
    using assms(2) count_fold_val [of "replicate n (intToBytes 0)" rankings i eliminated]
    by (simp add: countFirstChoices_def)
qed

lemma first_count_out [simp]: "i \<in> out \<Longrightarrow> first_count rankings out i = 0"
  by (auto simp: first_count_def filter_empty_conv dest: first_choice_SomeD)

lemma sum_first_count: "(\<Sum>i < n. first_count rankings out i) \<le> length rankings"
proof (induction rankings)
  case (Cons r rankings)
  have "(\<Sum>i < n. first_count (r # rankings) out i) =
      (\<Sum>i < n. (if first_choice out r = Some i then 1 else 0) + first_count rankings out i)"
    by (rule sum.cong) (auto simp: first_count_def)
  also have "\<dots> \<le> 1 + (\<Sum>i < n. first_count rankings out i)"
    by (cases "first_choice out r") (auto simp: sum.distrib)
  finally show ?case using Cons by simp
qed (simp add: first_count_def)

lemma total_tally_val:
  assumes "\<forall>t \<in> set ts. 0 \<le> big_val t" and "sum_list (map big_val ts) < 2 ^ 63"
  shows "big_val (total_tally ts) = sum_list (map big_val ts)"
  using fold_add_val [of "intToBytes 0" ts] assms
  by (simp add: total_tally_def foldl_conv_fold)

lemma total_first_choices:
  assumes "length rankings < 2 ^ 63"
  shows "big_val (total_tally (countFirstChoices rankings eliminated n)) =
    int (\<Sum>i < n. first_count rankings (set eliminated) i)"
proof -
  let ?ts = "countFirstChoices rankings eliminated n"
  have *: "map big_val ?ts = map (\<lambda>i. int (first_count rankings (set eliminated) i)) [0..<n]"
    by (rule nth_equalityI) (simp_all add: countFirstChoices_val [OF assms])
  then have s: "sum_list (map big_val ?ts) = int (\<Sum>i < n. first_count rankings (set eliminated) i)"
    by (simp add: interv_sum_list_conv_sum_set_nat atLeast0LessThan)
  have "\<forall>t \<in> set ?ts. 0 \<le> big_val t"
    by (auto simp: in_set_conv_nth countFirstChoices_val [OF assms])
  moreover have "int (\<Sum>i < n. first_count rankings (set eliminated) i) < int (2 ^ 63)"
    using le_less_trans [OF sum_first_count assms] by (simp only: of_nat_less_iff)
  then have "sum_list (map big_val ?ts) < 2 ^ 63" unfolding s by simp
  ultimately show ?thesis using total_tally_val s by simp
qed

section \<open>Instant runoff: the specification\<close>

text \<open>
  A candidate with more than half of the continuing first choices wins; failing that the
  last remaining candidate wins; failing that the candidate with the fewest first choices,
  the lowest index among equals, is eliminated. The list is the order of elimination.
\<close>

definition remaining :: "nat \<Rightarrow> nat set \<Rightarrow> nat set" where
  "remaining n out = {i. i < n \<and> i \<notin> out}"

definition has_majority :: "nat list list \<Rightarrow> nat \<Rightarrow> nat set \<Rightarrow> nat \<Rightarrow> bool" where
  "has_majority rankings n out i \<longleftrightarrow>
     i \<in> remaining n out \<and> (\<Sum>j < n. first_count rankings out j) < 2 * first_count rankings out i"

definition weakest :: "nat list list \<Rightarrow> nat \<Rightarrow> nat set \<Rightarrow> nat \<Rightarrow> bool" where
  "weakest rankings n out e \<longleftrightarrow> e \<in> remaining n out \<and>
     (\<forall>j \<in> remaining n out. (first_count rankings out e, e) \<le> (first_count rankings out j, j))"

inductive irv_run :: "nat list list \<Rightarrow> nat \<Rightarrow> nat set \<Rightarrow> nat \<Rightarrow> nat list \<Rightarrow> bool"
  for rankings n where
  majority: "has_majority rankings n out i \<Longrightarrow> irv_run rankings n out i []"
| last_one: "remaining n out = {i} \<Longrightarrow> irv_run rankings n out i []"
| eliminate: "\<nexists>i. has_majority rankings n out i \<Longrightarrow> card (remaining n out) \<noteq> 1 \<Longrightarrow>
    weakest rankings n out e \<Longrightarrow> irv_run rankings n (insert e out) w es \<Longrightarrow>
    irv_run rankings n out w (e # es)"

inductive_cases irv_runE: "irv_run rankings n out w es"
inductive_simps irv_run_Nil: "irv_run rankings n out w []"

lemma irv_run_winner: "irv_run rankings n out w es \<Longrightarrow> w < n \<and> w \<notin> out \<and> w \<notin> set es"
  by (induction rule: irv_run.induct) (auto simp: has_majority_def remaining_def)

lemma irv_run_eliminated:
  "irv_run rankings n out w es \<Longrightarrow> distinct es \<and> set es \<subseteq> remaining n out"
  by (induction rule: irv_run.induct) (auto simp: weakest_def remaining_def)

lemma has_majority_unique:
  assumes "has_majority rankings n out i" and "has_majority rankings n out j"
  shows "i = j"
proof (rule ccontr)
  assume "i \<noteq> j"
  then have "(\<Sum>k \<in> {i, j}. first_count rankings out k) \<le> (\<Sum>k < n. first_count rankings out k)"
    using assms by (intro sum_mono2) (auto simp: has_majority_def remaining_def)
  with \<open>i \<noteq> j\<close> assms show False by (simp add: has_majority_def)
qed

lemma irv_run_majority:
  assumes "irv_run rankings n out w es" and "has_majority rankings n out i"
  shows "w = i \<and> es = []"
  using assms
proof (cases rule: irv_run.cases)
  case majority
  then show ?thesis using assms(2) has_majority_unique by blast
next
  case last_one
  then show ?thesis using assms(2) by (auto simp: has_majority_def)
qed auto

section \<open>Instant runoff: the loop\<close>

lemma max_remaining_Suc:
  "max_remaining (Suc n) el ts =
    (if n \<notin> set el \<and> big_val (max_remaining n el ts) < big_val (ts ! n) then ts ! n
     else max_remaining n el ts)"
  by (simp add: max_remaining_def compareBigintBytes_iff)

lemma remaining_Suc:
  "remaining (Suc n) out = (if n \<in> out then remaining n out else insert n (remaining n out))"
  by (auto simp: remaining_def less_Suc_eq)

lemma max_remaining_bound:
  "i \<in> remaining n (set el) \<Longrightarrow> big_val (ts ! i) \<le> big_val (max_remaining n el ts)"
proof (induction n)
  case (Suc n)
  show ?case
  proof (cases "i = n")
    case True
    with Suc.prems have "n \<notin> set el" by (simp add: remaining_def)
    with True show ?thesis by (simp add: max_remaining_Suc)
  next
    case False
    with Suc have "big_val (ts ! i) \<le> big_val (max_remaining n el ts)"
      by (simp add: remaining_Suc split: if_splits)
    then show ?thesis by (simp add: max_remaining_Suc)
  qed
qed (simp add: remaining_def)

lemma max_remaining_reached:
  "big_val (max_remaining n el ts) = 0 \<or>
   (\<exists>i \<in> remaining n (set el). big_val (ts ! i) = big_val (max_remaining n el ts))"
proof (induction n)
  case 0
  then show ?case by (simp add: max_remaining_def)
next
  case (Suc n)
  then show ?case by (cases "n \<in> set el") (auto simp: max_remaining_Suc remaining_Suc)
qed

lemma elim_fold_spec:
  fixes ts el total
  defines "s \<equiv> \<lambda>k n. foldl (elim_step el ts) (total, None) (rev [k..<n])"
  assumes "\<forall>i < n. big_val (ts ! i) \<le> big_val total" and "k \<le> n"
  shows "case snd (s k n) of
      None \<Rightarrow> fst (s k n) = total \<and> (\<forall>j. k \<le> j \<and> j < n \<longrightarrow> j \<in> set el)
    | Some e \<Rightarrow> k \<le> e \<and> e < n \<and> e \<notin> set el \<and> fst (s k n) = ts ! e \<and>
        (\<forall>j. k \<le> j \<and> j < n \<and> j \<notin> set el \<longrightarrow>
           (big_val (ts ! e), e) \<le> (big_val (ts ! j), j))"
  using assms(3)
proof (induction k rule: inc_induct)
  case base
  then show ?case by (auto simp: s_def)
next
  case (step k)
  have s: "s k n = elim_step el ts (s (Suc k) n) k"
    using step.hyps by (simp add: s_def upt_conv_Cons)
  have k: "k \<le> j \<longleftrightarrow> j = k \<or> Suc k \<le> j" for j by auto
  show ?case
  proof (cases "snd (s (Suc k) n)")
    case None
    with step assms(2) show ?thesis
      by (auto simp: s elim_step_def compareBigintBytes_iff same_votes_iff k)
  next
    case (Some e)
    with step show ?thesis
      by (auto simp: s elim_step_def compareBigintBytes_iff same_votes_iff k)
  qed
qed

lemma distinct_singleton: "set xs = {x} \<Longrightarrow> distinct xs \<Longrightarrow> xs = [x]"
  by (cases xs; cases "tl xs") auto

lemma div_two_less: "(a :: int) div 2 < m \<longleftrightarrow> a < 2 * m"
  by presburger

lemma half_int: "half (int k) = int k div 2"
  by (simp add: half_def)

lemma to_eliminate_weakest:
  assumes "length rankings < 2 ^ 63" and "remaining n (set el) \<noteq> {}"
  defines "ts \<equiv> countFirstChoices rankings el n"
  obtains e where "to_eliminate n el ts (total_tally ts) = Some e" "weakest rankings n (set el) e"
proof -
  let ?f = "first_count rankings (set el)"
  have v: "big_val (ts ! i) = int (?f i)" if "i < n" for i
    using countFirstChoices_val [OF assms(1) that] by (simp add: ts_def)
  have "?f i \<le> (\<Sum>j < n. ?f j)" if "i < n" for i
    using that by (intro member_le_sum) auto
  then have le: "\<forall>i < n. big_val (ts ! i) \<le> big_val (total_tally ts)"
    unfolding ts_def total_first_choices [OF assms(1)]
    by (auto simp: countFirstChoices_val [OF assms(1)] simp del: of_nat_sum)
  from elim_fold_spec [OF le, of 0 el] assms(2)
  obtain e where e: "to_eliminate n el ts (total_tally ts) = Some e" "e < n" "e \<notin> set el"
      "\<forall>j. j < n \<and> j \<notin> set el \<longrightarrow> (big_val (ts ! e), e) \<le> (big_val (ts ! j), j)"
    by (auto simp: to_eliminate_def remaining_def split: option.splits)
  then have "weakest rankings n (set el) e"
    by (auto simp: weakest_def remaining_def v)
  with e(1) that show thesis by blast
qed

lemma majority_test:
  fixes n :: nat and el :: "nat list"
  assumes "length rankings < 2 ^ 63"
  defines "ts \<equiv> countFirstChoices rankings el n"
  defines "tops \<equiv> top_remaining n el ts (max_remaining n el ts)"
  defines "won \<equiv> half (big_val (total_tally ts)) < big_val (max_remaining n el ts) \<and> length tops = 1"
  shows "has_majority rankings n (set el) i \<Longrightarrow> won \<and> tops = [i]"
    and "won \<Longrightarrow> has_majority rankings n (set el) (tops ! 0)"
proof -
  let ?f = "first_count rankings (set el)" and ?m = "max_remaining n el ts"
  let ?s = "\<Sum>j < n. ?f j"
  have v: "big_val (ts ! i) = int (?f i)" if "i < n" for i
    using countFirstChoices_val [OF assms(1) that] by (simp add: ts_def)
  have tot: "half (big_val (total_tally ts)) = int ?s div 2"
    unfolding ts_def total_first_choices [OF assms(1)] by (rule half_int)
  have tops: "set tops = {i \<in> remaining n (set el). big_val (ts ! i) = big_val ?m}"
    by (auto simp: tops_def top_remaining_def remaining_def same_votes_iff)
  show "won \<and> tops = [i]" if i: "has_majority rankings n (set el) i"
  proof -
    have r: "i \<in> remaining n (set el)" "?s < 2 * ?f i" using i by (auto simp: has_majority_def)
    then have i_n: "i < n" by (simp add: remaining_def)
    have ge: "int (?f i) \<le> big_val ?m"
      using max_remaining_bound [OF r(1), of ts] by (simp add: v i_n)
    have maj: "has_majority rankings n (set el) j" if "j \<in> set tops" for j
    proof -
      have "j \<in> remaining n (set el)" "big_val (ts ! j) = big_val ?m" using that by (auto simp: tops)
      moreover from this have "int (?f i) \<le> int (?f j)" using ge v [of j] by (simp add: remaining_def)
      ultimately show ?thesis using r(2) by (simp add: has_majority_def)
    qed
    have "big_val ?m \<noteq> 0" using ge r(2) by linarith
    then obtain j where "j \<in> set tops" using max_remaining_reached [of n el ts] by (auto simp: tops)
    then have "set tops = {i}" using maj has_majority_unique [OF i] by blast
    moreover have "distinct tops" by (simp add: tops_def top_remaining_def)
    ultimately have "tops = [i]" by (simp add: distinct_singleton)
    moreover have "int ?s < 2 * big_val ?m" using ge r(2) by linarith
    ultimately show ?thesis by (simp add: won_def tot div_two_less del: of_nat_sum)
  qed
  show "has_majority rankings n (set el) (tops ! 0)" if won
  proof -
    have "tops ! 0 \<in> set tops" using that by (auto simp: won_def)
    then have "tops ! 0 \<in> remaining n (set el)" "big_val (ts ! (tops ! 0)) = big_val ?m"
      by (auto simp: tops)
    moreover from this v [of "tops ! 0"] have "int ?s < 2 * int (?f (tops ! 0))"
      using that unfolding won_def tot div_two_less by (simp add: remaining_def del: of_nat_sum)
    then have "?s < 2 * ?f (tops ! 0)" by linarith
    ultimately show ?thesis by (simp add: has_majority_def)
  qed
qed

text \<open>The loop runs the specification, and its rounds record the order of elimination.\<close>

lemma remaining_singleton:
  assumes "remaining n out = {i}"
  shows "filter (\<lambda>i. i \<notin> out) [0..<n] = [i]"
proof -
  have "set (filter (\<lambda>i. i \<notin> out) [0..<n]) = {i}" using assms by (auto simp: remaining_def)
  then show ?thesis by (simp only: distinct_singleton distinct_filter distinct_upt)
qed

lemma card_remaining:
  assumes "distinct el" and "set el \<subseteq> {..<n}"
  shows "int (card (remaining n (set el))) = int n - int (length el)"
proof -
  have "remaining n (set el) = {..<n} - set el" by (auto simp: remaining_def)
  then have "card (remaining n (set el)) = n - length el"
    using assms by (simp add: card_Diff_subset distinct_card)
  moreover have "length el \<le> n"
    using assms by (metis card_lessThan card_mono distinct_card finite_lessThan)
  ultimately show ?thesis by simp
qed

lemma distinct_set_add: "distinct xs \<Longrightarrow> distinct (set_add x xs)"
  by (simp add: set_add_def distinct_insort)

lemma irv_loop_runs:
  assumes "length rankings < 2 ^ 63" and "distinct el" and "set el \<subseteq> {..<n}"
    and "remaining n (set el) \<noteq> {}"
  shows "\<exists>w es el' rs ts. irv_loop rankings n el round rounds = (int w, el', rounds @ rs, ts) \<and>
    irv_run rankings n (set el) w es \<and> set el' = set el \<union> set es \<and>
    map rr_eliminated rs = map Some es @ [None] \<and> rr_winner (last rs) = Some (int w)"
  using assms(2-)
proof (induction "card (remaining n (set el))" arbitrary: el round rounds rule: less_induct)
  case less
  let ?ts = "countFirstChoices rankings el n"
  let ?top = "top_remaining n el ?ts (max_remaining n el ?ts)"
  let ?won = "half (big_val (total_tally ?ts)) < big_val (max_remaining n el ?ts) \<and> length ?top = 1"
  let ?last = "int n - int (length el) = 1"
  note card = card_remaining [OF less.prems(1,2)]
  consider i where "has_majority rankings n (set el) i" "?won" "?top = [i]"
    | i where "\<not> ?won" "remaining n (set el) = {i}" "?last"
    | e where "\<not> ?won" "\<not> ?last" "\<nexists>i. has_majority rankings n (set el) i"
        "weakest rankings n (set el) e" "to_eliminate n el ?ts (total_tally ?ts) = Some e"
    using majority_test [OF assms(1)] to_eliminate_weakest [OF assms(1) less.prems(3)] card
    by (metis card_1_singletonE of_nat_eq_1_iff)
  then show ?case
  proof cases
    case 1
    then show ?thesis
      by (subst irv_loop.simps) (auto simp: Let_def intro: irv_run.majority)
  next
    case 2
    then show ?thesis using remaining_singleton [OF 2(2)]
      by (subst irv_loop.simps) (auto simp: Let_def first_index_def intro: irv_run.last_one)
  next
    case (3 e)
    have e: "e < n" "e \<notin> set el" using 3(4) by (auto simp: weakest_def remaining_def)
    let ?el = "set_add e el"
    let ?r = "\<lparr>rr_round = Suc round, rr_tallies = ?ts, rr_eliminated = Some e, rr_winner = None\<rparr>"
    have rem: "remaining n (set ?el) = remaining n (set el) - {e}" by (auto simp: remaining_def)
    have "e \<in> remaining n (set el)" "finite (remaining n (set el))"
      using 3(4) by (auto simp: weakest_def remaining_def)
    with rem have "card (remaining n (set ?el)) < card (remaining n (set el))"
      by (metis card_Diff1_less)
    moreover have "remaining n (set ?el) \<noteq> {}"
    proof
      assume "remaining n (set ?el) = {}"
      with rem less.prems(3) have "remaining n (set el) = {e}" by blast
      with card 3(2) show False by simp
    qed
    ultimately obtain w es el' rs ts where IH:
      "irv_loop rankings n ?el (Suc round) (rounds @ [?r]) = (int w, el', (rounds @ [?r]) @ rs, ts)"
      "irv_run rankings n (set ?el) w es" "set el' = set ?el \<union> set es"
      "map rr_eliminated rs = map Some es @ [None]" "rr_winner (last rs) = Some (int w)"
      using less.hyps [of ?el "Suc round" "rounds @ [?r]"] less.prems e
      by (fastforce simp: distinct_set_add)
    have "card (remaining n (set el)) \<noteq> 1" using card 3(2) by auto
    with 3(3,4) IH(2) have "irv_run rankings n (set el) w (e # es)"
      by (auto intro: irv_run.eliminate)
    moreover have "irv_loop rankings n el round rounds = (int w, el', rounds @ (?r # rs), ts)"
      using 3(1,2,5) IH(1) by (subst irv_loop.simps) (simp add: Let_def)
    moreover have "rs \<noteq> []" using IH(4) by auto
    ultimately show ?thesis using IH(3-5)
      by (intro exI [of _ w] exI [of _ "e # es"] exI [of _ el'] exI [of _ "?r # rs"] exI [of _ ts]) simp
  qed
qed

section \<open>Decrypted rankings\<close>

lemma map_res_set:
  "map_res f xs = Inr ys \<Longrightarrow> y \<in> set ys \<Longrightarrow> \<exists>x \<in> set xs. f x = Inr y"
  by (induction xs arbitrary: ys) (auto simp: bind_res_Inr_iff)

lemma length_map_res: "map_res f xs = Inr ys \<Longrightarrow> length ys = length xs"
  by (induction xs arbitrary: ys) (auto simp: bind_res_Inr_iff)

lemma ranked_choices_Inr:
  "n \<le> length e \<Longrightarrow> ranked_choices dec n e =
    Inr (filter (\<lambda>(i, rank). 0 < rank) (map (\<lambda>i. (i, rank_of (dec (e ! i)))) [0..<n]))"
  unfolding ranked_choices_def
  by (subst map_res_Inr [where g = "\<lambda>i. (i, rank_of (dec (e ! i)))"]) simp_all

lemma decryptRankings_Inr:
  "\<forall>(_, e) \<in> set votes. n \<le> length e \<Longrightarrow> decryptRankings srt dec votes n =
    Inr (map (\<lambda>(_, e). map fst (srt (filter (\<lambda>(i, rank). 0 < rank)
                (map (\<lambda>i. (i, rank_of (dec (e ! i)))) [0..<n])))) votes)"
  unfolding decryptRankings_def
  by (rule map_res_Inr) (auto simp: ranked_choices_Inr)

text \<open>\<open>std::sort\<close> by rank meets its contract; so do the sorts by tally.\<close>

interpretation rank_sort: std_sort by_rank "ins_sort by_rank"
proof -
  have "by_rank = (\<lambda>a b. snd a < snd b)" by (simp add: by_rank_def fun_eq_iff)
  then show "std_sort by_rank (ins_sort by_rank)" using std_sort_ins_sort [of "snd :: nat \<times> int \<Rightarrow> int"] by (simp only:)
qed

interpretation asc_sort: std_sort by_tally_asc "ins_sort by_tally_asc"
proof -
  have "by_tally_asc = (\<lambda>a b. big_val (snd a) < big_val (snd b))"
    by (simp add: by_tally_asc_def compareBigintBytes_iff fun_eq_iff)
  then show "std_sort by_tally_asc (ins_sort by_tally_asc)"
    using std_sort_ins_sort [of "\<lambda>p :: nat \<times> bytes. big_val (snd p)"] by (simp only:)
qed

interpretation desc_sort: std_sort by_tally_desc "ins_sort by_tally_desc"
proof -
  have "by_tally_desc = (\<lambda>a b. - big_val (snd a) < - big_val (snd b))"
    by (simp add: by_tally_desc_def compareBigintBytes_iff fun_eq_iff)
  then show "std_sort by_tally_desc (ins_sort by_tally_desc)"
    using std_sort_ins_sort [of "\<lambda>p :: nat \<times> bytes. - big_val (snd p)"] by (simp only:)
qed

section \<open>Single transferable vote\<close>

text \<open>
  The loop invariant: the elected are among the struck-off candidates (which is how the
  code keeps a candidate from being elected twice), and no candidate is listed twice.
\<close>

definition stv_ok :: "nat \<Rightarrow> nat list \<Rightarrow> nat list \<Rightarrow> bool" where
  "stv_ok n winners eliminated \<longleftrightarrow> distinct winners \<and> distinct eliminated \<and>
     set winners \<subseteq> set eliminated \<and> set eliminated \<subseteq> {..<n}"

lemma fold_set_add:
  "set (fold set_add xs ys) = set xs \<union> set ys"
  "distinct ys \<Longrightarrow> distinct (fold set_add xs ys)"
  by (induction xs arbitrary: ys) (auto simp: distinct_set_add)

lemma stv_ok_elect:
  assumes "stv_ok n winners eliminated"
    and "distinct xs" and "set xs \<subseteq> {i. i < n \<and> stv_open eliminated winners i}"
  shows "stv_ok n (winners @ xs) (fold set_add xs eliminated)"
  using assms by (auto simp: stv_ok_def stv_open_def fold_set_add)

lemma stv_ok_strike:
  "stv_ok n winners eliminated \<Longrightarrow> e < n \<Longrightarrow> stv_ok n winners (set_add e eliminated)"
  by (auto simp: stv_ok_def distinct_set_add)

text \<open>
  With a \<open>std::sort\<close> the loop returns, whatever the ballots; the result keeps the
  invariant, and every elected candidate reached the quota in some round's count.
\<close>

definition reached_quota :: "nat list list \<Rightarrow> int \<Rightarrow> nat \<Rightarrow> nat \<Rightarrow> bool" where
  "reached_quota rankings quota n w \<longleftrightarrow>
     (\<exists>el. quota \<le> big_val (countFirstChoices rankings el n ! w))"

context std_sort
begin

lemma hd_srt_in: "xs \<noteq> [] \<Longrightarrow> srt xs ! 0 \<in> set xs"
  by (metis length_0_conv length_srt neq0_conv nth_mem set_srt)

end

lemma stv_loop_returns:
  assumes "std_sort by_tally_asc srt" and "stv_ok n winners eliminated"
    and "\<forall>w \<in> set winners. reached_quota rankings quota n w"
  shows "\<exists>ws el rs. stv_loop srt rankings quota n winners eliminated round rounds = Some (ws, el, rs) \<and>
    stv_ok n ws el \<and> (\<forall>w \<in> set ws. reached_quota rankings quota n w)"
  using assms(2,3)
proof (induction "remaining_count n eliminated" arbitrary: winners eliminated round rounds rule: less_induct)
  case less
  let ?ts = "countFirstChoices rankings eliminated n"
  let ?met = "filter (\<lambda>i. stv_open eliminated winners i \<and> quota \<le> big_val (?ts ! i)) [0..<n]"
  let ?rem = "map (\<lambda>i. (i, ?ts ! i)) (filter (stv_open eliminated winners) [0..<n])"
  note unfold = stv_loop.simps [of srt rankings quota n winners eliminated round rounds]
  consider "\<not> (length winners < stv_seats n \<and> length eliminated < n)"
    | "length winners < stv_seats n \<and> length eliminated < n" "?met \<noteq> []"
    | "length winners < stv_seats n \<and> length eliminated < n" "?met = []" "?rem = []"
    | "length winners < stv_seats n \<and> length eliminated < n" "?met = []" "?rem \<noteq> []"
    by blast
  then show ?case
  proof cases
    case 1
    then show ?thesis using less.prems by (subst unfold) simp
  next
    case 2
    let ?el = "fold set_add ?met eliminated"
    obtain i where i: "i \<in> set ?met" using 2(2) by (metis hd_in_set)
    have "remaining_count n ?el < remaining_count n eliminated"
      using i by (intro remaining_count_less [of i]) (auto simp: fold_set_add stv_open_def)
    moreover have "stv_ok n (winners @ ?met) ?el"
      using less.prems(1) by (intro stv_ok_elect) auto
    moreover have "\<forall>w \<in> set (winners @ ?met). reached_quota rankings quota n w"
      using less.prems(2) by (auto simp: reached_quota_def)
    ultimately show ?thesis
      using 2 less.hyps by (subst unfold) (simp add: Let_def)
  next
    case 3
    then show ?thesis using less.prems by (subst unfold) (simp add: Let_def)
  next
    case 4
    let ?e = "fst (srt ?rem ! 0)"
    have "srt ?rem ! 0 \<in> set ?rem" using std_sort.hd_srt_in [OF assms(1) 4(3)] .
    then have e: "?e < n" "stv_open eliminated winners ?e" by auto
    have "remaining_count n (set_add ?e eliminated) < remaining_count n eliminated"
      using e by (intro remaining_count_less [of ?e]) (auto simp: stv_open_def)
    moreover have "stv_ok n winners (set_add ?e eliminated)"
      using less.prems(1) e(1) by (rule stv_ok_strike)
    ultimately show ?thesis
      using 4 less by (subst unfold) (simp add: Let_def)
  qed
qed

end
