(* ===== verification/NumberFacts.thy ===== *)
theory NumberFacts
  imports Prelude
begin

text \<open>
  The arithmetic the Paillier cryptosystem rests on, from the natural numbers of Main:
  primes, Fermat's little theorem, the exponent \<open>lcm (p - 1) (q - 1)\<close> modulo \<open>p * q\<close>, and
  powers of \<open>1 + k * n\<close> modulo \<open>n\<^sup>2\<close>.
\<close>

definition is_prime :: "nat \<Rightarrow> bool" where
  "is_prime p \<longleftrightarrow> 1 < p \<and> (\<forall>d \<in> {2..<p}. \<not> d dvd p)"

lemma is_prime_dvd: "is_prime p \<Longrightarrow> d dvd p \<Longrightarrow> d = 1 \<or> d = p"
proof -
  assume p: "is_prime p" and d: "d dvd p"
  then have "0 < d" "d \<le> p"
    by (auto simp: is_prime_def dest: dvd_imp_le intro: Nat.gr0I)
  with p d show ?thesis
    by (auto simp: is_prime_def)
qed

lemma prime_coprime: "is_prime p \<Longrightarrow> coprime p a \<longleftrightarrow> \<not> p dvd a"
proof -
  assume p: "is_prime p"
  have "gcd p a = 1 \<or> gcd p a = p" using p by (intro is_prime_dvd) auto
  with p show ?thesis
    by (metis coprime_iff_gcd_eq_1 gcd_nat.absorb_iff1 is_prime_def less_irrefl)
qed

lemma prime_dvd_binomial:
  assumes "is_prime p" and "0 < k" and "k < p"
  shows "p dvd p choose k"
proof -
  obtain k' where k: "k = Suc k'" using assms(2) gr0_implies_Suc by blast
  have "k * (p choose k) = p * (p - 1 choose k')"
    using binomial_absorption [of k' "p"] by (simp only: k)
  then have "p dvd k * (p choose k)" by simp
  moreover have "coprime p k"
    using assms by (auto simp: prime_coprime dest: dvd_imp_le)
  ultimately show ?thesis by (simp add: coprime_dvd_mult_right_iff)
qed

lemma fermat: "is_prime p \<Longrightarrow> (a ^ p) mod p = a mod p"
proof (induction a)
  case 0
  then show ?case by (simp add: is_prime_def zero_power)
next
  case (Suc a)
  have p: "0 < p" using Suc.prems by (simp add: is_prime_def)
  have split: "{..p} = insert 0 (insert p {0<..<p})" using p by auto
  have "(Suc a) ^ p = (\<Sum>k\<le>p. (p choose k) * a ^ k)"
    using binomial [of a 1 p] by simp
  also have "\<dots> = 1 + a ^ p + (\<Sum>k\<in>{0<..<p}. (p choose k) * a ^ k)"
    using p by (simp add: split)
  finally have *: "(Suc a) ^ p = 1 + a ^ p + (\<Sum>k\<in>{0<..<p}. (p choose k) * a ^ k)" .
  have "p dvd (\<Sum>k\<in>{0<..<p}. (p choose k) * a ^ k)"
    using Suc.prems by (intro dvd_sum dvd_mult2 prime_dvd_binomial) auto
  then obtain c where "(\<Sum>k\<in>{0<..<p}. (p choose k) * a ^ k) = p * c" by (rule dvdE)
  then have "(Suc a) ^ p mod p = (1 + a ^ p) mod p"
    by (simp add: *)
  also have "\<dots> = (1 + a) mod p"
    using Suc by (metis mod_add_right_eq)
  finally show ?case by simp
qed

lemma fermat_coprime:
  assumes "is_prime p" and "\<not> p dvd a"
  shows "(a ^ (p - 1)) mod p = 1"
proof -
  have p: "1 < p" using assms by (simp add: is_prime_def)
  have "a * a ^ (p - 1) = a ^ p" using p by (simp add: power_eq_if)
  then have "(a * a ^ (p - 1)) mod p = (a * 1) mod p"
    using fermat [OF assms(1), of a] by simp
  then have "int p dvd int a * (int (a ^ (p - 1)) - 1)"
    by (metis (no_types, opaque_lifting) int_ops(2) mod_eq_dvd_iff of_nat_mod of_nat_mult right_diff_distrib)
  moreover have "coprime (int p) (int a)"
    using assms by (simp add: prime_coprime)
  ultimately have "int p dvd int (a ^ (p - 1)) - int 1"
    by (simp add: coprime_dvd_mult_right_iff)
  then have "int (a ^ (p - 1)) mod int p = int 1 mod int p"
    by (simp only: mod_eq_dvd_iff)
  then have "int (a ^ (p - 1) mod p) = int (1 mod p)"
    by (simp only: of_nat_mod)
  with p show ?thesis by simp
qed

lemma power_mod_one: "(a::nat) mod n = 1 \<Longrightarrow> a ^ k mod n = 1 mod n"
  by (metis power_mod power_one)

lemma fermat_multiple:
  assumes "is_prime p" and "\<not> p dvd a" and "(p - 1) dvd e"
  shows "a ^ e mod p = 1"
proof -
  obtain k where "e = (p - 1) * k" using assms(3) by (auto elim: dvdE)
  then have "a ^ e = (a ^ (p - 1)) ^ k" by (simp add: power_mult)
  with power_mod_one [OF fermat_coprime [OF assms(1,2)]] assms(1) show ?thesis
    by (simp add: is_prime_def)
qed

lemma mod_one_mult:
  assumes "coprime (p::nat) q" and "a mod p = 1" and "a mod q = 1"
  shows "a mod (p * q) = 1 mod (p * q)"
proof -
  have "int p dvd int a - 1" "int q dvd int a - 1"
    using assms(2,3) by (metis mod_eq_dvd_iff mod_mod_trivial of_nat_1 of_nat_mod)+
  then have "int p * int q dvd int a - int 1"
    using assms(1) by (simp add: divides_mult)
  then have "int a mod int (p * q) = int 1 mod int (p * q)"
    by (simp only: mod_eq_dvd_iff of_nat_mult)
  then have "int (a mod (p * q)) = int (1 mod (p * q))"
    by (simp only: of_nat_mod)
  then show ?thesis by (simp only: of_nat_eq_iff)
qed

lemma carmichael:
  assumes "is_prime p" "is_prime q" "p \<noteq> q" "coprime r (p * q)"
  shows "r ^ lcm (p - 1) (q - 1) mod (p * q) = 1 mod (p * q)"
proof (rule mod_one_mult)
  have "\<not> p dvd q" using is_prime_dvd [OF assms(2), of p] assms(1,3) by (auto simp: is_prime_def)
  then show "coprime p q" using assms(1) by (simp add: prime_coprime)
  have "coprime p r" "coprime q r"
    using assms(4) by (simp_all add: coprime_mult_right_iff coprime_commute)
  then show "r ^ lcm (p - 1) (q - 1) mod p = 1" "r ^ lcm (p - 1) (q - 1) mod q = 1"
    using assms(1,2) by (simp_all only: prime_coprime fermat_multiple dvd_lcm1 dvd_lcm2 not_False_eq_True)
qed

text \<open>Powers of \<open>1 + k * n\<close> modulo \<open>n\<^sup>2\<close> are linear in the exponent.\<close>

lemma one_plus_power:
  "(1 + k * n) ^ m mod (n * n) = (1 + m * k * n) mod ((n::nat) * n)"
proof (induction m)
  case (Suc m)
  have "(1 + k * n) ^ Suc m mod (n * n) = (1 + k * n) * ((1 + k * n) ^ m mod (n * n)) mod (n * n)"
    by (simp only: power_Suc mod_mult_right_eq)
  also have "\<dots> = (1 + k * n) * (1 + m * k * n) mod (n * n)"
    by (simp only: Suc mod_mult_right_eq)
  also have "(1 + k * n) * (1 + m * k * n) = 1 + Suc m * k * n + (m * k * k) * (n * n)"
    by (simp add: algebra_simps)
  also have "(1 + Suc m * k * n + (m * k * k) * (n * n)) mod (n * n) = (1 + Suc m * k * n) mod (n * n)"
    by simp
  finally show ?case .
qed simp

lemma one_plus_mod:
  assumes "1 < (n::nat)"
  shows "(1 + a * n) mod (n * n) = 1 + (a mod n) * n"
proof -
  have "(1 + a * n) = (1 + (a mod n) * n) + (a div n) * (n * n)"
    by (metis (no_types, opaque_lifting) add.assoc add.commute div_mult_mod_eq mult.assoc distrib_right)
  moreover have "1 + (a mod n) * n < n * n"
  proof -
    have "a mod n < n" using assms by simp
    then have "a mod n \<le> n - 1" by linarith
    then have "(a mod n) * n \<le> (n - 1) * n" by (rule mult_le_mono1)
    moreover have "(n - 1) * n + 1 < n * n" using assms
      by (cases n) auto
    ultimately show ?thesis by linarith
  qed
  ultimately show ?thesis by simp
qed

end
