(* ===== verification/Paillier.thy ===== *)
theory Paillier
  imports Codec NumberFacts
begin

text \<open>
  \<open>paillier.cpp\<close>: the Paillier cryptosystem over OpenSSL big numbers. A \<open>BIGNUM\<close> is a
  natural number, and the \<open>BN_*\<close> calls the file makes are its arithmetic
  (\<open>BN_mod_exp\<close> is the power modulo, \<open>BN_div\<close> the quotient). Keys and ciphertexts are
  byte vectors, converted at the boundary as the file does. The random draw of
  \<open>BN_rand_range\<close> is a parameter \<open>r\<close> of encryption, and \<open>BN_mod_inverse\<close> a parameter
  of the key derivation with its documented law as a hypothesis.
\<close>

section \<open>Big numbers and bytes\<close>

definition bytes_to_bn :: "bytes \<Rightarrow> nat" where
  "bytes_to_bn bs = foldl (\<lambda>a b. a * 256 + unat b) 0 bs"

fun bn_digits :: "nat \<Rightarrow> bytes" where
  "bn_digits n = (if n = 0 then [] else bn_digits (n div 256) @ [of_nat (n mod 256)])"

declare bn_digits.simps [simp del]

text \<open>\<open>BN_bn2bin\<close> writes no leading zero byte; zero becomes a single zero byte.\<close>

definition bn_to_bytes :: "nat \<Rightarrow> bytes" where
  "bn_to_bytes n = (if n = 0 then [0] else bn_digits n)"

section \<open>Keys and operations\<close>

record PaillierPublicKey =
  pk_n :: bytes
  pk_g :: bytes
  pk_n2 :: bytes

definition mkPublicKey :: "bytes \<Rightarrow> bytes \<Rightarrow> PaillierPublicKey" where
  "mkPublicKey n g =
     \<lparr>pk_n = n, pk_g = g, pk_n2 = bn_to_bytes (bytes_to_bn n * bytes_to_bn n)\<rparr>"

definition encrypt :: "PaillierPublicKey \<Rightarrow> nat \<Rightarrow> bytes \<Rightarrow> bytes" where
  "encrypt pk r plaintext =
     (let g = bytes_to_bn (pk_g pk); m = bytes_to_bn plaintext;
          n = bytes_to_bn (pk_n pk); n2 = bytes_to_bn (pk_n2 pk);
          result = g ^ m mod n2;
          temp = r ^ n mod n2
      in bn_to_bytes (result * temp mod n2))"

definition addition :: "PaillierPublicKey \<Rightarrow> bytes list \<Rightarrow> bytes res" where
  "addition pk ciphertexts =
     (if ciphertexts = [] then Inl (InvalidArgument ''No ciphertexts provided'')
      else let n2 = bytes_to_bn (pk_n2 pk)
           in Inr (bn_to_bytes (foldl (\<lambda>result ct. result * bytes_to_bn ct mod n2) 1 ciphertexts)))"

definition plaintextAddition :: "PaillierPublicKey \<Rightarrow> bytes \<Rightarrow> bytes list \<Rightarrow> bytes" where
  "plaintextAddition pk ciphertext plaintexts =
     (let g = bytes_to_bn (pk_g pk); n2 = bytes_to_bn (pk_n2 pk)
      in bn_to_bytes
           (foldl (\<lambda>result pt. result * (g ^ bytes_to_bn pt mod n2) mod n2)
                  (bytes_to_bn ciphertext) plaintexts))"

text \<open>\<open>BN_set_word(bn_k, k)\<close> converts the \<open>int\<close> to an unsigned 64-bit word, sign-extended.\<close>

definition multiply :: "PaillierPublicKey \<Rightarrow> bytes \<Rightarrow> 32 word \<Rightarrow> bytes" where
  "multiply pk ciphertext k =
     bn_to_bytes (bytes_to_bn ciphertext ^ unat (scast k :: 64 word) mod bytes_to_bn (pk_n2 pk))"

record PaillierPrivateKey =
  sk_lambda :: bytes
  sk_mu :: bytes
  sk_public :: PaillierPublicKey
  sk_p :: bytes
  sk_q :: bytes

text \<open>
  \<open>L (c^lambda mod n\<^sup>2) * mu mod n\<close>. A power that is 0 gives \<open>BN_sub\<close> the value -1, whose
  truncated quotient by \<open>n\<close> is 0, as the subtraction of naturals gives.
\<close>

definition decrypt :: "PaillierPrivateKey \<Rightarrow> bytes \<Rightarrow> bytes" where
  "decrypt sk ciphertext =
     (let c = bytes_to_bn ciphertext; lambda = bytes_to_bn (sk_lambda sk);
          mu = bytes_to_bn (sk_mu sk); n = bytes_to_bn (pk_n (sk_public sk));
          n2 = bytes_to_bn (pk_n2 (sk_public sk));
          temp = c ^ lambda mod n2
      in bn_to_bytes ((temp - 1) div n * mu mod n))"

text \<open>Steps 4 to 7 of \<open>deriveVotingKeysFromECDH\<close>, from the two primes.\<close>

definition derive_keys ::
  "(nat \<Rightarrow> nat \<Rightarrow> nat) \<Rightarrow> nat \<Rightarrow> nat \<Rightarrow> PaillierPublicKey \<times> PaillierPrivateKey" where
  "derive_keys mod_inverse p q =
     (let n = p * q;
          lambda = (p - 1) * (q - 1) div gcd (p - 1) (q - 1);
          g = n + 1;
          n_squared = n * n;
          g_lambda = g ^ lambda mod n_squared;
          l = (g_lambda - 1) div n;
          mu = mod_inverse l n;
          publicKey = mkPublicKey (bn_to_bytes n) (bn_to_bytes g)
      in (publicKey,
          \<lparr>sk_lambda = bn_to_bytes lambda, sk_mu = bn_to_bytes mu, sk_public = publicKey,
           sk_p = bn_to_bytes p, sk_q = bn_to_bytes q\<rparr>))"

definition mod_inverse_law :: "(nat \<Rightarrow> nat \<Rightarrow> nat) \<Rightarrow> bool" where
  "mod_inverse_law minv \<longleftrightarrow> (\<forall>a n. 1 < n \<longrightarrow> coprime a n \<longrightarrow> a * minv a n mod n = 1)"

section \<open>Primality testing\<close>

text \<open>\<open>while (!BN_is_odd(d)) { BN_rshift1(d, d); r++; }\<close>, which loops on \<open>d = 0\<close>.\<close>

partial_function (option) strip_twos :: "nat \<Rightarrow> nat \<Rightarrow> (nat \<times> nat) option" where
  "strip_twos d r = (if odd d then Some (d, r) else strip_twos (d div 2) (Suc r))"

text \<open>The squaring loop: whether it found \<open>n - 1\<close> before 1 and before running out.\<close>

fun mr_squarings :: "nat \<Rightarrow> nat \<Rightarrow> nat \<Rightarrow> bool" where
  "mr_squarings 0 n x = False"
| "mr_squarings (Suc k) n x =
     (let x' = x * x mod n in
      if x' = 1 then False else if x' = n - 1 then True else mr_squarings k n x')"

definition mr_witnesses :: "nat list" where
  "mr_witnesses = [2, 3, 5, 7, 11, 13, 17, 19, 23, 29, 31, 37]"

definition miller_rabin_test :: "nat \<Rightarrow> nat \<Rightarrow> bool option" where
  "miller_rabin_test n iterations =
     (case strip_twos (n - 1) 0 of
        None \<Rightarrow> None
      | Some (d, r) \<Rightarrow>
          Some (list_all (\<lambda>a. let x = a ^ d mod n in
                    x = 1 \<or> x = n - 1 \<or> mr_squarings (r - 1) n x)
                  (take iterations mr_witnesses)))"

section \<open>Conversions\<close>

lemma bytes_to_bn_Nil [simp]: "bytes_to_bn [] = 0"
  by (simp add: bytes_to_bn_def)

lemma bytes_to_bn_snoc [simp]: "bytes_to_bn (bs @ [b]) = bytes_to_bn bs * 256 + unat b"
  by (simp add: bytes_to_bn_def)

lemma bytes_to_bn_digits: "bytes_to_bn (bn_digits n) = n"
proof (induction n rule: bn_digits.induct)
  case (1 n)
  have "unat (of_nat (n mod 256) :: byte) = n mod 256"
    by (simp add: unat_of_nat)
  with 1 show ?case
    by (subst bn_digits.simps) (simp add: div_mult_mod_eq)
qed

lemma bytes_to_bn_zero [simp]: "bytes_to_bn [0] = 0"
  by (simp add: bytes_to_bn_def)

lemma bytes_to_bn_bn_to_bytes [simp]: "bytes_to_bn (bn_to_bytes n) = n"
  by (simp add: bn_to_bytes_def bytes_to_bn_digits)

lemma bn_to_bytes_inj: "bn_to_bytes a = bn_to_bytes b \<longleftrightarrow> a = b"
  by (metis bytes_to_bn_bn_to_bytes)

lemma bn_to_bytes_small: "n < 256 \<Longrightarrow> bn_to_bytes n = [of_nat n]"
  by (simp add: bn_to_bytes_def bn_digits.simps [of n] bn_digits.simps [of 0])

section \<open>Decryption inverts encryption\<close>

text \<open>A key pair whose modulus and exponents satisfy the equations decryption relies on.\<close>

definition key_ok :: "PaillierPrivateKey \<Rightarrow> bool" where
  "key_ok sk \<longleftrightarrow>
     (let n = bytes_to_bn (pk_n (sk_public sk)); lambda = bytes_to_bn (sk_lambda sk) in
        1 < n \<and> bytes_to_bn (pk_n2 (sk_public sk)) = n * n \<and>
        bytes_to_bn (pk_g (sk_public sk)) = n + 1 \<and>
        lambda mod n * bytes_to_bn (sk_mu sk) mod n = 1 \<and>
        (\<forall>r. coprime r n \<longrightarrow> r ^ lambda mod n = 1))"

text \<open>The number a ciphertext hides: \<open>c = (n + 1)^m * r^n\<close> modulo \<open>n\<^sup>2\<close>.\<close>

definition hides :: "nat \<Rightarrow> nat \<Rightarrow> nat \<Rightarrow> bool" where
  "hides n c m \<longleftrightarrow>
     (\<exists>r. coprime r n \<and> c mod (n * n) = (n + 1) ^ m * r ^ n mod (n * n))"

lemma blinding_vanishes:
  assumes "r ^ lambda mod n = 1" and "1 < n"
  shows "(r ^ n) ^ lambda mod (n * n) = 1"
proof -
  obtain k where "r ^ lambda = 1 + k * n"
    using assms(1) by (metis div_mult_mod_eq add.commute)
  then have "(r ^ n) ^ lambda mod (n * n) = (1 + k * n) ^ n mod (n * n)"
    by (metis power_mult mult.commute)
  also have "\<dots> = (1 + k * (n * n)) mod (n * n)"
    by (simp only: one_plus_power) (simp add: ac_simps)
  also have "\<dots> = 1 mod (n * n)" by (rule mod_mult_self1)
  also have "\<dots> = 1" using less_1_mult [OF assms(2) assms(2)] by (rule mod_less)
  finally show ?thesis .
qed

lemma hides_power:
  assumes "hides n c m" and "1 < n" and "\<And>r. coprime r n \<Longrightarrow> r ^ lambda mod n = 1"
  shows "c ^ lambda mod (n * n) = 1 + (lambda * m mod n) * n"
proof -
  obtain r where r: "coprime r n" "c mod (n * n) = (n + 1) ^ m * r ^ n mod (n * n)"
    using assms(1) by (auto simp: hides_def)
  have "c ^ lambda mod (n * n) = ((n + 1) ^ m * r ^ n) ^ lambda mod (n * n)"
    by (metis power_mod r(2))
  also have "\<dots> = (n + 1) ^ (m * lambda) * ((r ^ n) ^ lambda mod (n * n)) mod (n * n)"
    by (simp add: power_mult_distrib power_mult mod_mult_right_eq)
  also have "\<dots> = (1 + 1 * n) ^ (m * lambda) mod (n * n)"
    using blinding_vanishes [of r lambda n] assms(2,3) r(1) by (simp add: add.commute)
  also have "\<dots> = (1 + lambda * m * n) mod (n * n)"
    by (simp only: one_plus_power) (simp add: ac_simps)
  also have "\<dots> = 1 + (lambda * m mod n) * n"
    using assms(2) by (rule one_plus_mod)
  finally show ?thesis .
qed

lemma decrypt_hides:
  assumes "key_ok sk" and "hides (bytes_to_bn (pk_n (sk_public sk))) (bytes_to_bn c) m"
  shows "decrypt sk c = bn_to_bytes (m mod bytes_to_bn (pk_n (sk_public sk)))"
proof -
  define n where "n = bytes_to_bn (pk_n (sk_public sk))"
  define l where "l = bytes_to_bn (sk_lambda sk)"
  define mu where "mu = bytes_to_bn (sk_mu sk)"
  have n: "1 < n" and n2: "bytes_to_bn (pk_n2 (sk_public sk)) = n * n"
    and mu: "l mod n * mu mod n = 1" and car: "\<And>r. coprime r n \<Longrightarrow> r ^ l mod n = 1"
    using assms(1) by (auto simp: key_ok_def Let_def n_def l_def mu_def)
  have "bytes_to_bn c ^ l mod (n * n) = 1 + (l * m mod n) * n"
    using assms(2) n car unfolding n_def [symmetric] by (rule hides_power)
  then have "decrypt sk c = bn_to_bytes ((l * m mod n) * n div n * mu mod n)"
    by (simp add: decrypt_def Let_def n2 flip: n_def l_def mu_def)
  also have "(l * m mod n) * n div n = l * m mod n"
    using n by simp
  also have "(l * m mod n) * mu mod n = (l * mu mod n) * m mod n"
    by (metis mod_mult_left_eq mult.assoc mult.commute)
  also have "l * mu mod n = 1" using mu by (simp add: mod_mult_left_eq)
  finally show ?thesis by (simp add: n_def)
qed

lemma hides_encrypt:
  assumes "key_ok sk" and "coprime r (bytes_to_bn (pk_n (sk_public sk)))"
  shows "hides (bytes_to_bn (pk_n (sk_public sk)))
    (bytes_to_bn (encrypt (sk_public sk) r m)) (bytes_to_bn m)"
  using assms
  by (auto simp: key_ok_def hides_def encrypt_def Let_def mod_mult_eq intro!: exI [of _ r])

lemma hides_mult:
  assumes "hides n a i" and "hides n b j"
  shows "hides n (a * b) (i + j)"
proof -
  obtain r s where r: "coprime r n" "a mod (n * n) = (n + 1) ^ i * r ^ n mod (n * n)"
    and s: "coprime s n" "b mod (n * n) = (n + 1) ^ j * s ^ n mod (n * n)"
    using assms by (auto simp: hides_def)
  have "a * b mod (n * n) = ((n + 1) ^ i * r ^ n) * ((n + 1) ^ j * s ^ n) mod (n * n)"
    by (metis mod_mult_eq r(2) s(2))
  also have "((n + 1) ^ i * r ^ n) * ((n + 1) ^ j * s ^ n) = (n + 1) ^ (i + j) * (r * s) ^ n"
    by (simp add: power_add power_mult_distrib ac_simps)
  finally show ?thesis
    using r(1) s(1) by (auto simp: hides_def intro!: exI [of _ "r * s"])
qed

lemma hides_one: "hides n 1 0"
  by (auto simp: hides_def intro!: exI [of _ 1])

lemma hides_mod: "hides n (c mod (n * n)) m \<longleftrightarrow> hides n c m"
  by (simp add: hides_def)

lemma hides_fold:
  "list_all2 (\<lambda>ct m. hides n (bytes_to_bn ct) m) cts ms \<Longrightarrow> hides n a i \<Longrightarrow>
   hides n (foldl (\<lambda>result ct. result * bytes_to_bn ct mod (n * n)) a cts) (i + sum_list ms)"
proof (induction cts arbitrary: ms a i)
  case (Cons ct cts)
  then obtain m ms' where ms: "ms = m # ms'" and ct: "hides n (bytes_to_bn ct) m"
    and rest: "list_all2 (\<lambda>ct m. hides n (bytes_to_bn ct) m) cts ms'"
    by (auto simp: list_all2_Cons1)
  have "hides n (a * bytes_to_bn ct mod (n * n)) (i + m)"
    using hides_mult [OF Cons.prems(2) ct] by (simp add: hides_mod)
  from Cons.IH [OF rest this] show ?case by (simp add: ms add.assoc)
qed simp

lemma hides_addition:
  assumes "key_ok sk" and "addition (sk_public sk) cts = Inr c"
    and "list_all2 (\<lambda>ct m. hides (bytes_to_bn (pk_n (sk_public sk))) (bytes_to_bn ct) m) cts ms"
  shows "hides (bytes_to_bn (pk_n (sk_public sk))) (bytes_to_bn c) (sum_list ms)"
  using assms hides_fold [OF assms(3) hides_one]
  by (auto simp: addition_def key_ok_def Let_def split: if_splits)

lemma hides_plaintext: "hides n ((n + 1) ^ m mod (n * n)) m"
  by (auto simp: hides_def intro!: exI [of _ 1])

lemma hides_fold_plain:
  "hides n a i \<Longrightarrow>
   hides n (foldl (\<lambda>result pt. result * ((n + 1) ^ bytes_to_bn pt mod (n * n)) mod (n * n)) a pts)
     (i + sum_list (map bytes_to_bn pts))"
proof (induction pts arbitrary: a i)
  case (Cons pt pts)
  have "hides n (a * ((n + 1) ^ bytes_to_bn pt mod (n * n)) mod (n * n)) (i + bytes_to_bn pt)"
    unfolding hides_mod by (rule hides_mult [OF Cons.prems hides_plaintext])
  from Cons.IH [OF this] show ?case by (simp add: add.assoc)
qed simp

lemma hides_times: "hides n c m \<Longrightarrow> hides n (c ^ k) (k * m)"
  by (induction k) (auto simp: hides_one [unfolded One_nat_def] intro: hides_mult)

lemma hides_plaintextAddition:
  assumes "key_ok sk" and "hides (bytes_to_bn (pk_n (sk_public sk))) (bytes_to_bn c) m"
  shows "hides (bytes_to_bn (pk_n (sk_public sk)))
    (bytes_to_bn (plaintextAddition (sk_public sk) c pts)) (m + sum_list (map bytes_to_bn pts))"
  using assms hides_fold_plain [OF assms(2), of pts]
  by (simp add: plaintextAddition_def key_ok_def Let_def)

lemma hides_multiply:
  assumes "key_ok sk" and "hides (bytes_to_bn (pk_n (sk_public sk))) (bytes_to_bn c) m"
  shows "hides (bytes_to_bn (pk_n (sk_public sk)))
    (bytes_to_bn (multiply (sk_public sk) c k)) (unat (scast k :: 64 word) * m)"
  using assms hides_times [OF assms(2)]
  by (simp add: multiply_def key_ok_def Let_def hides_mod)

lemma derive_keys_ok:
  assumes p: "is_prime p" and q: "is_prime q" and "p \<noteq> q"
    and cop: "coprime (p * q) ((p - 1) * (q - 1))" and minv: "mod_inverse_law minv"
  shows "key_ok (snd (derive_keys minv p q))"
proof -
  define n where "n = p * q"
  define l where "l = lcm (p - 1) (q - 1)"
  have l: "(p - 1) * (q - 1) div gcd (p - 1) (q - 1) = l"
    by (simp add: l_def lcm_nat_def)
  have n: "1 < n" using p q by (metis is_prime_def less_1_mult n_def)
  have L: "((n + 1) ^ l mod (n * n) - 1) div n = l mod n"
    using one_plus_power [of 1 n l] one_plus_mod [OF n, of l] n by (simp add: add.commute)
  have "l dvd (p - 1) * (q - 1)" by (simp add: l_def)
  then have "coprime n l"
    using cop unfolding n_def by (meson coprime_divisors dvd_refl)
  then have "coprime (l mod n) n" using n by (simp add: coprime_commute coprime_mod_right_iff)
  then have "l mod n * minv (l mod n) n mod n = 1"
    using minv n by (simp add: mod_inverse_law_def)
  moreover have "r ^ l mod n = 1" if "coprime r n" for r
    using carmichael [OF p q assms(3), of r] that mod_less [OF n] by (simp only: n_def l_def)
  moreover have "snd (derive_keys minv p q) =
      \<lparr>sk_lambda = bn_to_bytes l, sk_mu = bn_to_bytes (minv (l mod n) n),
       sk_public = mkPublicKey (bn_to_bytes n) (bn_to_bytes (n + 1)),
       sk_p = bn_to_bytes p, sk_q = bn_to_bytes q\<rparr>"
    by (simp only: derive_keys_def Let_def l n_def [symmetric] L snd_conv)
  ultimately show ?thesis
    using n by (simp add: key_ok_def Let_def mkPublicKey_def)
qed

section \<open>Miller and Rabin's test accepts every prime\<close>

lemma strip_twos_spec:
  "0 < d \<Longrightarrow> \<exists>d' r'. strip_twos d r = Some (d', r') \<and> odd d' \<and> r \<le> r' \<and> d = d' * 2 ^ (r' - r)"
proof (induction d arbitrary: r rule: less_induct)
  case (less d)
  show ?case
  proof (cases "odd d")
    case True
    then show ?thesis by (simp add: strip_twos.simps [of d])
  next
    case False
    then have "d div 2 < d" "0 < d div 2" using less.prems by (auto elim: evenE)
    have step: "strip_twos d r = strip_twos (d div 2) (Suc r)"
      using False by (simp add: strip_twos.simps [of d])
    from less.IH [OF \<open>d div 2 < d\<close> \<open>0 < d div 2\<close>, of "Suc r"] obtain d' r' where
      IH: "strip_twos (d div 2) (Suc r) = Some (d', r')" "odd d'" "Suc r \<le> r'"
        "d div 2 = d' * 2 ^ (r' - Suc r)" by blast
    have "d = d div 2 * 2" using False by simp
    also have "\<dots> = d' * 2 ^ (Suc (r' - Suc r))" by (simp add: IH(4))
    also have "Suc (r' - Suc r) = r' - r" using IH(3) by simp
    finally have "d = d' * 2 ^ (r' - r)" .
    with step IH(1-3) show ?thesis by (metis Suc_leD)
  qed
qed

lemma prime_sqrt_one:
  assumes p: "is_prime p" and "x < p" and "x * x mod p = 1"
  shows "x = 1 \<or> x = p - 1"
proof -
  have "x \<noteq> 0" using assms(3) by (cases "x = 0") auto
  then have sq: "x * x - 1 = (x - 1) * (x + 1)" by (cases x) (auto simp: algebra_simps)
  have "p dvd x * x - 1"
    using assms(3) \<open>x \<noteq> 0\<close> by (metis dvd_minus_mod)
  then have "p dvd (x - 1) * (x + 1)" by (simp only: sq)
  then have "p dvd x - 1 \<or> p dvd x + 1"
    by (metis prime_coprime [OF p] coprime_dvd_mult_right_iff)
  then show ?thesis
  proof
    assume "p dvd x - 1"
    then have "x - 1 = 0" using assms(2) by (metis dvd_imp_le less_imp_diff_less not_gr_zero not_le)
    with \<open>x \<noteq> 0\<close> show ?thesis by simp
  next
    assume "p dvd x + 1"
    then have "p \<le> x + 1" by (rule dvd_imp_le) simp
    with assms(2) have "x = p - 1" by linarith
    then show ?thesis ..
  qed
qed

lemma mr_squarings_prime:
  "is_prime n \<Longrightarrow> x < n \<Longrightarrow> x \<noteq> 1 \<Longrightarrow> x \<noteq> n - 1 \<Longrightarrow> x ^ (2 ^ Suc k) mod n = 1 \<Longrightarrow>
     mr_squarings k n x"
proof (induction k arbitrary: x)
  case 0
  then show ?case using prime_sqrt_one [of n x] by (simp add: power2_eq_square)
next
  case (Suc k)
  have "x * x mod n \<noteq> 1" using prime_sqrt_one [of n x] Suc.prems by blast
  moreover have "x * x mod n < n" using Suc.prems(2) by simp
  moreover have "(x * x mod n) ^ (2 ^ Suc k) mod n = 1"
  proof -
    have "(x * x) ^ (2 ^ Suc k) = x ^ (2 ^ Suc (Suc k))"
      by (simp add: power_mult_distrib flip: power_add mult_2)
    with Suc.prems(5) show ?thesis by (simp only: power_mod)
  qed
  ultimately show ?case using Suc by (auto simp: Let_def)
qed

lemma miller_rabin_accepts:
  assumes p: "is_prime p" and big: "37 < p"
  shows "miller_rabin_test p iterations = Some True"
proof -
  obtain d r where dr: "strip_twos (p - 1) 0 = Some (d, r)" "odd d" "p - 1 = d * 2 ^ r"
    using strip_twos_spec [of "p - 1" 0] big by auto
  have "odd p" using is_prime_dvd [OF p, of 2] big by auto
  have "r \<noteq> 0"
  proof
    assume "r = 0"
    then have "odd (p - 1)" using dr(2,3) by simp
    with \<open>odd p\<close> show False by simp
  qed
  have ok: "a ^ d mod p = 1 \<or> a ^ d mod p = p - 1 \<or> mr_squarings (r - 1) p (a ^ d mod p)"
    if "a \<in> set mr_witnesses" for a
  proof -
    have "0 < a" "a < p" using that big by (auto simp: mr_witnesses_def)
    then have "\<not> p dvd a" by (auto dest: dvd_imp_le)
    then have "a ^ (d * 2 ^ r) mod p = 1" using fermat_coprime [OF p] dr(3) by simp
    then have "(a ^ d mod p) ^ (2 ^ Suc (r - 1)) mod p = 1"
      using \<open>r \<noteq> 0\<close> by (simp add: power_mod power_mult)
    then show ?thesis
      using mr_squarings_prime [OF p, of "a ^ d mod p" "r - 1"] big by auto
  qed
  show ?thesis
    using ok dr(1) by (auto simp: miller_rabin_test_def Let_def list_all_iff dest!: in_set_takeD)
qed

end
