(* ===== verification/VoteEncoding.thy ===== *)
theory VoteEncoding
  imports Polls BigintBytes Paillier
begin

text \<open>
  \<open>vote_encoder.cpp\<close>: turning a choice, a set of choices, a weight or a ranking into one
  ciphertext per choice. \<open>enc i\<close> is the \<open>i\<close>-th call of the voting public key's
  \<open>encrypt\<close> during one encoding, so that each call has its own random draw; for the
  Paillier key \<open>pk\<close> it is \<open>encrypt pk (rs i)\<close> with \<open>rs i\<close> that call's draw.
\<close>

section \<open>Encoders\<close>

definition encodePlurality :: "(nat \<Rightarrow> bytes \<Rightarrow> bytes) \<Rightarrow> int \<Rightarrow> int \<Rightarrow> EncryptedVote" where
  "encodePlurality enc choiceIndex choiceCount =
     empty_vote\<lparr>v_choiceIndex := Some choiceIndex,
       v_encrypted := map (\<lambda>i. enc i (intToBytes (if int i = choiceIndex then 1 else 0)))
                        [0..<nat choiceCount]\<rparr>"

definition encodeApproval :: "(nat \<Rightarrow> bytes \<Rightarrow> bytes) \<Rightarrow> int list \<Rightarrow> int \<Rightarrow> EncryptedVote" where
  "encodeApproval enc choices choiceCount =
     empty_vote\<lparr>v_choices := Some choices,
       v_encrypted := map (\<lambda>i. enc i (intToBytes (if int i \<in> set choices then 1 else 0)))
                        [0..<nat choiceCount]\<rparr>"

definition encodeWeighted :: "(nat \<Rightarrow> bytes \<Rightarrow> bytes) \<Rightarrow> int \<Rightarrow> bytes \<Rightarrow> int \<Rightarrow> EncryptedVote" where
  "encodeWeighted enc choiceIndex weight choiceCount =
     empty_vote\<lparr>v_choiceIndex := Some choiceIndex, v_weight := Some weight,
       v_encrypted := map (\<lambda>i. enc i (if int i = choiceIndex then weight else intToBytes 0))
                        [0..<nat choiceCount]\<rparr>"

text \<open>
  \<open>encrypted[rankings[rank]] = cipher(rank)\<close> for each rank in turn; a choice outside the
  vector is an out-of-range write.
\<close>

fun put_ranks :: "(nat \<Rightarrow> bytes) \<Rightarrow> nat \<Rightarrow> int list \<Rightarrow> bytes list \<Rightarrow> bytes list res" where
  "put_ranks cipher rank [] encrypted = Inr encrypted"
| "put_ranks cipher rank (c # cs) encrypted =
     (if 0 \<le> c \<and> c < int (length encrypted)
      then put_ranks cipher (Suc rank) cs (encrypted[nat c := cipher rank])
      else Inl UndefinedBehaviour)"

definition encode_zeros :: "(nat \<Rightarrow> bytes \<Rightarrow> bytes) \<Rightarrow> int \<Rightarrow> bytes list" where
  "encode_zeros enc choiceCount = map (\<lambda>i. enc i (intToBytes 0)) [0..<nat choiceCount]"

definition encodeBorda :: "(nat \<Rightarrow> bytes \<Rightarrow> bytes) \<Rightarrow> int list \<Rightarrow> int \<Rightarrow> EncryptedVote res" where
  "encodeBorda enc rankings choiceCount =
     (let points = int (length rankings) in
      bind_res (put_ranks (\<lambda>rank. enc (nat choiceCount + rank) (intToBytes (word_of_int (points - int rank))))
                  0 rankings (encode_zeros enc choiceCount))
        (\<lambda>encrypted. Inr (empty_vote\<lparr>v_rankings := Some rankings, v_encrypted := encrypted\<rparr>)))"

definition encodeRankedChoice :: "(nat \<Rightarrow> bytes \<Rightarrow> bytes) \<Rightarrow> int list \<Rightarrow> int \<Rightarrow> EncryptedVote res" where
  "encodeRankedChoice enc rankings choiceCount =
     bind_res (put_ranks (\<lambda>rank. enc (nat choiceCount + rank) (intToBytes (word_of_int (int rank + 1))))
                 0 rankings (encode_zeros enc choiceCount))
       (\<lambda>encrypted. Inr (empty_vote\<lparr>v_rankings := Some rankings, v_encrypted := encrypted\<rparr>))"

definition encode ::
  "(nat \<Rightarrow> bytes \<Rightarrow> bytes) \<Rightarrow> VotingMethod \<Rightarrow> int option \<Rightarrow> int list option \<Rightarrow> int list option \<Rightarrow>
   bytes option \<Rightarrow> int \<Rightarrow> EncryptedVote res" where
  "encode enc method choiceIndex choices rankings weight choiceCount =
     (case method of
        Plurality \<Rightarrow>
          (case choiceIndex of None \<Rightarrow> Inl (InvalidArgument ''Choice required'')
           | Some c \<Rightarrow> Inr (encodePlurality enc c choiceCount))
      | Approval \<Rightarrow>
          (case choices of None \<Rightarrow> Inl (InvalidArgument ''Choices required'')
           | Some cs \<Rightarrow> Inr (encodeApproval enc cs choiceCount))
      | Weighted \<Rightarrow>
          (case (choiceIndex, weight) of
             (Some c, Some w) \<Rightarrow> Inr (encodeWeighted enc c w choiceCount)
           | _ \<Rightarrow> Inl (InvalidArgument ''Choice and weight required''))
      | Borda \<Rightarrow>
          (case rankings of None \<Rightarrow> Inl (InvalidArgument ''Rankings required'')
           | Some rs \<Rightarrow> encodeBorda enc rs choiceCount)
      | RankedChoice \<Rightarrow>
          (case rankings of None \<Rightarrow> Inl (InvalidArgument ''Rankings required'')
           | Some rs \<Rightarrow> encodeRankedChoice enc rs choiceCount)
      | Quadratic \<Rightarrow>
          (case (choiceIndex, weight) of
             (Some c, Some w) \<Rightarrow> Inr (encodeWeighted enc c w choiceCount)
           | _ \<Rightarrow> Inl (InvalidArgument ''Choice and weight required''))
      | Consensus \<Rightarrow>
          (case choiceIndex of None \<Rightarrow> Inl (InvalidArgument ''Choice required'')
           | Some c \<Rightarrow> Inr (encodePlurality enc c choiceCount))
      | ConsentBased \<Rightarrow>
          (case choiceIndex of None \<Rightarrow> Inl (InvalidArgument ''Choice required'')
           | Some c \<Rightarrow> Inr (encodeWeighted enc c
               (case weight of Some w \<Rightarrow> w | None \<Rightarrow> intToBytes 1) choiceCount))
      | _ \<Rightarrow> Inl (InvalidArgument ''Unknown voting method''))"

section \<open>What a key pair promises the encoders\<close>

text \<open>
  Decrypting an encrypted one-byte plaintext gives the byte back. This is all the counts of
  single choices and of rankings of fewer than 256 choices need.
\<close>

locale vote_cipher =
  fixes enc :: "nat \<Rightarrow> bytes \<Rightarrow> bytes"
    and dec :: "bytes \<Rightarrow> bytes"
  assumes dec_enc: "dec (enc i [b]) = [b]"
begin

lemma dec_enc_small:
  "v < 256 \<Longrightarrow> dec (enc i (intToBytes (of_nat v))) = [of_nat v]"
proof -
  assume v: "v < 256"
  have "intToBytes (of_nat v) = [of_nat v]"
  proof (cases "v = 0")
    case False
    have u: "unat (of_nat v :: int64) = v"
      using v by (simp add: unat_of_nat)
    then have nz: "(of_nat v :: int64) \<noteq> 0" using False by auto
    have "unat (drop_bit 8 (of_nat v :: int64)) = 0"
      by (simp only: unat_drop_8 u) (use v in simp)
    then have d: "drop_bit 8 (of_nat v :: int64) = 0" by (simp only: unat_eq_0)
    have s: "sint (of_nat v :: int64) = int v"
      using v by (simp add: signed_of_nat signed_take_bit_int_eq_self)
    have l: "ucast ((of_nat v :: int64) AND 255) = (of_nat v :: byte)"
      using byte_of_0 [of "of_nat v :: int64"] v
      by (simp add: byte_of_def unsigned_of_nat take_bit_nat_eq_self)
    show ?thesis
      unfolding intToBytes_def Let_def s
      using nz by (simp add: magnitude_bytes.simps [of "of_nat v"] magnitude_bytes.simps [of 0] d l
        del: drop_bit_numeral_minus_bit1)
  qed (simp add: intToBytes_def)
  then show ?thesis by (simp add: dec_enc)
qed

lemma dec_zero: "dec (enc i (intToBytes 0)) = [0]"
  using dec_enc_small [of 0 i] by simp

lemma dec_one: "dec (enc i (intToBytes 1)) = [1]"
  using dec_enc_small [of 1 i] by simp

lemma decrypt_plurality:
  "map dec (v_encrypted (encodePlurality enc c k)) =
     map (\<lambda>i. if int i = c then [1] else [0]) [0..<nat k]"
  by (simp add: encodePlurality_def dec_zero dec_one)

lemma decrypt_approval:
  "map dec (v_encrypted (encodeApproval enc cs k)) =
     map (\<lambda>i. if int i \<in> set cs then [1] else [0]) [0..<nat k]"
  by (simp add: encodeApproval_def dec_zero dec_one)

end

section \<open>Rankings\<close>

lemma put_ranks_spec:
  "\<lbrakk>distinct cs; \<forall>c \<in> set cs. 0 \<le> c \<and> c < int (length xs)\<rbrakk> \<Longrightarrow>
   \<exists>ys. put_ranks cipher r cs xs = Inr ys \<and> length ys = length xs \<and>
     (\<forall>j < length cs. ys ! nat (cs ! j) = cipher (r + j)) \<and>
     (\<forall>i < length xs. int i \<notin> set cs \<longrightarrow> ys ! i = xs ! i)"
proof (induction cs arbitrary: r xs)
  case (Cons c cs)
  let ?xs = "xs[nat c := cipher r]"
  have c: "0 \<le> c" "c < int (length xs)" using Cons.prems by auto
  from Cons.prems obtain ys where ys: "put_ranks cipher (Suc r) cs ?xs = Inr ys"
      "length ys = length xs"
      "\<And>j. j < length cs \<Longrightarrow> ys ! nat (cs ! j) = cipher (Suc r + j)"
      "\<And>i. i < length xs \<Longrightarrow> int i \<notin> set cs \<Longrightarrow> ys ! i = ?xs ! i"
    using Cons.IH [of ?xs "Suc r"] by auto
  have "ys ! nat ((c # cs) ! j) = cipher (r + j)" if "j < length (c # cs)" for j
  proof (cases j)
    case 0
    then show ?thesis using ys(4) [of "nat c"] c Cons.prems(1) by simp
  next
    case (Suc j')
    then show ?thesis using ys(3) [of j'] that by simp
  qed
  moreover have "ys ! i = xs ! i" if "i < length xs" "int i \<notin> set (c # cs)" for i
    using ys(4) [of i] that c by (auto simp: nth_list_update)
  ultimately show ?case using ys(1,2) c by auto
qed simp

lemma put_ranks_bad:
  "c \<in> set cs \<Longrightarrow> \<not> (0 \<le> c \<and> c < int (length xs)) \<Longrightarrow>
     put_ranks cipher r cs xs = Inl UndefinedBehaviour"
  by (induction cs arbitrary: r xs) auto

context vote_cipher
begin

text \<open>A ranking of distinct choices decrypts to its ranks, counted from 1, and to 0 elsewhere.\<close>

lemma decrypt_ranked:
  assumes "distinct rs" and "\<forall>c \<in> set rs. 0 \<le> c \<and> c < k" and "length rs < 256"
  obtains v where "encodeRankedChoice enc rs k = Inr v" "length (v_encrypted v) = nat k"
    "\<And>j. j < length rs \<Longrightarrow> dec (v_encrypted v ! nat (rs ! j)) = [of_nat (Suc j)]"
    "\<And>i. i < nat k \<Longrightarrow> int i \<notin> set rs \<Longrightarrow> dec (v_encrypted v ! i) = [0]"
proof -
  let ?cipher = "\<lambda>rank. enc (nat k + rank) (intToBytes (word_of_int (int rank + 1)))"
  have len: "length (encode_zeros enc k) = nat k" by (simp add: encode_zeros_def)
  have "\<forall>c \<in> set rs. 0 \<le> c \<and> c < int (length (encode_zeros enc k))"
    using assms(2) by (auto simp: len)
  from put_ranks_spec [OF assms(1) this, of ?cipher 0] obtain ys where
    ys: "put_ranks ?cipher 0 rs (encode_zeros enc k) = Inr ys" "length ys = nat k"
      "\<And>j. j < length rs \<Longrightarrow> ys ! nat (rs ! j) = ?cipher j"
      "\<And>i. i < nat k \<Longrightarrow> int i \<notin> set rs \<Longrightarrow> ys ! i = encode_zeros enc k ! i"
    by (auto simp: len)
  have w: "word_of_int (int j + 1) = (of_nat (Suc j) :: int64)" for j
    by (simp add: add.commute)
  show thesis
  proof (rule that [of "empty_vote\<lparr>v_rankings := Some rs, v_encrypted := ys\<rparr>"])
    show "encodeRankedChoice enc rs k = Inr (empty_vote\<lparr>v_rankings := Some rs, v_encrypted := ys\<rparr>)"
      using ys(1) by (simp add: encodeRankedChoice_def)
  next
    fix j assume "j < length rs"
    then show "dec (v_encrypted (empty_vote\<lparr>v_rankings := Some rs, v_encrypted := ys\<rparr>) ! nat (rs ! j)) = [of_nat (Suc j)]"
      using dec_enc_small [of "Suc j"] assms(3) ys(3) [of j] by (simp only: w EncryptedVote.simps) simp
  next
    fix i assume "i < nat k" "int i \<notin> set rs"
    then show "dec (v_encrypted (empty_vote\<lparr>v_rankings := Some rs, v_encrypted := ys\<rparr>) ! i) = [0]"
      using ys(4) [of i] dec_zero by (simp add: encode_zeros_def)
  qed (simp add: ys(2))
qed

end

section \<open>The Paillier key pair is such a cipher\<close>

locale paillier_keys =
  fixes sk :: PaillierPrivateKey
    and rs :: "nat \<Rightarrow> nat"
  assumes key: "key_ok sk"
    and room: "256 \<le> bytes_to_bn (pk_n (sk_public sk))"
    and draws: "coprime (rs i) (bytes_to_bn (pk_n (sk_public sk)))"
begin

lemma decrypt_encrypt_byte: "decrypt sk (encrypt (sk_public sk) (rs i) [b]) = [b]"
proof -
  have m: "bytes_to_bn [b] = unat b" by (simp add: bytes_to_bn_def)
  have "unat b < 256" by (rule unat_byte_bound)
  then have "unat b mod bytes_to_bn (pk_n (sk_public sk)) = unat b" using room by simp
  then show ?thesis
    using decrypt_hides [OF key hides_encrypt [OF key draws]] bn_to_bytes_small [of "unat b"]
    by (simp add: m unat_byte_bound)
qed

end

sublocale paillier_keys \<subseteq> cipher: vote_cipher "\<lambda>i. encrypt (sk_public sk) (rs i)" "decrypt sk"
  by unfold_locales (rule decrypt_encrypt_byte)

text \<open>
  \<open>BN_mod_inverse\<close> as the extended Euclidean algorithm of Main computes it, and the keys
  derived from the primes 17 and 19: an instance of the hypotheses on keys.
\<close>

definition euclid_inverse :: "nat \<Rightarrow> nat \<Rightarrow> nat" where
  "euclid_inverse a n = nat (fst (bezw a n) mod int n)"

lemma euclid_inverse_law: "mod_inverse_law euclid_inverse"
  unfolding mod_inverse_law_def
proof (intro allI impI)
  fix a n :: nat
  assume n: "1 < n" and "coprime a n"
  then have "fst (bezw a n) * int a + snd (bezw a n) * int n = 1"
    using bezw_aux [of a n] by simp
  then have "int n dvd int a * fst (bezw a n) - 1"
    by (metis add_diff_cancel_left' diff_add_eq dvd_triv_right dvd_minus_iff minus_diff_eq mult.commute)
  then have "int a * (fst (bezw a n) mod int n) mod int n = 1 mod int n"
    by (simp add: mod_mult_right_eq mod_eq_dvd_iff)
  then have "int (a * euclid_inverse a n mod n) = int 1"
    using n by (simp add: euclid_inverse_def zmod_int)
  then show "a * euclid_inverse a n mod n = 1" by (simp only: of_nat_eq_iff)
qed

definition sample_key :: PaillierPrivateKey where
  "sample_key = snd (derive_keys euclid_inverse 17 19)"

lemma sample_primes: "is_prime 17" "is_prime 19"
  by (simp_all add: is_prime_def atLeastLessThan_nat_numeral)

lemma sample_key_modulus: "bytes_to_bn (pk_n (sk_public sample_key)) = 323"
  by (simp add: sample_key_def derive_keys_def Let_def mkPublicKey_def)

lemma sample_coprime: "coprime (17 * 19 :: nat) ((17 - 1) * (19 - 1))"
  by (simp only: coprime_iff_gcd_eq_1) code_simp

interpretation sample: paillier_keys sample_key "\<lambda>_. 1"
proof unfold_locales
  show "key_ok sample_key"
    unfolding sample_key_def
    by (rule derive_keys_ok [OF sample_primes _ sample_coprime euclid_inverse_law]) simp
qed (simp_all add: sample_key_modulus)

end
