(* ===== verification/PollRuns.thy ===== *)
theory PollRuns
  imports Polls
begin

text \<open>
  Runs of a poll: any sequence of \<open>vote\<close> and \<open>close\<close> calls with what each returned or threw, the votes
  that were accepted in it, and what a ballot has to be for each voting method.
\<close>

section \<open>Runs\<close>

datatype poll_op =
    CastVote "bytes \<Rightarrow> bytes res" timestamp bytes member EncryptedVote
  | ClosePoll timestamp

datatype poll_result = Receipt VoteReceipt | ClosedOk | Failed cpp_error

fun poll_do :: "poll_op \<Rightarrow> Poll \<Rightarrow> poll_result \<times> Poll" where
  "poll_do (CastVote sign now nonce voter v) p = (case vote sign now nonce voter v p of
     (Inl e, q) \<Rightarrow> (Failed e, q) | (Inr r, q) \<Rightarrow> (Receipt r, q))"
| "poll_do (ClosePoll now) p = (case close now p of (Inl e, q) \<Rightarrow> (Failed e, q) | (Inr u, q) \<Rightarrow> (ClosedOk, q))"

fun poll_run :: "poll_op list \<Rightarrow> Poll \<Rightarrow> poll_result list \<times> Poll" where
  "poll_run [] p = ([], p)"
| "poll_run (c # cs) p = (let (r, q) = poll_do c p; (rs, s) = poll_run cs q in (r # rs, s))"

text \<open>The accepted votes: the voter's key, the ciphertexts and the receipt of each.\<close>

fun accepted :: "poll_op \<Rightarrow> poll_result \<Rightarrow> (string \<times> bytes list \<times> VoteReceipt) list" where
  "accepted (CastVote sign now nonce voter v) (Receipt r) = [(toKey (m_idBytes voter), v_encrypted v, r)]"
| "accepted c r = []"

definition accepted_votes :: "poll_op list \<Rightarrow> poll_result list \<Rightarrow> (string \<times> bytes list \<times> VoteReceipt) list" where
  "accepted_votes cs rs = concat (map2 accepted cs rs)"

lemma poll_run_append:
  "poll_run (cs @ ds) p = (let (rs, q) = poll_run cs p; (rs', s) = poll_run ds q in (rs @ rs', s))"
  by (induction cs arbitrary: p) (auto simp: Let_def case_prod_beta)

lemma length_poll_run: "length (fst (poll_run cs p)) = length cs"
  by (induction cs arbitrary: p) (auto simp: Let_def case_prod_beta)

lemma poll_do_step: "poll_step p (snd (poll_do c p))"
proof (cases c)
  case (CastVote sign now nonce voter v)
  have "snd (poll_do c p) = snd (vote sign now nonce voter v p)"
    by (simp add: CastVote case_prod_beta split: sum.split)
  then show ?thesis by (simp add: poll_step.intros)
next
  case (ClosePoll now)
  have "snd (poll_do c p) = snd (close now p)" by (simp add: ClosePoll case_prod_beta split: sum.split)
  then show ?thesis by (simp add: poll_step.intros)
qed

lemma poll_run_reach: "poll_reach p (snd (poll_run cs p))"
proof (induction cs rule: rev_induct)
  case (snoc c cs)
  then show ?case using poll_do_step
    by (auto simp: poll_run_append Let_def case_prod_beta intro: poll_reach.step)
qed (simp add: poll_reach.refl)

text \<open>Nothing changes a closed poll, and everything fails on it.\<close>

lemma poll_run_closed:
  "isClosed p \<Longrightarrow> snd (poll_run cs p) = p \<and> (\<forall>r \<in> set (fst (poll_run cs p)). \<exists>e. r = Failed e)"
proof (induction cs)
  case (Cons c cs)
  have "\<exists>e. poll_do c p = (Failed e, p)" using Cons.prems by (cases c) (simp_all add: vote_def close_def)
  with Cons show ?case by (auto simp: Let_def case_prod_beta)
qed simp

lemma poll_run_after_close:
  assumes "i < length cs" and "fst (poll_run cs p) ! i = ClosedOk"
  shows "snd (poll_run cs p) = snd (poll_run (take (Suc i) cs) p) \<and>
    (\<forall>j < length cs. i < j \<longrightarrow> (\<exists>e. fst (poll_run cs p) ! j = Failed e))"
proof -
  let ?p = "snd (poll_run (take i cs) p)" and ?q = "snd (poll_run (take (Suc i) cs) p)"
  have front: "poll_run (take (Suc i) cs) p = (fst (poll_run (take i cs) p) @ [fst (poll_do (cs ! i) ?p)], snd (poll_do (cs ! i) ?p))"
    using assms(1) by (simp add: take_Suc_conv_app_nth poll_run_append Let_def case_prod_beta)
  have all: "poll_run cs p = (fst (poll_run (take (Suc i) cs) p) @ fst (poll_run (drop (Suc i) cs) ?q), snd (poll_run (drop (Suc i) cs) ?q))"
    by (subst append_take_drop_id [of "Suc i" cs, symmetric], subst poll_run_append) (simp add: Let_def case_prod_beta)
  have len: "length (fst (poll_run (take (Suc i) cs) p)) = Suc i" using assms(1) by (simp add: length_poll_run)
  have "fst (poll_do (cs ! i) ?p) = ClosedOk"
    using assms by (simp add: all front nth_append length_poll_run)
  then have closed: "isClosed ?q"
    unfolding front by (cases "cs ! i") (auto simp: close_def isClosed_def split: prod.splits sum.splits if_splits)
  have "\<exists>e. fst (poll_run cs p) ! j = Failed e" if "i < j" "j < length cs" for j
  proof -
    have "fst (poll_run cs p) ! j = fst (poll_run (drop (Suc i) cs) ?q) ! (j - (Suc i))"
      using that len by (simp add: all nth_append)
    moreover have "j - (Suc i) < length (fst (poll_run (drop (Suc i) cs) ?q))"
      using that by (simp add: length_poll_run)
    ultimately show ?thesis using poll_run_closed [OF closed] nth_mem by metis
  qed
  moreover have "snd (poll_run cs p) = ?q" using poll_run_closed [OF closed] by (simp add: all)
  ultimately show ?thesis by blast
qed

section \<open>Ballots\<close>

text \<open>What a vote has to carry; the choice of a weighted vote is not looked at, and the other methods have no rule.\<close>

definition ballot_form :: "Poll \<Rightarrow> EncryptedVote \<Rightarrow> bool" where
  "ballot_form p v \<longleftrightarrow> v_encrypted v \<noteq> [] \<and>
     (p_method p = Plurality \<longrightarrow>
        (\<exists>c. v_choiceIndex v = Some c \<and> c \<in> {0..<int (length (p_choices p))})) \<and>
     (p_method p = Approval \<longrightarrow>
        (\<exists>cs. v_choices v = Some cs \<and> cs \<noteq> [] \<and> set cs \<subseteq> {0..<int (length (p_choices p))})) \<and>
     (p_method p = Weighted \<longrightarrow>
        (\<exists>c w. v_choiceIndex v = Some c \<and> v_weight v = Some w \<and> w \<noteq> [] \<and>
           (\<forall>mw. p_maxWeight p = Some mw \<longrightarrow> \<not> weight_less mw w))) \<and>
     (p_method p \<in> {Borda, RankedChoice} \<longrightarrow>
        (\<exists>rs. v_rankings v = Some rs \<and> rs \<noteq> [] \<and> distinct rs \<and> set rs \<subseteq> {0..<int (length (p_choices p))}))"

lemma validateVote_iff: "validateVote p v = Inr () \<longleftrightarrow> ballot_form p v"
proof -
  have "valid_choice p c \<longleftrightarrow> c \<in> {0..<int (length (p_choices p))}" for c by (auto simp: valid_choice_def)
  then show ?thesis
    by (cases "p_method p")
      (auto simp: validate_simps ballot_form_def list_all_iff split: option.splits if_splits)
qed

definition same_setup :: "Poll \<Rightarrow> Poll \<Rightarrow> bool" where
  "same_setup p q \<longleftrightarrow> p_id q = p_id p \<and> p_choices q = p_choices p \<and> p_method q = p_method p \<and>
     p_maxWeight q = p_maxWeight p"

lemma poll_reach_setup: "poll_reach p q \<Longrightarrow> same_setup p q"
  by (induction rule: poll_reach.induct) (auto simp: same_setup_def dest: poll_step_frame)

lemma ballot_form_setup: "same_setup p q \<Longrightarrow> ballot_form q v = ballot_form p v"
  by (simp add: same_setup_def ballot_form_def)

text \<open>When a vote is accepted.\<close>

lemma vote_accepted_iff:
  "(\<exists>r q. vote sign now nonce voter v p = (Inr r, q)) \<longleftrightarrow>
     \<not> isClosed p \<and> map_of (p_receipts p) (toKey (m_idBytes voter)) = None \<and> ballot_form p v \<and>
     (\<exists>s. sign (m_idBytes voter @ p_id p @ le_bytes 8 now @ nonce) = Inr s)"
proof -
  let ?d = "m_idBytes voter @ p_id p @ le_bytes 8 now @ nonce"
  have "(\<exists>r q. vote sign now nonce voter v p = (Inr r, q)) \<longleftrightarrow>
      \<not> isClosed p \<and> map_of (p_receipts p) (toKey (m_idBytes voter)) = None \<and> validateVote p v = Inr () \<and>
      (\<exists>s. sign ?d = Inr s)"
    by (cases "sign ?d") (auto simp: vote_def generateReceipt_def receiptData_def Let_def split: sum.splits)
  then show ?thesis by (simp add: validateVote_iff)
qed

section \<open>The invariant of runs\<close>

text \<open>
  The receipts of the poll are those of the accepted votes, no two of one voter; their ballots are
  stored; and every ballot that is stored was cast by a vote that is well formed.
\<close>

definition run_ok :: "Poll \<Rightarrow> poll_op list \<Rightarrow> (string \<times> bytes list \<times> VoteReceipt) list \<Rightarrow> Poll \<Rightarrow> bool" where
  "run_ok p cs as q \<longleftrightarrow> distinct (map fst as) \<and>
     map_of (p_receipts q) = map_of (map (\<lambda>(k, b, r). (k, r)) as) \<and>
     (\<forall>(k, b, r) \<in> set as. map_of (p_votes q) k = Some b) \<and>
     (\<forall>k b. map_of (p_votes q) k = Some b \<longrightarrow> (\<exists>sign now nonce voter v.
        CastVote sign now nonce voter v \<in> set cs \<and> k = toKey (m_idBytes voter) \<and> b = v_encrypted v \<and> ballot_form p v))"

lemma run_ok_more: "run_ok p cs as q \<Longrightarrow> run_ok p (cs @ [c]) as q"
  unfolding run_ok_def by simp blast

text \<open>The outcomes of a vote.\<close>

lemma vote_outcomes [case_names refused unsigned signed]:
  fixes sign now nonce voter v p
  defines "k \<equiv> toKey (m_idBytes voter)"
  obtains e where "vote sign now nonce voter v p = (Inl e, p)"
  | e where "map_of (p_receipts p) k = None" "ballot_form p v"
      "vote sign now nonce voter v p = (Inl e, p\<lparr>p_votes := map_put k (v_encrypted v) (p_votes p)\<rparr>)"
  | r where "map_of (p_receipts p) k = None" "ballot_form p v"
      "vote sign now nonce voter v p = (Inr r, p\<lparr>p_votes := map_put k (v_encrypted v) (p_votes p),
         p_receipts := map_put k r (p_receipts p)\<rparr>)"
proof -
  let ?p = "p\<lparr>p_votes := map_put k (v_encrypted v) (p_votes p)\<rparr>"
  show thesis
  proof (cases "isClosed p \<or> map_of (p_receipts p) k \<noteq> None \<or> validateVote p v \<noteq> Inr ()")
    case True
    then have "\<exists>e. vote sign now nonce voter v p = (Inl e, p)"
      by (cases "validateVote p v") (auto simp: vote_def k_def Let_def)
    then show thesis using that(1) by blast
  next
    case False
    then show thesis using that(2,3)
      by (cases "generateReceipt sign now nonce voter ?p")
        (auto simp: vote_def k_def Let_def simp flip: validateVote_iff)
  qed
qed

lemma map_add_single: "m k = None \<Longrightarrow> [k \<mapsto> v] ++ m = m(k \<mapsto> v)"
  by (auto simp: map_add_def fun_eq_iff split: option.split)

lemma not_accepted: "run_ok p cs as q \<Longrightarrow> map_of (p_receipts q) k = None \<Longrightarrow> k \<notin> fst ` set as"
  by (auto simp: run_ok_def map_of_eq_None_iff image_iff case_prod_beta)

lemma run_ok_stored:
  assumes "run_ok p cs as q" and "map_wf (p_votes q)" and "same_setup p q"
    and "map_of (p_receipts q) (toKey (m_idBytes voter)) = None" and "ballot_form q v"
  shows "run_ok p (cs @ [CastVote sign now nonce voter v]) as
    (q\<lparr>p_votes := map_put (toKey (m_idBytes voter)) (v_encrypted v) (p_votes q)\<rparr>)" (is "run_ok p ?cs as ?q")
proof -
  let ?k = "toKey (m_idBytes voter)"
  have new: "?k \<notin> fst ` set as" using assms(1,4) by (rule not_accepted)
  have form: "ballot_form p v" using assms(3,5) by (simp add: ballot_form_setup)
  have votes: "map_of (p_votes ?q) = (map_of (p_votes q))(?k \<mapsto> v_encrypted v)"
    using assms(2) by (simp add: container_simps)
  have "map_of (p_votes ?q) k = Some b" if "(k, b, r) \<in> set as" for k b r
    using assms(1) new that unfolding votes run_ok_def by force
  moreover have "\<exists>sign now nonce voter v. CastVote sign now nonce voter v \<in> set ?cs \<and> k = toKey (m_idBytes voter) \<and>
      b = v_encrypted v \<and> ballot_form p v" if "map_of (p_votes ?q) k = Some b" for k b
  proof (cases "k = ?k")
    case True
    moreover have "CastVote sign now nonce voter v \<in> set ?cs" by simp
    moreover have "b = v_encrypted v" using that True unfolding votes by simp
    ultimately show ?thesis using form by blast
  next
    case False
    with that have "map_of (p_votes q) k = Some b" unfolding votes by simp
    with assms(1) show ?thesis unfolding run_ok_def by (metis UnI1 set_append)
  qed
  ultimately show ?thesis using assms(1) unfolding run_ok_def by auto
qed

lemma run_ok_do:
  assumes "run_ok p cs as q" and "poll_ok q" and "same_setup p q" and "poll_do c q = (r, s)"
  shows "run_ok p (cs @ [c]) (as @ accepted c r) s"
proof (cases c)
  case (CastVote sign now nonce voter v)
  have wf: "map_wf (p_votes q)" "map_wf (p_receipts q)" using assms(2) by (simp_all add: poll_ok_def)
  let ?k = "toKey (m_idBytes voter)"
  show ?thesis
  proof (cases rule: vote_outcomes [of sign now nonce voter v q])
    case (refused e)
    then show ?thesis using assms(1,4) by (auto simp: CastVote intro: run_ok_more)
  next
    case (unsigned e)
    then show ?thesis using assms(4) run_ok_stored [OF assms(1) wf(1) assms(3) unsigned(1,2)] by (auto simp: CastVote)
  next
    case (signed r')
    let ?q = "q\<lparr>p_votes := map_put ?k (v_encrypted v) (p_votes q)\<rparr>"
    have "run_ok p (cs @ [c]) as ?q" using run_ok_stored [OF assms(1) wf(1) assms(3) signed(1,2)] by (simp add: CastVote)
    moreover have "?k \<notin> fst ` set as" by (rule not_accepted [OF assms(1) signed(1)])
    moreover have "r = Receipt r'" "s = ?q\<lparr>p_receipts := map_put ?k r' (p_receipts ?q)\<rparr>"
      using assms(4) signed(3) by (auto simp: CastVote)
    moreover have "map_of (map (\<lambda>(k, b, r). (k, r)) as) ?k = None" "map_of (p_receipts q) = map_of (map (\<lambda>(k, b, r). (k, r)) as)"
      using assms(1) signed(1) by (simp_all add: run_ok_def)
    moreover have "map_of (p_votes ?q) ?k = Some (v_encrypted v)" using wf by (simp add: container_simps)
    ultimately show ?thesis using wf
      unfolding run_ok_def by (auto simp: CastVote container_simps map_add_single)
  qed
next
  case (ClosePoll now)
  then show ?thesis using assms(1,4)
    by (auto simp: close_def run_ok_def split: if_splits) 
qed

lemma run_ok_count:
  assumes "run_ok p cs as q" and "poll_ok q"
  shows "voterCount q = length as"
proof -
  have "distinct (map fst (p_receipts q))" using assms(2) by (auto simp: poll_ok_def map_wf_distinct)
  then have "length (p_receipts q) = card (dom (map_of (p_receipts q)))"
    by (metis distinct_card dom_map_of_conv_image_fst length_map set_map)
  also have "dom (map_of (p_receipts q)) = fst ` set as"
    using assms(1) by (auto simp: run_ok_def dom_map_of_conv_image_fst image_image case_prod_beta)
  also have "card (fst ` set as) = length as"
    using assms(1) by (metis distinct_card length_map run_ok_def set_map)
  finally show ?thesis by (simp add: voterCount_def)
qed

lemma poll_run_ok:
  assumes "p_votes p = []" and "p_receipts p = []"
  shows "run_ok p cs (accepted_votes cs (fst (poll_run cs p))) (snd (poll_run cs p))"
proof (induction cs rule: rev_induct)
  case Nil
  then show ?case using assms by (simp add: run_ok_def accepted_votes_def)
next
  case (snoc c cs)
  let ?q = "snd (poll_run cs p)"
  have "poll_ok p" using assms by (simp add: poll_ok_def)
  then have "poll_ok ?q" "same_setup p ?q" using poll_run_reach poll_reach_ok poll_reach_setup by blast+
  from run_ok_do [OF snoc this, of c "fst (poll_do c ?q)" "snd (poll_do c ?q)"] show ?case
    by (simp add: poll_run_append Let_def case_prod_beta accepted_votes_def length_poll_run)
qed

end
