(* ===== verification/VotingProperties.thy ===== *)
theory VotingProperties
  imports RunoffFacts VoteEncoding PollRuns
begin

text \<open>
  The properties of the voting subsystem: the life of a poll, the soundness of its
  cryptography and of its encodings, and the outcome of its counts, end to end from the
  voters' choices to the declared winners.
\<close>

section \<open>Sample data for the witnesses\<close>

definition sample_authority :: member where
  "sample_authority = \<lparr>m_idBytes = [7], m_votingPublicKey = True, m_votingPrivateKey = True\<rparr>"

definition sample_voter :: "byte \<Rightarrow> member" where
  "sample_voter i = \<lparr>m_idBytes = [i], m_votingPublicKey = True, m_votingPrivateKey = False\<rparr>"

definition sample_sign :: "bytes \<Rightarrow> bytes res" where
  "sample_sign d = Inr (0x55 # d)"

definition sample_verify :: "bytes \<Rightarrow> bytes \<Rightarrow> bool" where
  "sample_verify d s \<longleftrightarrow> s = 0x55 # d"

definition sample_poll :: "VotingMethod \<Rightarrow> Poll" where
  "sample_poll m = \<lparr>p_id = [1, 2], p_choices = [''A'', ''B''], p_method = m,
     p_authority = sample_authority, p_votes = [], p_receipts = [], p_createdAt = 5,
     p_closedAt = None, p_maxWeight = None\<rparr>"

definition sample_ballot :: EncryptedVote where
  "sample_ballot = empty_vote\<lparr>v_choiceIndex := Some 1, v_rankings := Some [1, 0],
     v_encrypted := [[3], [4]]\<rparr>"

definition voted_poll :: "VotingMethod \<Rightarrow> Poll" where
  "voted_poll m = snd (vote sample_sign 9 [8] (sample_voter 1) sample_ballot (sample_poll m))"

lemma sample_poll_made:
  "mkPoll 5 [1, 2] [''A'', ''B''] Plurality sample_authority None False = Inr (sample_poll Plurality)"
  by (simp add: mkPoll_def sample_poll_def sample_authority_def hasVotingKeys_def getSecurityLevel_cases)

lemma sample_poll_ok: "poll_ok (sample_poll m)"
  by (simp add: poll_ok_def sample_poll_def)

lemmas vote_eval = vote_def isClosed_def validateVote_def validate_method_def valid_choice_def
  generateReceipt_def sample_poll_def sample_ballot_def empty_vote_def sample_sign_def
  sample_voter_def Let_def

section \<open>The life of a poll\<close>

text \<open>
  C7: one vote per voter, and none after the close. Take a poll made by the constructor through any
  sequence of calls of \<open>vote\<close> and \<open>close\<close>, those that throw included. No two accepted votes are of one
  voter; the receipts the poll holds are exactly those it handed out, the number of voters it reports is
  the number of accepted votes, and the ballot of each is stored. From the first \<open>close\<close> that succeeds
  on, every call throws and nothing in the poll changes. A voter may have a ballot without a receipt, when
  signing it failed, so it is at most one receipt that a ballot has.
\<close>

theorem poll_invariant:
  assumes "mkPoll now pollId choices method authority maxWeight allowInsecure = Inr p"
    and "poll_run calls p = (results, q)" and "votes = accepted_votes calls results"
  shows "distinct (map fst votes) \<and>
    map_of (p_receipts q) = map_of (map (\<lambda>(voterId, ballot, receipt). (voterId, receipt)) votes) \<and>
    voterCount q = length votes \<and>
    (\<forall>(voterId, ballot, receipt) \<in> set votes. map_of (getEncryptedVotes q) voterId = Some ballot) \<and>
    (\<forall>i < length calls. results ! i = ClosedOk \<longrightarrow> q = snd (poll_run (take (i + 1) calls) p) \<and>
       (\<forall>j < length calls. i < j \<longrightarrow> (\<exists>e. results ! j = Failed e)))"
proof -
  have "p_votes p = []" "p_receipts p = []" using assms(1) by (auto simp: mkPoll_def bind_res_Inr_iff split: if_splits)
  from poll_run_ok [OF this, of calls] have ok: "run_ok p calls votes q" using assms(2,3) by simp
  have "poll_ok q" using poll_run_reach [of p calls] poll_reach_ok mkPoll_ok [OF assms(1)] assms(2) by simp
  then have "voterCount q = length votes" by (rule run_ok_count [OF ok])
  moreover have "q = snd (poll_run (take (i + 1) calls) p) \<and> (\<forall>j < length calls. i < j \<longrightarrow> (\<exists>e. results ! j = Failed e))"
    if "i < length calls" "results ! i = ClosedOk" for i
    using poll_run_after_close [OF that(1), of p] assms(2) that(2) by simp
  ultimately show ?thesis using ok by (auto simp: run_ok_def getEncryptedVotes_def)
qed

definition sample_calls :: "poll_op list" where
  "sample_calls = [CastVote sample_sign 9 [8] (sample_voter 1) sample_ballot,
     CastVote sample_sign 9 [8] (sample_voter 1) sample_ballot, ClosePoll 11,
     CastVote sample_sign 9 [8] (sample_voter 2) sample_ballot]"

theorem poll_invariant_witness:
  "voterCount (snd (poll_run sample_calls (sample_poll Plurality))) = 1 \<and>
   snd (poll_run sample_calls (sample_poll Plurality)) = snd (poll_run (take 3 sample_calls) (sample_poll Plurality))"
proof -
  obtain rs q where r: "poll_run sample_calls (sample_poll Plurality) = (rs, q)" by fastforce
  have one: "length (accepted_votes sample_calls rs) = 1"
    using r by (auto simp: sample_calls_def vote_eval close_def accepted_votes_def container_simps)
  have third: "rs ! 2 = ClosedOk" using r by (auto simp: sample_calls_def vote_eval close_def)
  have "2 < length sample_calls" by (simp add: sample_calls_def)
  with third have "q = snd (poll_run (take (2 + 1) sample_calls) (sample_poll Plurality))" "voterCount q = 1"
    using poll_invariant [OF sample_poll_made r HOL.refl] unfolding one by blast+
  then show ?thesis by (simp add: r)
qed

text \<open>
  C8: once a voter holds a receipt, no later sequence of operations changes that receipt or
  the ballot stored for the voter, and every further vote of the same voter is refused and
  leaves the poll as it was.
\<close>

theorem ballot_final:
  assumes "poll_ok p" and "vote sign now nonce voter v p = (Inr r, q)" and "poll_reach q s"
  shows "map_of (p_receipts s) (toKey (m_idBytes voter)) = Some r \<and>
    map_of (p_votes s) (toKey (m_idBytes voter)) = Some (v_encrypted v) \<and>
    (\<exists>e. vote sign' now' nonce' voter v' s = (Inl e, s))"
proof -
  let ?k = "toKey (m_idBytes voter)"
  note v = vote_Inr [OF assms(2)]
  have "poll_ok q" using vote_ok [OF assms(1), of sign now nonce voter v] assms(2) by simp
  moreover have q: "map_of (p_receipts q) ?k = Some r" "map_of (p_votes q) ?k = Some (v_encrypted v)"
    using v assms(1) by (auto simp: poll_ok_def container_simps)
  ultimately have s: "map_of (p_receipts s) ?k = Some r" "map_of (p_votes s) ?k = map_of (p_votes q) ?k"
    using poll_reach_keeps [OF assms(3)] by blast+
  have "\<exists>e. vote sign' now' nonce' voter v' s = (Inl e, s)"
    by (cases "isClosed s") (simp_all add: vote_def Let_def s(1))
  with s q(2) show ?thesis by simp
qed

theorem ballot_final_witness:
  "map_of (p_votes (snd (close 11 (voted_poll Plurality)))) (toKey [1]) = Some [[3], [4]]"
proof -
  obtain r where "vote sample_sign 9 [8] (sample_voter 1) sample_ballot (sample_poll Plurality) =
      (Inr r, voted_poll Plurality)"
    by (simp add: voted_poll_def vote_eval)
  moreover have "poll_reach (voted_poll Plurality) (snd (close 11 (voted_poll Plurality)))"
    by (blast intro: poll_reach.intros poll_step.intros)
  ultimately have "map_of (p_votes (snd (close 11 (voted_poll Plurality))))
      (toKey (m_idBytes (sample_voter 1))) = Some (v_encrypted sample_ballot)"
    using ballot_final [OF sample_poll_ok] by blast
  then show ?thesis by (simp add: sample_voter_def sample_ballot_def)
qed

text \<open>
  Closing is final. A closed poll stays exactly as it is under every later operation: no
  vote, receipt or closing time changes, and votes and second closings are errors.
\<close>

theorem closed_final:
  assumes "close now p = (Inr (), q)" and "poll_reach q s"
  shows "s = q \<and> p_votes s = p_votes p \<and> p_closedAt s = Some now \<and>
    vote sign t nonce voter v s = (Inl (RuntimeError ''Poll is closed''), s) \<and>
    close t s = (Inl (RuntimeError ''Already closed''), s)"
proof -
  have q: "q = p\<lparr>p_closedAt := Some now\<rparr>" using assms(1) by (auto simp: close_def split: if_splits)
  then have "isClosed q" by (simp add: isClosed_def)
  with poll_reach_closed [OF assms(2)] have "s = q" by blast
  with \<open>isClosed q\<close> q show ?thesis by (simp add: vote_def close_def)
qed

theorem closed_final_witness:
  "close 12 ((voted_poll Plurality)\<lparr>p_closedAt := Some 11\<rparr>) =
     (Inl (RuntimeError ''Already closed''), (voted_poll Plurality)\<lparr>p_closedAt := Some 11\<rparr>)"
proof -
  have "close 11 (voted_poll Plurality) = (Inr (), (voted_poll Plurality)\<lparr>p_closedAt := Some 11\<rparr>)"
    by (simp add: close_def voted_poll_def vote_eval)
  from closed_final [OF this poll_reach.refl] show ?thesis by blast
qed

text \<open>
  C31: what a poll accepts. Whatever was called before, every ballot a poll holds was cast with a vote
  that has the form its method asks for, and a vote is accepted exactly if the poll is open, the voter
  holds no receipt, the vote has this form and the receipt is signed. A Plurality vote names one of the
  choices, an Approval vote some, a Borda or ranked-choice vote ranks different ones; a Weighted vote names
  any index and a weight that is not above the maximum; the ciphertexts of no method may be empty,
  and for the other methods nothing else is asked.
\<close>

theorem accepted_vote_valid:
  assumes "mkPoll now pollId choices method authority maxWeight allowInsecure = Inr p"
    and "poll_run calls p = (results, q)"
  shows "(\<forall>voterId ballot. map_of (getEncryptedVotes q) voterId = Some ballot \<longrightarrow>
      (\<exists>sign now nonce voter v. CastVote sign now nonce voter v \<in> set calls \<and>
         voterId = toKey (m_idBytes voter) \<and> ballot = v_encrypted v \<and> ballot_form p v)) \<and>
    ((\<exists>r s. vote sign t nonce voter v q = (Inr r, s)) \<longleftrightarrow>
       \<not> isClosed q \<and> map_of (p_receipts q) (toKey (m_idBytes voter)) = None \<and> ballot_form p v \<and>
       (\<exists>s. sign (m_idBytes voter @ pollId @ le_bytes 8 t @ nonce) = Inr s))"
proof -
  have "p_votes p = []" "p_receipts p = []" and id: "p_id p = pollId"
    using assms(1) by (auto simp: mkPoll_def bind_res_Inr_iff split: if_splits)
  from poll_run_ok [OF this(1,2), of calls] have ok: "run_ok p calls (accepted_votes calls results) q"
    using assms(2) by simp
  have s: "same_setup p q" using poll_reach_setup [OF poll_run_reach, of p calls] assms(2) by simp
  have "p_id q = pollId" using s id by (simp add: same_setup_def)
  then show ?thesis
    using ok unfolding run_ok_def vote_accepted_iff ballot_form_setup [OF s] getEncryptedVotes_def by blast
qed

theorem accepted_vote_valid_witness:
  "ballot_form (sample_poll Plurality) sample_ballot"
proof -
  obtain rs q where r: "poll_run (take 1 sample_calls) (sample_poll Plurality) = (rs, q)" by fastforce
  then have "map_of (getEncryptedVotes q) (toKey [1]) = Some (v_encrypted sample_ballot)"
    by (auto simp: sample_calls_def vote_eval container_simps getEncryptedVotes_def)
  with accepted_vote_valid [OF sample_poll_made r] show ?thesis by (fastforce simp: sample_calls_def)
qed

text \<open>
  When the signature scheme accepts what it signed, a receipt the poll hands out
  verifies for its voter, then and after any later operations on the poll.
\<close>

theorem receipt_verifies:
  assumes "\<And>d s. sign d = Inr s \<Longrightarrow> verify d s"
    and "poll_ok p" and "vote sign now nonce voter v p = (Inr r, q)" and "poll_reach q s"
  shows "verifyReceipt verify s voter r"
proof -
  let ?k = "toKey (m_idBytes voter)"
  note v = vote_Inr [OF assms(3)]
  have "poll_ok q" using vote_ok [OF assms(2), of sign now nonce voter v] assms(3) by simp
  moreover have "map_of (p_receipts q) ?k = Some r"
    using v assms(2) by (auto simp: poll_ok_def container_simps)
  ultimately have "map_of (p_receipts s) ?k = Some r" using poll_reach_keeps [OF assms(4)] by blast
  then show ?thesis using v assms(1) by (simp add: verifyReceipt_def)
qed

theorem receipt_verifies_witness:
  "\<exists>r. verifyReceipt sample_verify (voted_poll Plurality) (sample_voter 1) r"
proof -
  obtain r where "vote sample_sign 9 [8] (sample_voter 1) sample_ballot (sample_poll Plurality) =
      (Inr r, voted_poll Plurality)"
    by (simp add: voted_poll_def vote_eval)
  from receipt_verifies [where verify = sample_verify, OF _ sample_poll_ok this poll_reach.refl]
  show ?thesis by (auto simp: sample_sign_def sample_verify_def)
qed

text \<open>
  A vote that fails while the receipt is signed has already stored its ballot: the poll
  counts it, the voter holds no receipt, the number of voters does not grow, and the same
  voter may vote again and replace the ballot.
\<close>

theorem unsigned_vote_stays:
  assumes "map_wf (p_votes p)" and "\<not> isClosed p"
    and "map_of (p_receipts p) (toKey (m_idBytes voter)) = None"
    and "validateVote p v = Inr ()" and "\<And>d. sign d = Inl e"
  shows "\<exists>q. vote sign now nonce voter v p = (Inl e, q) \<and>
    map_of (getEncryptedVotes q) (toKey (m_idBytes voter)) = Some (v_encrypted v) \<and>
    voterCount q = voterCount p \<and>
    (\<forall>v' d'. validateVote q v' = Inr () \<longrightarrow>
       (\<exists>r s. vote (\<lambda>_. Inr d') now nonce voter v' q = (Inr r, s) \<and>
          map_of (p_votes s) (toKey (m_idBytes voter)) = Some (v_encrypted v')))"
proof -
  let ?k = "toKey (m_idBytes voter)"
  let ?q = "p\<lparr>p_votes := map_put ?k (v_encrypted v) (p_votes p)\<rparr>"
  have "vote sign now nonce voter v p = (Inl e, ?q)"
    using assms by (simp add: vote_def Let_def generateReceipt_def)
  moreover have "\<exists>r s. vote (\<lambda>_. Inr d') now nonce voter v' ?q = (Inr r, s) \<and>
      map_of (p_votes s) ?k = Some (v_encrypted v')" if "validateVote ?q v' = Inr ()" for v' d'
    using assms that
    by (simp add: vote_def Let_def generateReceipt_def isClosed_def container_simps)
  ultimately show ?thesis
    using assms(1) by (simp add: getEncryptedVotes_def voterCount_def container_simps)
qed

theorem unsigned_vote_stays_witness:
  "\<exists>q. vote (\<lambda>_. Inl (RuntimeError ''No private key'')) 9 [8] (sample_voter 1) sample_ballot
        (sample_poll Plurality) = (Inl (RuntimeError ''No private key''), q) \<and>
     map_of (getEncryptedVotes q) (toKey [1]) = Some [[3], [4]] \<and> voterCount q = 0"
  using unsigned_vote_stays [of "sample_poll Plurality" "sample_voter 1" sample_ballot
      "\<lambda>_. Inl (RuntimeError ''No private key'')" "RuntimeError ''No private key''" 9 "[8]"]
  by (auto simp: vote_eval voterCount_def)

text \<open>
  The check of a receipt never looks at whose receipt it is: any receipt whose signature
  verifies is accepted for every voter who holds some receipt of the poll.
\<close>

theorem receipt_of_another_voter:
  assumes "map_of (p_receipts p) (toKey (m_idBytes voter)) = Some r'"
    and "verify (receiptData r) (r_signature r)"
  shows "verifyReceipt verify p voter r"
  using assms by (simp add: verifyReceipt_def)

theorem receipt_of_another_voter_witness:
  "verifyReceipt sample_verify (voted_poll Plurality) (sample_voter 1)
     \<lparr>r_voterId = [2], r_pollId = [], r_timestamp = 0,
      r_signature = 0x55 # receiptData \<lparr>r_voterId = [2], r_pollId = [], r_timestamp = 0,
        r_signature = [], r_nonce = []\<rparr>, r_nonce = []\<rparr>"
proof -
  obtain r where "map_of (p_receipts (voted_poll Plurality)) (toKey [1]) = Some r"
    by (simp add: voted_poll_def vote_eval)
  then show ?thesis
    by (intro receipt_of_another_voter) (auto simp: sample_voter_def sample_verify_def receiptData_def)
qed

text \<open>
  The factory makes polls of exactly the methods the security table does not call
  insecure, and so never the quadratic poll it has an operation for, whatever its arguments.
\<close>

theorem factory_methods:
  "((\<exists>p. factory_create now pollId choices method authority mw = Inr p) \<longleftrightarrow>
     2 \<le> length choices \<and> hasVotingKeys authority \<and> getSecurityLevel method \<noteq> Inr Insecure) \<and>
   (\<exists>e. createQuadratic now pollId choices authority maxCredits = Inl e)"
  by (auto simp: factory_create_def createQuadratic_def mkPoll_def getSecurityLevel_cases)

text \<open>The names of the voting methods are read back as the methods they were written for.\<close>

theorem method_names_roundtrip:
  "(\<exists>s. votingMethodToString m = Inr s \<and> stringToVotingMethod s = Inr m) \<and>
   (stringToVotingMethod s = Inr m' \<longrightarrow> votingMethodToString m' = Inr s)"
  using votingMethodToString_total [of m] by (auto simp: stringToVotingMethod_iff)

theorem method_names_roundtrip_witness:
  "votingMethodToString Borda = Inr ''borda''"
  using method_names_roundtrip [of Borda "''borda''" Borda]
  by (simp add: stringToVotingMethod_def METHOD_TO_STRING_def)

section \<open>Cryptography\<close>

text \<open>
  C2: decrypting with the private key of a derived key pair what was encrypted with the public
  key gives the plaintext modulo \<open>n\<close>, whatever the random draw prime to \<open>n\<close>.
\<close>

theorem paillier_decrypts:
  assumes "is_prime p" and "is_prime q" and "p \<noteq> q" and "coprime (p * q) ((p - 1) * (q - 1))"
    and "mod_inverse_law minv" and "coprime r (p * q)"
  shows "decrypt (snd (derive_keys minv p q)) (encrypt (fst (derive_keys minv p q)) r m) =
    bn_to_bytes (bytes_to_bn m mod (p * q))"
proof -
  let ?sk = "snd (derive_keys minv p q)"
  have pk: "sk_public ?sk = fst (derive_keys minv p q)" "bytes_to_bn (pk_n (sk_public ?sk)) = p * q"
    by (simp_all add: derive_keys_def Let_def mkPublicKey_def)
  have "key_ok ?sk" by (rule derive_keys_ok [OF assms(1-5)])
  then show ?thesis
    using decrypt_hides [OF _ hides_encrypt, of ?sk r m] assms(6) unfolding pk(2) by (simp add: pk(1))
qed

theorem paillier_decrypts_witness:
  "decrypt (snd (derive_keys euclid_inverse 17 19))
     (encrypt (fst (derive_keys euclid_inverse 17 19)) 2 [1, 66]) = bn_to_bytes 322"
  using paillier_decrypts [OF sample_primes _ sample_coprime euclid_inverse_law, of 2 "[1, 66]"]
  by (simp add: bytes_to_bn_def coprime_iff_gcd_eq_1 gcd_nat.simps)

lemma scast_nonneg: "0 \<le> sint (k :: 32 word) \<Longrightarrow> unat (scast k :: 64 word) = unat k"
proof -
  assume k: "0 \<le> sint k"
  then have k31: "\<not> bit k 31" by (simp add: sint_uint bit_unsigned_iff)
  have short: "n < 32" if "bit k n" for n using bit_imp_le_length [OF that] by simp
  have "(scast k :: 64 word) = ucast k"
  proof (rule bit_word_eqI)
    fix n :: nat assume n: "n < LENGTH(64)"
    have "31 \<le> n \<Longrightarrow> \<not> bit k n" using short [of n] k31 by (cases "n = 31") auto
    then show "bit (scast k :: 64 word) n = bit (ucast k :: 64 word) n"
      using n k31 by (cases "n < 31") (auto simp: bit_simps min_def)
  qed
  moreover have "unat k < 2 ^ 64"
  proof -
    have "unat k < 2 ^ LENGTH(32)" by (rule unsigned_less)
    then show ?thesis by simp
  qed
  ultimately show ?thesis by (simp add: unsigned_ucast_eq take_bit_nat_eq_self)
qed

text \<open>
  C3: The operations on ciphertexts act on the hidden plaintexts, modulo \<open>n\<close>: the product
  that \<open>addition\<close> computes decrypts to the sum, \<open>plaintextAddition\<close> adds public numbers and
  \<open>multiply\<close> by a number that is not negative multiplies.
\<close>

theorem paillier_homomorphic:
  assumes "key_ok sk" and "ms \<noteq> []"
    and "\<forall>(r, m) \<in> set ms. coprime r (bytes_to_bn (pk_n (sk_public sk)))" and "0 \<le> sint k"
  shows "\<exists>c. addition (sk_public sk) (map (\<lambda>(r, m). encrypt (sk_public sk) r m) ms) = Inr c \<and>
    (let total = (\<Sum>(_, m)\<leftarrow>ms. bytes_to_bn m); n = bytes_to_bn (pk_n (sk_public sk)) in
     decrypt sk c = bn_to_bytes (total mod n) \<and>
     decrypt sk (plaintextAddition (sk_public sk) c pts) =
       bn_to_bytes ((total + sum_list (map bytes_to_bn pts)) mod n) \<and>
     decrypt sk (multiply (sk_public sk) c k) = bn_to_bytes (unat k * total mod n))"
proof -
  let ?n = "bytes_to_bn (pk_n (sk_public sk))"
  let ?cts = "map (\<lambda>(r, m). encrypt (sk_public sk) r m) ms"
  obtain c where c: "addition (sk_public sk) ?cts = Inr c"
    using assms(2) by (simp add: addition_def Let_def)
  have "list_all2 (\<lambda>ct m. hides ?n (bytes_to_bn ct) m) ?cts (map (\<lambda>(_, m). bytes_to_bn m) ms)"
    using assms(1,3) by (auto simp: list_all2_conv_all_nth all_set_conv_all_nth hides_encrypt
        split: prod.splits)
  note h = hides_addition [OF assms(1) c this]
  note k = scast_nonneg [OF assms(4)]
  show ?thesis
    using c decrypt_hides [OF assms(1) h]
      decrypt_hides [OF assms(1) hides_plaintextAddition [OF assms(1) h, of pts]]
      decrypt_hides [OF assms(1) hides_multiply [OF assms(1) h, of k]]
    by (simp add: Let_def k)
qed

theorem paillier_homomorphic_witness:
  "\<exists>c. addition (sk_public sample_key) [encrypt (sk_public sample_key) 1 [200],
       encrypt (sk_public sample_key) 1 [150]] = Inr c \<and> decrypt sample_key c = bn_to_bytes 27 \<and>
     decrypt sample_key (multiply (sk_public sample_key) c 2) = bn_to_bytes 54"
proof -
  have b: "bytes_to_bn [200] = 200" "bytes_to_bn [150] = 150" by (simp_all add: bytes_to_bn_def)
  then show ?thesis using paillier_homomorphic [OF sample.key, of "[(1, [200]), (1, [150])]" 2]
    by (auto simp: sample_key_modulus Let_def)
qed

text \<open>
  The primality test returns for every odd candidate, and accepts every prime above the
  largest of its fixed witnesses, however few iterations are asked for.
\<close>

theorem primality_test_accepts_primes:
  "(1 < n \<longrightarrow> miller_rabin_test n iterations \<noteq> None) \<and>
   (is_prime n \<longrightarrow> 37 < n \<longrightarrow> miller_rabin_test n iterations = Some True)"
proof -
  have "miller_rabin_test n iterations \<noteq> None" if "1 < n"
    using strip_twos_spec [of "n - 1" 0] that by (auto simp: miller_rabin_test_def)
  then show ?thesis using miller_rabin_accepts by blast
qed

theorem primality_test_accepts_primes_witness:
  "miller_rabin_test 41 5 = Some True"
proof -
  have "is_prime 41" by (simp add: is_prime_def atLeastLessThan_nat_numeral)
  then show ?thesis using primality_test_accepts_primes [of 41 5] by simp
qed

section \<open>Counts, end to end\<close>

text \<open>The declared winners, whether the results carry one or several.\<close>

definition declared :: "PollResults \<Rightarrow> int list" where
  "declared res = (case pr_winners res of Some ws \<Rightarrow> map int ws
     | None \<Rightarrow> (case pr_winner res of Some w \<Rightarrow> [w] | None \<Rightarrow> []))"

lemma declared_set_winners:
  "pr_winner r = None \<Longrightarrow> pr_winners r = None \<Longrightarrow> declared (set_winners ws r) = map int ws"
  by (cases ws; cases "tl ws") (auto simp: declared_def set_winners_def)

context paillier_keys
begin

lemma is_cipher: "vote_cipher (\<lambda>i. encrypt (sk_public sk) (rs i)) (decrypt sk)"
  by (rule cipher.vote_cipher_axioms)

end

lemma paillier_cipher:
  assumes "key_ok sk" and "256 \<le> bytes_to_bn (pk_n (sk_public sk))"
    and "\<And>i. coprime (draw i) (bytes_to_bn (pk_n (sk_public sk)))"
  shows "vote_cipher (\<lambda>i. encrypt (sk_public sk) (draw i)) (decrypt sk)"
  by (intro paillier_keys.is_cipher paillier_keys.intro) (use assms in auto)

lemma big_val_bit: "big_val [1] = 1" "big_val [0] = 0"
  by (simp_all add: big_val_def bytesToInt_def)

text \<open>
  Voters \<open>cast\<close> choices; \<open>draw k i\<close> is the random draw of the \<open>i\<close>-th encryption in the ballot
  of the voter with key \<open>k\<close>.
\<close>

definition plurality_ballots ::
  "PaillierPublicKey \<Rightarrow> (string \<Rightarrow> nat \<Rightarrow> nat) \<Rightarrow> nat \<Rightarrow> (string \<times> nat) list \<Rightarrow> ballots" where
  "plurality_ballots pk draw n cast =
     map (\<lambda>(k, c). (k, v_encrypted (encodePlurality (\<lambda>i. encrypt pk (draw k i)) (int c) (int n)))) cast"

definition votes_for :: "(string \<times> nat) list \<Rightarrow> nat \<Rightarrow> nat" where
  "votes_for cast i = length (filter (\<lambda>(_, c). c = i) cast)"

lemma plurality_ballot_val:
  assumes "vote_cipher enc dec" and "i < n"
  shows "n \<le> length (v_encrypted (encodePlurality enc (int c) (int n)))"
    and "big_val (dec (v_encrypted (encodePlurality enc (int c) (int n)) ! i)) = (if c = i then 1 else 0)"
proof -
  let ?e = "v_encrypted (encodePlurality enc (int c) (int n))"
  show l: "n \<le> length ?e" by (simp add: encodePlurality_def)
  have "dec (?e ! i) = map dec ?e ! i" using l assms(2) by (simp add: nth_map)
  also have "\<dots> = (if c = i then [1] else [0])"
    using assms(2) by (simp add: vote_cipher.decrypt_plurality [OF assms(1)])
  finally show "big_val (dec (?e ! i)) = (if c = i then 1 else 0)"
    by (simp add: big_val_bit del: One_nat_def)
qed

lemma plurality_ballots_total:
  assumes "\<And>k. vote_cipher (\<lambda>i. encrypt pk (draw k i)) dec" and "i < n"
  shows "choice_total dec (plurality_ballots pk draw n cast) i = int (votes_for cast i)"
  using plurality_ballot_val(2) [OF assms]
  by (induction cast) (auto simp: choice_total_def plurality_ballots_def votes_for_def)

lemma plurality_ballots_countable:
  assumes "\<And>k. vote_cipher (\<lambda>i. encrypt pk (draw k i)) dec" and "length cast < 2 ^ 63"
  shows "countable_votes dec (plurality_ballots pk draw n cast) n"
proof -
  have "int (votes_for cast i) < 2 ^ 63" for i
  proof -
    have "votes_for cast i < 2 ^ 63"
      using assms(2) unfolding votes_for_def by (rule le_less_trans [OF length_filter_le])
    then show ?thesis by simp
  qed
  then show ?thesis
    unfolding countable_votes_def
    using plurality_ballots_total [OF assms(1)] plurality_ballot_val [OF assms(1)]
    by (auto simp: plurality_ballots_def encodePlurality_def)
qed

text \<open>
  C5: counting a closed plurality poll whose ballots were encoded and encrypted under the
  authority's Paillier key gives, for each choice, the number of voters who cast it, and
  declares exactly the choices with the most votes, in index order.
\<close>

theorem plurality_count_correct:
  assumes "key_ok sk" and "256 \<le> bytes_to_bn (pk_n (sk_public sk))"
    and "\<And>k i. coprime (draw k i) (bytes_to_bn (pk_n (sk_public sk)))"
    and "p_method p = Plurality" and "isClosed p" and "p_choices p \<noteq> []"
    and "p_votes p = plurality_ballots (sk_public sk) draw (length (p_choices p)) cast"
    and "length cast < 2 ^ 63"
  shows "\<exists>res. tally srt_rank srt_desc srt_asc (decrypt sk) p = Some (Inr res) \<and>
    (\<forall>i < length (p_choices p). big_val (pr_tallies res ! i) = int (votes_for cast i)) \<and>
    declared res = map int (maxima (length (p_choices p)) (\<lambda>i. int (votes_for cast i)))"
proof -
  let ?n = "length (p_choices p)"
  have c: "\<And>k. vote_cipher (\<lambda>i. encrypt (sk_public sk) (draw k i)) (decrypt sk)"
    by (rule paillier_cipher [OF assms(1-3)])
  have cv: "countable_votes (decrypt sk) (p_votes p) ?n"
    unfolding assms(7) by (rule plurality_ballots_countable [OF c assms(8)])
  have tot: "choice_total (decrypt sk) (p_votes p) i = int (votes_for cast i)" if "i < ?n" for i
    unfolding assms(7) by (rule plurality_ballots_total [OF c that])
  obtain ts where "length ts = ?n" and ts: "\<And>i. i < ?n \<Longrightarrow> big_val (ts ! i) = choice_total (decrypt sk) (p_votes p) i"
    and res: "tallyAdditive (decrypt sk) p (p_votes p) ?n = Inr (set_winners
      (maxima ?n (choice_total (decrypt sk) (p_votes p))) (base_results p (p_method p) ts))"
    using tallyAdditive_Inr [OF cv] assms(6) by (metis length_greater_0_conv)
  have "maxima ?n (choice_total (decrypt sk) (p_votes p)) = maxima ?n (\<lambda>i. int (votes_for cast i))"
    by (rule maxima_cong) (rule tot)
  then show ?thesis
    using res ts tot assms(4,5)
    by (simp add: tally_def getEncryptedVotes_def declared_set_winners)
qed

definition sample_closed :: "VotingMethod \<Rightarrow> string list \<Rightarrow> ballots \<Rightarrow> Poll" where
  "sample_closed m cs votes =
     (sample_poll m)\<lparr>p_choices := cs, p_votes := votes, p_closedAt := Some 10\<rparr>"

lemma sample_closed_simps [simp]:
  "p_choices (sample_closed m cs votes) = cs" "p_votes (sample_closed m cs votes) = votes"
  "p_method (sample_closed m cs votes) = m" "isClosed (sample_closed m cs votes)"
  by (simp_all add: sample_closed_def sample_poll_def isClosed_def)

theorem plurality_count_correct_witness:
  "\<exists>res. tally (ins_sort by_rank) (ins_sort by_tally_desc) (ins_sort by_tally_asc) (decrypt sample_key)
       (sample_closed Plurality [''A'', ''B'', ''C''] (plurality_ballots (sk_public sample_key)
          (\<lambda>_ _. 1) 3 [(''01'', 2), (''02'', 0), (''03'', 2)])) = Some (Inr res) \<and>
     declared res = [2]"
proof -
  let ?cast = "[(''01'', 2), (''02'', 0), (''03'', 2)] :: (string \<times> nat) list"
  let ?p = "sample_closed Plurality [''A'', ''B'', ''C'']
    (plurality_ballots (sk_public sample_key) (\<lambda>_ _. 1) 3 ?cast)"
  have n: "length (p_choices ?p) = 3" by simp
  have "maxima 3 (\<lambda>i. int (votes_for ?cast i)) = [2]"
    by (simp add: maxima_def votes_for_def upt_rec numeral_eq_Suc All_less_Suc)
  moreover have "\<exists>res. tally (ins_sort by_rank) (ins_sort by_tally_desc) (ins_sort by_tally_asc) (decrypt sample_key) ?p = Some (Inr res) \<and>
     (\<forall>i < length (p_choices ?p). big_val (pr_tallies res ! i) = int (votes_for ?cast i)) \<and>
     declared res = map int (maxima (length (p_choices ?p)) (\<lambda>i. int (votes_for ?cast i)))"
    by (rule plurality_count_correct [OF sample.key sample.room, where draw = "\<lambda>_ _. 1"])
      (simp_all only: sample.draws sample_closed_simps n, simp_all add: numeral_3_eq_3)
  ultimately show ?thesis unfolding n by auto
qed

section \<open>Ranked choice, end to end\<close>

lemma rank_of_byte: "v < 256 \<Longrightarrow> rank_of [of_nat v] = int v"
proof -
  assume v: "v < 256"
  then have u: "uint (of_nat v :: byte) = int v" by (simp add: unsigned_of_nat take_bit_nat_eq_self uint_nat)
  have b: "bytesToInt [b] = ucast b" for b by (simp add: bytesToInt_def)
  have "rank_of [of_nat v] = signed_take_bit 31 (take_bit 64 (int v))"
    unfolding rank_of_def b
    by (subst signed_ucast_eq, subst unsigned_ucast_eq, subst u) simp
  also have "\<dots> = int v"
    using v by (simp add: take_bit_int_eq_self signed_take_bit_int_eq_self)
  finally show ?thesis .
qed

text \<open>A list of pairs sorted on distinct second components is determined by its set.\<close>

lemma sorted_pairs_unique:
  fixes xs ys :: "(nat \<times> int) list"
  assumes "sorted_wrt (\<lambda>a b. \<not> by_rank b a) xs" and "distinct (map snd xs)"
    and "sorted (map snd ys)" and "set xs = set ys" and "distinct (map snd ys)"
  shows "xs = ys"
proof (rule map_sorted_distinct_set_unique)
  show "inj_on snd (set xs \<union> set ys)" using assms(2,4) by (simp add: distinct_map)
  show "sorted (map snd xs)"
    using assms(1) by (simp add: sorted_wrt_map by_rank_def not_less)
qed (use assms in auto)

text \<open>A decrypted ballot of ranks \<open>1, 2, ...\<close> sorts back into the ranking it encodes.\<close>

lemma ranking_recovered:
  fixes vals :: "nat \<Rightarrow> int"
  assumes "std_sort by_rank srt" and "distinct rs" and "set rs \<subseteq> {..<n}"
    and "\<And>j. j < length rs \<Longrightarrow> vals (rs ! j) = int (Suc j)"
    and "\<And>i. i < n \<Longrightarrow> i \<notin> set rs \<Longrightarrow> vals i = 0"
  shows "map fst (srt (filter (\<lambda>(i, rank). 0 < rank) (map (\<lambda>i. (i, vals i)) [0..<n]))) = rs"
proof -
  let ?xs = "filter (\<lambda>(i, rank). 0 < rank) (map (\<lambda>i. (i, vals i)) [0..<n])"
  let ?ys = "map (\<lambda>j. (rs ! j, int (Suc j))) [0..<length rs]"
  have iff: "(i, v) \<in> set ?xs \<longleftrightarrow> (i, v) \<in> set ?ys" for i v
  proof -
    have "(i, v) \<in> set ?xs \<longleftrightarrow> i < n \<and> v = vals i \<and> 0 < v" by auto
    also have "\<dots> \<longleftrightarrow> (\<exists>j < length rs. i = rs ! j \<and> v = int (Suc j))"
      using assms(3-5) by (metis in_set_conv_nth lessThan_iff less_irrefl of_nat_0_less_iff subsetD zero_less_Suc)
    also have "\<dots> \<longleftrightarrow> (i, v) \<in> set ?ys" by auto
    finally show ?thesis .
  qed
  have eq: "set ?xs = set ?ys"
  proof (rule set_eqI)
    fix p show "p \<in> set ?xs \<longleftrightarrow> p \<in> set ?ys" by (cases p) (simp only: iff)
  qed
  have ys: "distinct (map snd ?ys)" "sorted (map snd ?ys)"
    by (simp_all add: comp_def distinct_map inj_on_def sorted_map sorted_wrt_upt)
  have "inj_on snd (set ?xs)" unfolding eq using ys(1) by (simp only: distinct_map)
  moreover have "distinct ?xs" by (simp add: distinct_map inj_on_def)
  ultimately have "distinct (map snd ?xs)" by (simp only: distinct_map)
  then have "distinct (map snd (srt ?xs))"
    unfolding std_sort.distinct_map_srt [OF assms(1)] .
  then have "srt ?xs = ?ys"
    by (intro sorted_pairs_unique std_sort.sorted_srt [OF assms(1)] ys)
      (simp_all only: std_sort.set_srt [OF assms(1)] eq)
  then show ?thesis by (simp add: comp_def map_nth)
qed

definition ranked_ballot :: "(nat \<Rightarrow> bytes \<Rightarrow> bytes) \<Rightarrow> nat \<Rightarrow> nat list \<Rightarrow> bytes list" where
  "ranked_ballot enc n rs =
     (case encodeRankedChoice enc (map int rs) (int n) of Inl _ \<Rightarrow> [] | Inr v \<Rightarrow> v_encrypted v)"

lemma ranked_ballot_recovered:
  assumes "vote_cipher enc dec" and "std_sort by_rank srt"
    and "distinct rs" and "set rs \<subseteq> {..<n}" and "length rs < 256"
  shows "n \<le> length (ranked_ballot enc n rs)"
    and "map fst (srt (filter (\<lambda>(i, rank). 0 < rank)
           (map (\<lambda>i. (i, rank_of (dec (ranked_ballot enc n rs ! i)))) [0..<n]))) = rs"
proof -
  obtain v where v: "encodeRankedChoice enc (map int rs) (int n) = Inr v" "length (v_encrypted v) = n"
    "\<And>j. j < length rs \<Longrightarrow> dec (v_encrypted v ! (rs ! j)) = [of_nat (Suc j)]"
    "\<And>i. i < n \<Longrightarrow> i \<notin> set rs \<Longrightarrow> dec (v_encrypted v ! i) = [0]"
  proof (rule vote_cipher.decrypt_ranked [OF assms(1), of "map int rs" "int n"])
    fix v
    assume *: "encodeRankedChoice enc (map int rs) (int n) = Inr v" "length (v_encrypted v) = nat (int n)"
      "\<And>j. j < length (map int rs) \<Longrightarrow> dec (v_encrypted v ! nat (map int rs ! j)) = [of_nat (Suc j)]"
      "\<And>i. i < nat (int n) \<Longrightarrow> int i \<notin> set (map int rs) \<Longrightarrow> dec (v_encrypted v ! i) = [0]"
    show thesis by (rule that [of v]) (use * in \<open>auto simp: image_iff simp del: of_nat_Suc\<close>)
  qed (use assms(3-5) in \<open>auto simp: distinct_map\<close>)
  have b: "ranked_ballot enc n rs = v_encrypted v" by (simp add: ranked_ballot_def v(1))
  show "n \<le> length (ranked_ballot enc n rs)" by (simp add: b v(2))
  show "map fst (srt (filter (\<lambda>(i, rank). 0 < rank)
           (map (\<lambda>i. (i, rank_of (dec (ranked_ballot enc n rs ! i)))) [0..<n]))) = rs"
    by (rule ranking_recovered [OF assms(2-4)])
      (use v(3,4) assms(5) rank_of_byte [of 0] in \<open>simp_all add: b rank_of_byte del: of_nat_Suc\<close>)
qed

definition ranked_ballots ::
  "PaillierPublicKey \<Rightarrow> (string \<Rightarrow> nat \<Rightarrow> nat) \<Rightarrow> nat \<Rightarrow> (string \<times> nat list) list \<Rightarrow> ballots" where
  "ranked_ballots pk draw n cast =
     map (\<lambda>(k, rs). (k, ranked_ballot (\<lambda>i. encrypt pk (draw k i)) n rs)) cast"

definition valid_ranking :: "nat \<Rightarrow> nat list \<Rightarrow> bool" where
  "valid_ranking n rs \<longleftrightarrow> distinct rs \<and> set rs \<subseteq> {..<n} \<and> length rs < 256"

lemma ranked_ballots_recovered:
  assumes "\<And>k. vote_cipher (\<lambda>i. encrypt pk (draw k i)) dec" and "std_sort by_rank srt"
    and "\<forall>(_, rs) \<in> set cast. valid_ranking n rs"
  shows "decryptRankings srt dec (ranked_ballots pk draw n cast) n = Inr (map snd cast)"
proof -
  have "n \<le> length (ranked_ballot (\<lambda>i. encrypt pk (draw k i)) n rs)"
    and "map fst (srt (filter (\<lambda>(i, rank). 0 < rank)
           (map (\<lambda>i. (i, rank_of (dec (ranked_ballot (\<lambda>i. encrypt pk (draw k i)) n rs ! i)))) [0..<n]))) = rs"
    if "(k, rs) \<in> set cast" for k rs
    using ranked_ballot_recovered [OF assms(1,2)] assms(3) that by (auto simp: valid_ranking_def)
  then show ?thesis
    by (subst decryptRankings_Inr) (auto simp: ranked_ballots_def)
qed

text \<open>
  C4: counting a closed ranked-choice poll whose ballots were encoded and encrypted from valid
  rankings returns a winner that the instant-runoff specification elects: a candidate with
  a majority of the first choices that remain, or the last one left, after eliminating in
  each round the candidate with the fewest first choices (the lowest index among equals).
  The rounds record exactly that order of elimination.
\<close>

theorem ranked_choice_count_correct:
  assumes "key_ok sk" and "256 \<le> bytes_to_bn (pk_n (sk_public sk))"
    and "\<And>k i. coprime (draw k i) (bytes_to_bn (pk_n (sk_public sk)))"
    and "std_sort by_rank srt_rank"
    and "p_method p = RankedChoice" and "isClosed p" and "p_choices p \<noteq> []"
    and "p_votes p = ranked_ballots (sk_public sk) draw (length (p_choices p)) cast"
    and "\<forall>(_, rs) \<in> set cast. valid_ranking (length (p_choices p)) rs"
    and "length cast < 2 ^ 63"
  shows "\<exists>res w es rs. tally srt_rank srt_desc srt_asc (decrypt sk) p = Some (Inr res) \<and>
    irv_run (map snd cast) (length (p_choices p)) {} w es \<and>
    pr_winner res = Some (int w) \<and> w < length (p_choices p) \<and> w \<notin> set es \<and>
    pr_rounds res = Some rs \<and> map rr_eliminated rs = map Some es @ [None]"
proof -
  let ?n = "length (p_choices p)"
  have c: "\<And>k. vote_cipher (\<lambda>i. encrypt (sk_public sk) (draw k i)) (decrypt sk)"
    by (rule paillier_cipher [OF assms(1-3)])
  have dec: "decryptRankings srt_rank (decrypt sk) (p_votes p) ?n = Inr (map snd cast)"
    unfolding assms(8) by (rule ranked_ballots_recovered [OF c assms(4,9)])
  have "remaining ?n (set []) \<noteq> {}" using assms(7) by (auto simp: remaining_def)
  from irv_loop_runs [OF assms(10)[folded length_map [of snd]] _ _ this, of 0 "[]"]
  obtain w es el rs ts where run: "irv_loop (map snd cast) ?n [] 0 [] = (int w, el, [] @ rs, ts)"
      "irv_run (map snd cast) ?n (set []) w es" "map rr_eliminated rs = map Some es @ [None]"
    by (metis distinct.simps(1) empty_set empty_subsetI)
  then show ?thesis
    using irv_run_winner [OF run(2)] assms(5,6)
    by (simp add: tally_def getEncryptedVotes_def tallyRankedChoice_def dec)
qed

theorem ranked_choice_count_correct_witness:
  "\<exists>res w es. tally (ins_sort by_rank) (ins_sort by_tally_desc) (ins_sort by_tally_asc) (decrypt sample_key)
       (sample_closed RankedChoice [''A'', ''B'', ''C''] (ranked_ballots (sk_public sample_key)
          (\<lambda>_ _. 1) 3 [(''01'', [2, 0]), (''02'', [0]), (''03'', [1, 2, 0])])) = Some (Inr res) \<and>
     irv_run [[2, 0], [0], [1, 2, 0]] 3 {} w es \<and> pr_winner res = Some (int w)"
proof -
  let ?cast = "[(''01'', [2, 0]), (''02'', [0]), (''03'', [1, 2, 0])] :: (string \<times> nat list) list"
  let ?p = "sample_closed RankedChoice [''A'', ''B'', ''C'']
    (ranked_ballots (sk_public sample_key) (\<lambda>_ _. 1) 3 ?cast)"
  have n: "length (p_choices ?p) = 3" by simp
  have "\<exists>res w es rs. tally (ins_sort by_rank) (ins_sort by_tally_desc) (ins_sort by_tally_asc) (decrypt sample_key) ?p = Some (Inr res) \<and>
    irv_run (map snd ?cast) (length (p_choices ?p)) {} w es \<and>
    pr_winner res = Some (int w) \<and> w < length (p_choices ?p) \<and> w \<notin> set es \<and>
    pr_rounds res = Some rs \<and> map rr_eliminated rs = map Some es @ [None]"
    by (rule ranked_choice_count_correct [OF sample.key sample.room, where draw = "\<lambda>_ _. 1"])
      (simp_all only: sample.draws sample_closed_simps n rank_sort.std_sort_axioms,
       simp_all add: numeral_3_eq_3 valid_ranking_def)
  then show ?thesis unfolding n by auto
qed

text \<open>
  A candidate who is the first choice of more than half of the ballots that rank anyone
  wins a ranked-choice poll in its first round, with nobody eliminated.
\<close>

theorem majority_candidate_wins:
  assumes "irv_run rankings n {} w es"
    and "2 * length (filter (\<lambda>rs. rs \<noteq> [] \<and> hd rs = i) rankings) > length (filter (\<lambda>rs. rs \<noteq> []) rankings)"
    and "\<forall>rs \<in> set rankings. set rs \<subseteq> {..<n}"
  shows "w = i \<and> es = []"
proof -
  have fc: "first_choice {} rs = (if rs = [] then None else Some (hd rs))" for rs
    by (cases rs) (simp_all add: first_choice_def)
  have cnt: "first_count rankings {} j = length (filter (\<lambda>rs. rs \<noteq> [] \<and> hd rs = j) rankings)" for j
    unfolding first_count_def by (rule arg_cong [where f = length], rule filter_cong) (auto simp: fc)
  have "(\<Sum>j < n. first_count rankings {} j) = length (filter (\<lambda>rs. rs \<noteq> []) rankings)"
    using assms(3)
  proof (induction rankings)
    case (Cons r rankings)
    have "(\<Sum>j < n. first_count (r # rankings) {} j) =
        (\<Sum>j < n. (if first_choice {} r = Some j then 1 else 0) + first_count rankings {} j)"
      by (rule sum.cong) (auto simp: first_count_def)
    also have "\<dots> = (if r = [] then 0 else 1) + (\<Sum>j < n. first_count rankings {} j)"
      using Cons.prems by (cases r) (auto simp: fc sum.distrib)
    finally show ?case using Cons by simp
  qed (simp add: first_count_def)
  moreover have "filter (\<lambda>rs. rs \<noteq> [] \<and> hd rs = i) rankings \<noteq> []" using assms(2) by auto
  then obtain rs where "rs \<in> set rankings" "rs \<noteq> []" "hd rs = i"
    by (auto simp: filter_empty_conv)
  then have "i \<in> set rs" "set rs \<subseteq> {..<n}" using assms(3) by auto
  then have "i < n" by auto
  ultimately have "has_majority rankings n {} i"
    using assms(2) by (simp add: has_majority_def remaining_def cnt)
  with irv_run_majority [OF assms(1)] show ?thesis by blast
qed

theorem majority_candidate_wins_witness:
  "\<exists>w es. irv_run [[1, 0], [1], [0]] 2 {} w es \<and> w = 1 \<and> es = []"
proof -
  have m: "has_majority [[1, 0], [1], [0]] 2 {} 1"
    by (simp add: has_majority_def remaining_def first_count_def first_choice_def numeral_2_eq_2)
  from majority_candidate_wins [OF irv_run.majority [OF m], of 1] show ?thesis
    using irv_run.majority [OF m] by auto
qed

text \<open>
  The single-transferable-vote count returns for every closed poll whose ballots answer
  every choice, with any \<open>std::sort\<close>; nobody is elected twice, everybody elected is a
  choice of the poll, and reached the quota in the count of some round.
\<close>

theorem stv_count_returns:
  assumes "std_sort by_rank srt_rank" and "std_sort by_tally_asc srt_asc"
    and "p_method p = STV" and "isClosed p"
    and "\<forall>(_, e) \<in> set (p_votes p). length (p_choices p) \<le> length e"
  shows "\<exists>res ws rankings. tally srt_rank srt_desc srt_asc dec p = Some (Inr res) \<and>
    decryptRankings srt_rank dec (p_votes p) (length (p_choices p)) = Inr rankings \<and>
    pr_winners res = Some ws \<and> distinct ws \<and> set ws \<subseteq> {..<length (p_choices p)} \<and>
    (\<forall>w \<in> set ws. reached_quota rankings (stv_quota (length (p_votes p)) (length (p_choices p)))
       (length (p_choices p)) w)"
proof -
  let ?n = "length (p_choices p)"
  obtain rankings where r: "decryptRankings srt_rank dec (p_votes p) ?n = Inr rankings"
    using decryptRankings_Inr [OF assms(5)] by blast
  have "stv_ok ?n [] []" by (simp add: stv_ok_def)
  from stv_loop_returns [OF assms(2) this, of rankings "stv_quota (length (p_votes p)) ?n" 0 "[]"]
  obtain ws el rs where
    l: "stv_loop srt_asc rankings (stv_quota (length (p_votes p)) ?n) ?n [] [] 0 [] = Some (ws, el, rs)"
      "stv_ok ?n ws el" "\<forall>w \<in> set ws. reached_quota rankings (stv_quota (length (p_votes p)) ?n) ?n w"
    by auto
  then show ?thesis
    using assms(3,4) r by (auto simp: tally_def getEncryptedVotes_def tallySTV_def stv_ok_def)
qed

theorem stv_count_returns_witness:
  "\<exists>res ws. tally (ins_sort by_rank) (ins_sort by_tally_desc) (ins_sort by_tally_asc) (\<lambda>c. c)
       (sample_closed STV [''A'', ''B''] [(''01'', [[1], [2]])]) = Some (Inr res) \<and>
     pr_winners res = Some ws \<and> distinct ws"
  using stv_count_returns [OF rank_sort.std_sort_axioms asc_sort.std_sort_axioms,
      of "sample_closed STV [''A'', ''B''] [(''01'', [[1], [2]])]" "ins_sort by_tally_desc" "\<lambda>c. c"]
  by auto

definition two_blocs :: "nat list list" where
  "two_blocs = replicate 4 [0, 2] @ replicate 4 [1, 3]"

lemma two_blocs_counts:
  "countFirstChoices two_blocs [] 4 = [[4], [4], [0], [0]]"
  "countFirstChoices two_blocs [0, 1] 4 = [[0], [0], [4], [4]]"
  by code_simp+

text \<open>
  An elected candidate's ballots move on at full value, so a round can elect more
  candidates than there are seats left: eight ballots on four choices fill four seats
  although the count sets out to fill three.
\<close>

theorem stv_overfills_seats:
  "stv_seats 4 = 3 \<and>
   (\<exists>el rs. stv_loop srt two_blocs (stv_quota 8 4) 4 [] [] 0 [] = Some ([0, 1, 2, 3], el, rs))"
proof -
  have q: "stv_quota 8 4 = 3" and s: "stv_seats 4 = 3" by (simp_all add: stv_quota_def stv_seats_def)
  have v: "big_val [4] = 4" by (simp add: big_val_def bytesToInt_def)
  have up: "[0..<4] = [0, 1, 2, 3]" by (simp add: upt_rec)
  show ?thesis
    unfolding q s
    by (subst stv_loop.simps, subst stv_loop.simps, subst stv_loop.simps)
      (simp add: Let_def s two_blocs_counts v up stv_open_def set_add_def big_val_bit
        two_blocs_counts [unfolded One_nat_def])
qed

section \<open>Consensus and consent\<close>

text \<open>
  A consensus poll declares exactly the choices whose total reaches 95 per cent of the
  ballots, a total of exactly 95 per cent included.
\<close>

theorem consensus_declares:
  assumes "countable_votes dec (p_votes p) (length (p_choices p))"
    and "p_method p = Consensus" and "isClosed p"
  shows "\<exists>res. tally srt_rank srt_desc srt_asc dec p = Some (Inr res) \<and>
    declared res = map int (filter (\<lambda>i. 95 * int (length (p_votes p)) \<le> 100 * choice_total dec (p_votes p) i)
      [0..<length (p_choices p)])"
proof -
  let ?n = "length (p_choices p)"
  let ?ts = "map (\<lambda>i. fold (\<lambda>(_, e) t. addBigintBytes t (dec (e ! i))) (p_votes p) (intToBytes 0)) [0..<?n]"
  have ts: "sum_ballots dec addBigintBytes ?n (p_votes p) = Inr ?ts"
    using assms(1) by (intro sum_ballots_Inr) (auto simp: countable_votes_def)
  have "consensus_threshold (length (p_votes p)) \<le> big_val (?ts ! i) \<longleftrightarrow>
      95 * int (length (p_votes p)) \<le> 100 * choice_total dec (p_votes p) i" if "i < ?n" for i
  proof -
    have "big_val (?ts ! i) = choice_total dec (p_votes p) i"
      using fold_ballots_val [OF assms(1) that] that by simp
    then show ?thesis unfolding consensus_threshold_def by linarith
  qed
  then have "filter (\<lambda>i. consensus_threshold (length (p_votes p)) \<le> big_val (?ts ! i)) [0..<?n] =
      filter (\<lambda>i. 95 * int (length (p_votes p)) \<le> 100 * choice_total dec (p_votes p) i) [0..<?n]"
    by (intro filter_cong) auto
  then show ?thesis
    using assms(2,3) ts by (simp add: tally_def getEncryptedVotes_def tallyConsensus_def declared_set_winners Let_def)
qed

theorem consensus_declares_witness:
  "\<exists>res. tally (ins_sort by_rank) (ins_sort by_tally_desc) (ins_sort by_tally_asc) (\<lambda>c. c)
      (sample_closed Consensus [''A'', ''B''] [(''01'', [[1], [0]]), (''02'', [[1], [0]])]) = Some (Inr res) \<and>
    declared res = [0]"
proof -
  let ?p = "sample_closed Consensus [''A'', ''B''] [(''01'', [[1], [0]]), (''02'', [[1], [0]])]"
  have "countable_votes (\<lambda>c. c) (p_votes ?p) (length (p_choices ?p))"
    by (auto simp: countable_votes_def choice_total_def All_less_Suc big_val_bit simp del: One_nat_def)
  from consensus_declares [OF this, of "ins_sort by_rank" "ins_sort by_tally_desc" "ins_sort by_tally_asc"] show ?thesis
    by (simp add: choice_total_def big_val_bit [unfolded One_nat_def] big_val_bit)
qed

text \<open>
  A negative number written by the library's own byte encoding never counts as an
  objection: below \<open>2 ^ 48\<close> in magnitude it reads back as a positive number, so a consent
  poll counts it as support.
\<close>

theorem objections_count_as_support:
  assumes "0 < k" and "k < 2 ^ 48"
  shows "count_objection t (intToBytes (word_of_int (- k))) = t \<and>
    count_support t (intToBytes (word_of_int (- k))) = addBigintBytes t (intToBytes 1)"
proof -
  let ?v = "word_of_int (- k) :: int64" and ?a = "word_of_int k :: int64"
  have s: "sint ?v = - k" using assms
    by (simp only: signed_of_int) (simp add: signed_take_bit_int_eq_self)
  then have "?v \<noteq> 0" "sint ?v < 0" using assms(1) by auto
  then have b: "intToBytes ?v = magnitude_bytes ?a @ [0xFF]"
    by (simp add: intToBytes_def)
  have "unat ?a = nat k" using assms
    by (simp add: unat_eq_nat_uint unsigned_of_int take_bit_int_eq_self del: unat_eq_nat_uint)
  then have "unat ?a < 256 ^ 6" using assms by simp
  then have len: "length (magnitude_bytes ?a) \<le> 6" by (rule length_magnitude)
  let ?w = "le_word (magnitude_bytes ?a @ [0xFF]) :: int64"
  have w: "bytesToInt (intToBytes ?v) = ?w" unfolding b bytesToInt_le_word using len by simp
  have "bit ?w (8 * length (magnitude_bytes ?a))" using len by (simp add: bit_le_word)
  then have nz: "?w \<noteq> 0" by auto
  have "\<not> bit ?w 63" using len by (simp add: bit_le_word nth_append)
  then have "0 \<le> sint ?w" by (simp add: sint_uint bit_unsigned_iff)
  with nz have "0 < sint ?w" by (metis order.order_iff_strict signed_eq_0_iff)
  then show ?thesis unfolding count_objection_def count_support_def big_val_def w by simp
qed

theorem objections_count_as_support_witness:
  "count_objection [0] (intToBytes (word_of_int (- 1))) = [0]"
  using objections_count_as_support [of 1 "[0]"] by simp

section \<open>Ballots of the wrong length\<close>

lemma poll_reach_frame:
  "poll_reach p q \<Longrightarrow> p_choices q = p_choices p \<and> p_method q = p_method p"
  by (induction rule: poll_reach.induct) (auto dest: poll_step_frame)

text \<open>
  A poll checks only that a vote carries some encrypted data. One accepted ballot with
  fewer ciphertexts than the poll has choices makes every count of that poll read past the
  end of the ballot, whatever the other voters do.
\<close>

theorem short_ballot_breaks_count:
  assumes "poll_ok p" and "vote sign now nonce voter v p = (Inr r, q)" and "poll_reach q s"
    and "length (v_encrypted v) < length (p_choices p)" and "isClosed s"
    and "p_method p \<in> {Plurality, Approval, Weighted, Borda}"
  shows "tally srt_rank srt_desc srt_asc dec s = Some (Inl UndefinedBehaviour)"
proof -
  let ?k = "toKey (m_idBytes voter)"
  note v = vote_Inr [OF assms(2)]
  have "poll_ok q" using vote_ok [OF assms(1), of sign now nonce voter v] assms(2) by simp
  moreover have "map_of (p_receipts q) ?k = Some r" "map_of (p_votes q) ?k = Some (v_encrypted v)"
    using v assms(1) by (auto simp: poll_ok_def container_simps)
  ultimately have "map_of (p_votes s) ?k = Some (v_encrypted v)"
    using poll_reach_keeps [OF assms(3)] by simp
  then have mem: "(?k, v_encrypted v) \<in> set (p_votes s)" by (rule map_of_SomeD)
  have fr: "p_choices s = p_choices p" "p_method s = p_method p"
    using poll_reach_frame [OF assms(3)] v by simp_all
  have "sum_ballots dec upd (length (p_choices p)) (p_votes s) = Inl UndefinedBehaviour" for upd
    by (rule sum_ballots_short [OF mem assms(4)])
  then have "tallyAdditive dec s (p_votes s) (length (p_choices p)) = Inl UndefinedBehaviour"
    by (simp add: tallyAdditive_def)
  then show ?thesis
    using assms(5,6) by (auto simp: tally_def getEncryptedVotes_def tallyScored_def fr Let_def)
qed

theorem short_ballot_breaks_count_witness:
  "tally (ins_sort by_rank) (ins_sort by_tally_desc) (ins_sort by_tally_asc) (\<lambda>c. c)
     (snd (close 11 (snd (vote sample_sign 9 [8] (sample_voter 1)
        (sample_ballot\<lparr>v_encrypted := [[3]]\<rparr>) (sample_poll Plurality))))) =
   Some (Inl UndefinedBehaviour)"
proof -
  let ?v = "sample_ballot\<lparr>v_encrypted := [[3]]\<rparr>"
  let ?q = "snd (vote sample_sign 9 [8] (sample_voter 1) ?v (sample_poll Plurality))"
  obtain r where r: "vote sample_sign 9 [8] (sample_voter 1) ?v (sample_poll Plurality) = (Inr r, ?q)"
    by (simp add: vote_eval)
  have "poll_reach ?q (snd (close 11 ?q))" by (blast intro: poll_reach.intros poll_step.intros)
  from short_ballot_breaks_count [OF sample_poll_ok r this] show ?thesis
    by (simp add: vote_eval close_def)
qed

end
