(* ===== verification/Aggregation.thy ===== *)
theory Aggregation
  imports VoteEncoding
begin

text \<open>
  \<open>hierarchical_aggregator.{hpp,cpp}\<close>: a precinct reports the encrypted tallies of its poll,
  counties, states and the nation multiply the ciphertexts of their children. The county,
  state and national classes have the same state and, but for their names and messages, the
  same operations; \<open>combine_children\<close> is the body their \<open>getTally\<close> share. A \<open>std::string\<close>
  of ciphertext bytes is a byte list; the clock is the parameter \<open>now\<close>.
\<close>

datatype JurisdictionLevel = Precinct | County | State | National

record JurisdictionConfig =
  jc_id :: bytes
  jc_name :: string
  jc_level :: JurisdictionLevel
  jc_parentId :: "bytes option"

record AggregatedTally =
  at_jurisdictionId :: bytes
  at_level :: JurisdictionLevel
  at_encryptedTallies :: "bytes list"
  at_voterCount :: "64 word"
  at_timestamp :: "64 word"
  at_childJurisdictions :: "bytes list"

section \<open>Precincts\<close>

record PrecinctAggregator =
  pa_poll :: Poll
  pa_config :: JurisdictionConfig

definition mkPrecinctAggregator :: "Poll \<Rightarrow> JurisdictionConfig \<Rightarrow> PrecinctAggregator res" where
  "mkPrecinctAggregator poll config =
     (if jc_level config \<noteq> Precinct
      then Inl (InvalidArgument ''PrecinctAggregator requires precinct-level config'')
      else Inr \<lparr>pa_poll = poll, pa_config = config\<rparr>)"

text \<open>The poll is a reference: what \<open>vote\<close> and \<open>close\<close> do to it stays.\<close>

definition precinct_vote ::
  "(bytes \<Rightarrow> bytes res) \<Rightarrow> timestamp \<Rightarrow> bytes \<Rightarrow> member \<Rightarrow> EncryptedVote \<Rightarrow> PrecinctAggregator \<Rightarrow>
   unit res \<times> PrecinctAggregator" where
  "precinct_vote sign now nonce voter v pa =
     (let (r, p) = vote sign now nonce voter v (pa_poll pa)
      in (bind_res r (\<lambda>_. Inr ()), pa\<lparr>pa_poll := p\<rparr>))"

definition precinct_close :: "timestamp \<Rightarrow> PrecinctAggregator \<Rightarrow> unit res \<times> PrecinctAggregator" where
  "precinct_close now pa =
     (let (r, p) = close now (pa_poll pa) in (r, pa\<lparr>pa_poll := p\<rparr>))"

text \<open>\<open>encryptedTallies[i] = encryptedVote[i]\<close> for the choices the ballot has.\<close>

definition copy_ballot :: "nat \<Rightarrow> bytes list \<Rightarrow> bytes list \<Rightarrow> bytes list" where
  "copy_ballot choiceCount encryptedVote encryptedTallies =
     fold (\<lambda>i ts. ts[i := encryptedVote ! i]) [0..<min choiceCount (length encryptedVote)] encryptedTallies"

definition precinct_getTally :: "64 word \<Rightarrow> PrecinctAggregator \<Rightarrow> AggregatedTally" where
  "precinct_getTally now pa =
     (let votes = getEncryptedVotes (pa_poll pa); choiceCount = length (p_choices (pa_poll pa)) in
      \<lparr>at_jurisdictionId = jc_id (pa_config pa), at_level = Precinct,
       at_encryptedTallies =
         fold (\<lambda>(voterId, encryptedVote). copy_ballot choiceCount encryptedVote) votes
           (replicate choiceCount []),
       at_voterCount = of_nat (voterCount (pa_poll pa)), at_timestamp = now,
       at_childJurisdictions = []\<rparr>)"

section \<open>Counties, states and the nation\<close>

record Aggregator =
  ag_config :: JurisdictionConfig
  ag_publicKey :: PaillierPublicKey
  ag_tallies :: "(string \<times> AggregatedTally) list"

definition mkCountyAggregator :: "JurisdictionConfig \<Rightarrow> PaillierPublicKey \<Rightarrow> Aggregator res" where
  "mkCountyAggregator config pk =
     (if jc_level config \<noteq> County
      then Inl (InvalidArgument ''CountyAggregator requires county-level config'')
      else Inr \<lparr>ag_config = config, ag_publicKey = pk, ag_tallies = []\<rparr>)"

definition mkStateAggregator :: "JurisdictionConfig \<Rightarrow> PaillierPublicKey \<Rightarrow> Aggregator res" where
  "mkStateAggregator config pk =
     (if jc_level config \<noteq> State
      then Inl (InvalidArgument ''StateAggregator requires state-level config'')
      else Inr \<lparr>ag_config = config, ag_publicKey = pk, ag_tallies = []\<rparr>)"

definition mkNationalAggregator :: "JurisdictionConfig \<Rightarrow> PaillierPublicKey \<Rightarrow> Aggregator res" where
  "mkNationalAggregator config pk =
     (if jc_level config \<noteq> National
      then Inl (InvalidArgument ''NationalAggregator requires national-level config'')
      else Inr \<lparr>ag_config = config, ag_publicKey = pk, ag_tallies = []\<rparr>)"

definition add_tally :: "AggregatedTally \<Rightarrow> Aggregator \<Rightarrow> Aggregator" where
  "add_tally tally ag =
     ag\<lparr>ag_tallies := map_put (toKey (at_jurisdictionId tally)) tally (ag_tallies ag)\<rparr>"

definition addPrecinctTally :: "AggregatedTally \<Rightarrow> Aggregator \<Rightarrow> Aggregator" where
  "addPrecinctTally = add_tally"

definition addCountyTally :: "AggregatedTally \<Rightarrow> Aggregator \<Rightarrow> Aggregator" where
  "addCountyTally = add_tally"

definition addStateTally :: "AggregatedTally \<Rightarrow> Aggregator \<Rightarrow> Aggregator" where
  "addStateTally = add_tally"

text \<open>
  The inner loop over the choices of one child's tally. The empty string stands for a choice
  no tally has reached yet.
\<close>

definition merge_choice :: "PaillierPublicKey \<Rightarrow> bytes list \<Rightarrow> nat \<Rightarrow> bytes list \<Rightarrow> bytes list res" where
  "merge_choice pk child i acc =
     bind_res (vec_get child i) (\<lambda>ct.
       if acc ! i = [] then Inr (acc[i := ct])
       else bind_res (addition pk [acc ! i, ct]) (\<lambda>c. Inr (acc[i := c])))"

definition merge_tally :: "PaillierPublicKey \<Rightarrow> nat \<Rightarrow> bytes list \<Rightarrow> bytes list \<Rightarrow> bytes list res" where
  "merge_tally pk choiceCount child acc = fold_res (merge_choice pk child) [0..<choiceCount] acc"

definition combine_children ::
  "JurisdictionLevel \<Rightarrow> string \<Rightarrow> 64 word \<Rightarrow> Aggregator \<Rightarrow> AggregatedTally res" where
  "combine_children level message now ag =
     (if ag_tallies ag = [] then Inl (RuntimeError message)
      else let tallies = map snd (ag_tallies ag);
               choiceCount = length (at_encryptedTallies (tallies ! 0)) in
        bind_res (fold_res (\<lambda>t. merge_tally (ag_publicKey ag) choiceCount (at_encryptedTallies t))
                    tallies (replicate choiceCount []))
          (\<lambda>encryptedTallies. Inr
            \<lparr>at_jurisdictionId = jc_id (ag_config ag), at_level = level,
             at_encryptedTallies = encryptedTallies,
             at_voterCount = sum_list (map at_voterCount tallies), at_timestamp = now,
             at_childJurisdictions = map at_jurisdictionId tallies\<rparr>))"

definition county_getTally :: "64 word \<Rightarrow> Aggregator \<Rightarrow> AggregatedTally res" where
  "county_getTally = combine_children County ''No precinct tallies to aggregate''"

definition state_getTally :: "64 word \<Rightarrow> Aggregator \<Rightarrow> AggregatedTally res" where
  "state_getTally = combine_children State ''No county tallies to aggregate''"

definition national_getTally :: "64 word \<Rightarrow> Aggregator \<Rightarrow> AggregatedTally res" where
  "national_getTally = combine_children National ''No state tallies to aggregate''"

section \<open>What a combined tally hides\<close>

text \<open>A tally that hides the number \<open>m i\<close> for each of \<open>n\<close> choices, in ciphertexts that are not empty.\<close>

definition tally_hides :: "PaillierPrivateKey \<Rightarrow> nat \<Rightarrow> bytes list \<Rightarrow> (nat \<Rightarrow> nat) \<Rightarrow> bool" where
  "tally_hides sk n cts m \<longleftrightarrow> length cts = n \<and>
     (\<forall>i < n. cts ! i \<noteq> [] \<and> hides (bytes_to_bn (pk_n (sk_public sk))) (bytes_to_bn (cts ! i)) (m i))"

lemma bn_to_bytes_nonempty [simp]: "bn_to_bytes n \<noteq> []"
  by (auto simp: bn_to_bytes_def bn_digits.simps [of n])

lemma addition_two: "\<exists>c. addition pk [a, b] = Inr c \<and> c \<noteq> []"
  by (simp add: addition_def Let_def)

lemma merge_tally_result:
  assumes "n \<le> length child" and "length acc = n"
  shows "\<exists>cts. merge_tally pk n child acc = Inr cts \<and> length cts = n \<and>
    (\<forall>i < n. if acc ! i = [] then cts ! i = child ! i else addition pk [acc ! i, child ! i] = Inr (cts ! i))"
proof -
  have "\<exists>cts. fold_res (merge_choice pk child) [0..<k] acc = Inr cts \<and> length cts = n \<and>
    (\<forall>i < k. if acc ! i = [] then cts ! i = child ! i else addition pk [acc ! i, child ! i] = Inr (cts ! i)) \<and>
    (\<forall>i < n. k \<le> i \<longrightarrow> cts ! i = acc ! i)" if "k \<le> n" for k
    using that
  proof (induction k)
    case 0
    then show ?case using assms(2) by simp
  next
    case (Suc k)
    then obtain cts where cts: "fold_res (merge_choice pk child) [0..<k] acc = Inr cts" "length cts = n"
      "\<forall>i < k. if acc ! i = [] then cts ! i = child ! i else addition pk [acc ! i, child ! i] = Inr (cts ! i)"
      "\<forall>i < n. k \<le> i \<longrightarrow> cts ! i = acc ! i" by auto
    obtain c where c: "addition pk [acc ! k, child ! k] = Inr c" using addition_two by blast
    have k: "cts ! k = acc ! k" "k < n" using cts(4) Suc.prems by auto
    have m: "merge_choice pk child k cts =
        Inr (cts[k := if acc ! k = [] then child ! k else c])"
      using assms(1) k by (simp add: merge_choice_def c)
    show ?case
      using cts m c k by (auto simp: fold_res_append less_Suc_eq nth_list_update)
  qed
  from this [of n] show ?thesis by (auto simp: merge_tally_def)
qed

lemma merge_tally_hides:
  assumes "key_ok sk" and "tally_hides sk n acc a" and "tally_hides sk n child b"
  shows "\<exists>cts. merge_tally (sk_public sk) n child acc = Inr cts \<and> tally_hides sk n cts (\<lambda>i. a i + b i)"
proof -
  have len: "n \<le> length child" "length acc = n" using assms by (auto simp: tally_hides_def)
  obtain cts where cts: "merge_tally (sk_public sk) n child acc = Inr cts" "length cts = n"
    "\<forall>i < n. if acc ! i = [] then cts ! i = child ! i
       else addition (sk_public sk) [acc ! i, child ! i] = Inr (cts ! i)"
    using merge_tally_result [OF len, of "sk_public sk"] by blast
  have "cts ! i \<noteq> [] \<and> hides (bytes_to_bn (pk_n (sk_public sk))) (bytes_to_bn (cts ! i)) (a i + b i)"
    if "i < n" for i
  proof -
    have add: "addition (sk_public sk) [acc ! i, child ! i] = Inr (cts ! i)"
      using cts(3) assms(2) that by (auto simp: tally_hides_def)
    have "list_all2 (\<lambda>ct m. hides (bytes_to_bn (pk_n (sk_public sk))) (bytes_to_bn ct) m)
        [acc ! i, child ! i] [a i, b i]"
      using assms(2,3) that by (auto simp: tally_hides_def)
    moreover have "cts ! i \<noteq> []"
      using addition_two [of "sk_public sk" "acc ! i" "child ! i"] add by auto
    ultimately show ?thesis using hides_addition [OF assms(1) add] by fastforce
  qed
  with cts show ?thesis by (auto simp: tally_hides_def)
qed

lemma merge_first:
  assumes "tally_hides sk n child b"
  shows "merge_tally pk n child (replicate n []) = Inr child"
proof -
  have len: "length child = n" using assms by (simp add: tally_hides_def)
  then obtain cts where "merge_tally pk n child (replicate n []) = Inr cts" "length cts = n"
    "\<forall>i < n. cts ! i = child ! i"
    using merge_tally_result [of n child "replicate n []" pk] by auto
  with len show ?thesis by (auto intro: nth_equalityI)
qed

lemma merge_all_hides:
  assumes "key_ok sk"
  shows "\<lbrakk>\<forall>(cts, m) \<in> set children. tally_hides sk n cts m; tally_hides sk n acc a\<rbrakk> \<Longrightarrow>
    \<exists>cts. fold_res (merge_tally (sk_public sk) n) (map fst children) acc = Inr cts \<and>
      tally_hides sk n cts (\<lambda>i. a i + (\<Sum>(_, m)\<leftarrow>children. m i))"
proof (induction children arbitrary: acc a)
  case (Cons c children)
  obtain cts m where c: "c = (cts, m)" by fastforce
  with Cons.prems have m: "tally_hides sk n cts m" by simp
  obtain acc' where acc': "merge_tally (sk_public sk) n cts acc = Inr acc'"
      "tally_hides sk n acc' (\<lambda>i. a i + m i)"
    using merge_tally_hides [OF assms Cons.prems(2) m] by blast
  from Cons.IH [OF _ acc'(2)] Cons.prems(1) show ?case by (auto simp: c acc'(1) add.assoc)
qed simp

section \<open>Properties\<close>

definition total_of :: "(string \<Rightarrow> nat \<Rightarrow> nat) \<Rightarrow> Aggregator \<Rightarrow> nat \<Rightarrow> nat" where
  "total_of m ag i = (\<Sum>(k, _)\<leftarrow>ag_tallies ag. m k i)"

text \<open>
  C6: when every child's tally hides its numbers under the authority's key, the tally a
  county, a state or the nation computes exists, hides the sums over the children (so it can
  be passed upwards), and each of its ciphertexts decrypts to the sum modulo \<open>n\<close>; the voters
  are added up and the children listed in key order.
\<close>

theorem aggregated_total:
  assumes "key_ok sk" and "ag_publicKey ag = sk_public sk" and "ag_tallies ag \<noteq> []"
    and "\<forall>(k, t) \<in> set (ag_tallies ag). tally_hides sk n (at_encryptedTallies t) (m k)"
  shows "\<exists>t. county_getTally now ag = Inr t \<and>
    state_getTally now ag = Inr (t\<lparr>at_level := State\<rparr>) \<and>
    national_getTally now ag = Inr (t\<lparr>at_level := National\<rparr>) \<and>
    tally_hides sk n (at_encryptedTallies t) (total_of m ag) \<and>
    (\<forall>i < n. decrypt sk (at_encryptedTallies t ! i) =
       bn_to_bytes (total_of m ag i mod bytes_to_bn (pk_n (sk_public sk)))) \<and>
    at_voterCount t = (\<Sum>(_, c)\<leftarrow>ag_tallies ag. at_voterCount c) \<and>
    at_childJurisdictions t = map (\<lambda>(_, c). at_jurisdictionId c) (ag_tallies ag)"
proof -
  obtain k0 t0 rest where ts: "ag_tallies ag = (k0, t0) # rest"
    using assms(3) by (cases "ag_tallies ag") auto
  let ?cts = "map (\<lambda>(k, t). (at_encryptedTallies t, m k)) rest"
  have h0: "tally_hides sk n (at_encryptedTallies t0) (m k0)" using assms(4) by (simp add: ts)
  have "\<forall>(cts, m) \<in> set ?cts. tally_hides sk n cts m" using assms(4) by (auto simp: ts)
  from merge_all_hides [OF assms(1) this h0] obtain cts where
    cts: "fold_res (merge_tally (sk_public sk) n) (map fst ?cts) (at_encryptedTallies t0) = Inr cts"
      "tally_hides sk n cts (\<lambda>i. m k0 i + (\<Sum>(_, m)\<leftarrow>?cts. m i))" by blast
  have tot: "(\<lambda>i. m k0 i + (\<Sum>(_, m)\<leftarrow>?cts. m i)) = total_of m ag"
    by (simp add: total_of_def ts fun_eq_iff comp_def case_prod_unfold)
  have fold_map: "fold_res (\<lambda>t. merge_tally pk n (at_encryptedTallies t)) (map snd r) acc =
      fold_res (merge_tally pk n) (map fst (map (\<lambda>(k, t). (at_encryptedTallies t, m k)) r)) acc" for pk r acc
    by (induction r arbitrary: acc) (auto simp: bind_res_def split: sum.splits)
  have hid: "tally_hides sk n cts (total_of m ag)" using cts(2) unfolding tot .
  have len: "length (at_encryptedTallies t0) = n" using h0 by (simp add: tally_hides_def)
  have "fold_res (\<lambda>t. merge_tally (sk_public sk) n (at_encryptedTallies t))
      (map snd (ag_tallies ag)) (replicate n []) = Inr cts"
    using cts(1) by (simp add: ts merge_first [OF h0] fold_map del: map_map)
  moreover have "decrypt sk (cts ! i) = bn_to_bytes (total_of m ag i mod bytes_to_bn (pk_n (sk_public sk)))"
    if "i < n" for i
    using decrypt_hides [OF assms(1)] cts(2) that unfolding tot tally_hides_def by blast
  ultimately show ?thesis
    using hid assms(2) len
    by (simp add: county_getTally_def state_getTally_def national_getTally_def combine_children_def
        ts Let_def case_prod_unfold comp_def)
qed

definition sample_tally :: "byte \<Rightarrow> bytes \<Rightarrow> AggregatedTally" where
  "sample_tally i pt = \<lparr>at_jurisdictionId = [i], at_level = Precinct,
     at_encryptedTallies = [encrypt (sk_public sample_key) 1 pt], at_voterCount = 3,
     at_timestamp = 0, at_childJurisdictions = []\<rparr>"

definition sample_county :: Aggregator where
  "sample_county = \<lparr>ag_config = \<lparr>jc_id = [9], jc_name = ''c'', jc_level = County, jc_parentId = None\<rparr>,
     ag_publicKey = sk_public sample_key,
     ag_tallies = [(''01'', sample_tally 1 [5]), (''02'', sample_tally 2 [6])]\<rparr>"

lemma sample_tally_hides: "tally_hides sample_key 1 (at_encryptedTallies (sample_tally i [b])) (\<lambda>_. unat b)"
proof -
  have "encrypt (sk_public sample_key) 1 [b] \<noteq> []" by (simp add: encrypt_def Let_def)
  then show ?thesis
    using hides_encrypt [OF sample.key, of 1 "[b]"]
    by (simp add: sample_tally_def tally_hides_def bytes_to_bn_def)
qed

theorem aggregated_total_witness:
  "\<exists>t. county_getTally 7 sample_county = Inr t \<and>
     decrypt sample_key (at_encryptedTallies t ! 0) = bn_to_bytes 11 \<and> at_voterCount t = 6"
proof -
  define m :: "string \<Rightarrow> nat \<Rightarrow> nat" where "m = (\<lambda>k _. if k = ''01'' then 5 else 6)"
  have c: "ag_publicKey sample_county = sk_public sample_key" "ag_tallies sample_county \<noteq> []"
    by (simp_all add: sample_county_def)
  have h: "\<forall>(k, t) \<in> set (ag_tallies sample_county). tally_hides sample_key 1 (at_encryptedTallies t) (m k)"
    using sample_tally_hides [of 1 5] sample_tally_hides [of 2 6] by (simp add: sample_county_def m_def)
  have "total_of m sample_county 0 = 11" by (simp add: total_of_def sample_county_def m_def)
  moreover have "(\<Sum>(_, c)\<leftarrow>ag_tallies sample_county. at_voterCount c) = 6"
    by (simp add: sample_county_def sample_tally_def)
  ultimately show ?thesis
    using aggregated_total [OF sample.key c h, of 7] by (auto simp: sample_key_modulus)
qed

lemma copy_ballot_all:
  assumes "n \<le> length e" and "length ts = n"
  shows "copy_ballot n e ts = take n e"
proof -
  have "k \<le> n \<Longrightarrow> length (fold (\<lambda>i ts. ts[i := e ! i]) [0..<k] ts) = n \<and>
    (\<forall>i < k. fold (\<lambda>i ts. ts[i := e ! i]) [0..<k] ts ! i = e ! i)" for k
    by (induction k) (auto simp: assms(2) nth_list_update less_Suc_eq)
  from this [of n] show ?thesis
    using assms(1) by (simp add: copy_ballot_def min_def list_eq_iff_nth_eq)
qed

text \<open>
  A precinct's tally is not the sum of its ballots: each ballot overwrites the one
  before, so for each choice the tally is the ciphertext of the last ballot in key order that
  answers it, here for a poll whose ballots answer every choice, although the number of
  voters counts them all.
\<close>

theorem precinct_keeps_last_ballot:
  assumes "p_votes (pa_poll pa) \<noteq> []"
    and "\<forall>(_, e) \<in> set (p_votes (pa_poll pa)). length e = length (p_choices (pa_poll pa))"
  shows "at_encryptedTallies (precinct_getTally now pa) = snd (last (p_votes (pa_poll pa))) \<and>
    at_voterCount (precinct_getTally now pa) = of_nat (voterCount (pa_poll pa))"
proof -
  let ?n = "length (p_choices (pa_poll pa))"
  have "fold (\<lambda>(voterId, e). copy_ballot ?n e) vs ts = (if vs = [] then ts else snd (last vs))"
    if "\<forall>(_, e) \<in> set vs. length e = ?n" "length ts = ?n" for vs :: "(string \<times> bytes list) list" and ts
    using that by (induction vs arbitrary: ts) (auto simp: copy_ballot_all)
  from this [OF assms(2), of "replicate ?n []"] assms(1) show ?thesis
    by (simp add: precinct_getTally_def Let_def getEncryptedVotes_def)
qed

definition sample_precinct :: PrecinctAggregator where
  "sample_precinct =
     \<lparr>pa_poll = \<lparr>p_id = [1], p_choices = [''A'', ''B''], p_method = Plurality,
        p_authority = \<lparr>m_idBytes = [7], m_votingPublicKey = True, m_votingPrivateKey = True\<rparr>,
        p_votes = [(''01'', [[3], [4]]), (''02'', [[5], [6]])], p_receipts = [], p_createdAt = 0,
        p_closedAt = None, p_maxWeight = None\<rparr>,
      pa_config = \<lparr>jc_id = [1], jc_name = ''p'', jc_level = Precinct, jc_parentId = None\<rparr>\<rparr>"

theorem precinct_keeps_last_ballot_witness:
  "at_encryptedTallies (precinct_getTally 0 sample_precinct) = [[5], [6]]"
  using precinct_keeps_last_ballot [of sample_precinct 0] by (simp add: sample_precinct_def)

text \<open>
  A precinct without ballots reports empty strings, and an empty string multiplies as
  zero: with such a child after another the county's total of every choice decrypts to 0,
  whatever the first child reported.
\<close>

theorem empty_precinct_erases:
  assumes "key_ok sk" and "bytes_to_bn (sk_lambda sk) \<noteq> 0" and "ag_publicKey ag = sk_public sk"
    and "ag_tallies ag = [(k0, t0), (k1, precinct_getTally now' pa)]"
    and "p_votes (pa_poll pa) = []" and "n = length (p_choices (pa_poll pa))"
    and "tally_hides sk n (at_encryptedTallies t0) m"
  shows "\<exists>t. county_getTally now ag = Inr t \<and>
    (\<forall>i < n. decrypt sk (at_encryptedTallies t ! i) = bn_to_bytes 0)"
proof -
  have e: "at_encryptedTallies (precinct_getTally now' pa) = replicate n []"
    by (simp add: precinct_getTally_def Let_def getEncryptedVotes_def assms(5,6))
  have len: "length (at_encryptedTallies t0) = n" using assms(7) by (simp add: tally_hides_def)
  then obtain cts where cts: "merge_tally (sk_public sk) n (replicate n []) (at_encryptedTallies t0) = Inr cts"
      "\<forall>i < n. if at_encryptedTallies t0 ! i = [] then cts ! i = replicate n [] ! i
        else addition (sk_public sk) [at_encryptedTallies t0 ! i, replicate n [] ! i] = Inr (cts ! i)"
    using merge_tally_result [of n "replicate n []" "at_encryptedTallies t0" "sk_public sk"] by auto
  have "decrypt sk (cts ! i) = bn_to_bytes 0" if "i < n" for i
  proof -
    have "cts ! i = bn_to_bytes 0"
      using cts(2) assms(7) that by (auto simp: tally_hides_def addition_def Let_def)
    then show ?thesis using assms(2) by (simp add: decrypt_def Let_def zero_power)
  qed
  moreover have "\<exists>t. county_getTally now ag = Inr t \<and> at_encryptedTallies t = cts"
    using cts(1) by (simp add: county_getTally_def combine_children_def assms(3,4) Let_def len e
        merge_first [OF assms(7)])
  ultimately show ?thesis by auto
qed

theorem empty_precinct_erases_witness:
  "\<exists>t. county_getTally 0 (sample_county\<lparr>ag_tallies := [(''01'', sample_tally 1 [5]),
       (''02'', precinct_getTally 0 (sample_precinct\<lparr>pa_poll := (pa_poll sample_precinct)
          \<lparr>p_choices := [''A''], p_votes := []\<rparr>\<rparr>))]\<rparr>) = Inr t \<and>
     decrypt sample_key (at_encryptedTallies t ! 0) = bn_to_bytes 0"
proof -
  have g: "gcd (16 :: nat) 18 = 2" by code_simp
  have "sk_lambda (snd (derive_keys minv p q)) = bn_to_bytes ((p - 1) * (q - 1) div gcd (p - 1) (q - 1))"
    for minv p q by (simp add: derive_keys_def Let_def)
  then have "bytes_to_bn (sk_lambda sample_key) = (17 - 1) * (19 - 1) div gcd (17 - 1) (19 - 1)"
    by (simp only: sample_key_def bytes_to_bn_bn_to_bytes)
  then have l: "bytes_to_bn (sk_lambda sample_key) \<noteq> 0" by (simp add: g)
  let ?pa = "sample_precinct\<lparr>pa_poll := (pa_poll sample_precinct)\<lparr>p_choices := [''A''], p_votes := []\<rparr>\<rparr>"
  let ?ag = "sample_county\<lparr>ag_tallies := [(''01'', sample_tally 1 [5]), (''02'', precinct_getTally 0 ?pa)]\<rparr>"
  have "ag_publicKey ?ag = sk_public sample_key" by (simp add: sample_county_def)
  moreover have "ag_tallies ?ag = [(''01'', sample_tally 1 [5]), (''02'', precinct_getTally 0 ?pa)]" by simp
  moreover have "p_votes (pa_poll ?pa) = []" "1 = length (p_choices (pa_poll ?pa))" by simp_all
  ultimately have "\<exists>t. county_getTally 0 ?ag = Inr t \<and>
      (\<forall>i < 1. decrypt sample_key (at_encryptedTallies t ! i) = bn_to_bytes 0)"
    by (rule empty_precinct_erases [OF sample.key l _ _ _ _ sample_tally_hides])
  then show ?thesis by blast
qed

end
