(* ===== verification/XorField.thy ===== *)
theory XorField
  imports Prelude
begin

text \<open>
  Fields whose elements are the numbers below \<open>sz\<close> and whose addition is exclusive or, as an
  interface, with what secret sharing needs of them: a polynomial with as many roots as
  coefficients vanishes everywhere, and so interpolation through enough points is exact.
\<close>

section \<open>The interface\<close>

locale xor_field =
  fixes sz :: nat and mul :: "nat \<Rightarrow> nat \<Rightarrow> nat"
  assumes one_less: "1 < sz"
    and xor_closed [simp]: "\<lbrakk>a < sz; c < sz\<rbrakk> \<Longrightarrow> a XOR c < sz"
    and mul_closed [simp]: "\<lbrakk>a < sz; c < sz\<rbrakk> \<Longrightarrow> mul a c < sz"
    and mul_assoc: "\<lbrakk>a < sz; c < sz; d < sz\<rbrakk> \<Longrightarrow> mul (mul a c) d = mul a (mul c d)"
    and mul_commute: "\<lbrakk>a < sz; c < sz\<rbrakk> \<Longrightarrow> mul a c = mul c a"
    and mul_one [simp]: "a < sz \<Longrightarrow> mul 1 a = a"
    and mul_xor: "\<lbrakk>a < sz; c < sz; d < sz\<rbrakk> \<Longrightarrow> mul a (c XOR d) = mul a c XOR mul a d"
    and inverse_ex: "\<lbrakk>a < sz; a \<noteq> 0\<rbrakk> \<Longrightarrow> \<exists>i < sz. mul a i = 1"
begin

lemma zero_less [simp]: "0 < sz" and one_less' [simp]: "Suc 0 < sz"
  using one_less by simp_all

lemma mul_one' [simp]: "a < sz \<Longrightarrow> mul (Suc 0) a = a"
  using mul_one by simp

lemma xor_cancel [simp]: "a XOR (a XOR c) = (c :: nat)"
  by (metis xor.assoc xor_self_eq xor.left_neutral)

lemma mul_zero_right [simp]: "a < sz \<Longrightarrow> mul a 0 = 0"
  using mul_xor [of a 0 0] by simp

lemma mul_zero_left [simp]: "a < sz \<Longrightarrow> mul 0 a = 0"
  using mul_commute [of 0 a] by simp

lemma xor_mul:
  "\<lbrakk>a < sz; c < sz; d < sz\<rbrakk> \<Longrightarrow> mul (a XOR c) d = mul a d XOR mul c d"
  using mul_xor [of d a c] by (simp add: mul_commute)

lemma mul_left_commute:
  "\<lbrakk>a < sz; c < sz; d < sz\<rbrakk> \<Longrightarrow> mul a (mul c d) = mul c (mul a d)"
  by (metis mul_assoc mul_commute)

lemma mul_cancel:
  assumes "a < sz" "c < sz" "d < sz" "a \<noteq> 0" "mul a c = mul a d"
  shows "c = d"
proof -
  obtain i where i: "i < sz" "mul a i = 1" using inverse_ex assms(1,4) by blast
  then have "mul i (mul a x) = x" if "x < sz" for x
    using that assms(1) by (simp add: mul_commute [of a i] flip: mul_assoc)
  with assms show ?thesis by metis
qed

lemma mul_nonzero: "\<lbrakk>a < sz; c < sz; a \<noteq> 0; mul a c = 0\<rbrakk> \<Longrightarrow> c = 0"
  using mul_cancel [of a c 0] by simp

lemma xor_eq_zero: "a XOR c = 0 \<longleftrightarrow> a = (c :: nat)"
  by (metis xor.assoc xor.left_neutral xor_self_eq xor.right_neutral)

section \<open>Polynomials\<close>

text \<open>Coefficients from the constant term up.\<close>

definition peval :: "nat list \<Rightarrow> nat \<Rightarrow> nat" where
  "peval cs z = foldr (\<lambda>c a. c XOR mul z a) cs 0"

abbreviation carrier :: "nat list \<Rightarrow> bool" where
  "carrier cs \<equiv> set cs \<subseteq> {..<sz}"

lemma peval_simps [simp]:
  "peval [] z = 0"
  "peval (c # cs) z = c XOR mul z (peval cs z)"
  by (simp_all add: peval_def)

lemma peval_closed [simp]: "carrier cs \<Longrightarrow> z < sz \<Longrightarrow> peval cs z < sz"
  by (induction cs) auto

text \<open>Division by a linear factor.\<close>

lemma divide_linear:
  assumes "carrier cs" and "r < sz"
  shows "\<exists>q. length q = length cs - 1 \<and> carrier q \<and>
    (\<forall>z < sz. peval cs z = peval cs r XOR mul (z XOR r) (peval q z))"
  using assms(1)
proof (induction cs)
  case Nil
  show ?case using assms(2) by (intro exI [of _ "[]"]) simp
next
  case (Cons c cs)
  then obtain q where q: "length q = length cs - 1" "carrier q"
      "\<forall>z < sz. peval cs z = peval cs r XOR mul (z XOR r) (peval q z)" by auto
  have cs: "carrier cs" "c < sz" using Cons.prems by auto
  show ?case
  proof (cases cs)
    case Nil
    then show ?thesis using cs assms(2) by (intro exI [of _ "[]"]) simp
  next
    case (Cons d ds)
    let ?q = "peval cs r # q"
    have "peval (c # cs) z = peval (c # cs) r XOR mul (z XOR r) (peval ?q z)" if z: "z < sz" for z
    proof -
      let ?P = "peval cs r" and ?Q = "peval q z"
      have in_sz: "?P < sz" "?Q < sz" "z XOR r < sz" using cs q(2) assms(2) z by simp_all
      have "mul z (mul (z XOR r) ?Q) = mul (z XOR r) (mul z ?Q)"
        using in_sz z by (simp add: mul_left_commute)
      then have "mul z (peval cs z) = mul z ?P XOR mul (z XOR r) (mul z ?Q)"
        using q(3) in_sz z by (simp add: mul_xor)
      moreover have "mul z ?P = mul r ?P XOR mul (z XOR r) ?P"
        using in_sz z assms(2) by (simp add: xor_mul ac_simps)
      moreover have "mul (z XOR r) (peval ?q z) = mul (z XOR r) ?P XOR mul (z XOR r) (mul z ?Q)"
        using in_sz z by (simp add: mul_xor)
      ultimately show ?thesis by (simp add: ac_simps)
    qed
    moreover have "length ?q = length (c # cs) - 1" "carrier ?q"
      using q(1,2) cs(1) assms(2) Cons by simp_all
    ultimately show ?thesis by blast
  qed
qed

lemma roots_vanish:
  assumes "carrier cs" and "distinct rs" and "carrier rs" and "length cs \<le> length rs"
    and "\<forall>r \<in> set rs. peval cs r = 0"
  shows "\<forall>z < sz. peval cs z = 0"
  using assms
proof (induction rs arbitrary: cs)
  case (Cons r rs)
  then obtain q where q: "length q = length cs - 1" "carrier q"
      "\<forall>z < sz. peval cs z = mul (z XOR r) (peval q z)"
    using divide_linear [of cs r] by auto
  have "peval q s = 0" if s: "s \<in> set rs" for s
  proof -
    have "s < sz" "s \<noteq> r" "peval cs s = 0" using s Cons.prems by auto
    then show ?thesis
      using q Cons.prems(3) mul_nonzero [of "s XOR r" "peval q s"] by (simp add: xor_eq_zero)
  qed
  then have "\<forall>z < sz. peval q z = 0"
    using Cons.prems q by (intro Cons.IH) auto
  with q(3) Cons.prems(3) show ?case by simp
qed simp

text \<open>Functions that agree on the field with a polynomial of \<open>k\<close> coefficients.\<close>

definition is_poly :: "nat \<Rightarrow> (nat \<Rightarrow> nat) \<Rightarrow> bool" where
  "is_poly k f \<longleftrightarrow> (\<exists>cs. length cs = k \<and> carrier cs \<and> (\<forall>z < sz. f z = peval cs z))"

lemma is_polyI: "carrier cs \<Longrightarrow> is_poly (length cs) (peval cs)"
  by (auto simp: is_poly_def)

lemma is_poly_const: "c < sz \<Longrightarrow> is_poly (Suc 0) (\<lambda>_. c)"
  by (auto simp: is_poly_def intro!: exI [of _ "[c]"])

lemma is_poly_Suc:
  assumes "is_poly k f" shows "is_poly (Suc k) f"
proof -
  obtain cs where cs: "length cs = k" "carrier cs" "\<forall>z < sz. f z = peval cs z"
    using assms by (auto simp: is_poly_def)
  have "carrier cs \<Longrightarrow> z < sz \<Longrightarrow> peval (cs @ [0]) z = peval cs z" for z
    by (induction cs) auto
  with cs show ?thesis by (auto simp: is_poly_def intro!: exI [of _ "cs @ [0]"])
qed

lemma is_poly_le: "is_poly k f \<Longrightarrow> k \<le> l \<Longrightarrow> is_poly l f"
  by (rule dec_induct [of k l]) (auto intro: is_poly_Suc)

lemma is_poly_xor:
  assumes "is_poly k f" "is_poly k g" shows "is_poly k (\<lambda>z. f z XOR g z)"
proof -
  obtain cs ds where cs: "length cs = k" "carrier cs" "\<forall>z < sz. f z = peval cs z"
    and ds: "length ds = k" "carrier ds" "\<forall>z < sz. g z = peval ds z"
    using assms by (auto simp: is_poly_def)
  let ?es = "map2 (XOR) cs ds"
  have "length cs = length ds" using cs(1) ds(1) by simp
  then have "carrier (map2 (XOR) cs ds) \<and> (\<forall>z < sz. peval (map2 (XOR) cs ds) z = peval cs z XOR peval ds z)"
    using cs(2) ds(2)
    by (induction cs ds rule: list_induct2) (auto simp: mul_xor ac_simps)
  with cs ds show ?thesis unfolding is_poly_def by (intro exI [of _ ?es]) simp
qed

lemma is_poly_scale:
  assumes "is_poly k f" "a < sz" shows "is_poly k (\<lambda>z. mul a (f z))"
proof -
  obtain cs where cs: "length cs = k" "carrier cs" "\<forall>z < sz. f z = peval cs z"
    using assms by (auto simp: is_poly_def)
  have "carrier (map (mul a) cs) \<and> (\<forall>z < sz. peval (map (mul a) cs) z = mul a (peval cs z))"
    using cs(2) assms(2) by (induction cs) (auto simp: mul_xor mul_left_commute)
  with cs show ?thesis unfolding is_poly_def by (intro exI [of _ "map (mul a) cs"]) simp
qed

lemma is_poly_linear:
  assumes "is_poly k f" "a < sz" shows "is_poly (Suc k) (\<lambda>z. mul (z XOR a) (f z))"
proof -
  obtain cs where cs: "length cs = k" "carrier cs" "\<forall>z < sz. f z = peval cs z"
    using assms by (auto simp: is_poly_def)
  have "is_poly (Suc k) (\<lambda>z. mul z (f z))"
    using cs by (auto simp: is_poly_def intro!: exI [of _ "0 # cs"])
  from is_poly_xor [OF this is_poly_Suc [OF is_poly_scale [OF assms]]]
  have "is_poly (Suc k) (\<lambda>z. mul z (f z) XOR mul a (f z))" .
  moreover have "mul (z XOR a) (f z) = mul z (f z) XOR mul a (f z)" if "z < sz" for z
    using cs assms(2) that by (simp add: xor_mul)
  ultimately show ?thesis unfolding is_poly_def by metis
qed

lemma is_poly_closed: "is_poly k f \<Longrightarrow> z < sz \<Longrightarrow> f z < sz"
  by (auto simp: is_poly_def)

section \<open>Interpolation\<close>

text \<open>
  \<open>node_product x xs i\<close> is the product of \<open>x XOR xs ! j\<close> over the indices \<open>j\<close> other than \<open>i\<close>.
\<close>

definition node_product :: "nat \<Rightarrow> nat list \<Rightarrow> nat \<Rightarrow> nat" where
  "node_product x xs i =
     foldr (\<lambda>j p. if j = i then p else mul (x XOR xs ! j) p) [0..<length xs] 1"

definition xor_sum :: "nat list \<Rightarrow> nat" where
  "xor_sum ts = foldr (XOR) ts 0"

lemma xor_sum_simps [simp]: "xor_sum [] = 0" "xor_sum (t # ts) = t XOR xor_sum ts"
  by (simp_all add: xor_sum_def)

lemma xor_sum_snoc: "xor_sum (ts @ [t]) = xor_sum ts XOR t"
  by (induction ts) (simp_all add: ac_simps)

lemma node_fold:
  fixes xs i js
  defines "f \<equiv> \<lambda>z. foldr (\<lambda>j p. if j = i then p else mul (z XOR xs ! j) p) js 1"
  assumes "carrier xs" and "set js \<subseteq> {..<length xs}"
  shows "is_poly (Suc (length (filter (\<lambda>j. j \<noteq> i) js))) f \<and>
    (\<forall>z < sz. f z = 0 \<longleftrightarrow> (\<exists>j \<in> set js. j \<noteq> i \<and> z = xs ! j))"
  using assms(3) unfolding f_def
proof (induction js)
  case Nil
  then show ?case using is_poly_const [of 1] by simp
next
  case (Cons j js)
  let ?g = "\<lambda>z. foldr (\<lambda>j p. if j = i then p else mul (z XOR xs ! j) p) js 1"
  have IH: "is_poly (Suc (length (filter (\<lambda>j. j \<noteq> i) js))) ?g"
      "\<forall>z < sz. ?g z = 0 \<longleftrightarrow> (\<exists>j \<in> set js. j \<noteq> i \<and> z = xs ! j)"
    using Cons by auto
  have "xs ! j \<in> set xs" using Cons.prems by auto
  then have j: "xs ! j < sz" using assms(2) by auto
  show ?case
  proof (cases "j = i")
    case False
    have "mul (z XOR xs ! j) (?g z) = 0 \<longleftrightarrow> z = xs ! j \<or> ?g z = 0" if z: "z < sz" for z
    proof (cases "z = xs ! j")
      case False
      then show ?thesis
        using mul_nonzero [of "z XOR xs ! j" "?g z"] is_poly_closed [OF IH(1) z] j z
        by (auto simp: xor_eq_zero)
    qed (use is_poly_closed [OF IH(1) z] in simp)
    then show ?thesis using is_poly_linear [OF IH(1) j] IH(2) False by auto
  qed (use IH in auto)
qed

lemma node_product_poly:
  assumes "carrier xs" and "i < length xs"
  shows "is_poly (length xs) (\<lambda>z. node_product z xs i)"
    and "z < sz \<Longrightarrow> node_product z xs i = 0 \<longleftrightarrow> (\<exists>j < length xs. j \<noteq> i \<and> z = xs ! j)"
proof -
  have "length (filter (\<lambda>j. j \<noteq> i) [0..<length xs]) = card (set (filter (\<lambda>j. j \<noteq> i) [0..<length xs]))"
    by (rule distinct_card [symmetric]) simp
  also have "set (filter (\<lambda>j. j \<noteq> i) [0..<length xs]) = {..<length xs} - {i}" by auto
  also have "card \<dots> = length xs - 1" using assms(2) by (simp add: card_Diff_singleton)
  finally have "Suc (length (filter (\<lambda>j. j \<noteq> i) [0..<length xs])) = length xs"
    using assms(2) by simp
  moreover have "set [0..<length xs] \<subseteq> {..<length xs}" by auto
  note nf = node_fold [OF assms(1) this, of i]
  ultimately show "is_poly (length xs) (\<lambda>z. node_product z xs i)"
    using conjunct1 [OF nf] unfolding node_product_def by (simp only:)
  show "z < sz \<Longrightarrow> node_product z xs i = 0 \<longleftrightarrow> (\<exists>j < length xs. j \<noteq> i \<and> z = xs ! j)"
    using conjunct2 [OF nf] unfolding node_product_def by auto
qed

text \<open>
  The terms of Lagrange's formula, given by the products they solve rather than by a division,
  add up to the value of any polynomial with at most as many coefficients as there are nodes.
\<close>

theorem interpolation:
  assumes "carrier xs" and "distinct xs" and "is_poly (length xs) f" and "at < sz"
    and "length ts = length xs" and "carrier ts"
    and "\<And>i. i < length xs \<Longrightarrow>
      mul (node_product (xs ! i) xs i) (ts ! i) = mul (node_product at xs i) (f (xs ! i))"
  shows "xor_sum ts = f at"
proof -
  let ?k = "length xs" and ?D = "\<lambda>i. node_product (xs ! i) xs i"
  have x: "xs ! i < sz" if "i < ?k" for i using assms(1) nth_mem [OF that] by auto
  have D: "?D i < sz" "?D i \<noteq> 0" if i: "i < ?k" for i
  proof -
    show "?D i < sz" by (rule is_poly_closed [OF node_product_poly(1) [OF assms(1) i] x [OF i]])
    have "\<not> (\<exists>j < ?k. j \<noteq> i \<and> xs ! i = xs ! j)"
      using assms(2) i by (auto simp: nth_eq_iff_index_eq)
    then show "?D i \<noteq> 0" using node_product_poly(2) [OF assms(1) i x [OF i]] by simp
  qed
  then have "\<forall>i. \<exists>u. i < ?k \<longrightarrow> u < sz \<and> mul (?D i) u = 1" using inverse_ex by blast
  from choice [OF this] obtain v where v: "\<And>i. i < ?k \<Longrightarrow> v i < sz \<and> mul (?D i) (v i) = 1"
    by blast
  let ?w = "\<lambda>i. mul (f (xs ! i)) (v i)"
  let ?t = "\<lambda>z i. mul (?w i) (node_product z xs i)"
  have fx: "f (xs ! i) < sz" if "i < ?k" for i using is_poly_closed [OF assms(3)] x that by blast
  have w: "?w i < sz" if "i < ?k" for i using fx v that by simp
  have N: "node_product z xs i < sz" if "i < ?k" "z < sz" for i z
    using is_poly_closed [OF node_product_poly(1) [OF assms(1)]] that by blast
  define g where "g = (\<lambda>z. f z XOR xor_sum (map (?t z) [0..<?k]))"
  have "is_poly ?k (\<lambda>z. xor_sum (map (?t z) [0..<m]))" if "m \<le> ?k" for m
    using that
  proof (induction m)
    case 0
    have "carrier (replicate ?k 0)" by auto
    moreover have "peval (replicate m 0) z = 0" if "z < sz" for m z
      using that by (induction m) auto
    ultimately show ?case unfolding is_poly_def by (intro exI [of _ "replicate ?k 0"]) simp
  next
    case (Suc m)
    then show ?case
      using is_poly_xor [OF _ is_poly_scale [OF node_product_poly(1) [OF assms(1), of m] w [of m]]]
      by (simp add: xor_sum_snoc)
  qed
  then have "is_poly ?k g" unfolding g_def by (intro is_poly_xor assms(3)) simp
  then obtain cs where cs: "length cs = ?k" "carrier cs" "\<forall>z < sz. g z = peval cs z"
    by (auto simp: is_poly_def)
  have single: "xor_sum (map h [0..<m]) = (if i < m then h i else 0)"
    if "\<And>j. j < m \<Longrightarrow> j \<noteq> i \<Longrightarrow> h j = 0" for h :: "nat \<Rightarrow> nat" and m i
    using that by (induction m) (auto simp: xor_sum_snoc less_Suc_eq)
  have "g (xs ! i) = 0" if i: "i < ?k" for i
  proof -
    have "?t (xs ! i) j = 0" if j: "j < ?k" "j \<noteq> i" for j
    proof -
      have "node_product (xs ! i) xs j = 0"
        using node_product_poly(2) [OF assms(1) j(1) x [OF i]] i j(2) by auto
      then show ?thesis using w [OF j(1)] by simp
    qed
    then have "xor_sum (map (?t (xs ! i)) [0..<?k]) = ?t (xs ! i) i"
      using single [of ?k i "?t (xs ! i)"] i by simp
    also have "\<dots> = mul (f (xs ! i)) (mul (?D i) (v i))"
      using conjunct1 [OF v [OF i]] fx [OF i] D(1) [OF i]
      by (simp add: mul_assoc mul_commute [of "?D i"])
    finally show ?thesis using v [OF i] fx [OF i] mul_commute [of 1 "f (xs ! i)"] by (simp add: g_def)
  qed
  then have "\<forall>r \<in> set xs. peval cs r = 0" using cs(3) x by (auto simp: in_set_conv_nth)
  then have "peval cs at = 0"
    using roots_vanish [OF cs(2) assms(2,1)] cs(1) assms(4) by simp
  then have "g at = 0" using cs(3) assms(4) by simp
  then have "f at = xor_sum (map (?t at) [0..<?k])" by (simp add: g_def xor_eq_zero)
  also have "map (?t at) [0..<?k] = ts"
  proof (rule nth_equalityI)
    fix i assume "i < length (map (?t at) [0..<?k])"
    then have i: "i < ?k" by simp
    have "ts ! i \<in> set ts" using i assms(5) by simp
    then have t: "ts ! i < sz" using assms(6) by auto
    let ?n = "node_product at xs i" and ?f = "f (xs ! i)"
    note lt = N [OF i assms(4)] fx [OF i] D(1) [OF i] conjunct1 [OF v [OF i]] w [OF i]
    have "mul (?D i) (?t at i) = mul (mul (?D i) (v i)) (mul ?n ?f)"
      using lt by (simp add: mul_assoc mul_commute mul_left_commute)
    also have "\<dots> = mul (?D i) (ts ! i)" using v [OF i] lt assms(7) [OF i] by simp
    finally have "?t at i = ts ! i" using lt t D(2) [OF i] mul_cancel [of "?D i" "?t at i" "ts ! i"] by simp
    then show "map (?t at) [0..<?k] ! i = ts ! i" using i by simp
  qed (simp add: assms(5))
  finally show ?thesis by simp
qed

end

end
