(* ===== verification/HexText.thy ===== *)
theory HexText
  imports Prelude
begin

text \<open>
  Reading hexadecimal text the way the C++ library does: \<open>std::stoul\<close> and \<open>std::stoi\<close> with
  base 16, and the digits both read.
\<close>

section \<open>Digits\<close>

definition hex_digit :: "char \<Rightarrow> nat option" where
  "hex_digit c = (let n = of_char c :: nat in
     if 48 \<le> n \<and> n \<le> 57 then Some (n - 48)
     else if 97 \<le> n \<and> n \<le> 102 then Some (n - 87)
     else if 65 \<le> n \<and> n \<le> 70 then Some (n - 55) else None)"

definition digit_char :: "nat \<Rightarrow> char" where
  "digit_char val = char_of (if val < 10 then 48 + val else 87 + val)"

text \<open>
  \<open>std::stoul(str, nullptr, 16)\<close>: white space, a sign, a \<open>0x\<close> prefix before a digit, then the
  digits; a minus sign negates the 64-bit value. \<open>None\<close> is either exception it throws.
\<close>

definition is_space :: "char \<Rightarrow> bool" where
  "is_space c = (let n = of_char c :: nat in n = 32 \<or> 9 \<le> n \<and> n \<le> 13)"

definition strip_0x :: "string \<Rightarrow> string" where
  "strip_0x str = (case str of
     a # b # c # rest \<Rightarrow> if a = CHR ''0'' \<and> (b = CHR ''x'' \<or> b = CHR ''X'') \<and> hex_digit c \<noteq> None
                        then c # rest else str
   | _ \<Rightarrow> str)"

definition hex_value :: "string \<Rightarrow> nat" where
  "hex_value ds = foldl (\<lambda>v c. 16 * v + the (hex_digit c)) 0 ds"

definition stoul16 :: "string \<Rightarrow> nat option" where
  "stoul16 str =
     (let t = dropWhile is_space str;
          neg = (t \<noteq> [] \<and> hd t = CHR ''-'');
          u = (if t \<noteq> [] \<and> (hd t = CHR ''-'' \<or> hd t = CHR ''+'') then tl t else t);
          ds = takeWhile (\<lambda>c. hex_digit c \<noteq> None) (strip_0x u);
          n = hex_value ds
      in if ds = [] \<or> 2 ^ 64 \<le> n then None
         else Some (if neg then (2 ^ 64 - n) mod 2 ^ 64 else n))"

text \<open>
  \<open>std::stoi(str, nullptr, 16)\<close>: the same text read as a signed number, which has to fit an
  \<open>int\<close>.
\<close>

definition stoi16 :: "string \<Rightarrow> int option" where
  "stoi16 str =
     (let t = dropWhile is_space str;
          neg = (t \<noteq> [] \<and> hd t = CHR ''-'');
          u = (if t \<noteq> [] \<and> (hd t = CHR ''-'' \<or> hd t = CHR ''+'') then tl t else t);
          ds = takeWhile (\<lambda>c. hex_digit c \<noteq> None) (strip_0x u);
          n = (if neg then - int (hex_value ds) else int (hex_value ds))
      in if ds = [] \<or> n < - (2 ^ 31) \<or> 2 ^ 31 \<le> n then None else Some n)"

section \<open>Reading back digits\<close>

lemma below_16: "v < 16 \<Longrightarrow> v \<in> {0, 1, 2, 3, 4, 5, 6, 7, 8, 9, 10, 11, 12, 13, 14, 15 :: nat}"
  by simp presburger

lemma hex_digit_char: "v < 16 \<Longrightarrow> hex_digit (digit_char v) = Some v"
  by (drule below_16) (auto simp: hex_digit_def digit_char_def)

lemma hex_value_snoc: "v < 16 \<Longrightarrow> hex_value (ds @ [digit_char v]) = 16 * hex_value ds + v"
  by (simp add: hex_value_def hex_digit_char)

lemma hex_value_zeros: "hex_value (replicate k CHR ''0'' @ ds) = hex_value ds"
proof -
  have "foldl (\<lambda>v c. 16 * v + the (hex_digit c)) 0 (replicate k CHR ''0'') = 0"
    by (induction k) (simp_all add: hex_digit_def)
  then show ?thesis by (simp add: hex_value_def)
qed

lemma digit_list: "map digit_char [0..<16] = ''0123456789abcdef''"
  by code_simp

lemma digit_image: "digit_char ` {..<16} = set ''0123456789abcdef''"
  unfolding digit_list [symmetric] by (simp add: atLeast0LessThan)

lemma digit_chars:
  "c \<in> digit_char ` {..<16} \<Longrightarrow>
     hex_digit c \<noteq> None \<and> \<not> is_space c \<and> c \<notin> {CHR ''-'', CHR ''+'', CHR ''x'', CHR ''X''}"
proof -
  have "list_all (\<lambda>c. hex_digit c \<noteq> None \<and> \<not> is_space c \<and> c \<notin> {CHR ''-'', CHR ''+'', CHR ''x'', CHR ''X''})
      ''0123456789abcdef''" by code_simp
  then show "c \<in> digit_char ` {..<16} \<Longrightarrow> ?thesis" unfolding digit_image list_all_iff by blast
qed

text \<open>A string of digits is read as its value.\<close>

lemma stoul16_digits:
  assumes "set ds \<subseteq> digit_char ` {..<16}" and "ds \<noteq> []" and "hex_value ds < 2 ^ 64"
  shows "stoul16 ds = Some (hex_value ds)"
proof -
  have c: "hex_digit c \<noteq> None" "\<not> is_space c" "c \<notin> {CHR ''-'', CHR ''+'', CHR ''x'', CHR ''X''}"
    if "c \<in> set ds" for c using digit_chars [of c] assms(1) that by auto
  have "dropWhile is_space ds = ds" using c(2) assms(2) by (cases ds) auto
  moreover have "hd ds \<notin> {CHR ''-'', CHR ''+''}" using c(3) [of "hd ds"] assms(2) by auto
  moreover have "strip_0x ds = ds"
    using c(3) by (auto simp: strip_0x_def split: list.splits)
  moreover have tw: "takeWhile (\<lambda>c. hex_digit c \<noteq> None) ds = ds"
    using c(1) by (simp add: takeWhile_eq_all_conv)
  ultimately show ?thesis using assms(2,3)
    by (simp add: stoul16_def Let_def tw del: not_None_eq takeWhile_eq_all_conv)
qed

end
