(* ===== verification/Shamir.thy ===== *)
theory Shamir
  imports XorField HexText
begin

text \<open>
  \<open>shamir.{hpp,cpp}\<close>: secret sharing over GF(2^bits) with logarithm tables. A string of binary
  digits is a list of booleans. The random coefficients are a parameter: \<open>rnd k i\<close> is the
  32-bit number drawn for coefficient \<open>i\<close> of the polynomial of part \<open>k\<close>. The tables
  are read with checked access where the code does not establish the range of the index.
\<close>

section \<open>Binary and hexadecimal strings\<close>

text \<open>The \<open>w\<close> low binary digits of a number, most significant first.\<close>

definition nat_bits :: "nat \<Rightarrow> nat \<Rightarrow> bool list" where
  "nat_bits w v = map (\<lambda>i. bit v (w - 1 - i)) [0..<w]"

definition bits_val :: "bool list \<Rightarrow> nat" where
  "bits_val bs = foldl (\<lambda>v b. 2 * v + of_bool b) 0 bs"

fun hex2bin :: "string \<Rightarrow> bool list res" where
  "hex2bin [] = Inr []"
| "hex2bin (c # cs) =
     (case hex_digit c of
        None \<Rightarrow> Inl (InvalidArgument ''Invalid hex character'')
      | Some val \<Rightarrow> bind_res (hex2bin cs) (\<lambda>bs. Inr (nat_bits 4 val @ bs)))"

definition pad4 :: "bool list \<Rightarrow> bool list" where
  "pad4 bs = replicate ((4 - length bs mod 4) mod 4) False @ bs"

fun nibbles :: "bool list \<Rightarrow> string" where
  "nibbles (a # b # c # d # bs) = digit_char (bits_val [a, b, c, d]) # nibbles bs"
| "nibbles _ = []"

definition bin2hex :: "bool list \<Rightarrow> string" where
  "bin2hex bs = nibbles (pad4 bs)"

definition padLeft :: "bool list \<Rightarrow> nat \<Rightarrow> bool list" where
  "padLeft bs len = (if len \<le> length bs then bs else replicate (len - length bs) False @ bs)"

definition padBinary :: "bool list \<Rightarrow> nat \<Rightarrow> bool list" where
  "padBinary bs multipleOf =
     (if multipleOf = 0 \<or> multipleOf = 1 then bs
      else let missing = length bs mod multipleOf in
        if missing = 0 then bs else replicate (multipleOf - missing) False @ bs)"

text \<open>Chunks of \<open>bits\<close> digits from the right; \<open>bits\<close> is positive in every table that was built.\<close>

function splitNumStringToIntArray :: "bool list \<Rightarrow> nat \<Rightarrow> nat list" where
  "splitNumStringToIntArray bs bits =
     (if bits < length bs \<and> 0 < bits
      then bits_val (drop (length bs - bits) bs) # splitNumStringToIntArray (take (length bs - bits) bs) bits
      else if bs \<noteq> [] then [bits_val bs] else [])"
  by pat_completeness auto
termination by (relation "measure (\<lambda>(bs, _). length bs)") auto

declare splitNumStringToIntArray.simps [simp del]

section \<open>Tables\<close>

definition PRIMITIVE_POLYNOMIALS :: "nat list" where
  "PRIMITIVE_POLYNOMIALS = [0, 0, 1, 3, 3, 5, 3, 3, 29, 17, 9, 5, 83, 27, 43, 3, 45, 9, 39, 39, 9]"

record ShamirSecretSharing =
  ss_bits :: nat
  ss_size :: nat
  ss_maxShares :: nat
  ss_logs :: "nat list"
  ss_exps :: "nat list"

text \<open>\<open>x <<= 1; if (x >= size_) { x ^= primitive; x &= maxShares_; }\<close>\<close>

definition next_exp :: "nat \<Rightarrow> nat \<Rightarrow> nat \<Rightarrow> nat" where
  "next_exp primitive bits x =
     (if 2 ^ bits \<le> 2 * x then take_bit bits (2 * x XOR primitive) else 2 * x)"

definition init_step ::
  "nat \<Rightarrow> nat \<Rightarrow> nat \<Rightarrow> nat \<times> nat list \<times> nat list \<Rightarrow> (nat \<times> nat list \<times> nat list) res" where
  "init_step primitive bits i = (\<lambda>(x, exps, logs).
     if i < length exps \<and> x < length logs
     then Inr (next_exp primitive bits x, exps[i := x], logs[x := i])
     else Inl UndefinedBehaviour)"

definition resize :: "nat \<Rightarrow> nat list \<Rightarrow> nat list" where
  "resize n xs = take n xs @ replicate (n - length xs) 0"

definition initTables :: "ShamirSecretSharing \<Rightarrow> ShamirSecretSharing res" where
  "initTables s =
     bind_res (vec_get PRIMITIVE_POLYNOMIALS (ss_bits s)) (\<lambda>primitive.
     bind_res (fold_res (init_step primitive (ss_bits s)) [0..<ss_size s]
                 (1, resize (ss_size s) (ss_exps s), resize (ss_size s) (ss_logs s)))
       (\<lambda>(x, exps, logs). Inr (s\<lparr>ss_exps := exps, ss_logs := logs\<rparr>)))"

text \<open>Setting the field size, as the constructor and \<open>parseShare\<close> do, and building its tables.\<close>

definition set_bits :: "nat \<Rightarrow> ShamirSecretSharing \<Rightarrow> ShamirSecretSharing res" where
  "set_bits bits s = initTables (s\<lparr>ss_bits := bits, ss_size := 2 ^ bits, ss_maxShares := 2 ^ bits - 1\<rparr>)"

definition mkShamir :: "nat \<Rightarrow> ShamirSecretSharing res" where
  "mkShamir bits =
     (if bits < 3 \<or> 20 < bits then Inl (InvalidArgument ''Bits must be between 3 and 20'')
      else set_bits bits \<lparr>ss_bits = 0, ss_size = 0, ss_maxShares = 0, ss_logs = [], ss_exps = []\<rparr>)"

section \<open>Evaluation and interpolation\<close>

text \<open>\<open>share\<close> calls this with \<open>x\<close> from 1 to \<open>maxShares_\<close> and coefficients below \<open>size_\<close>.\<close>

definition horner :: "ShamirSecretSharing \<Rightarrow> nat \<Rightarrow> nat list \<Rightarrow> nat" where
  "horner s x coeffs =
     (let logx = ss_logs s ! x in
      foldr (\<lambda>c fx. if fx \<noteq> 0 then (ss_exps s ! ((logx + ss_logs s ! fx) mod ss_maxShares s)) XOR c else c)
        coeffs 0)"

text \<open>
  The inner loop of \<open>lagrange\<close>; \<open>None\<close> is the sentinel -1. The sums are of 32-bit unsigned
  numbers.
\<close>

fun lagrange_product ::
  "ShamirSecretSharing \<Rightarrow> nat \<Rightarrow> nat list \<Rightarrow> nat \<Rightarrow> nat list \<Rightarrow> nat \<Rightarrow> nat option res" where
  "lagrange_product s at x i [] product = Inr (Some product)"
| "lagrange_product s at x i (j # js) product =
     (if i = j then lagrange_product s at x i js product
      else if at = x ! j then Inr None
      else bind_res (vec_get (ss_logs s) (at XOR x ! j)) (\<lambda>l1.
           bind_res (vec_get (ss_logs s) (x ! i XOR x ! j)) (\<lambda>l2.
             lagrange_product s at x i js
               ((product + l1 + (2 ^ 32 - l2) + ss_maxShares s) mod 2 ^ 32 mod ss_maxShares s))))"

definition lagrange_term ::
  "ShamirSecretSharing \<Rightarrow> nat \<Rightarrow> nat list \<Rightarrow> nat list \<Rightarrow> nat \<Rightarrow> nat \<Rightarrow> nat res" where
  "lagrange_term s at x y i acc =
     bind_res (vec_get y i) (\<lambda>yi.
       if yi = 0 then Inr acc
       else bind_res (vec_get (ss_logs s) yi) (\<lambda>l.
            bind_res (lagrange_product s at x i [0..<length x] l) (\<lambda>product.
              case product of
                None \<Rightarrow> Inr acc
              | Some p \<Rightarrow> bind_res (vec_get (ss_exps s) p) (\<lambda>e. Inr (acc XOR e)))))"

definition lagrange :: "ShamirSecretSharing \<Rightarrow> nat \<Rightarrow> nat list \<Rightarrow> nat list \<Rightarrow> nat res" where
  "lagrange s at x y = fold_res (lagrange_term s at x y) [0..<length x] 0"

section \<open>Share strings\<close>

fun hex_len :: "nat \<Rightarrow> nat" where
  "hex_len n = (if n = 0 then 0 else Suc (hex_len (n div 16)))"

declare hex_len.simps [simp del]

definition getIdLength :: "ShamirSecretSharing \<Rightarrow> nat" where
  "getIdLength s = hex_len (2 ^ ss_bits s - 1)"

fun hex_num :: "nat \<Rightarrow> string" where
  "hex_num n = (if n < 16 then [digit_char n] else hex_num (n div 16) @ [digit_char (n mod 16)])"

declare hex_num.simps [simp del]

definition bits_char :: "nat \<Rightarrow> char" where
  "bits_char bits = char_of (if bits < 10 then 48 + bits else 65 + (bits - 10))"

definition formatShare :: "ShamirSecretSharing \<Rightarrow> nat \<Rightarrow> string \<Rightarrow> string" where
  "formatShare s ident data =
     bits_char (ss_bits s) #
     (let h = hex_num ident in replicate (getIdLength s - length h) CHR ''0'' @ h) @ data"

definition char_bits :: "char \<Rightarrow> nat option" where
  "char_bits c = (let n = of_char c :: nat in
     if 48 \<le> n \<and> n \<le> 57 then Some (n - 48)
     else if 65 \<le> n \<and> n \<le> 90 then Some (10 + (n - 65))
     else if 97 \<le> n \<and> n \<le> 122 then Some (10 + (n - 97)) else None)"

text \<open>A share of another field size rebuilds the tables, and the object keeps them.\<close>

definition parseShare :: "string \<Rightarrow> ShamirSecretSharing \<Rightarrow> (nat \<times> string) res \<times> ShamirSecretSharing" where
  "parseShare share s =
     (if length share < 3 then (Inl (InvalidArgument ''Invalid share format: too short''), s)
      else case char_bits (share ! 0) of
        None \<Rightarrow> (Inl (InvalidArgument ''Invalid bits character''), s)
      | Some shareBits \<Rightarrow>
        (case (if shareBits \<noteq> ss_bits s then set_bits shareBits s else Inr s) of
           Inl e \<Rightarrow> (Inl e, s)
         | Inr s' \<Rightarrow>
           let idLen = getIdLength s' in
           if length share < 1 + idLen
           then (Inl (InvalidArgument ''Invalid share format: too short for ID field''), s')
           else let idStr = take idLen (drop 1 share) in
             (case stoul16 idStr of
                None \<Rightarrow> (Inl (InvalidArgument (''Invalid share ID format: '' @ idStr)), s')
              | Some v \<Rightarrow> (Inr (v mod 2 ^ 32, drop (1 + idLen) share), s'))))"

section \<open>Sharing and combining\<close>

definition part_coeffs :: "ShamirSecretSharing \<Rightarrow> (nat \<Rightarrow> 32 word) \<Rightarrow> nat \<Rightarrow> nat \<Rightarrow> nat list" where
  "part_coeffs s draw threshold part =
     part # map (\<lambda>i. unat (draw i) mod ss_size s) [1..<threshold]"

definition share_bits :: "ShamirSecretSharing \<Rightarrow> nat list \<Rightarrow> bool list" where
  "share_bits s vals = concat (map (\<lambda>v. padLeft (nat_bits (ss_bits s) v) (ss_bits s)) (rev vals))"

definition share ::
  "(nat \<Rightarrow> nat \<Rightarrow> 32 word) \<Rightarrow> string \<Rightarrow> nat \<Rightarrow> nat \<Rightarrow> ShamirSecretSharing \<Rightarrow> string list res" where
  "share rnd secret numShares threshold s =
     (if numShares < 2 \<or> ss_maxShares s < numShares
        then Inl (InvalidArgument ''Invalid number of shares'')
      else if threshold < 2 \<or> numShares < threshold then Inl (InvalidArgument ''Invalid threshold'')
      else bind_res (hex2bin secret) (\<lambda>bs.
        let secretParts = splitNumStringToIntArray (padBinary (True # bs) 128) (ss_bits s);
            polys = map (\<lambda>k. part_coeffs s (rnd k) threshold (secretParts ! k)) [0..<length secretParts];
            shareValues = map (\<lambda>i. map (horner s i) polys) [1..<Suc numShares]
        in Inr (map (\<lambda>i. formatShare s (i + 1) (bin2hex (share_bits s (shareValues ! i)))) [0..<numShares])))"

text \<open>\<open>yValues[j].push_back(parts[j])\<close>, growing the outer vector as needed.\<close>

definition accumulate :: "nat list list \<Rightarrow> nat list \<Rightarrow> nat list list" where
  "accumulate yValues parts =
     map (\<lambda>j. (if j < length yValues then yValues ! j else []) @
              (if j < length parts then [parts ! j] else []))
       [0..<max (length yValues) (length parts)]"

fun parse_shares ::
  "string list \<Rightarrow> nat list \<Rightarrow> nat list list \<Rightarrow> ShamirSecretSharing \<Rightarrow>
   (nat list \<times> nat list list) res \<times> ShamirSecretSharing" where
  "parse_shares [] ids yValues s = (Inr (ids, yValues), s)"
| "parse_shares (sh # shares) ids yValues s =
     (case parseShare sh s of
        (Inl e, s') \<Rightarrow> (Inl e, s')
      | (Inr (ident, data), s') \<Rightarrow>
          if ident \<in> set ids then parse_shares shares ids yValues s'
          else (case hex2bin data of
                  Inl e \<Rightarrow> (Inl e, s')
                | Inr binData \<Rightarrow>
                    parse_shares shares (ids @ [ident])
                      (accumulate yValues (splitNumStringToIntArray binData (ss_bits s'))) s'))"

definition strip_marker :: "bool list \<Rightarrow> bool list" where
  "strip_marker bs = (if True \<in> set bs then tl (dropWhile Not bs) else [False])"

definition combine :: "string list \<Rightarrow> ShamirSecretSharing \<Rightarrow> string res \<times> ShamirSecretSharing" where
  "combine shares s =
     (if shares = [] then (Inl (InvalidArgument ''No shares provided''), s)
      else case parse_shares shares [] [] s of
        (Inl e, s') \<Rightarrow> (Inl e, s')
      | (Inr (ids, yValues), s') \<Rightarrow>
          (bind_res (fold_res (\<lambda>y resultBin. bind_res (lagrange s' 0 ids y) (\<lambda>val.
                       Inr (padLeft (nat_bits (ss_bits s') val) (ss_bits s') @ resultBin))) yValues [])
             (\<lambda>resultBin. Inr (bin2hex (strip_marker resultBin))), s'))"

end
