(* ===== verification/ShamirTables.thy ===== *)
theory ShamirTables
  imports Shamir
begin

text \<open>
  The logarithm tables of \<open>Shamir\<close> make a field of the numbers below \<open>2 ^ bits\<close>, provided the
  table's polynomial is primitive: repeated doubling runs through every nonzero number.
  That is checked by evaluation for the field sizes named in \<open>tables_primitive\<close>.
\<close>

section \<open>Doubling\<close>

lemma xor_less_pow: "a < 2 ^ n \<Longrightarrow> c < 2 ^ n \<Longrightarrow> a XOR c < (2 ^ n :: nat)"
  by (metis take_bit_nat_eq_self take_bit_nat_less_exp take_bit_xor)

lemma bit_top: "a < 2 ^ Suc n \<Longrightarrow> bit a n \<longleftrightarrow> 2 ^ n \<le> (a :: nat)"
proof -
  assume a: "a < 2 ^ Suc n"
  have "a div 2 ^ n = 0 \<or> a div 2 ^ n = 1"
    using a by (metis less_2_cases less_mult_imp_div_less mult.commute power_Suc One_nat_def)
  then show ?thesis
  proof
    assume "a div 2 ^ n = 0"
    then show ?thesis by (simp add: bit_iff_odd div_eq_0_iff)
  next
    assume d: "a div 2 ^ n = 1"
    have "a div 2 ^ n * 2 ^ n \<le> a" by (rule div_times_less_eq_dividend)
    with d show ?thesis by (simp add: bit_iff_odd)
  qed
qed

lemma next_exp_less: "x < 2 ^ bits \<Longrightarrow> next_exp p bits x < 2 ^ bits"
  by (simp add: next_exp_def del: take_bit_xor)

lemma next_exp_bit:
  assumes "0 < bits" and "x < 2 ^ bits"
  shows "next_exp p bits x = take_bit bits (push_bit 1 x XOR (if bit x (bits - 1) then p else 0))"
proof -
  obtain n where n: "bits = Suc n" using assms(1) by (cases bits) auto
  have "2 ^ bits \<le> 2 * x \<longleftrightarrow> bit x (bits - 1)" using bit_top [of x n] assms(2) by (simp add: n)
  then show ?thesis by (auto simp: next_exp_def push_bit_eq_mult mult.commute take_bit_nat_eq_self)
qed

text \<open>Doubling is linear.\<close>

lemma next_exp_xor:
  assumes "0 < bits" and "x < 2 ^ bits" and "y < 2 ^ bits"
  shows "next_exp p bits (x XOR y) = next_exp p bits x XOR next_exp p bits y"
  unfolding next_exp_bit [OF assms(1) xor_less_pow [OF assms(2,3)]]
    next_exp_bit [OF assms(1,2)] next_exp_bit [OF assms(1,3)]
  by (auto simp: bit_eq_iff bit_simps)

definition pow_exp :: "nat \<Rightarrow> nat \<Rightarrow> nat \<Rightarrow> nat" where
  "pow_exp p bits i = (next_exp p bits ^^ i) 1"

text \<open>Whether the next \<open>n\<close> numbers from \<open>x\<close> on stay away from 1.\<close>

primrec path_free :: "nat \<Rightarrow> nat \<Rightarrow> nat \<Rightarrow> nat \<Rightarrow> bool" where
  "path_free p bits 0 x = True"
| "path_free p bits (Suc n) x = (x \<noteq> 1 \<and> path_free p bits n (next_exp p bits x))"

definition primitive_table :: "nat \<Rightarrow> bool" where
  "primitive_table bits \<longleftrightarrow> 1 < bits \<and> bits < length PRIMITIVE_POLYNOMIALS \<and>
     (let p = PRIMITIVE_POLYNOMIALS ! bits in
        path_free p bits (2 ^ bits - 2) (next_exp p bits 1) \<and> pow_exp p bits (2 ^ bits - 1) = 1)"

lemma path_free_iff:
  "path_free p bits n x \<longleftrightarrow> (\<forall>i < n. (next_exp p bits ^^ i) x \<noteq> 1)"
  by (induction n arbitrary: x) (auto simp: funpow_swap1 less_Suc_eq_0_disj)

lemma path_free_num:
  "path_free p bits (numeral k) x \<longleftrightarrow> x \<noteq> 1 \<and> path_free p bits (pred_numeral k) (next_exp p bits x)"
  by (subst numeral_eq_Suc) (simp only: path_free.simps)

lemma funpow_num: "(f ^^ numeral k) x = (f ^^ pred_numeral k) (f x)"
  by (simp add: numeral_eq_Suc funpow_swap1)

lemma primitive_tableI:
  assumes "PRIMITIVE_POLYNOMIALS ! bits = p" "1 < bits" "bits < length PRIMITIVE_POLYNOMIALS"
    and "path_free p bits (2 ^ bits - 2) (next_exp p bits 1)" "(next_exp p bits ^^ (2 ^ bits - 1)) 1 = 1"
  shows "primitive_table bits"
  using assms by (simp add: primitive_table_def pow_exp_def)

text \<open>The field sizes up to \<open>2 ^ 10\<close>, among them the default of 8 bits.\<close>

lemma tables_primitive:
  "primitive_table 3" "primitive_table 4" "primitive_table 5" "primitive_table 6"
  "primitive_table 7" "primitive_table 8" "primitive_table 9" "primitive_table 10"
  by (rule primitive_tableI [OF refl]; simp add: PRIMITIVE_POLYNOMIALS_def;
      simp add: next_exp_def path_free_num funpow_num)+

section \<open>The field of a primitive table\<close>

locale gf_tables =
  fixes bits :: nat
  assumes prim: "primitive_table bits"
begin

abbreviation "nxt \<equiv> next_exp (PRIMITIVE_POLYNOMIALS ! bits) bits"
abbreviation "pw \<equiv> pow_exp (PRIMITIVE_POLYNOMIALS ! bits) bits"

definition top_exp :: nat where
  "top_exp = 2 ^ bits - 1"

lemma bits_pos: "0 < bits" and bits_gt1: "1 < bits"
  using prim by (auto simp: primitive_table_def)

lemma four_le: "(4 :: nat) \<le> 2 ^ bits"
proof -
  have "(2 :: nat) ^ 2 \<le> 2 ^ bits" by (rule power_increasing) (use bits_gt1 in simp_all)
  then show ?thesis by simp
qed

lemma top_exp_pos: "0 < top_exp" "1 < top_exp"
  using four_le by (simp_all add: top_exp_def)

lemma pw_0: "pw 0 = 1" and pw_top: "pw top_exp = 1"
  using prim by (auto simp: pow_exp_def primitive_table_def Let_def top_exp_def)

lemma pw_add: "pw (i + j) = (nxt ^^ i) (pw j)"
  by (simp add: pow_exp_def funpow_add)

lemma pw_period: "pw (i + top_exp) = pw i"
  using pw_add [of i top_exp] pw_add [of i 0] by (simp only: pw_top pw_0 add_0_right)

lemma pw_period_mult: "pw (i + k * top_exp) = pw i"
proof (induction k)
  case (Suc k)
  have "pw (i + Suc k * top_exp) = pw ((i + k * top_exp) + top_exp)" by (simp add: algebra_simps)
  with Suc show ?case by (simp only: pw_period)
qed simp

lemma pw_mod: "pw (i mod top_exp) = pw i"
  using pw_period_mult [of "i mod top_exp" "i div top_exp"] by (simp add: mod_div_mult_eq)

lemma nxt_less: "x < 2 ^ bits \<Longrightarrow> nxt x < 2 ^ bits"
  by (rule next_exp_less)

lemma iter_less: "x < 2 ^ bits \<Longrightarrow> (nxt ^^ i) x < 2 ^ bits"
  by (induction i) (simp_all add: nxt_less)

lemma nxt_zero: "(nxt ^^ i) 0 = 0"
  using bits_pos by (induction i) (simp_all add: next_exp_def)

lemma iter_xor:
  "x < 2 ^ bits \<Longrightarrow> y < 2 ^ bits \<Longrightarrow> (nxt ^^ i) (x XOR y) = (nxt ^^ i) x XOR (nxt ^^ i) y"
  by (induction i) (simp_all add: next_exp_xor [OF bits_pos] iter_less)

lemma pw_less [simp]: "pw i < 2 ^ bits"
  unfolding pow_exp_def using four_le by (intro iter_less) simp

lemma pw_nonzero [simp]: "pw i \<noteq> 0"
proof
  assume "pw i = 0"
  then have "pw (i * (top_exp - 1) + i) = 0" by (simp only: pw_add nxt_zero)
  moreover have "i * (top_exp - 1) + i = 0 + i * top_exp"
    using top_exp_pos(1) by (cases top_exp) auto
  ultimately have "pw (0 + i * top_exp) = 0" by simp
  then show False by (simp only: pw_period_mult pw_0)
qed

lemma pw_pos [simp]: "0 < pw i"
  by (simp add: pw_nonzero [THEN neq0_conv [THEN iffD1]])

lemma pw_no_return: "0 < i \<Longrightarrow> i < top_exp \<Longrightarrow> pw i \<noteq> 1"
proof -
  assume i: "0 < i" "i < top_exp"
  have "\<forall>j < 2 ^ bits - 2. (nxt ^^ j) (nxt 1) \<noteq> 1"
    using prim by (simp add: primitive_table_def Let_def path_free_iff)
  then have "(nxt ^^ (i - 1)) (nxt 1) \<noteq> 1" using i by (auto simp: top_exp_def)
  then show "pw i \<noteq> 1" using i(1) by (cases i) (simp_all add: pow_exp_def funpow_swap1)
qed

lemma pw_inj: "inj_on pw {..<top_exp}"
proof -
  have neq: False if "i < j" "j < top_exp" "pw i = pw j" for i j
  proof -
    have "pw (j - i) = pw ((top_exp - i) + j)"
      using that pw_period [of "j - i"] by (simp add: algebra_simps)
    also have "\<dots> = pw ((top_exp - i) + i)" using that(3) by (simp only: pw_add)
    also have "\<dots> = 1" using that pw_top by simp
    finally have "pw (j - i) = 1" .
    moreover have "0 < j - i" "j - i < top_exp" using that by simp_all
    ultimately show False using pw_no_return by blast
  qed
  show ?thesis by (rule inj_onI) (metis neq lessThan_iff linorder_less_linear)
qed

lemma pw_image: "pw ` {..<top_exp} = {1..<2 ^ bits}"
proof (rule card_subset_eq)
  show "pw ` {..<top_exp} \<subseteq> {1..<2 ^ bits}" by (auto simp: Suc_le_eq pw_pos)
  show "card (pw ` {..<top_exp}) = card {1..<(2 :: nat) ^ bits}" using card_image [OF pw_inj] by (simp add: top_exp_def)
qed simp

lemma pw_ex: "0 < a \<Longrightarrow> a < 2 ^ bits \<Longrightarrow> \<exists>i < top_exp. pw i = a"
proof -
  assume "0 < a" "a < 2 ^ bits"
  then have "a \<in> pw ` {..<top_exp}" unfolding pw_image by simp
  then show ?thesis by auto
qed

text \<open>The logarithm, in the range the tables keep it in.\<close>

lemma pw_ex1:
  assumes "0 < a" "a < 2 ^ bits"
  shows "\<exists>!i. 0 < i \<and> i \<le> top_exp \<and> pw i = a"
proof -
  obtain i where i: "i < top_exp" "pw i = a" using pw_ex assms by blast
  have "\<exists>j. 0 < j \<and> j \<le> top_exp \<and> pw j = a"
    using i pw_top pw_0 top_exp_pos by (cases "i = 0") (auto intro: exI [of _ top_exp] exI [of _ i])
  moreover have "j = k" if "0 < j \<and> j \<le> top_exp \<and> pw j = a" "0 < k \<and> k \<le> top_exp \<and> pw k = a" for j k
  proof -
    have "pw (j mod top_exp) = pw (k mod top_exp)" using that by (simp only: pw_mod)
    moreover have "j mod top_exp < top_exp" "k mod top_exp < top_exp" using top_exp_pos by simp_all
    ultimately have "j mod top_exp = k mod top_exp" using pw_inj by (auto dest: inj_onD)
    with that show "j = k" by (metis le_neq_implies_less less_irrefl mod_less mod_self)
  qed
  ultimately show ?thesis by blast
qed

definition lg :: "nat \<Rightarrow> nat" where
  "lg a = (THE i. 0 < i \<and> i \<le> top_exp \<and> pw i = a)"

lemma lg: "0 < a \<Longrightarrow> a < 2 ^ bits \<Longrightarrow> 0 < lg a \<and> lg a \<le> top_exp \<and> pw (lg a) = a"
  unfolding lg_def by (rule theI' [OF pw_ex1])

lemma lg_unique: "0 < i \<Longrightarrow> i \<le> top_exp \<Longrightarrow> lg (pw i) = i"
  using lg [of "pw i"] pw_ex1 [of "pw i"] by (metis pw_less pw_pos)

definition gf_mul :: "nat \<Rightarrow> nat \<Rightarrow> nat" where
  "gf_mul a c = (if a = 0 then 0 else (nxt ^^ lg a) c)"

lemma gf_mul_pw: "gf_mul (pw i) (pw j) = pw (i + j)"
proof -
  have "pw (lg (pw i)) = pw i" using lg [of "pw i"] by simp
  then have "pw (j + lg (pw i)) = pw (j + i)" by (simp only: pw_add)
  then show ?thesis by (simp add: gf_mul_def add.commute flip: pw_add)
qed

lemma gf_mul_zero [simp]: "gf_mul a 0 = 0" "gf_mul 0 a = 0"
  by (simp_all add: gf_mul_def nxt_zero)

lemma as_pw: "a < 2 ^ bits \<Longrightarrow> a = 0 \<or> (\<exists>i. a = pw i)"
  using pw_ex [of a] by auto

end

sublocale gf_tables \<subseteq> field: xor_field "2 ^ bits" gf_mul
proof unfold_locales
  show "(1 :: nat) < 2 ^ bits" using four_le by simp
next
  fix a c :: nat assume "a < 2 ^ bits" "c < 2 ^ bits"
  then show "a XOR c < 2 ^ bits" by (rule xor_less_pow)
next
  fix a c :: nat assume "a < 2 ^ bits" "c < 2 ^ bits"
  then show "gf_mul a c < 2 ^ bits" by (simp add: gf_mul_def iter_less)
next
  fix a c d :: nat assume "a < 2 ^ bits" "c < 2 ^ bits" "d < 2 ^ bits"
  then show "gf_mul (gf_mul a c) d = gf_mul a (gf_mul c d)"
    using as_pw [of a] as_pw [of c] as_pw [of d] by (auto simp: gf_mul_pw add.assoc)
next
  fix a c :: nat assume "a < 2 ^ bits" "c < 2 ^ bits"
  then show "gf_mul a c = gf_mul c a"
    using as_pw [of a] as_pw [of c] by (auto simp: gf_mul_pw add.commute)
next
  fix a :: nat assume "a < 2 ^ bits"
  then show "gf_mul 1 a = a"
    using as_pw [of a] gf_mul_pw [of 0] by (auto simp: pw_0)
next
  fix a c d :: nat assume "a < 2 ^ bits" "c < 2 ^ bits" "d < 2 ^ bits"
  then show "gf_mul a (c XOR d) = gf_mul a c XOR gf_mul a d"
    by (simp add: gf_mul_def iter_xor)
next
  fix a :: nat assume a: "a < 2 ^ bits" "a \<noteq> 0"
  then obtain i where i: "i < top_exp" "a = pw i" using pw_ex [of a] by auto
  then have "gf_mul a (pw (top_exp - i)) = 1" using pw_top by (simp add: gf_mul_pw)
  then show "\<exists>j < 2 ^ bits. gf_mul a j = 1" using pw_less by blast
qed

section \<open>The tables the code builds\<close>

definition tables_ok :: "ShamirSecretSharing \<Rightarrow> bool" where
  "tables_ok s \<longleftrightarrow> primitive_table (ss_bits s) \<and> ss_size s = 2 ^ ss_bits s \<and>
     ss_maxShares s = 2 ^ ss_bits s - 1 \<and>
     ss_exps s = map (pow_exp (PRIMITIVE_POLYNOMIALS ! ss_bits s) (ss_bits s)) [0..<2 ^ ss_bits s] \<and>
     length (ss_logs s) = 2 ^ ss_bits s \<and>
     (\<forall>i. 0 < i \<and> i < 2 ^ ss_bits s \<longrightarrow>
        ss_logs s ! pow_exp (PRIMITIVE_POLYNOMIALS ! ss_bits s) (ss_bits s) i = i)"

lemma length_resize [simp]: "length (resize n xs) = n"
  by (simp add: resize_def)

context gf_tables
begin

lemma init_fold:
  assumes "length e0 = 2 ^ bits" and "length l0 = 2 ^ bits" and "k \<le> 2 ^ bits"
  shows "\<exists>es ls. fold_res (init_step (PRIMITIVE_POLYNOMIALS ! bits) bits) [0..<k] (1, e0, l0) = Inr (pw k, es, ls) \<and>
    length es = 2 ^ bits \<and> length ls = 2 ^ bits \<and> (\<forall>i < k. es ! i = pw i) \<and>
    (\<forall>i < k. (\<forall>j < k. i < j \<longrightarrow> pw j \<noteq> pw i) \<longrightarrow> ls ! pw i = i)"
  using assms(3)
proof (induction k)
  case 0
  then show ?case using assms(1,2) by (simp add: pw_0)
next
  case (Suc k)
  then obtain es ls where IH: "fold_res (init_step (PRIMITIVE_POLYNOMIALS ! bits) bits) [0..<k] (1, e0, l0) = Inr (pw k, es, ls)"
      "length es = 2 ^ bits" "length ls = 2 ^ bits" "\<forall>i < k. es ! i = pw i"
      "\<forall>i < k. (\<forall>j < k. i < j \<longrightarrow> pw j \<noteq> pw i) \<longrightarrow> ls ! pw i = i" by auto
  have "nxt (pw k) = pw (Suc k)" by (simp add: pow_exp_def)
  then have "fold_res (init_step (PRIMITIVE_POLYNOMIALS ! bits) bits) [0..<Suc k] (1, e0, l0) =
      Inr (pw (Suc k), es[k := pw k], ls[pw k := k])"
    using IH(1-3) Suc.prems by (simp add: fold_res_append init_step_def)
  moreover have "ls[pw k := k] ! pw i = i" if "i < Suc k" "\<forall>j < Suc k. i < j \<longrightarrow> pw j \<noteq> pw i" for i
  proof (cases "i = k")
    case True
    then show ?thesis using IH(3) by simp
  next
    case False
    then have "pw k \<noteq> pw i" "i < k" using that by auto
    then show ?thesis using IH(5) that(2) by simp
  qed
  moreover have "\<forall>i < Suc k. es[k := pw k] ! i = pw i"
    using IH(2,4) Suc.prems by (auto simp: less_Suc_eq nth_list_update)
  moreover have "length (es[k := pw k]) = 2 ^ bits" "length (ls[pw k := k]) = 2 ^ bits"
    using IH(2,3) by simp_all
  ultimately show ?case by blast
qed

lemma set_bits_ok:
  "\<exists>s'. set_bits bits s = Inr s' \<and> tables_ok s' \<and> ss_bits s' = bits"
proof -
  let ?e = "resize (2 ^ bits) (ss_exps s)" and ?l = "resize (2 ^ bits) (ss_logs s)"
  obtain es ls where t: "fold_res (init_step (PRIMITIVE_POLYNOMIALS ! bits) bits) [0..<2 ^ bits] (1, ?e, ?l) =
        Inr (pw (2 ^ bits), es, ls)"
      "length es = 2 ^ bits" "length ls = 2 ^ bits" "\<forall>i < 2 ^ bits. es ! i = pw i"
      "\<forall>i < 2 ^ bits. (\<forall>j < 2 ^ bits. i < j \<longrightarrow> pw j \<noteq> pw i) \<longrightarrow> ls ! pw i = i"
    using init_fold [of ?e ?l "2 ^ bits"] by auto
  have "ls ! pw i = i" if i: "0 < i" "i < 2 ^ bits" for i
  proof -
    have "pw j \<noteq> pw i" if "j < 2 ^ bits" "i < j" for j
    proof
      assume "pw j = pw i"
      moreover have "j \<le> top_exp" "i \<le> top_exp" "0 < j" using i that by (auto simp: top_exp_def)
      ultimately show False using i(1) \<open>i < j\<close> lg_unique [of i] lg_unique [of j] by simp
    qed
    then show ?thesis using t(5) i(2) by blast
  qed
  moreover have "es = map pw [0..<2 ^ bits]" using t(2,4) by (intro nth_equalityI) auto
  moreover have "bits < length PRIMITIVE_POLYNOMIALS" using prim by (simp add: primitive_table_def)
  ultimately show ?thesis
    using t(1,3) prim by (simp add: set_bits_def initTables_def tables_ok_def)
qed

end

lemma mkShamir_ok: "primitive_table bits \<Longrightarrow> 3 \<le> bits \<Longrightarrow> \<exists>s. mkShamir bits = Inr s \<and> tables_ok s \<and> ss_bits s = bits"
proof -
  assume p: "primitive_table bits" and b: "3 \<le> bits"
  have "bits \<le> 20" using p by (simp add: primitive_table_def PRIMITIVE_POLYNOMIALS_def)
  then show ?thesis using b gf_tables.set_bits_ok [OF gf_tables.intro [OF p]] by (simp add: mkShamir_def)
qed

section \<open>Evaluation and interpolation through the tables\<close>

locale built_tables =
  fixes s :: ShamirSecretSharing
  assumes ok: "tables_ok s"

sublocale built_tables \<subseteq> gf_tables "ss_bits s"
  by unfold_locales (use ok in \<open>simp add: tables_ok_def\<close>)

context built_tables
begin

lemma size: "ss_size s = 2 ^ ss_bits s" and maxShares: "ss_maxShares s = top_exp"
  using ok by (simp_all add: tables_ok_def top_exp_def)

lemma log_table: "0 < a \<Longrightarrow> a < 2 ^ ss_bits s \<Longrightarrow> ss_logs s ! a = lg a"
proof -
  assume a: "0 < a" "a < 2 ^ ss_bits s"
  from lg [OF a] have l: "0 < lg a" "lg a < 2 ^ ss_bits s" "pw (lg a) = a"
    using four_le by (auto simp: top_exp_def)
  have "\<forall>i. 0 < i \<and> i < 2 ^ ss_bits s \<longrightarrow> ss_logs s ! pw i = i"
    using ok by (simp add: tables_ok_def)
  with l(1,2) have "ss_logs s ! pw (lg a) = lg a" by blast
  then show ?thesis by (simp only: l(3))
qed

lemma exp_table: "i \<le> top_exp \<Longrightarrow> ss_exps s ! i = pw i" "length (ss_exps s) = 2 ^ ss_bits s"
  "length (ss_logs s) = 2 ^ ss_bits s"
  using ok four_le by (auto simp: tables_ok_def top_exp_def)

lemma horner_peval:
  assumes "field.carrier coeffs" and "0 < x" and "x < 2 ^ ss_bits s"
  shows "horner s x coeffs = field.peval coeffs x"
proof -
  have "foldr (\<lambda>c fx. if fx \<noteq> 0 then (ss_exps s ! ((ss_logs s ! x + ss_logs s ! fx) mod ss_maxShares s)) XOR c else c)
      coeffs 0 = field.peval coeffs x"
    using assms(1)
  proof (induction coeffs)
    case (Cons c cs)
    let ?fx = "field.peval cs x"
    have fx: "?fx < 2 ^ ss_bits s" using Cons.prems assms(3) by simp
    show ?case
    proof (cases "?fx = 0")
      case True
      then show ?thesis using Cons by simp
    next
      case False
      have "(lg x + lg ?fx) mod top_exp \<le> top_exp" using top_exp_pos by (simp add: less_imp_le)
      then have "ss_exps s ! ((ss_logs s ! x + ss_logs s ! ?fx) mod ss_maxShares s) = pw (lg x + lg ?fx)"
        using False fx assms(2,3) by (simp add: log_table maxShares exp_table(1) pw_mod)
      also have "\<dots> = gf_mul x ?fx"
        using gf_mul_pw [of "lg x" "lg ?fx"] lg [of x] lg [of ?fx] False fx assms(2,3) by simp
      finally show ?thesis using Cons False by (simp add: xor.commute)
    qed
  qed simp
  then show ?thesis by (simp add: horner_def)
qed

text \<open>
  The product loop adds logarithms of numerators and subtracts those of denominators, so it
  ends with the logarithm of a solution of \<open>D * t = N * y\<close>, or stops at a zero numerator.
\<close>

lemma log_step:
  assumes "product \<le> top_exp" and "0 < a" "a < 2 ^ ss_bits s" and "0 < d" "d < 2 ^ ss_bits s"
    and "ss_bits s \<le> 20"
  defines "q \<equiv> (product + lg a + (2 ^ 32 - lg d) + top_exp) mod 2 ^ 32 mod top_exp"
  shows "q \<le> top_exp" and "gf_mul d (pw q) = gf_mul a (pw product)"
proof -
  have la: "0 < lg a" "lg a \<le> top_exp" "pw (lg a) = a" and ld: "0 < lg d" "lg d \<le> top_exp" "pw (lg d) = d"
    using lg [OF assms(2,3)] lg [OF assms(4,5)] by auto
  have "(2 :: nat) ^ ss_bits s \<le> 2 ^ 20" by (rule power_increasing) (use assms(6) in simp_all)
  then have top: "top_exp < 2 ^ 20" using four_le by (simp add: top_exp_def)
  have "product + lg a + (2 ^ 32 - lg d) + top_exp = 2 ^ 32 + (product + lg a + (top_exp - lg d))"
    using ld(2) top by simp
  moreover have "product + lg a + (top_exp - lg d) < 2 ^ 32" using assms(1) la(2) top by simp
  ultimately have q: "q = (product + lg a + (top_exp - lg d)) mod top_exp"
    unfolding q_def by (simp only: mod_add_self1 mod_less)
  show "q \<le> top_exp" using top_exp_pos by (simp add: q less_imp_le)
  have "gf_mul d (pw q) = pw (lg d + (product + lg a + (top_exp - lg d)))"
    unfolding q pw_mod by (subst ld(3) [symmetric]) (rule gf_mul_pw)
  also have "lg d + (product + lg a + (top_exp - lg d)) = (lg a + product) + top_exp" using ld(2) by simp
  also have "pw \<dots> = gf_mul (pw (lg a)) (pw product)" by (simp only: pw_period gf_mul_pw)
  finally show "gf_mul d (pw q) = gf_mul a (pw product)" by (simp only: la(3))
qed

abbreviation numer :: "nat \<Rightarrow> nat list \<Rightarrow> nat \<Rightarrow> nat list \<Rightarrow> nat" where
  "numer z xs i js \<equiv> foldr (\<lambda>j p. if j = i then p else gf_mul (z XOR xs ! j) p) js 1"

lemma carrier_nth: "field.carrier xs \<Longrightarrow> i < length xs \<Longrightarrow> xs ! i < 2 ^ ss_bits s"
  by (meson lessThan_iff nth_mem subsetD)

lemma numer_less: "z < 2 ^ ss_bits s \<Longrightarrow> field.carrier xs \<Longrightarrow> set js \<subseteq> {..<length xs} \<Longrightarrow> numer z xs i js < 2 ^ ss_bits s"
proof (induction js)
  case (Cons j js)
  then have "xs ! j < 2 ^ ss_bits s" using carrier_nth [of xs j] by simp
  with Cons show ?case by simp
qed (use four_le in simp)

lemma product_loop:
  assumes "field.carrier xs" and "distinct xs" and "at < 2 ^ ss_bits s" and "i < length xs"
    and "ss_bits s \<le> 20"
  shows "\<lbrakk>set js \<subseteq> {..<length xs}; product \<le> top_exp\<rbrakk> \<Longrightarrow>
    (lagrange_product s at xs i js product = Inr None \<and> numer at xs i js = 0) \<or>
    (\<exists>q \<le> top_exp. lagrange_product s at xs i js product = Inr (Some q) \<and>
       gf_mul (numer (xs ! i) xs i js) (pw q) = gf_mul (numer at xs i js) (pw product))"
proof (induction js arbitrary: product)
  case Nil
  then show ?case by auto
next
  case (Cons j js)
  have xj: "xs ! j < 2 ^ ss_bits s" "xs ! i < 2 ^ ss_bits s"
    using Cons.prems(1) carrier_nth [OF assms(1)] assms(4) by simp_all
  have js: "set js \<subseteq> {..<length xs}" using Cons.prems(1) by simp
  note nl = numer_less [OF assms(3,1) js, of i] numer_less [OF xj(2) assms(1) js, of i]
  show ?case
  proof (cases "i = j \<or> at = xs ! j")
    case True
    then show ?thesis using Cons.IH [OF js Cons.prems(2)] nl(1) by auto
  next
    case False
    let ?a = "at XOR xs ! j" and ?d = "xs ! i XOR xs ! j"
    have "xs ! i \<noteq> xs ! j" using False assms(2,4) Cons.prems(1) by (auto simp: nth_eq_iff_index_eq)
    then have nz: "0 < ?a" "0 < ?d" using False by (auto simp: field.xor_eq_zero intro!: gr0I)
    have lt: "?a < 2 ^ ss_bits s" "?d < 2 ^ ss_bits s" using xj assms(3) by simp_all
    let ?q = "(product + lg ?a + (2 ^ 32 - lg ?d) + top_exp) mod 2 ^ 32 mod top_exp"
    note q = log_step [OF Cons.prems(2) nz(1) lt(1) nz(2) lt(2) assms(5)]
    have run: "lagrange_product s at xs i (j # js) product = lagrange_product s at xs i js ?q"
      using False nz lt by (simp add: exp_table(3) log_table maxShares)
    from Cons.IH [OF js q(1)] show ?thesis
    proof (elim disjE conjE exE)
      assume "numer at xs i js = 0" "lagrange_product s at xs i js ?q = Inr None"
      then show ?thesis using False lt by (simp only: run) simp
    next
      fix r assume r: "r \<le> top_exp" "lagrange_product s at xs i js ?q = Inr (Some r)"
        "gf_mul (numer (xs ! i) xs i js) (pw r) = gf_mul (numer at xs i js) (pw ?q)"
      have "gf_mul (gf_mul ?d (numer (xs ! i) xs i js)) (pw r) =
          gf_mul ?d (gf_mul (numer at xs i js) (pw ?q))"
        using nl lt pw_less by (simp only: field.mul_assoc r(3))
      also have "\<dots> = gf_mul (numer at xs i js) (gf_mul ?d (pw ?q))"
        by (rule field.mul_left_commute [OF lt(2) nl(1) pw_less])
      also have "\<dots> = gf_mul (numer at xs i js) (gf_mul ?a (pw product))" by (simp only: q(2))
      also have "\<dots> = gf_mul ?a (gf_mul (numer at xs i js) (pw product))"
        by (rule field.mul_left_commute [OF nl(1) lt(1) pw_less])
      also have "\<dots> = gf_mul (gf_mul ?a (numer at xs i js)) (pw product)"
        by (rule field.mul_assoc [OF lt(1) nl(1) pw_less, symmetric])
      finally show ?thesis using r(1,2) False run by auto
    qed
  qed
qed

lemma numer_all: "numer z xs i [0..<length xs] = field.node_product z xs i"
  by (simp add: field.node_product_def)

lemma lagrange_terms:
  assumes "field.carrier xs" and "distinct xs" and "at < 2 ^ ss_bits s" and "i < length xs"
    and "ss_bits s \<le> 20" and "length ys = length xs" and "field.carrier ys"
  shows "\<exists>t < 2 ^ ss_bits s. (\<forall>acc. lagrange_term s at xs ys i acc = Inr (acc XOR t)) \<and>
    gf_mul (field.node_product (xs ! i) xs i) t = gf_mul (field.node_product at xs i) (ys ! i)"
proof (cases "ys ! i = 0")
  case True
  then show ?thesis
    using assms(4,6) four_le by (intro exI [of _ 0]) (simp add: lagrange_term_def)
next
  case False
  have y: "0 < ys ! i" "ys ! i < 2 ^ ss_bits s"
    using False carrier_nth [OF assms(7), of i] assms(4,6) by simp_all
  have l: "lg (ys ! i) \<le> top_exp" "pw (lg (ys ! i)) = ys ! i" using lg [OF y] by simp_all
  have set_js: "set [0..<length xs] \<subseteq> {..<length xs}" by auto
  have term_step: "lagrange_term s at xs ys i acc =
      bind_res (lagrange_product s at xs i [0..<length xs] (lg (ys ! i)))
        (\<lambda>product. case product of None \<Rightarrow> Inr acc
           | Some p \<Rightarrow> bind_res (vec_get (ss_exps s) p) (\<lambda>e. Inr (acc XOR e)))" for acc
    using assms(4,6) y by (simp add: lagrange_term_def exp_table(3) log_table)
  from product_loop [OF assms(1-5) set_js l(1)] show ?thesis
  proof (elim disjE conjE exE)
    assume "lagrange_product s at xs i [0..<length xs] (lg (ys ! i)) = Inr None"
      "numer at xs i [0..<length xs] = 0"
    then show ?thesis unfolding numer_all
      using four_le by (intro exI [of _ 0]) (simp add: term_step)
  next
    fix q assume q: "q \<le> top_exp"
      "lagrange_product s at xs i [0..<length xs] (lg (ys ! i)) = Inr (Some q)"
      "gf_mul (numer (xs ! i) xs i [0..<length xs]) (pw q) =
         gf_mul (numer at xs i [0..<length xs]) (pw (lg (ys ! i)))"
    have "q < length (ss_exps s)" using q(1) four_le by (simp add: exp_table(2) top_exp_def)
    then show ?thesis
      using q(1,2) q(3) [unfolded numer_all]
      by (intro exI [of _ "pw q"]) (simp add: term_step exp_table(1) l(2))
  qed
qed

text \<open>
  Interpolating the values of a polynomial at as many distinct points as it has coefficients
  gives its value at every other point.
\<close>

lemma lagrange_exact:
  assumes "field.carrier xs" and "distinct xs" and "at < 2 ^ ss_bits s" and "ss_bits s \<le> 20"
    and "field.carrier coeffs" and "length coeffs \<le> length xs"
  shows "lagrange s at xs (map (field.peval coeffs) xs) = Inr (field.peval coeffs at)"
proof -
  let ?ys = "map (field.peval coeffs) xs"
  have ys: "field.carrier ?ys" using assms(1,5) by auto
  have "\<forall>i. \<exists>t. i < length xs \<longrightarrow> t < 2 ^ ss_bits s \<and> (\<forall>acc. lagrange_term s at xs ?ys i acc = Inr (acc XOR t)) \<and>
    gf_mul (field.node_product (xs ! i) xs i) t = gf_mul (field.node_product at xs i) (?ys ! i)"
    using lagrange_terms [OF assms(1-3) _ assms(4) _ ys] by auto
  from choice [OF this] obtain t where t: "\<And>i. i < length xs \<Longrightarrow> t i < 2 ^ ss_bits s"
    "\<And>i acc. i < length xs \<Longrightarrow> lagrange_term s at xs ?ys i acc = Inr (acc XOR t i)"
    "\<And>i. i < length xs \<Longrightarrow> gf_mul (field.node_product (xs ! i) xs i) (t i) =
       gf_mul (field.node_product at xs i) (field.peval coeffs (xs ! i))" by auto
  have "k \<le> length xs \<Longrightarrow> fold_res (lagrange_term s at xs ?ys) [0..<k] 0 = Inr (field.xor_sum (map t [0..<k]))" for k
    by (induction k) (simp_all add: fold_res_append t(2) field.xor_sum_snoc)
  then have "lagrange s at xs ?ys = Inr (field.xor_sum (map t [0..<length xs]))"
    by (simp add: lagrange_def)
  moreover have "field.xor_sum (map t [0..<length xs]) = field.peval coeffs at"
    by (rule field.interpolation [OF assms(1,2) field.is_poly_le [OF field.is_polyI [OF assms(5)] assms(6)] assms(3)])
      (use t in auto)
  ultimately show ?thesis by simp
qed

end

end
