(* ===== verification/ShamirRoundtrip.thy ===== *)
theory ShamirRoundtrip
  imports ShamirTables
begin

text \<open>
  The strings around the arithmetic: binary and hexadecimal digits, the chunks of a binary
  string, the share format; and the round trip from a secret to shares and back.
\<close>

section \<open>Binary digits\<close>

lemma bits_val_Nil [simp]: "bits_val [] = 0"
  by (simp add: bits_val_def)

lemma bits_val_snoc [simp]: "bits_val (bs @ [b]) = 2 * bits_val bs + of_bool b"
  by (simp add: bits_val_def)

lemma bits_val_less: "bits_val bs < 2 ^ length bs"
  by (induction bs rule: rev_induct) (auto simp: of_bool_def)

lemma nat_bits_0 [simp]: "nat_bits 0 v = []"
  by (simp add: nat_bits_def)

lemma nat_bits_Suc: "nat_bits (Suc w) v = nat_bits w (v div 2) @ [odd v]"
proof -
  have "bit v (w - i) = bit (v div 2) (w - 1 - i)" if "i < w" for i
    using that by (metis Suc_diff_Suc Suc_pred bit_Suc diff_Suc_eq_diff_pred not_less_eq zero_less_diff gr0I not_less_zero)
  then show ?thesis by (simp add: nat_bits_def bit_0)
qed

lemma length_nat_bits [simp]: "length (nat_bits w v) = w"
  by (simp add: nat_bits_def)

lemma bits_val_nat_bits: "v < 2 ^ w \<Longrightarrow> bits_val (nat_bits w v) = v"
  by (induction w arbitrary: v) (auto simp: nat_bits_Suc)

lemma nat_bits_bits_val:
  "length bs \<le> w \<Longrightarrow> nat_bits w (bits_val bs) = replicate (w - length bs) False @ bs"
proof (induction w arbitrary: bs)
  case (Suc w)
  show ?case
  proof (cases bs rule: rev_cases)
    case Nil
    have "nat_bits w 0 = replicate w False" for w by (simp add: nat_bits_def map_replicate_const)
    with Nil show ?thesis by simp
  next
    case (snoc cs c)
    then show ?thesis using Suc by (cases c) (simp_all add: nat_bits_Suc)
  qed
qed simp

lemma bits_val_zeros [simp]: "bits_val (replicate k False) = 0"
  by (induction k) (simp_all add: bits_val_def)

section \<open>Chunks\<close>

lemma split_less: "0 < b \<Longrightarrow> v \<in> set (splitNumStringToIntArray bs b) \<Longrightarrow> v < 2 ^ b"
proof (induction bs b rule: splitNumStringToIntArray.induct)
  case (1 bs b)
  show ?case
  proof (cases "b < length bs \<and> 0 < b")
    case True
    then show ?thesis using 1 bits_val_less [of "drop (length bs - b) bs"]
      by (subst (asm) splitNumStringToIntArray.simps) auto
  next
    case False
    then show ?thesis using 1(2,3) bits_val_less [of bs]
      by (subst (asm) splitNumStringToIntArray.simps)
        (auto split: if_splits intro: less_le_trans [OF _ power_increasing])
  qed
qed

lemma split_concat:
  "0 < b \<Longrightarrow> \<exists>m. concat (map (nat_bits b) (rev (splitNumStringToIntArray bs b))) = replicate m False @ bs"
proof (induction bs b rule: splitNumStringToIntArray.induct)
  case (1 bs b)
  show ?case
  proof (cases "b < length bs")
    case True
    then obtain m where "concat (map (nat_bits b) (rev (splitNumStringToIntArray (take (length bs - b) bs) b))) =
        replicate m False @ take (length bs - b) bs" using 1 by blast
    then show ?thesis using True 1(2)
      by (subst splitNumStringToIntArray.simps) (simp add: nat_bits_bits_val)
  next
    case False
    then show ?thesis
      by (subst splitNumStringToIntArray.simps) (auto simp: nat_bits_bits_val)
  qed
qed

lemma split_chunks:
  assumes "0 < b" and "k \<le> b"
  shows "\<forall>v \<in> set vals. v < 2 ^ b \<Longrightarrow>
    splitNumStringToIntArray (replicate k False @ concat (map (nat_bits b) (rev vals))) b =
      vals @ (if k = 0 then [] else [0])"
proof (induction vals)
  case Nil
  then show ?case using assms by (subst splitNumStringToIntArray.simps) simp
next
  case (Cons v vals)
  let ?X = "replicate k False @ concat (map (nat_bits b) (rev vals))"
  have bs: "replicate k False @ concat (map (nat_bits b) (rev (v # vals))) = ?X @ nat_bits b v" by simp
  show ?case
  proof (cases "?X = []")
    case True
    then have k: "k = 0" and "concat (map (nat_bits b) (rev vals)) = []" by simp_all
    moreover have nz: "nat_bits b w \<noteq> []" for w using assms(1) by (simp flip: length_greater_0_conv)
    ultimately have "vals = []" by (auto simp: concat_eq_Nil_conv)
    with k show ?thesis using Cons.prems assms(1) nz [of v]
      by (subst splitNumStringToIntArray.simps) (simp add: bits_val_nat_bits)
  next
    case False
    then have "b < length (?X @ nat_bits b v)" by (simp only: length_append length_nat_bits) simp
    moreover have "drop (length (?X @ nat_bits b v) - b) (?X @ nat_bits b v) = nat_bits b v"
      "take (length (?X @ nat_bits b v) - b) (?X @ nat_bits b v) = ?X"
      by (simp_all only: length_append length_nat_bits add_diff_cancel_right' append_eq_conv_conj) simp_all
    ultimately have "splitNumStringToIntArray (?X @ nat_bits b v) b = v # splitNumStringToIntArray ?X b"
      using assms(1) Cons.prems
      by (subst splitNumStringToIntArray.simps) (simp only: bits_val_nat_bits list.set_intros(1) if_True simp_thms)
    then show ?thesis unfolding bs using Cons by simp
  qed
qed

section \<open>Hexadecimal digits\<close>

lemma dvd_4_Suc: "4 dvd Suc (Suc (Suc (Suc n))) \<longleftrightarrow> 4 dvd n"
  by presburger

lemma nibbles_hex2bin: "4 dvd length bs \<Longrightarrow> hex2bin (nibbles bs) = Inr bs"
proof (induction bs rule: nibbles.induct)
  case (1 a b c d bs)
  have v: "bits_val [a, b, c, d] < 16" using bits_val_less [of "[a, b, c, d]"] by simp
  have "nat_bits 4 (bits_val [a, b, c, d]) = [a, b, c, d]" using nat_bits_bits_val [of "[a, b, c, d]" 4] by simp
  moreover have "4 dvd length bs" using 1(2) by (simp add: dvd_4_Suc)
  ultimately show ?case using 1(1) by (simp add: hex_digit_char [OF v])
qed (auto dest: dvd_imp_le)

lemma pad4_dvd: "4 dvd length (pad4 bs)"
proof -
  have "length bs mod 4 = 0 \<or> length bs mod 4 = 1 \<or> length bs mod 4 = 2 \<or> length bs mod 4 = 3" by arith
  then show ?thesis by (elim disjE) (simp_all add: pad4_def, presburger+)
qed

lemma hex2bin_bin2hex: "hex2bin (bin2hex bs) = Inr (pad4 bs)"
  by (simp add: bin2hex_def nibbles_hex2bin pad4_dvd)

definition lower_hex :: "string \<Rightarrow> bool" where
  "lower_hex str \<longleftrightarrow> set str \<subseteq> digit_char ` {..<16}"

lemma hex2bin_lower:
  "lower_hex str \<Longrightarrow> \<exists>bs. hex2bin str = Inr bs \<and> 4 dvd length bs \<and> nibbles bs = str"
proof (induction str)
  case (Cons c str)
  then obtain v bs where v: "v < 16" "c = digit_char v"
    and bs: "hex2bin str = Inr bs" "4 dvd length bs" "nibbles bs = str"
    by (auto simp: lower_hex_def)
  obtain a b d e where n: "nat_bits 4 v = [a, b, d, e]" by (simp add: nat_bits_def upt_rec)
  then have "bits_val [a, b, d, e] = v" using bits_val_nat_bits [of v 4] v(1) by simp
  then show ?case using v bs by (simp add: hex_digit_char n dvd_4_Suc)
qed simp

lemma bin2hex_lower: "lower_hex str \<Longrightarrow> hex2bin str = Inr bs \<Longrightarrow> bin2hex bs = str"
  using hex2bin_lower [of str] by (auto simp: bin2hex_def pad4_def mod_eq_0_iff_dvd)

section \<open>The share format\<close>

lemma hex_num_less: "n < 16 \<Longrightarrow> hex_num n = [digit_char n]"
  by (simp add: hex_num.simps)

lemma hex_num_snoc: "\<not> n < 16 \<Longrightarrow> hex_num n = hex_num (n div 16) @ [digit_char (n mod 16)]"
  by (subst hex_num.simps) simp

lemma set_hex_num: "set (hex_num n) \<subseteq> digit_char ` {..<16}"
proof (induction n rule: hex_num.induct)
  case (1 n)
  then show ?case by (cases "n < 16") (auto simp: hex_num_less hex_num_snoc)
qed

lemma hex_value_num: "hex_value (hex_num n) = n"
proof (induction n rule: hex_num.induct)
  case (1 n)
  show ?case
  proof (cases "n < 16")
    case True
    then show ?thesis using hex_value_snoc [of n "[]"] by (simp add: hex_num_less hex_value_def)
  next
    case False
    then show ?thesis using 1 by (simp add: hex_num_snoc hex_value_snoc)
  qed
qed

lemma length_hex_num: "0 < n \<Longrightarrow> length (hex_num n) = hex_len n"
proof (induction n rule: hex_num.induct)
  case (1 n)
  show ?case
  proof (cases "n < 16")
    case True
    then show ?thesis using 1(2) by (simp add: hex_num_less hex_len.simps [of n] hex_len.simps [of 0])
  next
    case False
    then show ?thesis using 1 by (simp add: hex_num_snoc hex_len.simps [of n])
  qed
qed

lemma hex_len_mono: "m \<le> n \<Longrightarrow> hex_len m \<le> hex_len n"
proof (induction n arbitrary: m rule: hex_len.induct)
  case (1 n)
  show ?case
  proof (cases "m = 0")
    case True
    then show ?thesis by (simp add: hex_len.simps [of 0])
  next
    case False
    then show ?thesis using 1 by (simp add: hex_len.simps [of m] hex_len.simps [of n] div_le_mono)
  qed
qed

lemma bits_char_read: "bits \<le> 20 \<Longrightarrow> char_bits (bits_char bits) = Some bits"
proof -
  assume b: "bits \<le> 20"
  have "bits_char bits = char_of (if bits < 10 then 48 + bits else 55 + bits)"
    using b by (simp add: bits_char_def)
  moreover have "(of_char (char_of m :: char) :: nat) = m" if "m < 256" for m
    using that by simp
  ultimately show ?thesis using b by (simp add: char_bits_def Let_def)
qed

context built_tables
begin

lemma parse_format:
  assumes "ss_bits s \<le> 20" and "0 < ident" and "ident \<le> ss_maxShares s" and "data \<noteq> []"
  shows "parseShare (formatShare s ident data) s = (Inr (ident, data), s)"
proof -
  let ?h = "hex_num ident" and ?w = "getIdLength s"
  let ?ds = "replicate (?w - length ?h) CHR ''0'' @ ?h"
  have "hex_len ident \<le> ?w"
    using assms(3) hex_len_mono unfolding getIdLength_def by (simp add: maxShares top_exp_def)
  then have len: "length ?ds = ?w" using length_hex_num [OF assms(2)] by simp
  have nz: "?ds \<noteq> []" using length_hex_num [OF assms(2)] by (subst hex_num.simps) simp
  then have w: "0 < ?w" using len by (metis length_greater_0_conv)
  have "(2 :: nat) ^ ss_bits s \<le> 2 ^ 20" by (rule power_increasing) (use assms(1) in simp_all)
  then have "ident < 2 ^ 20" using assms(3) four_le by (simp add: maxShares top_exp_def)
  then have id32: "ident < 2 ^ 32" by simp
  have "CHR ''0'' \<in> digit_char ` {..<16}" unfolding digit_image by simp
  then have "set ?ds \<subseteq> digit_char ` {..<16}" using set_hex_num [of ident] by auto
  then have st: "stoul16 ?ds = Some ident"
    using stoul16_digits [OF _ nz] id32 by (simp add: hex_value_zeros hex_value_num)
  have f: "formatShare s ident data = bits_char (ss_bits s) # ?ds @ data"
    by (simp add: formatShare_def Let_def)
  have "\<not> length (formatShare s ident data) < 3"
    using w assms(4) by (simp only: f list.size length_append len) (cases data; simp)
  moreover have "take ?w (drop 1 (formatShare s ident data)) = ?ds"
    "drop (1 + ?w) (formatShare s ident data) = data"
    unfolding f using len by simp_all
  moreover have "\<not> length (formatShare s ident data) < 1 + ?w"
    unfolding f using len by simp
  moreover have "formatShare s ident data ! 0 = bits_char (ss_bits s)" by (simp add: f)
  ultimately show ?thesis
    using st id32 by (simp add: parseShare_def bits_char_read [OF assms(1)] Let_def)
qed

section \<open>Splitting and recombining a secret\<close>

lemma share_bits_concat: "share_bits s vals = concat (map (nat_bits (ss_bits s)) (rev vals))"
  by (simp add: share_bits_def padLeft_def)

text \<open>What \<open>combine\<close> reads back from one share: the values, and one zero for a padded chunk.\<close>

definition padded :: "nat list \<Rightarrow> nat list" where
  "padded vals = vals @ (if length (share_bits s vals) mod 4 = 0 then [] else [0])"

lemma read_share:
  assumes "3 \<le> ss_bits s" and "\<forall>v \<in> set vals. v < 2 ^ ss_bits s"
  shows "\<exists>bs. hex2bin (bin2hex (share_bits s vals)) = Inr bs \<and>
    splitNumStringToIntArray bs (ss_bits s) = padded vals"
proof -
  let ?k = "(4 - length (share_bits s vals) mod 4) mod 4"
  have "?k < 4" by simp
  then have "?k \<le> ss_bits s" using assms(1) by linarith
  then have "splitNumStringToIntArray (pad4 (share_bits s vals)) (ss_bits s) =
      vals @ (if ?k = 0 then [] else [0])"
    using split_chunks [of "ss_bits s" ?k vals] assms by (simp add: pad4_def share_bits_concat)
  moreover have "?k = 0 \<longleftrightarrow> length (share_bits s vals) mod 4 = 0" by presburger
  ultimately show ?thesis by (simp add: hex2bin_bin2hex padded_def)
qed

text \<open>Reading shares with distinct numbers, all of them written with the same tables.\<close>

lemma accumulate_column:
  assumes "length parts = n"
  shows "accumulate (if ids = [] then [] else map (\<lambda>j. map (\<lambda>i. f i j) ids) [0..<n]) parts =
    map (\<lambda>j. (map (\<lambda>i. f i j) ids) @ [parts ! j]) [0..<n]"
  using assms by (auto simp: accumulate_def)

lemma parse_shares_format:
  assumes "ss_bits s \<le> 20"
    and "\<forall>i \<in> set new. 0 < i \<and> i \<le> ss_maxShares s \<and> data i \<noteq> [] \<and>
      (\<exists>bs. hex2bin (data i) = Inr bs \<and> splitNumStringToIntArray bs (ss_bits s) = map (f i) [0..<n])"
    and "distinct (old @ new)"
  shows "parse_shares (map (\<lambda>i. formatShare s i (data i)) new) old
      (if old = [] then [] else map (\<lambda>j. map (\<lambda>i. f i j) old) [0..<n]) s =
    (Inr (old @ new, if old @ new = [] then [] else map (\<lambda>j. map (\<lambda>i. f i j) (old @ new)) [0..<n]), s)"
  using assms(2,3)
proof (induction new arbitrary: old)
  case (Cons i new)
  then obtain bs where i: "0 < i" "i \<le> ss_maxShares s" "data i \<noteq> []" "i \<notin> set old"
    and bs: "hex2bin (data i) = Inr bs" "splitNumStringToIntArray bs (ss_bits s) = map (f i) [0..<n]"
    by auto
  have "accumulate (if old = [] then [] else map (\<lambda>j. map (\<lambda>i. f i j) old) [0..<n]) (map (f i) [0..<n]) =
      map (\<lambda>j. map (\<lambda>i. f i j) (old @ [i])) [0..<n]"
    by (subst accumulate_column [where n = n]) auto
  then have "parse_shares (map (\<lambda>i. formatShare s i (data i)) (i # new)) old
      (if old = [] then [] else map (\<lambda>j. map (\<lambda>i. f i j) old) [0..<n]) s =
    parse_shares (map (\<lambda>i. formatShare s i (data i)) new) (old @ [i])
      (map (\<lambda>j. map (\<lambda>i. f i j) (old @ [i])) [0..<n]) s"
    using parse_format [OF assms(1) i(1-3)] i(4) bs by simp
  with Cons.IH [of "old @ [i]"] Cons.prems show ?case by simp
qed simp

lemma join_parts:
  assumes "\<forall>j \<in> set js. L (h j) = Inr (g j)"
  shows "fold_res (\<lambda>y r. bind_res (L y) (\<lambda>v. Inr (B v @ r))) (map h js) acc =
    Inr (concat (map B (rev (map g js))) @ acc)"
  using assms by (induction js arbitrary: acc) auto

lemma strip_marker_zeros: "strip_marker (replicate m False @ True # bs) = bs"
proof -
  have "dropWhile Not (replicate m False @ True # bs) = True # bs" by (induction m) auto
  then show ?thesis by (simp add: strip_marker_def)
qed

lemma padBinary_zeros: "\<exists>m. padBinary bs w = replicate m False @ bs"
  by (auto simp: padBinary_def Let_def intro: exI [of _ "0 :: nat"])

lemma combine_all:
  assumes bits: "3 \<le> ss_bits s" "ss_bits s \<le> 20" and "lower_hex secret"
    and shares: "share rnd secret numShares threshold s = Inr shares"
    and sel: "distinct sel" "set sel \<subseteq> {..<numShares}" "threshold \<le> length sel"
  shows "combine (map ((!) shares) sel) s = (Inr secret, s)"
proof -
  let ?b = "ss_bits s"
  obtain bs where bs: "hex2bin secret = Inr bs" using hex2bin_lower [OF assms(3)] by blast
  define parts where "parts = splitNumStringToIntArray (padBinary (True # bs) 128) ?b"
  define poly where "poly = (\<lambda>j. part_coeffs s (rnd j) threshold (parts ! j))"
  define vals where "vals = (\<lambda>i. map (\<lambda>j. horner s i (poly j)) [0..<length parts])"
  define data where "data = (\<lambda>i. bin2hex (share_bits s (vals i)))"
  have num: "2 \<le> numShares" "numShares \<le> ss_maxShares s" "2 \<le> threshold"
    and sh: "shares = map (\<lambda>i. formatShare s (Suc i) (data (Suc i))) [0..<numShares]"
    using shares bs
    by (auto simp: share_def Let_def data_def vals_def poly_def parts_def comp_def not_less nth_append
        simp del: upt_Suc split: if_splits intro!: map_cong)
  let ?ids = "map Suc sel"
  have ids: "distinct ?ids" "\<forall>i \<in> set ?ids. 0 < i \<and> i \<le> ss_maxShares s" "threshold \<le> length ?ids"
    using sel num(2) by (auto simp: distinct_map)
  have carrier: "field.carrier ?ids" using ids(2) four_le by (auto simp: maxShares top_exp_def)
  have sel_sh: "map ((!) shares) sel = map (\<lambda>i. formatShare s i (data i)) ?ids"
    using sel(2) by (auto simp: sh)
  \<comment> \<open>the polynomials and their values\<close>
  have part: "parts ! j < 2 ^ ?b" if "j < length parts" for j
    using split_less [of ?b "parts ! j"] nth_mem [OF that] bits by (simp add: parts_def)
  have poly: "field.carrier (poly j)" "length (poly j) \<le> length ?ids" "field.peval (poly j) 0 = parts ! j"
    if "j < length parts" for j
  proof -
    show c: "field.carrier (poly j)" using part [OF that] by (auto simp: poly_def part_coeffs_def size)
    show "length (poly j) \<le> length ?ids" using num(3) ids(3) by (simp add: poly_def part_coeffs_def)
    show "field.peval (poly j) 0 = parts ! j"
      using c by (simp add: poly_def part_coeffs_def)
  qed
  have val: "horner s i (poly j) = field.peval (poly j) i" "horner s i (poly j) < 2 ^ ?b"
    if "j < length parts" "i \<in> set ?ids" for i j
  proof -
    have "0 < i" "i < 2 ^ ?b" using that(2) ids(2) carrier by auto
    then show "horner s i (poly j) = field.peval (poly j) i" by (rule horner_peval [OF poly(1) [OF that(1)]])
    then show "horner s i (poly j) < 2 ^ ?b" using poly(1) [OF that(1)] \<open>i < 2 ^ ?b\<close> by simp
  qed
  \<comment> \<open>what is read back from the shares\<close>
  define n where "n = length parts + (if (?b * length parts) mod 4 = 0 then 0 else 1)"
  define f where "f = (\<lambda>i j. if j < length parts then horner s i (poly j) else 0)"
  have pad: "padded (vals i) = map (f i) [0..<n]" for i
  proof -
    have "length (share_bits s (vals i)) = ?b * length parts"
      by (simp add: share_bits_concat length_concat comp_def sum_list_triv vals_def rev_map)
    then show ?thesis by (auto simp: padded_def n_def f_def vals_def)
  qed
  have "parts \<noteq> []"
    unfolding parts_def using padBinary_zeros [of "True # bs" 128]
    by (subst splitNumStringToIntArray.simps) auto
  have read: "data i \<noteq> [] \<and> (\<exists>bs. hex2bin (data i) = Inr bs \<and>
      splitNumStringToIntArray bs ?b = map (f i) [0..<n])" if "i \<in> set ?ids" for i
  proof -
    have "\<forall>v \<in> set (vals i). v < 2 ^ ?b" using val(2) that by (auto simp: vals_def)
    from read_share [OF bits(1) this] obtain bs' where
      r: "hex2bin (data i) = Inr bs'" "splitNumStringToIntArray bs' ?b = map (f i) [0..<n]"
      unfolding data_def pad by blast
    have "n \<noteq> 0" using \<open>parts \<noteq> []\<close> by (simp add: n_def)
    then have "bs' \<noteq> []" using r(2) by (auto simp: splitNumStringToIntArray.simps [of "[]"])
    then have "data i \<noteq> []" using r(1) by auto
    with r show ?thesis by blast
  qed
  have "?ids \<noteq> []" using num(3) sel(3) by auto
  then have parsed: "parse_shares (map ((!) shares) sel) [] [] s =
      (Inr (?ids, map (\<lambda>j. map (\<lambda>i. f i j) ?ids) [0..<n]), s)"
    using parse_shares_format [OF bits(2), of ?ids data f n "[]"] ids(1,2) read
    unfolding sel_sh by simp
  \<comment> \<open>interpolation\<close>
  define g where "g = (\<lambda>j. if j < length parts then parts ! j else 0)"
  have lag: "lagrange s 0 ?ids (map (\<lambda>i. f i j) ?ids) = Inr (g j)" for j
  proof (cases "j < length parts")
    case True
    have "map (\<lambda>i. f i j) ?ids = map (field.peval (poly j)) ?ids"
      using val(1) [OF True] True by (simp add: f_def)
    then have "lagrange s 0 ?ids (map (\<lambda>i. f i j) ?ids) = lagrange s 0 ?ids (map (field.peval (poly j)) ?ids)"
      by (simp only:)
    also have "\<dots> = Inr (field.peval (poly j) 0)"
      by (rule lagrange_exact [OF carrier ids(1) _ bits(2) poly(1,2) [OF True]]) simp
    finally show ?thesis using poly(3) [OF True] True by (simp add: g_def)
  next
    case False
    then have "map (\<lambda>i. f i j) ?ids = map (field.peval []) ?ids" by (simp add: f_def)
    then have "lagrange s 0 ?ids (map (\<lambda>i. f i j) ?ids) = lagrange s 0 ?ids (map (field.peval []) ?ids)"
      by (simp only:)
    also have "\<dots> = Inr (field.peval [] 0)"
      by (rule lagrange_exact [OF carrier ids(1) _ bits(2)]) simp_all
    finally show ?thesis using False by (simp add: g_def)
  qed
  have "map g [0..<n] = parts @ replicate (n - length parts) 0"
    by (auto simp: g_def n_def map_upt_eqI nth_append intro!: nth_equalityI)
  moreover have "concat (map (nat_bits ?b) (rev (replicate k 0))) = replicate (k * ?b) False" for k
    by (induction k) (simp_all add: nat_bits_def map_replicate_const replicate_add append_replicate_commute)
  ultimately obtain M where "concat (map (nat_bits ?b) (rev (map g [0..<n]))) = replicate M False @ True # bs"
    using split_concat [of ?b "padBinary (True # bs) 128"] padBinary_zeros [of "True # bs" 128] bits(1)
    by (auto simp: parts_def simp flip: replicate_add append_assoc)
  then have "fold_res (\<lambda>y r. bind_res (lagrange s 0 ?ids y) (\<lambda>val. Inr (padLeft (nat_bits ?b val) ?b @ r)))
      (map (\<lambda>j. map (\<lambda>i. f i j) ?ids) [0..<n]) [] = Inr (replicate M False @ True # bs)"
    using join_parts [of "[0..<n]" "lagrange s 0 ?ids" "\<lambda>j. map (\<lambda>i. f i j) ?ids" g
        "\<lambda>v. padLeft (nat_bits ?b v) ?b" "[]"] lag
    by (simp add: padLeft_def)
  with parsed \<open>?ids \<noteq> []\<close> show ?thesis
    by (simp add: combine_def strip_marker_zeros bin2hex_lower [OF assms(3) bs])
qed

end

text \<open>The instance the default constructor builds, of 8 bits.\<close>

definition default_shamir :: ShamirSecretSharing where
  "default_shamir = projr (mkShamir 8)"

lemma default_shamir_ok: "tables_ok default_shamir"
proof -
  obtain s where "mkShamir 8 = Inr s" "tables_ok s" using mkShamir_ok [of 8] tables_primitive by auto
  then show ?thesis by (simp add: default_shamir_def)
qed

interpretation default: built_tables default_shamir
  by (rule built_tables.intro) (rule default_shamir_ok)

section \<open>Properties\<close>

text \<open>
  C1: a secret written in lower-case hexadecimal digits, split into shares with any random
  coefficients, is recovered exactly from any shares with distinct numbers, in any order, at
  least as many as the threshold; for every field size up to \<open>2 ^ 10\<close>, the default of 8 bits
  among them. Splitting succeeds for every valid number of shares and threshold.
\<close>

theorem secret_recovered:
  assumes "bits \<in> {3..10}" and "lower_hex secret"
    and "2 \<le> threshold" and "threshold \<le> numShares" and "numShares < 2 ^ bits"
    and "distinct sel" and "set sel \<subseteq> {..<numShares}" and "threshold \<le> length sel"
  shows "\<exists>s shares. mkShamir bits = Inr s \<and> share rnd secret numShares threshold s = Inr shares \<and>
    length shares = numShares \<and> combine (map ((!) shares) sel) s = (Inr secret, s)"
proof -
  have "bits \<in> {3, 4, 5, 6, 7, 8, 9, 10}" using assms(1) by auto
  then have "primitive_table bits" using tables_primitive by auto
  then obtain s where s: "mkShamir bits = Inr s" "tables_ok s" "ss_bits s = bits"
    using mkShamir_ok assms(1) by auto
  note bt = built_tables.intro [OF s(2)]
  obtain bs where "hex2bin secret = Inr bs" using hex2bin_lower [OF assms(2)] by blast
  moreover have "numShares \<le> ss_maxShares s" using assms(5) s(2,3) by (simp add: tables_ok_def)
  ultimately obtain shares where sh: "share rnd secret numShares threshold s = Inr shares"
      "length shares = numShares"
    using assms(3,4) by (simp add: share_def Let_def)
  have "combine (map ((!) shares) sel) s = (Inr secret, s)"
    using s(3) assms(1) by (intro built_tables.combine_all [OF bt _ _ assms(2) sh(1) assms(6-8)]) auto
  with s sh show ?thesis by blast
qed

definition sample_random :: "nat \<Rightarrow> nat \<Rightarrow> 32 word" where
  "sample_random k i = of_nat (77 * k + 5 * i + 3)"

theorem secret_recovered_witness:
  "\<exists>s shares. mkShamir 8 = Inr s \<and> share sample_random ''c0ffee'' 5 3 s = Inr shares \<and>
     combine [shares ! 4, shares ! 0, shares ! 2] s = (Inr ''c0ffee'', s)"
proof -
  have l: "lower_hex ''c0ffee''" by (simp add: lower_hex_def digit_image)
  show ?thesis
    using secret_recovered [of 8 "''c0ffee''" 3 5 "[4, 0, 2]" sample_random, OF _ l] by auto
qed

text \<open>
  The constructor admits fields of 3 to 20 bits only, but the first character of a share
  is taken as a field size unchecked: a share that names more than 20 bits makes \<open>combine\<close>
  read past the table of polynomials, whatever the other shares are.
\<close>

theorem unchecked_field_size:
  assumes "3 \<le> length sh" and "char_bits (sh ! 0) = Some b" and "20 < b" and "ss_bits s \<le> 20"
  shows "combine (sh # shares) s = (Inl UndefinedBehaviour, s) \<and>
    mkShamir b = Inl (InvalidArgument ''Bits must be between 3 and 20'')"
proof -
  have "set_bits b s = Inl UndefinedBehaviour"
    using assms(3) by (simp add: set_bits_def initTables_def vec_get_def PRIMITIVE_POLYNOMIALS_def)
  then have "parseShare sh s = (Inl UndefinedBehaviour, s)"
    using assms by (auto simp: parseShare_def)
  then show ?thesis using assms(3) by (simp add: combine_def mkShamir_def)
qed

theorem unchecked_field_size_witness:
  "combine [''Z01ff''] \<lparr>ss_bits = 8, ss_size = 256, ss_maxShares = 255, ss_logs = [], ss_exps = []\<rparr> =
     (Inl UndefinedBehaviour, \<lparr>ss_bits = 8, ss_size = 256, ss_maxShares = 255, ss_logs = [], ss_exps = []\<rparr>)"
proof -
  have "char_bits CHR ''Z'' = Some 35" by code_simp
  then show ?thesis
    using unchecked_field_size [of "''Z01ff''" 35
        "\<lparr>ss_bits = 8, ss_size = 256, ss_maxShares = 255, ss_logs = [], ss_exps = []\<rparr>" "[]"]
    by simp
qed

end
