(* ===== verification/BloomFilter.thy ===== *)
theory BloomFilter
  imports Codec
begin

text \<open>
  \<open>bloom_filter.{hpp,cpp}\<close>. \<open>sha3\<close> is the digest of an item, at least 64 bytes long; the
  number of bits, which the constructor computes with floating-point logarithms, is a
  parameter of it. A filter of no bits divides by zero when it hashes.
\<close>

type_synonym digest_fn = "bytes \<Rightarrow> bytes"

record BloomFilter =
  bf_bits :: "bool list"
  bf_hashCount :: int
  bf_size :: nat

definition mkBloomFilter :: "nat \<Rightarrow> int \<Rightarrow> BloomFilter res" where
  "mkBloomFilter optimalSize hashCount =
     (if hashCount < 1 then Inl (InvalidArgument ''BloomFilter hashCount must be >= 1'')
      else Inr \<lparr>bf_bits = replicate optimalSize False, bf_hashCount = hashCount, bf_size = optimalSize\<rparr>)"

text \<open>Eight bytes of the digest at one of its eight slots, little-endian, mixed with \<open>i\<close>.\<close>

definition hash_slot :: "bytes \<Rightarrow> nat \<Rightarrow> 64 word" where
  "hash_slot digest i =
     (let val = le_word (take 8 (drop (i mod 8 * 8) digest)) in
      if 8 \<le> i then val XOR (of_nat i * 0x9E3779B97F4A7C15) else val)"

definition hashes :: "digest_fn \<Rightarrow> bytes \<Rightarrow> BloomFilter \<Rightarrow> nat list res" where
  "hashes sha3 item bf =
     (if 0 < bf_hashCount bf \<and> bf_size bf = 0 then Inl UndefinedBehaviour
      else Inr (map (\<lambda>i. unat (hash_slot (sha3 item) i) mod bf_size bf) [0..<nat (bf_hashCount bf)]))"

definition add :: "digest_fn \<Rightarrow> bytes \<Rightarrow> BloomFilter \<Rightarrow> BloomFilter res" where
  "add sha3 item bf =
     bind_res (hashes sha3 item bf) (\<lambda>idxs.
     bind_res (fold_res (\<lambda>idx bits. if idx < length bits then Inr (bits[idx := True]) else Inl UndefinedBehaviour)
                 idxs (bf_bits bf))
       (\<lambda>bits. Inr (bf\<lparr>bf_bits := bits\<rparr>)))"

fun all_set :: "bool list \<Rightarrow> nat list \<Rightarrow> bool res" where
  "all_set bits [] = Inr True"
| "all_set bits (idx # idxs) =
     bind_res (vec_get bits idx) (\<lambda>b. if \<not> b then Inr False else all_set bits idxs)"

definition mightContain :: "digest_fn \<Rightarrow> bytes \<Rightarrow> BloomFilter \<Rightarrow> bool res" where
  "mightContain sha3 item bf = bind_res (hashes sha3 item bf) (all_set (bf_bits bf))"

section \<open>Serialization\<close>

definition packedBytes :: "nat \<Rightarrow> nat" where
  "packedBytes n = (n + 7) div 8"

definition serialize :: "BloomFilter \<Rightarrow> bytes res" where
  "serialize bf =
     bind_res (fold_res (\<lambda>i out. bind_res (vec_get (bf_bits bf) i) (\<lambda>b.
                 Inr (if b then out[4 + i div 8 := (out ! (4 + i div 8)) OR push_bit (i mod 8) 1] else out)))
               [0..<bf_size bf]
               (le_bytes 4 (of_nat (bf_size bf) :: 32 word) @ replicate (packedBytes (bf_size bf)) 0))
       Inr"

definition deserialize :: "bytes \<Rightarrow> BloomFilter res" where
  "deserialize data =
     (if length data < 4 then Inl (InvalidArgument ''BloomFilter data too short for header'')
      else let bitCount = unat (le_word (take 4 data) :: 32 word) in
        if length data < 4 + packedBytes bitCount
        then Inl (InvalidArgument ''BloomFilter data too short for bit array'')
        else Inr \<lparr>bf_bits = map (\<lambda>i. bit (data ! (4 + i div 8)) (i mod 8)) [0..<bitCount],
                  bf_hashCount = 7, bf_size = bitCount\<rparr>)"

section \<open>Membership\<close>

definition bloom_ok :: "BloomFilter \<Rightarrow> bool" where
  "bloom_ok bf \<longleftrightarrow> 0 < bf_size bf \<and> length (bf_bits bf) = bf_size bf \<and> 1 \<le> bf_hashCount bf"

lemma hashes_ok:
  assumes "bloom_ok bf"
  shows "hashes sha3 item bf =
    Inr (map (\<lambda>i. unat (hash_slot (sha3 item) i) mod bf_size bf) [0..<nat (bf_hashCount bf)])"
  using assms by (simp add: hashes_def bloom_ok_def)

lemma set_bits_fold:
  assumes "\<forall>i \<in> set idxs. i < length bits"
  shows "\<exists>bits'. fold_res (\<lambda>idx bits. if idx < length bits then Inr (bits[idx := True]) else Inl UndefinedBehaviour)
      idxs bits = Inr bits' \<and> length bits' = length bits \<and>
    (\<forall>i < length bits. bits' ! i \<longleftrightarrow> bits ! i \<or> i \<in> set idxs)"
  using assms
proof (induction idxs arbitrary: bits)
  case (Cons idx idxs)
  then have "\<forall>i \<in> set idxs. i < length (bits[idx := True])" by simp
  from Cons.IH [OF this] Cons.prems show ?case by (auto simp: nth_list_update)
qed simp

lemma all_set_iff:
  "\<forall>i \<in> set idxs. i < length bits \<Longrightarrow> all_set bits idxs = Inr (\<forall>i \<in> set idxs. bits ! i)"
  by (induction idxs) auto

text \<open>The indices of an item, on a filter of a given size and number of hashes.\<close>

definition slots :: "digest_fn \<Rightarrow> bytes \<Rightarrow> BloomFilter \<Rightarrow> nat set" where
  "slots sha3 item bf = (\<lambda>i. unat (hash_slot (sha3 item) i) mod bf_size bf) ` {..<nat (bf_hashCount bf)}"

lemma slots_less: "bloom_ok bf \<Longrightarrow> i \<in> slots sha3 item bf \<Longrightarrow> i < bf_size bf"
  by (auto simp: slots_def bloom_ok_def)

lemma add_ok:
  assumes "bloom_ok bf"
  shows "\<exists>bf'. add sha3 item bf = Inr bf' \<and> bloom_ok bf' \<and> bf_size bf' = bf_size bf \<and>
    bf_hashCount bf' = bf_hashCount bf \<and>
    (\<forall>i < bf_size bf. bf_bits bf' ! i \<longleftrightarrow> bf_bits bf ! i \<or> i \<in> slots sha3 item bf)"
proof -
  let ?idxs = "map (\<lambda>i. unat (hash_slot (sha3 item) i) mod bf_size bf) [0..<nat (bf_hashCount bf)]"
  have "set ?idxs = slots sha3 item bf" by (auto simp: slots_def)
  moreover have "\<forall>i \<in> set ?idxs. i < length (bf_bits bf)"
    using assms by (auto simp: bloom_ok_def)
  ultimately show ?thesis
    using set_bits_fold [of ?idxs "bf_bits bf"] assms
    by (auto simp: add_def hashes_ok [OF assms] bloom_ok_def)
qed

lemma mightContain_iff:
  assumes "bloom_ok bf"
  shows "mightContain sha3 item bf = Inr (\<forall>i \<in> slots sha3 item bf. bf_bits bf ! i)"
proof -
  let ?idxs = "map (\<lambda>i. unat (hash_slot (sha3 item) i) mod bf_size bf) [0..<nat (bf_hashCount bf)]"
  have "set ?idxs = slots sha3 item bf" by (auto simp: slots_def)
  moreover have "\<forall>i \<in> set ?idxs. i < length (bf_bits bf)"
    using assms by (auto simp: bloom_ok_def)
  ultimately show ?thesis
    using all_set_iff [of ?idxs "bf_bits bf"] by (simp add: mightContain_def hashes_ok [OF assms])
qed

definition add_all :: "digest_fn \<Rightarrow> bytes list \<Rightarrow> BloomFilter \<Rightarrow> BloomFilter res" where
  "add_all sha3 items bf = fold_res (add sha3) items bf"

lemma add_all_ok:
  "bloom_ok bf \<Longrightarrow> \<exists>bf'. add_all sha3 items bf = Inr bf' \<and> bloom_ok bf' \<and> bf_size bf' = bf_size bf \<and>
    bf_hashCount bf' = bf_hashCount bf \<and>
    (\<forall>i < bf_size bf. bf_bits bf' ! i \<longleftrightarrow> bf_bits bf ! i \<or> (\<exists>it \<in> set items. i \<in> slots sha3 it bf))"
proof (induction items arbitrary: bf)
  case (Cons it items)
  obtain bf1 where b1: "add sha3 it bf = Inr bf1" "bloom_ok bf1" "bf_size bf1 = bf_size bf"
    "bf_hashCount bf1 = bf_hashCount bf"
    "\<forall>i < bf_size bf. bf_bits bf1 ! i \<longleftrightarrow> bf_bits bf ! i \<or> i \<in> slots sha3 it bf"
    using add_ok [OF Cons.prems] by blast
  have "slots sha3 x bf1 = slots sha3 x bf" for x using b1(3,4) by (simp add: slots_def)
  with Cons.IH [OF b1(2)] b1 show ?case by (auto simp: add_all_def)
qed (simp add: add_all_def)

section \<open>The serialized form\<close>

lemma length_le_bytes_4: "length (le_bytes 4 w) = 4"
  by (simp add: le_bytes_def)

lemma pack_fold:
  fixes out :: bytes
  assumes "n \<le> length bits" and "length out = 4 + packedBytes (length bits)"
    and "\<forall>i < length bits. \<not> bit (out ! (4 + i div 8)) (i mod 8)"
  shows "\<exists>out'. fold_res (\<lambda>i out. bind_res (vec_get bits i) (\<lambda>b.
                 Inr (if b then out[4 + i div 8 := (out ! (4 + i div 8)) OR push_bit (i mod 8) 1] else out)))
               [0..<n] out = Inr out' \<and> length out' = length out \<and> take 4 out' = take 4 out \<and>
    (\<forall>i < length bits. bit (out' ! (4 + i div 8)) (i mod 8) \<longleftrightarrow> i < n \<and> bits ! i)"
  using assms(1)
proof (induction n)
  case 0
  then show ?case using assms(3) by simp
next
  case (Suc n)
  then obtain out' where IH: "fold_res (\<lambda>i out. bind_res (vec_get bits i) (\<lambda>b.
                 Inr (if b then out[4 + i div 8 := (out ! (4 + i div 8)) OR push_bit (i mod 8) 1] else out)))
               [0..<n] out = Inr out'" "length out' = length out" "take 4 out' = take 4 out"
    "\<forall>i < length bits. bit (out' ! (4 + i div 8)) (i mod 8) \<longleftrightarrow> i < n \<and> bits ! i" by auto
  let ?k = "4 + n div 8"
  let ?new = "if bits ! n then out'[?k := (out' ! ?k) OR push_bit (n mod 8) 1] else out'"
  have k: "?k < length out'" using Suc.prems assms(2) IH(2) by (simp add: packedBytes_def)
  have "bit (?new ! (4 + i div 8)) (i mod 8) \<longleftrightarrow> i < Suc n \<and> bits ! i" if i: "i < length bits" for i
  proof -
    have same: "i div 8 = n div 8 \<Longrightarrow> i mod 8 = n mod 8 \<Longrightarrow> i = n" by (metis div_mult_mod_eq)
    have "bit (push_bit (n mod 8) 1 :: byte) (i mod 8) \<longleftrightarrow> i mod 8 = n mod 8"
      by (auto simp: bit_simps)
    then show ?thesis
      using IH(4) i k same by (cases "i div 8 = n div 8") (auto simp: bit_or_iff less_Suc_eq)
  qed
  moreover have "fold_res (\<lambda>i out. bind_res (vec_get bits i) (\<lambda>b.
                 Inr (if b then out[4 + i div 8 := (out ! (4 + i div 8)) OR push_bit (i mod 8) 1] else out)))
               [0..<Suc n] out = Inr ?new"
    using IH(1) Suc.prems by (simp add: fold_res_append)
  moreover have "take 4 ?new = take 4 out" using IH(3) by simp
  ultimately show ?case using IH(2) by (intro exI [of _ ?new]) auto
qed

lemma deserialize_serialize:
  assumes "length (bf_bits bf) = bf_size bf" and "bf_size bf < 2 ^ 32"
  shows "bind_res (serialize bf) deserialize = Inr (bf\<lparr>bf_hashCount := 7\<rparr>)"
proof -
  let ?n = "bf_size bf" and ?h = "le_bytes 4 (of_nat (bf_size bf) :: 32 word)"
  let ?out = "?h @ replicate (packedBytes ?n) 0"
  have "\<not> bit (?out ! (4 + i div 8)) (i mod 8)" if "i < ?n" for i
    using that by (simp add: nth_append length_le_bytes_4 packedBytes_def)
  then obtain out where out: "serialize bf = Inr out" "length out = 4 + packedBytes ?n" "take 4 out = ?h"
      "\<forall>i < ?n. bit (out ! (4 + i div 8)) (i mod 8) \<longleftrightarrow> bf_bits bf ! i"
    using pack_fold [of ?n "bf_bits bf" ?out] assms(1)
    by (auto simp: serialize_def length_le_bytes_4)
  have "(le_word ?h :: 32 word) = of_nat ?n" by (rule le_word_le_bytes) simp
  then have "unat (le_word (take 4 out) :: 32 word) = ?n"
    using assms(2) by (simp add: out(3) unsigned_of_nat take_bit_nat_eq_self)
  moreover have "map (\<lambda>i. bit (out ! (4 + i div 8)) (i mod 8)) [0..<?n] = bf_bits bf"
    using out(4) assms(1) by (intro nth_equalityI) auto
  ultimately show ?thesis
    using out(1,2) by (simp add: deserialize_def)
qed

section \<open>Properties\<close>

lemma added_recognised:
  assumes ok: "bloom_ok bf" and "item \<in> set items"
  shows "\<exists>bf'. add_all sha3 items bf = Inr bf' \<and> mightContain sha3 item bf' = Inr True"
proof -
  obtain bf' where b: "add_all sha3 items bf = Inr bf'" "bloom_ok bf'" "bf_size bf' = bf_size bf"
      "bf_hashCount bf' = bf_hashCount bf"
      "\<forall>i < bf_size bf. bf_bits bf' ! i \<longleftrightarrow> bf_bits bf ! i \<or> (\<exists>it \<in> set items. i \<in> slots sha3 it bf)"
    using add_all_ok [OF ok] by blast
  have "slots sha3 item bf' = slots sha3 item bf" using b(3,4) by (simp add: slots_def)
  then have "\<forall>i \<in> slots sha3 item bf'. bf_bits bf' ! i"
    using b(5) assms(2) slots_less [OF ok, of _ sha3 item] by auto
  then have "mightContain sha3 item bf' = Inr True" by (simp add: mightContain_iff [OF b(2)])
  with b(1) show ?thesis by blast
qed

lemma add_all_map: "add_all sha3 (map g xs) bf = fold_res (\<lambda>x. add sha3 (g x)) xs bf"
proof -
  have "fold_res f (map g xs) s = fold_res (\<lambda>x. f (g x)) xs s" for f :: "bytes \<Rightarrow> BloomFilter \<Rightarrow> BloomFilter res" and s
    by (induction xs arbitrary: s) (auto simp: bind_res_def split: sum.split)
  then show ?thesis by (simp add: add_all_def)
qed

text \<open>
  No false negatives: after any items were added to a filter of at least one bit, in any
  order and with others in between, the membership test answers true for each of them, and
  adding never fails.
\<close>

theorem no_false_negatives:
  assumes "mkBloomFilter n k = Inr bf" and "0 < n" and "item \<in> set items"
  shows "\<exists>bf'. add_all sha3 items bf = Inr bf' \<and> mightContain sha3 item bf' = Inr True"
  using assms by (intro added_recognised) (auto simp: mkBloomFilter_def bloom_ok_def split: if_splits)

definition sample_digest :: digest_fn where
  "sample_digest item = map (\<lambda>i. of_nat i + (if item = [] then 0 else hd item)) [0..<64]"

theorem no_false_negatives_witness:
  "\<exists>bf'. add_all sample_digest [[1], [2]] \<lparr>bf_bits = replicate 64 False, bf_hashCount = 3, bf_size = 64\<rparr> = Inr bf' \<and>
     mightContain sample_digest [1] bf' = Inr True"
  by (rule no_false_negatives [of 64 3]) (simp_all add: mkBloomFilter_def)

text \<open>
  What is read back from a serialized filter of fewer than \<open>2 ^ 32\<close> bits is the same bits
  with seven hashes; so the items of a filter made with seven hashes or more are all still
  recognised after the trip.
\<close>

theorem serialized_filter_recognises:
  assumes "mkBloomFilter n k = Inr bf" and "0 < n" and "n < 2 ^ 32" and "7 \<le> k"
    and "item \<in> set items" and "add_all sha3 items bf = Inr bf'"
  shows "\<exists>bf''. bind_res (serialize bf') deserialize = Inr bf'' \<and>
    bf'' = bf'\<lparr>bf_hashCount := 7\<rparr> \<and> mightContain sha3 item bf'' = Inr True"
proof -
  have ok: "bloom_ok bf" and bf: "bf_size bf = n" "bf_hashCount bf = k"
    using assms(1,2) by (auto simp: mkBloomFilter_def bloom_ok_def split: if_splits)
  have b: "bloom_ok bf'" "bf_size bf' = n" "bf_hashCount bf' = k" "length (bf_bits bf') = n"
      "\<forall>i < n. bf_bits bf' ! i \<longleftrightarrow> bf_bits bf ! i \<or> (\<exists>it \<in> set items. i \<in> slots sha3 it bf)"
    using add_all_ok [OF ok, of sha3 items] assms(6) bf by (auto simp: bloom_ok_def)
  let ?bf = "bf'\<lparr>bf_hashCount := 7\<rparr>"
  have "bloom_ok ?bf" using b(1) by (simp add: bloom_ok_def)
  moreover have "slots sha3 item ?bf \<subseteq> slots sha3 item bf"
    using assms(4) bf b(2) by (auto simp: slots_def)
  then have "\<forall>i \<in> slots sha3 item ?bf. bf_bits ?bf ! i"
    using b(5) assms(5) slots_less [OF ok, of _ sha3 item] bf(1) by auto
  ultimately have "mightContain sha3 item ?bf = Inr True" by (simp add: mightContain_iff)
  moreover have "bind_res (serialize bf') deserialize = Inr ?bf"
    using b assms(3) by (intro deserialize_serialize) simp_all
  ultimately show ?thesis by blast
qed

theorem serialized_filter_recognises_witness:
  "\<exists>bf' bf''. add_all sample_digest [[1], [2]] \<lparr>bf_bits = replicate 64 False, bf_hashCount = 7, bf_size = 64\<rparr> = Inr bf' \<and>
     bind_res (serialize bf') deserialize = Inr bf'' \<and> mightContain sample_digest [2] bf'' = Inr True"
proof -
  let ?bf = "\<lparr>bf_bits = replicate 64 False, bf_hashCount = 7, bf_size = 64\<rparr>"
  have mk: "mkBloomFilter 64 7 = Inr ?bf" by (simp add: mkBloomFilter_def)
  have "bloom_ok ?bf" by (simp add: bloom_ok_def)
  then obtain bf' where bf': "add_all sample_digest [[1], [2]] ?bf = Inr bf'" using add_all_ok by blast
  show ?thesis using serialized_filter_recognises [OF mk _ _ _ _ bf', of "[2]"] bf' by auto
qed

text \<open>
  With fewer than seven hashes the trip can lose items: a filter of 64 bits and one hash
  to which an item was added does not recognise the item after being serialized and read
  back, although it did before.
\<close>

theorem serialized_filter_forgets:
  "\<exists>bf bf' bf''. mkBloomFilter 64 1 = Inr bf \<and> add sample_digest [1] bf = Inr bf' \<and>
     mightContain sample_digest [1] bf' = Inr True \<and>
     bind_res (serialize bf') deserialize = Inr bf'' \<and> mightContain sample_digest [1] bf'' = Inr False"
proof -
  let ?bf = "\<lparr>bf_bits = replicate 64 False, bf_hashCount = 1, bf_size = 64\<rparr>"
  have mk: "mkBloomFilter 64 1 = Inr ?bf" by (simp add: mkBloomFilter_def)
  have ok: "bloom_ok ?bf" by (simp add: bloom_ok_def)
  have s: "hash_slot (sample_digest [1]) 0 = 0x0807060504030201" "hash_slot (sample_digest [1]) 1 = 0x100F0E0D0C0B0A09"
    by code_simp+
  obtain bf' where b: "add sample_digest [1] ?bf = Inr bf'" "bloom_ok bf'" "bf_size bf' = 64"
      "bf_hashCount bf' = 1" "\<forall>i < 64. bf_bits bf' ! i \<longleftrightarrow> ?bf = ?bf \<and> i \<in> slots sample_digest [1] ?bf"
    using add_ok [OF ok, of sample_digest "[1]"] by auto
  have sl: "slots sample_digest [1] ?bf = {1}" by (auto simp: slots_def s)
  let ?bf2 = "bf'\<lparr>bf_hashCount := 7\<rparr>"
  have "9 \<in> slots sample_digest [1] ?bf2"
    using b(3) unfolding slots_def by (intro image_eqI [of _ _ 1]) (simp_all add: s [unfolded One_nat_def])
  moreover have "\<not> bf_bits ?bf2 ! 9" using b(5) sl by simp
  moreover have "bloom_ok ?bf2" using b(2) by (simp add: bloom_ok_def)
  ultimately have "mightContain sample_digest [1] ?bf2 = Inr False" by (auto simp: mightContain_iff)
  moreover have "mightContain sample_digest [1] bf' = Inr True"
  proof -
    have "slots sample_digest [1] bf' = {1}" using b(3,4) by (auto simp: slots_def s)
    then show ?thesis using b(5) sl by (simp add: mightContain_iff [OF b(2)])
  qed
  moreover have "bind_res (serialize bf') deserialize = Inr ?bf2"
    using b(2,3) by (intro deserialize_serialize) (simp_all add: bloom_ok_def)
  ultimately show ?thesis using mk b(1) by blast
qed

end
