(* ===== verification/Json.thy ===== *)
theory Json
  imports Prelude
begin

text \<open>
  The interface of \<open>nlohmann::json\<close> the repository relies on: building values, reading them
  with the exceptions \<open>get\<close> and \<open>at\<close> throw, and the laws of the library's documentation.
  The code that reads and writes JSON takes the interface as an argument. \<open>json_value\<close> is
  the value type of the JSON standard, on which the laws hold.
\<close>

record 'j json_api =
  js_str :: "string \<Rightarrow> 'j"
  js_num :: "int \<Rightarrow> 'j"
  js_bool :: "bool \<Rightarrow> 'j"
  js_arr :: "'j list \<Rightarrow> 'j"
  js_obj :: "(string \<times> 'j) list \<Rightarrow> 'j"
  js_as_str :: "'j \<Rightarrow> string option"
  js_as_num :: "'j \<Rightarrow> int option"
  js_as_bool :: "'j \<Rightarrow> bool option"
  js_as_arr :: "'j \<Rightarrow> 'j list option"
  js_items :: "'j \<Rightarrow> (string \<times> 'j) list option"
  js_dump :: "'j \<Rightarrow> string"

text \<open>\<open>nlohmann::json::type_error\<close> and \<open>out_of_range\<close>.\<close>

definition json_type_error :: cpp_error where
  "json_type_error = RuntimeError ''json type_error''"

definition json_out_of_range :: cpp_error where
  "json_out_of_range = RuntimeError ''json out_of_range''"

definition read_as :: "('j \<Rightarrow> 'a option) \<Rightarrow> 'j \<Rightarrow> 'a res" where
  "read_as as j = (case as j of None \<Rightarrow> Inl json_type_error | Some v \<Rightarrow> Inr v)"

definition get_string :: "'j json_api \<Rightarrow> 'j \<Rightarrow> string res" where
  "get_string J = read_as (js_as_str J)"

definition get_bool :: "'j json_api \<Rightarrow> 'j \<Rightarrow> bool res" where
  "get_bool J = read_as (js_as_bool J)"

text \<open>\<open>get<int>\<close> and \<open>get<int64_t>\<close> convert with a \<open>static_cast\<close>.\<close>

definition get_int :: "'j json_api \<Rightarrow> 'j \<Rightarrow> int res" where
  "get_int J j = bind_res (read_as (js_as_num J) j) (\<lambda>n. Inr (signed_take_bit 31 n))"

definition get_int64 :: "'j json_api \<Rightarrow> 'j \<Rightarrow> int res" where
  "get_int64 J j = bind_res (read_as (js_as_num J) j) (\<lambda>n. Inr (signed_take_bit 63 n))"

definition get_strings :: "'j json_api \<Rightarrow> 'j \<Rightarrow> string list res" where
  "get_strings J j = bind_res (read_as (js_as_arr J) j) (map_res (get_string J))"

definition contains :: "'j json_api \<Rightarrow> 'j \<Rightarrow> string \<Rightarrow> bool" where
  "contains J j k = (case js_items J j of None \<Rightarrow> False | Some kvs \<Rightarrow> map_of kvs k \<noteq> None)"

definition at :: "'j json_api \<Rightarrow> 'j \<Rightarrow> string \<Rightarrow> 'j res" where
  "at J j k =
     (case js_items J j of None \<Rightarrow> Inl json_type_error
      | Some kvs \<Rightarrow> (case map_of kvs k of None \<Rightarrow> Inl json_out_of_range | Some v \<Rightarrow> Inr v))"

text \<open>\<open>j.at(k).get<T>()\<close>, and \<open>if (j.contains(k)) field = read(j[k])\<close>.\<close>

definition field :: "'j json_api \<Rightarrow> ('j \<Rightarrow> 'a res) \<Rightarrow> 'j \<Rightarrow> string \<Rightarrow> 'a res" where
  "field J rd j k = bind_res (at J j k) rd"

definition optional :: "'j json_api \<Rightarrow> ('j \<Rightarrow> 'a res) \<Rightarrow> 'j \<Rightarrow> string \<Rightarrow> 'a option res" where
  "optional J rd j k = (if contains J j k then bind_res (field J rd j k) (\<lambda>v. Inr (Some v)) else Inr None)"

text \<open>The entry an optional member adds to an object: none when it is absent.\<close>

definition entry :: "string \<Rightarrow> ('a \<Rightarrow> 'j) \<Rightarrow> 'a option \<Rightarrow> (string \<times> 'j) list" where
  "entry k wr v = (case v of None \<Rightarrow> [] | Some x \<Rightarrow> [(k, wr x)])"

section \<open>Laws\<close>

locale json_laws =
  fixes J :: "'j json_api"
  assumes as_str: "js_as_str J (js_str J s) = Some s"
    and as_num: "js_as_num J (js_num J n) = Some n"
    and as_bool: "js_as_bool J (js_bool J b) = Some b"
    and as_arr: "js_as_arr J (js_arr J js) = Some js"
    and obj_items: "distinct (map fst kvs) \<Longrightarrow>
          \<exists>kvs'. js_items J (js_obj J kvs) = Some kvs' \<and> distinct (map fst kvs') \<and> map_of kvs' = map_of kvs"
    and str_items: "js_items J (js_str J s) = None"
    and obj_str: "js_as_str J (js_obj J kvs) = None"
    and arr_items: "js_items J (js_arr J js) = None"
    and str_num: "js_as_num J (js_str J s) = None"
begin

lemma get_string: "get_string J (js_str J s) = Inr s"
  by (simp add: get_string_def read_as_def as_str)

lemma get_bool: "get_bool J (js_bool J b) = Inr b"
  by (simp add: get_bool_def read_as_def as_bool)

lemma get_int: "- (2 ^ 31) \<le> n \<Longrightarrow> n < 2 ^ 31 \<Longrightarrow> get_int J (js_num J n) = Inr n"
  by (simp add: get_int_def read_as_def as_num signed_take_bit_int_eq_self)

lemma get_int64: "- (2 ^ 63) \<le> n \<Longrightarrow> n < 2 ^ 63 \<Longrightarrow> get_int64 J (js_num J n) = Inr n"
  by (simp add: get_int64_def read_as_def as_num signed_take_bit_int_eq_self)

lemma get_strings: "get_strings J (js_arr J (map (js_str J) ss)) = Inr ss"
  by (induction ss) (simp_all add: get_strings_def read_as_def as_arr get_string)

lemma at_obj:
  assumes "distinct (map fst kvs)"
  shows "at J (js_obj J kvs) k = (case map_of kvs k of None \<Rightarrow> Inl json_out_of_range | Some v \<Rightarrow> Inr v)"
  using obj_items [OF assms] by (auto simp: at_def)

lemma contains_obj: "distinct (map fst kvs) \<Longrightarrow> contains J (js_obj J kvs) k \<longleftrightarrow> map_of kvs k \<noteq> None"
  using obj_items [of kvs] by (auto simp: contains_def)

lemma field_obj:
  "distinct (map fst kvs) \<Longrightarrow> map_of kvs k = Some v \<Longrightarrow> field J rd (js_obj J kvs) k = rd v"
  by (simp add: field_def at_obj)

lemma optional_obj:
  assumes "distinct (map fst kvs)" and "map_of kvs k = map_option wr v"
    and "\<And>x. v = Some x \<Longrightarrow> rd (wr x) = Inr x"
  shows "optional J rd (js_obj J kvs) k = Inr v"
  using assms by (cases v) (auto simp: optional_def contains_obj field_obj)

lemma map_res_array: "(\<And>x. x \<in> set xs \<Longrightarrow> rd (wr x) = Inr x) \<Longrightarrow> map_res rd (map wr xs) = Inr xs"
  by (induction xs) auto

end

lemma map_of_entry: "map_of (entry k wr v) k' = (if k' = k then map_option wr v else None)"
  by (auto simp: entry_def split: option.splits)

lemma map_add_entry:
  "(m ++ map_of (entry k wr v)) k' = (if k' = k \<and> v \<noteq> None then map_option wr v else m k')"
  by (auto simp: map_add_def map_of_entry split: option.splits)

lemmas entry_lookup = map_of_entry map_add_entry

lemma keys_entry: "fst ` set (entry k wr v) \<subseteq> {k}"
  by (auto simp: entry_def split: option.splits)

lemma distinct_entry: "distinct (map fst (entry k wr v @ kvs)) \<longleftrightarrow>
   distinct (map fst kvs) \<and> (v \<noteq> None \<longrightarrow> k \<notin> fst ` set kvs)"
  by (auto simp: entry_def split: option.splits)

lemma distinct_one_entry [simp]: "distinct (map fst (entry k wr v))"
  by (simp add: entry_def split: option.splits)

section \<open>JSON values\<close>

datatype json_value = JNull | JBool bool | JNum int | JStr string | JArr "json_value list"
  | JObj "(string \<times> json_value) list"

text \<open>Objects are \<open>std::map\<close>s: kept sorted, the later of two equal keys winning.\<close>

definition json_object :: "(string \<times> json_value) list \<Rightarrow> json_value" where
  "json_object kvs = JObj (fold (\<lambda>(k, v). map_put k v) kvs [])"

text \<open>Compact text of a value; numbers in decimal, strings without escapes. \<open>digits\<close> is
  \<open>std::to_string\<close> of an unsigned number.\<close>

fun digits :: "nat \<Rightarrow> string" where
  "digits n = (if n < 10 then [char_of (48 + n)] else digits (n div 10) @ [char_of (48 + n mod 10)])"

declare digits.simps [simp del]

definition commas :: "string list \<Rightarrow> string" where
  "commas ss = (case ss of [] \<Rightarrow> [] | s # rest \<Rightarrow> s @ concat (map (\<lambda>r. CHR '','' # r) rest))"

fun text_of :: "json_value \<Rightarrow> string" where
  "text_of JNull = ''null''"
| "text_of (JBool b) = (if b then ''true'' else ''false'')"
| "text_of (JNum n) = (if n < 0 then CHR ''-'' # digits (nat (- n)) else digits (nat n))"
| "text_of (JStr s) = CHR 0x22 # s @ [CHR 0x22]"
| "text_of (JArr js) = CHR ''['' # commas (map text_of js) @ '']''"
| "text_of (JObj kvs) =
     CHR 0x7B # commas (map (\<lambda>kv. CHR 0x22 # fst kv @ CHR 0x22 # CHR '':'' # text_of (snd kv)) kvs) @ [CHR 0x7D]"

definition json_values :: "json_value json_api" where
  "json_values = \<lparr>js_str = JStr, js_num = JNum, js_bool = JBool, js_arr = JArr, js_obj = json_object,
     js_as_str = (\<lambda>j. case j of JStr s \<Rightarrow> Some s | _ \<Rightarrow> None),
     js_as_num = (\<lambda>j. case j of JNum n \<Rightarrow> Some n | _ \<Rightarrow> None),
     js_as_bool = (\<lambda>j. case j of JBool b \<Rightarrow> Some b | _ \<Rightarrow> None),
     js_as_arr = (\<lambda>j. case j of JArr js \<Rightarrow> Some js | _ \<Rightarrow> None),
     js_items = (\<lambda>j. case j of JObj kvs \<Rightarrow> Some kvs | _ \<Rightarrow> None),
     js_dump = text_of\<rparr>"

lemma json_values_simps:
  "js_str json_values = JStr" "js_num json_values = JNum" "js_bool json_values = JBool"
  "js_arr json_values = JArr" "js_obj json_values = json_object" "js_dump json_values = text_of"
  by (simp_all add: json_values_def)

lemma fold_put_wf: "map_wf m \<Longrightarrow> map_wf (fold (\<lambda>(k, v). map_put k v) kvs m)"
  by (induction kvs arbitrary: m) (auto simp: map_wf_put)

lemma map_of_fold_put:
  "map_wf m \<Longrightarrow> distinct (map fst kvs) \<Longrightarrow>
     map_of (fold (\<lambda>(k, v). map_put k v) kvs m) = map_of m ++ map_of kvs"
proof (induction kvs arbitrary: m)
  case (Cons kv kvs)
  obtain k v where kv: "kv = (k, v)" by (cases kv)
  have "map_of (fold (\<lambda>(k, v). map_put k v) kvs (map_put k v m)) = (map_of m)(k \<mapsto> v) ++ map_of kvs"
    using Cons by (simp add: map_wf_put map_of_map_put)
  moreover have "map_of kvs k = None" using Cons.prems(2) kv by (auto simp: map_of_eq_None_iff)
  ultimately show ?case
    by (auto simp: kv fun_eq_iff map_add_def split: option.splits)
qed simp

interpretation json: json_laws json_values
proof unfold_locales
  fix kvs :: "(string \<times> json_value) list"
  assume d: "distinct (map fst kvs)"
  let ?m = "fold (\<lambda>(k, v). map_put k v) kvs []"
  have "map_wf ?m" by (intro fold_put_wf) simp
  moreover have "map_of ?m = map_of kvs" using map_of_fold_put [of "[]" kvs] d by simp
  ultimately show "\<exists>kvs'. js_items json_values (js_obj json_values kvs) = Some kvs' \<and>
      distinct (map fst kvs') \<and> map_of kvs' = map_of kvs"
    by (auto simp: json_values_def json_object_def map_wf_distinct)
qed (simp_all add: json_values_def json_object_def)

end
