(* ===== verification/Announcements.thy ===== *)
theory Announcements
  imports Json
begin

text \<open>
  \<open>gossip/block_announcement.{hpp,cpp}\<close>: the announcements nodes exchange, their names and
  metadata, the JSON they travel as, and the validity test every incoming one has to pass.
  C++ \<open>int\<close> and \<open>int64_t\<close> members are integers; \<open>int_fields_ok\<close> says they are in range.
\<close>

section \<open>Types of announcement\<close>

datatype AnnouncementType = Add | Remove | Ack | PoolDeleted | CblIndexUpdate | CblIndexDelete
  | HeadUpdate | AclUpdate | PoolAnnounce | PoolRemove | QuorumProposal | QuorumVote

definition kTypeMappings :: "(AnnouncementType \<times> string) list" where
  "kTypeMappings =
     [(Add, ''add''), (Remove, ''remove''), (Ack, ''ack''), (PoolDeleted, ''pool_deleted''),
      (CblIndexUpdate, ''cbl_index_update''), (CblIndexDelete, ''cbl_index_delete''),
      (HeadUpdate, ''head_update''), (AclUpdate, ''acl_update''), (PoolAnnounce, ''pool_announce''),
      (PoolRemove, ''pool_remove''), (QuorumProposal, ''quorum_proposal''), (QuorumVote, ''quorum_vote'')]"

definition announcementTypeToString :: "AnnouncementType \<Rightarrow> string res" where
  "announcementTypeToString type =
     (case map_of kTypeMappings type of None \<Rightarrow> Inl (InvalidArgument ''Unknown AnnouncementType'')
      | Some str \<Rightarrow> Inr str)"

definition announcementTypeFromString :: "string \<Rightarrow> AnnouncementType res" where
  "announcementTypeFromString str =
     (case map_of (map (\<lambda>(t, s). (s, t)) kTypeMappings) str of
        None \<Rightarrow> Inl (InvalidArgument (''Unknown announcement type string: '' @ str))
      | Some type \<Rightarrow> Inr type)"

lemma type_names:
  "\<exists>s. announcementTypeToString type = Inr s \<and> announcementTypeFromString s = Inr type"
  by (cases type) (simp_all add: announcementTypeToString_def announcementTypeFromString_def kTypeMappings_def)

section \<open>Metadata\<close>

record MessageDeliveryMetadata =
  md_messageId :: string
  md_recipientIds :: "string list"
  md_priority :: string
  md_blockIds :: "string list"
  md_cblBlockId :: string
  md_ackRequired :: bool
  md_gatewayOutbound :: bool

record DeliveryAckMetadata =
  da_messageId :: string
  da_recipientId :: string
  da_status :: string
  da_originalSenderNode :: string

record HeadUpdateMetadata =
  hu_dbName :: string
  hu_collectionName :: string

record PoolAnnouncementMetadata =
  pa_blockCount :: int
  pa_totalSize :: int
  pa_encrypted :: bool
  pa_encryptedMetadata :: "string option"

record QuorumProposalMetadata =
  qp_proposalId :: string
  qp_description :: string
  qp_actionType :: string
  qp_actionPayload :: string
  qp_proposerMemberId :: string
  qp_expiresAt :: string
  qp_requiredThreshold :: int
  qp_attachmentCblId :: "string option"

record QuorumVoteMetadata =
  qv_proposalId :: string
  qv_voterMemberId :: string
  qv_decision :: string
  qv_comment :: "string option"
  qv_encryptedShare :: "bytes option"

record WriteProof =
  wp_signerPublicKey :: string
  wp_signature :: string
  wp_dbName :: string
  wp_collectionName :: string
  wp_blockId :: string

record CblIndexEntry =
  ci_magnetUrl :: string
  ci_blockId1 :: string
  ci_blockId2 :: string

record BlockAnnouncement =
  ba_type :: AnnouncementType
  ba_blockId :: string
  ba_nodeId :: string
  ba_timestamp :: string
  ba_ttl :: int
  ba_messageDelivery :: "MessageDeliveryMetadata option"
  ba_deliveryAck :: "DeliveryAckMetadata option"
  ba_poolId :: "string option"
  ba_cblIndexEntry :: "CblIndexEntry option"
  ba_headUpdate :: "HeadUpdateMetadata option"
  ba_aclBlockId :: "string option"
  ba_poolAnnouncement :: "PoolAnnouncementMetadata option"
  ba_quorumProposal :: "QuorumProposalMetadata option"
  ba_quorumVote :: "QuorumVoteMetadata option"
  ba_writeProof :: "WriteProof option"

text \<open>A default-constructed announcement.\<close>

definition mkBlockAnnouncement :: BlockAnnouncement where
  "mkBlockAnnouncement = \<lparr>ba_type = Add, ba_blockId = [], ba_nodeId = [], ba_timestamp = [], ba_ttl = 0,
     ba_messageDelivery = None, ba_deliveryAck = None, ba_poolId = None, ba_cblIndexEntry = None,
     ba_headUpdate = None, ba_aclBlockId = None, ba_poolAnnouncement = None, ba_quorumProposal = None,
     ba_quorumVote = None, ba_writeProof = None\<rparr>"

section \<open>Validity\<close>

definition given :: "string option \<Rightarrow> bool" where
  "given s = (case s of None \<Rightarrow> False | Some t \<Rightarrow> t \<noteq> [])"

definition validate :: "BlockAnnouncement \<Rightarrow> bool" where
  "validate a =
     (if ba_messageDelivery a \<noteq> None \<and> ba_type a \<noteq> Add then False
      else if ba_deliveryAck a \<noteq> None \<and> ba_type a \<noteq> Ack then False
      else case ba_type a of
        Add \<Rightarrow> True
      | Remove \<Rightarrow> True
      | Ack \<Rightarrow> ba_deliveryAck a \<noteq> None
      | PoolDeleted \<Rightarrow>
          if \<not> given (ba_poolId a) then False
          else if ba_messageDelivery a \<noteq> None \<or> ba_deliveryAck a \<noteq> None then False else True
      | CblIndexUpdate \<Rightarrow> given (ba_poolId a) \<and> (case ba_cblIndexEntry a of None \<Rightarrow> False
          | Some e \<Rightarrow> ci_magnetUrl e \<noteq> [] \<and> ci_blockId1 e \<noteq> [] \<and> ci_blockId2 e \<noteq> [])
      | CblIndexDelete \<Rightarrow> given (ba_poolId a) \<and> (case ba_cblIndexEntry a of None \<Rightarrow> False
          | Some e \<Rightarrow> ci_magnetUrl e \<noteq> [] \<and> ci_blockId1 e \<noteq> [] \<and> ci_blockId2 e \<noteq> [])
      | HeadUpdate \<Rightarrow> ba_blockId a \<noteq> [] \<and> (case ba_headUpdate a of None \<Rightarrow> False
          | Some h \<Rightarrow> hu_dbName h \<noteq> [] \<and> hu_collectionName h \<noteq> [])
      | AclUpdate \<Rightarrow> given (ba_poolId a) \<and> given (ba_aclBlockId a)
      | PoolAnnounce \<Rightarrow> given (ba_poolId a) \<and> ba_poolAnnouncement a \<noteq> None
      | PoolRemove \<Rightarrow> given (ba_poolId a)
      | QuorumProposal \<Rightarrow> (case ba_quorumProposal a of None \<Rightarrow> False
          | Some q \<Rightarrow> qp_proposalId q \<noteq> [] \<and> length (qp_description q) \<le> 4096 \<and>
                      qp_proposerMemberId q \<noteq> [] \<and> 1 \<le> qp_requiredThreshold q)
      | QuorumVote \<Rightarrow> (case ba_quorumVote a of None \<Rightarrow> False
          | Some q \<Rightarrow> qv_proposalId q \<noteq> [] \<and> qv_voterMemberId q \<noteq> [] \<and>
                      (qv_decision q = ''approve'' \<or> qv_decision q = ''reject'') \<and>
                      (case qv_comment q of None \<Rightarrow> True | Some c \<Rightarrow> length c \<le> 1024)))"

section \<open>JSON\<close>

definition messageDelivery_toJson :: "'j json_api \<Rightarrow> MessageDeliveryMetadata \<Rightarrow> 'j" where
  "messageDelivery_toJson J m = js_obj J (
     [(''messageId'', js_str J (md_messageId m)),
      (''recipientIds'', js_arr J (map (js_str J) (md_recipientIds m))),
      (''priority'', js_str J (md_priority m)),
      (''blockIds'', js_arr J (map (js_str J) (md_blockIds m))),
      (''cblBlockId'', js_str J (md_cblBlockId m)),
      (''ackRequired'', js_bool J (md_ackRequired m))] @
     (if md_gatewayOutbound m then [(''gatewayOutbound'', js_bool J (md_gatewayOutbound m))] else []))"

definition messageDelivery_fromJson :: "'j json_api \<Rightarrow> 'j \<Rightarrow> MessageDeliveryMetadata res" where
  "messageDelivery_fromJson J j =
     bind_res (field J (get_string J) j ''messageId'') (\<lambda>messageId.
     bind_res (field J (get_strings J) j ''recipientIds'') (\<lambda>recipientIds.
     bind_res (field J (get_string J) j ''priority'') (\<lambda>priority.
     bind_res (field J (get_strings J) j ''blockIds'') (\<lambda>blockIds.
     bind_res (field J (get_string J) j ''cblBlockId'') (\<lambda>cblBlockId.
     bind_res (field J (get_bool J) j ''ackRequired'') (\<lambda>ackRequired.
     bind_res (optional J (get_bool J) j ''gatewayOutbound'') (\<lambda>gatewayOutbound.
     Inr \<lparr>md_messageId = messageId, md_recipientIds = recipientIds, md_priority = priority,
       md_blockIds = blockIds, md_cblBlockId = cblBlockId, md_ackRequired = ackRequired,
       md_gatewayOutbound = (case gatewayOutbound of None \<Rightarrow> False | Some b \<Rightarrow> b)\<rparr>)))))))"

definition deliveryAck_toJson :: "'j json_api \<Rightarrow> DeliveryAckMetadata \<Rightarrow> 'j" where
  "deliveryAck_toJson J m = js_obj J
     [(''messageId'', js_str J (da_messageId m)), (''recipientId'', js_str J (da_recipientId m)),
      (''status'', js_str J (da_status m)), (''originalSenderNode'', js_str J (da_originalSenderNode m))]"

definition deliveryAck_fromJson :: "'j json_api \<Rightarrow> 'j \<Rightarrow> DeliveryAckMetadata res" where
  "deliveryAck_fromJson J j =
     bind_res (field J (get_string J) j ''messageId'') (\<lambda>messageId.
     bind_res (field J (get_string J) j ''recipientId'') (\<lambda>recipientId.
     bind_res (field J (get_string J) j ''status'') (\<lambda>status.
     bind_res (field J (get_string J) j ''originalSenderNode'') (\<lambda>originalSenderNode.
     Inr \<lparr>da_messageId = messageId, da_recipientId = recipientId, da_status = status,
       da_originalSenderNode = originalSenderNode\<rparr>))))"

definition headUpdate_toJson :: "'j json_api \<Rightarrow> HeadUpdateMetadata \<Rightarrow> 'j" where
  "headUpdate_toJson J m = js_obj J
     [(''dbName'', js_str J (hu_dbName m)), (''collectionName'', js_str J (hu_collectionName m))]"

definition headUpdate_fromJson :: "'j json_api \<Rightarrow> 'j \<Rightarrow> HeadUpdateMetadata res" where
  "headUpdate_fromJson J j =
     bind_res (field J (get_string J) j ''dbName'') (\<lambda>dbName.
     bind_res (field J (get_string J) j ''collectionName'') (\<lambda>collectionName.
     Inr \<lparr>hu_dbName = dbName, hu_collectionName = collectionName\<rparr>))"

definition poolAnnouncement_toJson :: "'j json_api \<Rightarrow> PoolAnnouncementMetadata \<Rightarrow> 'j" where
  "poolAnnouncement_toJson J m = js_obj J (
     [(''blockCount'', js_num J (pa_blockCount m)), (''totalSize'', js_num J (pa_totalSize m)),
      (''encrypted'', js_bool J (pa_encrypted m))] @
     entry ''encryptedMetadata'' (js_str J) (pa_encryptedMetadata m))"

definition poolAnnouncement_fromJson :: "'j json_api \<Rightarrow> 'j \<Rightarrow> PoolAnnouncementMetadata res" where
  "poolAnnouncement_fromJson J j =
     bind_res (field J (get_int64 J) j ''blockCount'') (\<lambda>blockCount.
     bind_res (field J (get_int64 J) j ''totalSize'') (\<lambda>totalSize.
     bind_res (field J (get_bool J) j ''encrypted'') (\<lambda>encrypted.
     bind_res (optional J (get_string J) j ''encryptedMetadata'') (\<lambda>encryptedMetadata.
     Inr \<lparr>pa_blockCount = blockCount, pa_totalSize = totalSize, pa_encrypted = encrypted,
       pa_encryptedMetadata = encryptedMetadata\<rparr>))))"

definition quorumProposal_toJson :: "'j json_api \<Rightarrow> QuorumProposalMetadata \<Rightarrow> 'j" where
  "quorumProposal_toJson J m = js_obj J (
     [(''proposalId'', js_str J (qp_proposalId m)), (''description'', js_str J (qp_description m)),
      (''actionType'', js_str J (qp_actionType m)), (''actionPayload'', js_str J (qp_actionPayload m)),
      (''proposerMemberId'', js_str J (qp_proposerMemberId m)), (''expiresAt'', js_str J (qp_expiresAt m)),
      (''requiredThreshold'', js_num J (qp_requiredThreshold m))] @
     entry ''attachmentCblId'' (js_str J) (qp_attachmentCblId m))"

definition quorumProposal_fromJson :: "'j json_api \<Rightarrow> 'j \<Rightarrow> QuorumProposalMetadata res" where
  "quorumProposal_fromJson J j =
     bind_res (field J (get_string J) j ''proposalId'') (\<lambda>proposalId.
     bind_res (field J (get_string J) j ''description'') (\<lambda>description.
     bind_res (field J (get_string J) j ''actionType'') (\<lambda>actionType.
     bind_res (field J (get_string J) j ''actionPayload'') (\<lambda>actionPayload.
     bind_res (field J (get_string J) j ''proposerMemberId'') (\<lambda>proposerMemberId.
     bind_res (field J (get_string J) j ''expiresAt'') (\<lambda>expiresAt.
     bind_res (field J (get_int J) j ''requiredThreshold'') (\<lambda>requiredThreshold.
     bind_res (optional J (get_string J) j ''attachmentCblId'') (\<lambda>attachmentCblId.
     Inr \<lparr>qp_proposalId = proposalId, qp_description = description, qp_actionType = actionType,
       qp_actionPayload = actionPayload, qp_proposerMemberId = proposerMemberId, qp_expiresAt = expiresAt,
       qp_requiredThreshold = requiredThreshold, qp_attachmentCblId = attachmentCblId\<rparr>))))))))"

text \<open>The encrypted share travels as an array of numbers.\<close>

definition share_toJson :: "'j json_api \<Rightarrow> bytes \<Rightarrow> 'j" where
  "share_toJson J shr = js_arr J (map (\<lambda>b. js_num J (uint b)) shr)"

definition share_fromJson :: "'j json_api \<Rightarrow> 'j \<Rightarrow> bytes res" where
  "share_fromJson J j =
     bind_res (read_as (js_as_arr J) j) (map_res (\<lambda>elem. bind_res (get_int J elem) (\<lambda>n. Inr (word_of_int n))))"

definition quorumVote_toJson :: "'j json_api \<Rightarrow> QuorumVoteMetadata \<Rightarrow> 'j" where
  "quorumVote_toJson J m = js_obj J (
     [(''proposalId'', js_str J (qv_proposalId m)), (''voterMemberId'', js_str J (qv_voterMemberId m)),
      (''decision'', js_str J (qv_decision m))] @
     entry ''comment'' (js_str J) (qv_comment m) @
     entry ''encryptedShare'' (share_toJson J) (qv_encryptedShare m))"

definition quorumVote_fromJson :: "'j json_api \<Rightarrow> 'j \<Rightarrow> QuorumVoteMetadata res" where
  "quorumVote_fromJson J j =
     bind_res (field J (get_string J) j ''proposalId'') (\<lambda>proposalId.
     bind_res (field J (get_string J) j ''voterMemberId'') (\<lambda>voterMemberId.
     bind_res (field J (get_string J) j ''decision'') (\<lambda>decision.
     bind_res (optional J (get_string J) j ''comment'') (\<lambda>cmt.
     bind_res (optional J (share_fromJson J) j ''encryptedShare'') (\<lambda>encryptedShare.
     Inr \<lparr>qv_proposalId = proposalId, qv_voterMemberId = voterMemberId, qv_decision = decision,
       qv_comment = cmt, qv_encryptedShare = encryptedShare\<rparr>)))))"

definition writeProof_toJson :: "'j json_api \<Rightarrow> WriteProof \<Rightarrow> 'j" where
  "writeProof_toJson J m = js_obj J
     [(''signerPublicKey'', js_str J (wp_signerPublicKey m)), (''signature'', js_str J (wp_signature m)),
      (''dbName'', js_str J (wp_dbName m)), (''collectionName'', js_str J (wp_collectionName m)),
      (''blockId'', js_str J (wp_blockId m))]"

definition writeProof_fromJson :: "'j json_api \<Rightarrow> 'j \<Rightarrow> WriteProof res" where
  "writeProof_fromJson J j =
     bind_res (field J (get_string J) j ''signerPublicKey'') (\<lambda>signerPublicKey.
     bind_res (field J (get_string J) j ''signature'') (\<lambda>signature.
     bind_res (field J (get_string J) j ''dbName'') (\<lambda>dbName.
     bind_res (field J (get_string J) j ''collectionName'') (\<lambda>collectionName.
     bind_res (field J (get_string J) j ''blockId'') (\<lambda>blockId.
     Inr \<lparr>wp_signerPublicKey = signerPublicKey, wp_signature = signature, wp_dbName = dbName,
       wp_collectionName = collectionName, wp_blockId = blockId\<rparr>)))))"

definition cblIndexEntry_toJson :: "'j json_api \<Rightarrow> CblIndexEntry \<Rightarrow> 'j" where
  "cblIndexEntry_toJson J m = js_obj J
     [(''magnetUrl'', js_str J (ci_magnetUrl m)), (''blockId1'', js_str J (ci_blockId1 m)),
      (''blockId2'', js_str J (ci_blockId2 m))]"

definition cblIndexEntry_fromJson :: "'j json_api \<Rightarrow> 'j \<Rightarrow> CblIndexEntry res" where
  "cblIndexEntry_fromJson J j =
     bind_res (field J (get_string J) j ''magnetUrl'') (\<lambda>magnetUrl.
     bind_res (field J (get_string J) j ''blockId1'') (\<lambda>blockId1.
     bind_res (field J (get_string J) j ''blockId2'') (\<lambda>blockId2.
     Inr \<lparr>ci_magnetUrl = magnetUrl, ci_blockId1 = blockId1, ci_blockId2 = blockId2\<rparr>)))"

definition toJson :: "'j json_api \<Rightarrow> BlockAnnouncement \<Rightarrow> 'j res" where
  "toJson J a =
     bind_res (announcementTypeToString (ba_type a)) (\<lambda>type. Inr (js_obj J (
       [(''type'', js_str J type), (''blockId'', js_str J (ba_blockId a)), (''nodeId'', js_str J (ba_nodeId a)),
        (''timestamp'', js_str J (ba_timestamp a)), (''ttl'', js_num J (ba_ttl a))] @
       entry ''messageDelivery'' (messageDelivery_toJson J) (ba_messageDelivery a) @
       entry ''deliveryAck'' (deliveryAck_toJson J) (ba_deliveryAck a) @
       entry ''poolId'' (js_str J) (ba_poolId a) @
       entry ''cblIndexEntry'' (cblIndexEntry_toJson J) (ba_cblIndexEntry a) @
       entry ''headUpdate'' (headUpdate_toJson J) (ba_headUpdate a) @
       entry ''aclBlockId'' (js_str J) (ba_aclBlockId a) @
       entry ''poolAnnouncement'' (poolAnnouncement_toJson J) (ba_poolAnnouncement a) @
       entry ''quorumProposal'' (quorumProposal_toJson J) (ba_quorumProposal a) @
       entry ''quorumVote'' (quorumVote_toJson J) (ba_quorumVote a) @
       entry ''writeProof'' (writeProof_toJson J) (ba_writeProof a))))"

definition fromJson :: "'j json_api \<Rightarrow> 'j \<Rightarrow> BlockAnnouncement res" where
  "fromJson J j =
     bind_res (bind_res (field J (get_string J) j ''type'') announcementTypeFromString) (\<lambda>type.
     bind_res (field J (get_string J) j ''blockId'') (\<lambda>blockId.
     bind_res (field J (get_string J) j ''nodeId'') (\<lambda>nodeId.
     bind_res (field J (get_string J) j ''timestamp'') (\<lambda>timestamp.
     bind_res (field J (get_int J) j ''ttl'') (\<lambda>ttl.
     bind_res (optional J (messageDelivery_fromJson J) j ''messageDelivery'') (\<lambda>messageDelivery.
     bind_res (optional J (deliveryAck_fromJson J) j ''deliveryAck'') (\<lambda>deliveryAck.
     bind_res (optional J (get_string J) j ''poolId'') (\<lambda>poolId.
     bind_res (optional J (cblIndexEntry_fromJson J) j ''cblIndexEntry'') (\<lambda>cblIndexEntry.
     bind_res (optional J (headUpdate_fromJson J) j ''headUpdate'') (\<lambda>headUpdate.
     bind_res (optional J (get_string J) j ''aclBlockId'') (\<lambda>aclBlockId.
     bind_res (optional J (poolAnnouncement_fromJson J) j ''poolAnnouncement'') (\<lambda>poolAnnouncement.
     bind_res (optional J (quorumProposal_fromJson J) j ''quorumProposal'') (\<lambda>quorumProposal.
     bind_res (optional J (quorumVote_fromJson J) j ''quorumVote'') (\<lambda>quorumVote.
     bind_res (optional J (writeProof_fromJson J) j ''writeProof'') (\<lambda>writeProof.
     Inr \<lparr>ba_type = type, ba_blockId = blockId, ba_nodeId = nodeId, ba_timestamp = timestamp, ba_ttl = ttl,
       ba_messageDelivery = messageDelivery, ba_deliveryAck = deliveryAck, ba_poolId = poolId,
       ba_cblIndexEntry = cblIndexEntry, ba_headUpdate = headUpdate, ba_aclBlockId = aclBlockId,
       ba_poolAnnouncement = poolAnnouncement, ba_quorumProposal = quorumProposal,
       ba_quorumVote = quorumVote, ba_writeProof = writeProof\<rparr>)))))))))))))))"

end
