(* ===== verification/AnnouncementProperties.thy ===== *)
theory AnnouncementProperties
  imports Announcements
begin

text \<open>
  What \<open>block_announcement\<close> promises: an announcement survives the trip through JSON, and what
  its names and its validity test admit.
\<close>

text \<open>The numbers of an announcement are in the range of their C++ types.\<close>

definition int_fields_ok :: "BlockAnnouncement \<Rightarrow> bool" where
  "int_fields_ok a \<longleftrightarrow>
     - (2 ^ 31) \<le> ba_ttl a \<and> ba_ttl a < 2 ^ 31 \<and>
     (case ba_poolAnnouncement a of None \<Rightarrow> True | Some p \<Rightarrow>
        - (2 ^ 63) \<le> pa_blockCount p \<and> pa_blockCount p < 2 ^ 63 \<and>
        - (2 ^ 63) \<le> pa_totalSize p \<and> pa_totalSize p < 2 ^ 63) \<and>
     (case ba_quorumProposal a of None \<Rightarrow> True | Some q \<Rightarrow>
        - (2 ^ 31) \<le> qp_requiredThreshold q \<and> qp_requiredThreshold q < 2 ^ 31)"

context json_laws
begin

lemmas readers = get_string get_bool get_int get_int64 get_strings

lemma deliveryAck_trip: "deliveryAck_fromJson J (deliveryAck_toJson J m) = Inr m"
  by (simp add: deliveryAck_fromJson_def deliveryAck_toJson_def field_obj readers)

lemma headUpdate_trip: "headUpdate_fromJson J (headUpdate_toJson J m) = Inr m"
  by (simp add: headUpdate_fromJson_def headUpdate_toJson_def field_obj readers)

lemma writeProof_trip: "writeProof_fromJson J (writeProof_toJson J m) = Inr m"
  by (simp add: writeProof_fromJson_def writeProof_toJson_def field_obj readers)

lemma cblIndexEntry_trip: "cblIndexEntry_fromJson J (cblIndexEntry_toJson J m) = Inr m"
  by (simp add: cblIndexEntry_fromJson_def cblIndexEntry_toJson_def field_obj readers)

lemma messageDelivery_trip: "messageDelivery_fromJson J (messageDelivery_toJson J m) = Inr m"
  by (cases "md_gatewayOutbound m")
    (simp_all add: messageDelivery_fromJson_def messageDelivery_toJson_def field_obj readers
      optional_def contains_obj)

lemma poolAnnouncement_trip:
  assumes "- (2 ^ 63) \<le> pa_blockCount m" "pa_blockCount m < 2 ^ 63"
    and "- (2 ^ 63) \<le> pa_totalSize m" "pa_totalSize m < 2 ^ 63"
  shows "poolAnnouncement_fromJson J (poolAnnouncement_toJson J m) = Inr m"
  using assms by (cases "pa_encryptedMetadata m")
    (simp_all add: poolAnnouncement_fromJson_def poolAnnouncement_toJson_def field_obj readers
      optional_def contains_obj entry_def)

lemma quorumProposal_trip:
  assumes "- (2 ^ 31) \<le> qp_requiredThreshold m" "qp_requiredThreshold m < 2 ^ 31"
  shows "quorumProposal_fromJson J (quorumProposal_toJson J m) = Inr m"
  using assms by (cases "qp_attachmentCblId m")
    (simp_all add: quorumProposal_fromJson_def quorumProposal_toJson_def field_obj readers
      optional_def contains_obj entry_def)

lemma share_trip: "share_fromJson J (share_toJson J shr) = Inr shr"
proof -
  have "get_int J (js_num J (uint b)) = Inr (uint b)" for b :: byte
  proof (rule get_int)
    have "uint b < 2 ^ 8" using uint_bounded [of b] by simp
    also have "(2 ^ 8 :: int) < 2 ^ 31" by simp
    finally show "uint b < 2 ^ 31" .
    have "- (2 ^ 31) \<le> (0 :: int)" by simp
    also have "0 \<le> uint b" by simp
    finally show "- (2 ^ 31) \<le> uint b" .
  qed
  then show ?thesis
    by (simp add: share_fromJson_def share_toJson_def read_as_def as_arr)
      (intro map_res_array, simp)
qed

lemma quorumVote_trip: "quorumVote_fromJson J (quorumVote_toJson J m) = Inr m"
  by (cases "qv_comment m"; cases "qv_encryptedShare m")
    (simp_all add: quorumVote_fromJson_def quorumVote_toJson_def field_obj readers
      optional_def contains_obj entry_def share_trip)

lemma announcement_trip:
  assumes "int_fields_ok a"
  shows "bind_res (toJson J a) (fromJson J) = Inr a"
proof -
  obtain s where s: "announcementTypeToString (ba_type a) = Inr s" "announcementTypeFromString s = Inr (ba_type a)"
    using type_names by blast
  define kvs where "kvs = [(''type'', js_str J s), (''blockId'', js_str J (ba_blockId a)),
      (''nodeId'', js_str J (ba_nodeId a)), (''timestamp'', js_str J (ba_timestamp a)), (''ttl'', js_num J (ba_ttl a))] @
       entry ''messageDelivery'' (messageDelivery_toJson J) (ba_messageDelivery a) @
       entry ''deliveryAck'' (deliveryAck_toJson J) (ba_deliveryAck a) @
       entry ''poolId'' (js_str J) (ba_poolId a) @
       entry ''cblIndexEntry'' (cblIndexEntry_toJson J) (ba_cblIndexEntry a) @
       entry ''headUpdate'' (headUpdate_toJson J) (ba_headUpdate a) @
       entry ''aclBlockId'' (js_str J) (ba_aclBlockId a) @
       entry ''poolAnnouncement'' (poolAnnouncement_toJson J) (ba_poolAnnouncement a) @
       entry ''quorumProposal'' (quorumProposal_toJson J) (ba_quorumProposal a) @
       entry ''quorumVote'' (quorumVote_toJson J) (ba_quorumVote a) @
       entry ''writeProof'' (writeProof_toJson J) (ba_writeProof a) @ []"
  have keys: "distinct (map fst kvs)"
    unfolding kvs_def by (auto simp: distinct_entry dest!: subsetD [OF keys_entry])
  note opt = optional_obj [OF keys]
  have j: "toJson J a = Inr (js_obj J kvs)"
    by (simp add: toJson_def s kvs_def)
  have "get_int J (js_num J (ba_ttl a)) = Inr (ba_ttl a)"
    using assms by (intro get_int) (simp_all add: int_fields_ok_def)
  moreover have "optional J (messageDelivery_fromJson J) (js_obj J kvs) ''messageDelivery'' = Inr (ba_messageDelivery a)"
    by (rule opt [where wr = "messageDelivery_toJson J"]) (simp_all add: kvs_def entry_lookup messageDelivery_trip)
  moreover have "optional J (deliveryAck_fromJson J) (js_obj J kvs) ''deliveryAck'' = Inr (ba_deliveryAck a)"
    by (rule opt [where wr = "deliveryAck_toJson J"]) (simp_all add: kvs_def entry_lookup deliveryAck_trip)
  moreover have "optional J (get_string J) (js_obj J kvs) ''poolId'' = Inr (ba_poolId a)"
    by (rule opt [where wr = "js_str J"]) (simp_all add: kvs_def entry_lookup get_string)
  moreover have "optional J (cblIndexEntry_fromJson J) (js_obj J kvs) ''cblIndexEntry'' = Inr (ba_cblIndexEntry a)"
    by (rule opt [where wr = "cblIndexEntry_toJson J"]) (simp_all add: kvs_def entry_lookup cblIndexEntry_trip)
  moreover have "optional J (headUpdate_fromJson J) (js_obj J kvs) ''headUpdate'' = Inr (ba_headUpdate a)"
    by (rule opt [where wr = "headUpdate_toJson J"]) (simp_all add: kvs_def entry_lookup headUpdate_trip)
  moreover have "optional J (get_string J) (js_obj J kvs) ''aclBlockId'' = Inr (ba_aclBlockId a)"
    by (rule opt [where wr = "js_str J"]) (simp_all add: kvs_def entry_lookup get_string)
  moreover have "optional J (poolAnnouncement_fromJson J) (js_obj J kvs) ''poolAnnouncement'' = Inr (ba_poolAnnouncement a)"
    using assms
    by (intro opt [where wr = "poolAnnouncement_toJson J"])
      (auto simp: kvs_def entry_lookup int_fields_ok_def intro!: poolAnnouncement_trip)
  moreover have "optional J (quorumProposal_fromJson J) (js_obj J kvs) ''quorumProposal'' = Inr (ba_quorumProposal a)"
    using assms
    by (intro opt [where wr = "quorumProposal_toJson J"])
      (auto simp: kvs_def entry_lookup int_fields_ok_def intro!: quorumProposal_trip)
  moreover have "optional J (quorumVote_fromJson J) (js_obj J kvs) ''quorumVote'' = Inr (ba_quorumVote a)"
    by (rule opt [where wr = "quorumVote_toJson J"]) (simp_all add: kvs_def entry_lookup quorumVote_trip)
  moreover have "optional J (writeProof_fromJson J) (js_obj J kvs) ''writeProof'' = Inr (ba_writeProof a)"
    by (rule opt [where wr = "writeProof_toJson J"]) (simp_all add: kvs_def entry_lookup writeProof_trip)
  moreover have "map_of kvs ''type'' = Some (js_str J s)" "map_of kvs ''blockId'' = Some (js_str J (ba_blockId a))"
    "map_of kvs ''nodeId'' = Some (js_str J (ba_nodeId a))"
    "map_of kvs ''timestamp'' = Some (js_str J (ba_timestamp a))"
    "map_of kvs ''ttl'' = Some (js_num J (ba_ttl a))"
    by (simp_all add: kvs_def)
  ultimately show ?thesis by (simp add: j fromJson_def get_string s field_obj [OF keys])
qed

end

text \<open>
  C14: an announcement written as JSON and read back is the announcement, whatever its type
  and whichever metadata it carries, as long as its numbers fit their C++ types.
\<close>

theorem announcement_roundtrip:
  assumes "json_laws J" and "int_fields_ok a"
  shows "bind_res (toJson J a) (fromJson J) = Inr a"
  using assms by (rule json_laws.announcement_trip)

definition sample_vote_announcement :: BlockAnnouncement where
  "sample_vote_announcement = mkBlockAnnouncement\<lparr>ba_type := QuorumVote, ba_blockId := ''p1'', ba_nodeId := ''n'',
     ba_ttl := 7, ba_quorumVote := Some \<lparr>qv_proposalId = ''p1'', qv_voterMemberId = ''m'',
       qv_decision = ''approve'', qv_comment = None, qv_encryptedShare = Some [1, 255]\<rparr>\<rparr>"

theorem announcement_roundtrip_witness:
  "bind_res (toJson json_values sample_vote_announcement) (fromJson json_values) = Inr sample_vote_announcement"
  by (rule announcement_roundtrip [OF json.json_laws_axioms])
    (simp add: int_fields_ok_def sample_vote_announcement_def mkBlockAnnouncement_def)

end
