(* ===== verification/RetryService.thy ===== *)
theory RetryService
  imports Announcements
begin

text \<open>
  \<open>gossip/retry_service.{hpp,cpp}\<close>: the deliveries a node waits to hear back about, the status
  of each recipient, and the periodic check that retries them with exponential backoff and
  gives up. Time is in milliseconds of the steady clock; the failure handlers are functions
  on the state \<open>'x\<close> of the client that registered them. The comparison \<open>calculateBackoff\<close>
  makes on doubles is that of the integers they round; an initial timeout of 0 with a power above the
  largest double (0 times infinity, cast to \<open>int\<close>) is not modelled.
\<close>

section \<open>State\<close>

datatype DeliveryStatus = Announced | Pending | Delivered | Read | Failed | Bounced

record RetryConfig =
  rc_initialTimeoutMs :: int
  rc_backoffMultiplier :: int
  rc_maxRetries :: int
  rc_maxBackoffMs :: int

definition defaultRetryConfig :: RetryConfig where
  "defaultRetryConfig = \<lparr>rc_initialTimeoutMs = 30000, rc_backoffMultiplier = 2, rc_maxRetries = 5,
     rc_maxBackoffMs = 240000\<rparr>"

record PendingDelivery =
  pd_messageId :: string
  pd_blockIds :: "string list"
  pd_metadata :: MessageDeliveryMetadata
  pd_recipientStatuses :: "(string \<times> DeliveryStatus) list"
  pd_retryCount :: int
  pd_nextRetryAt :: int
  pd_createdAt :: int

record 'x RetryService =
  rs_config :: RetryConfig
  rs_pendingDeliveries :: "(string \<times> PendingDelivery) list"
  rs_failureHandlers :: "(string \<Rightarrow> string list \<Rightarrow> 'x \<Rightarrow> 'x) list"
  rs_client :: 'x
  rs_running :: bool
  rs_timer :: bool
  rs_waiting :: bool

definition mkRetryService :: "RetryConfig \<Rightarrow> 'x \<Rightarrow> 'x RetryService" where
  "mkRetryService config x = \<lparr>rs_config = config, rs_pendingDeliveries = [], rs_failureHandlers = [],
     rs_client = x, rs_running = False, rs_timer = False, rs_waiting = False\<rparr>"

section \<open>Operations\<close>

definition trackDelivery :: "int \<Rightarrow> string \<Rightarrow> string list \<Rightarrow> MessageDeliveryMetadata \<Rightarrow>
    'x RetryService \<Rightarrow> 'x RetryService" where
  "trackDelivery now messageId blockIds metadata s =
     (let pd = \<lparr>pd_messageId = messageId, pd_blockIds = blockIds, pd_metadata = metadata,
                 pd_recipientStatuses =
                   fold (\<lambda>r m. AList.update r Announced m) (md_recipientIds metadata) [],
                 pd_retryCount = 0, pd_nextRetryAt = now + rc_initialTimeoutMs (rs_config s),
                 pd_createdAt = now\<rparr>
      in if map_of (rs_pendingDeliveries s) messageId = None
         then s\<lparr>rs_pendingDeliveries := AList.update messageId pd (rs_pendingDeliveries s)\<rparr>
         else s)"

definition validateTransition :: "DeliveryStatus \<Rightarrow> DeliveryStatus \<Rightarrow> bool" where
  "validateTransition frm to = (case frm of
     Announced \<Rightarrow> to = Pending
   | Pending \<Rightarrow> to = Delivered \<or> to = Failed \<or> to = Bounced
   | Delivered \<Rightarrow> to = Read
   | Read \<Rightarrow> False | Failed \<Rightarrow> False | Bounced \<Rightarrow> False)"

definition status_of_ack :: "string \<Rightarrow> DeliveryStatus option" where
  "status_of_ack str =
     (if str = ''delivered'' then Some Delivered
      else if str = ''read'' then Some Read
      else if str = ''failed'' then Some Failed
      else if str = ''bounced'' then Some Bounced
      else None)"

definition allDone :: "(string \<times> DeliveryStatus) list \<Rightarrow> bool" where
  "allDone sts = list_all (\<lambda>(r, st). st = Delivered \<or> st = Read) sts"

definition handleAck :: "DeliveryAckMetadata \<Rightarrow> 'x RetryService \<Rightarrow> 'x RetryService" where
  "handleAck ack s =
     (case map_of (rs_pendingDeliveries s) (da_messageId ack) of
        None \<Rightarrow> s
      | Some pd \<Rightarrow>
          (case map_of (pd_recipientStatuses pd) (da_recipientId ack) of
             None \<Rightarrow> s
           | Some old \<Rightarrow>
               (case status_of_ack (da_status ack) of
                  None \<Rightarrow> s
                | Some new \<Rightarrow>
                    if \<not> validateTransition old new then s
                    else
                      let sts = AList.update (da_recipientId ack) new (pd_recipientStatuses pd);
                          pd' = pd\<lparr>pd_recipientStatuses := sts\<rparr>
                      in if allDone sts
                         then s\<lparr>rs_pendingDeliveries := map_del (da_messageId ack) (rs_pendingDeliveries s)\<rparr>
                         else s\<lparr>rs_pendingDeliveries :=
                                  AList.update (da_messageId ack) pd' (rs_pendingDeliveries s)\<rparr>)))"

text \<open>The delay is cast to \<open>int\<close>: below its range that is undefined behaviour.\<close>

definition calculateBackoff :: "RetryConfig \<Rightarrow> int \<Rightarrow> int res" where
  "calculateBackoff config retryCount =
     (if retryCount \<le> 0 then Inr (rc_initialTimeoutMs config)
      else
        let delay = rc_initialTimeoutMs config * rc_backoffMultiplier config ^ nat (retryCount - 1)
        in if rc_maxBackoffMs config < delay then Inr (rc_maxBackoffMs config)
           else if delay < - (2 ^ 31) then Inl UndefinedBehaviour
           else Inr delay)"

definition fail_status :: "DeliveryStatus \<Rightarrow> DeliveryStatus" where
  "fail_status st = (if st = Announced \<or> st = Pending then Failed else st)"

definition retry_status :: "DeliveryStatus \<Rightarrow> DeliveryStatus" where
  "retry_status st = (if st = Announced then Pending else st)"

definition failedRecipients :: "(string \<times> DeliveryStatus) list \<Rightarrow> string list" where
  "failedRecipients sts = map fst (filter (\<lambda>(r, st). st = Announced \<or> st = Pending) sts)"

text \<open>The loop over the deliveries: their new entries, the ids to remove, the client's state.\<close>

fun check_deliveries :: "RetryConfig \<Rightarrow> (string \<Rightarrow> string list \<Rightarrow> 'x \<Rightarrow> 'x) list \<Rightarrow> int \<Rightarrow>
    (string \<times> PendingDelivery) list \<Rightarrow> 'x \<Rightarrow> ((string \<times> PendingDelivery) list \<times> string list \<times> 'x) res" where
  "check_deliveries config handlers now [] x = Inr ([], [], x)"
| "check_deliveries config handlers now ((msgId, pd) # pds) x =
     (if now < pd_nextRetryAt pd
      then bind_res (check_deliveries config handlers now pds x) (\<lambda>(pds', toRemove, x').
             Inr ((msgId, pd) # pds', toRemove, x'))
      else if pd_retryCount pd = 2 ^ 31 - 1 then Inl UndefinedBehaviour
      else
        let retryCount = pd_retryCount pd + 1;
            pd1 = pd\<lparr>pd_retryCount := retryCount\<rparr>
        in if rc_maxRetries config < retryCount
           then
             let sts = pd_recipientStatuses pd;
                 pd2 = pd1\<lparr>pd_recipientStatuses := map (apsnd fail_status) sts\<rparr>;
                 x1 = fold (\<lambda>handler. handler msgId (failedRecipients sts)) handlers x
             in bind_res (check_deliveries config handlers now pds x1) (\<lambda>(pds', toRemove, x').
                  Inr ((msgId, pd2) # pds', msgId # toRemove, x'))
           else
             bind_res (calculateBackoff config retryCount) (\<lambda>backoffMs.
             bind_res (check_deliveries config handlers now pds x) (\<lambda>(pds', toRemove, x').
               Inr ((msgId, pd1\<lparr>pd_recipientStatuses := map (apsnd retry_status) (pd_recipientStatuses pd),
                             pd_nextRetryAt := now + backoffMs\<rparr>) # pds', toRemove, x'))))"

definition checkRetries :: "int \<Rightarrow> 'x RetryService \<Rightarrow> 'x RetryService res" where
  "checkRetries now s =
     bind_res (check_deliveries (rs_config s) (rs_failureHandlers s) now (rs_pendingDeliveries s) (rs_client s))
       (\<lambda>(pds, toRemove, x). Inr (s\<lparr>rs_pendingDeliveries := fold map_del toRemove pds, rs_client := x\<rparr>))"

definition scheduleRetryTimer :: "'x RetryService \<Rightarrow> 'x RetryService" where
  "scheduleRetryTimer s = (if \<not> rs_running s \<or> \<not> rs_timer s then s else s\<lparr>rs_waiting := True\<rparr>)"

definition start :: "'x RetryService \<Rightarrow> 'x RetryService" where
  "start s = (if rs_running s then s else scheduleRetryTimer (s\<lparr>rs_running := True, rs_timer := True\<rparr>))"

definition stop :: "'x RetryService \<Rightarrow> 'x RetryService" where
  "stop s = s\<lparr>rs_running := False, rs_timer := False, rs_waiting := False\<rparr>"

text \<open>The handler of the timer, called with \<open>failed\<close> when the wait was cancelled.\<close>

definition retryTimerFired :: "bool \<Rightarrow> int \<Rightarrow> 'x RetryService \<Rightarrow> 'x RetryService res" where
  "retryTimerFired failed now s =
     (let s = s\<lparr>rs_waiting := False\<rparr>
      in if failed \<or> \<not> rs_running s then Inr s
         else bind_res (checkRetries now s) (\<lambda>s'. Inr (scheduleRetryTimer s')))"

definition getPendingDelivery :: "string \<Rightarrow> 'x RetryService \<Rightarrow> PendingDelivery option" where
  "getPendingDelivery messageId s = map_of (rs_pendingDeliveries s) messageId"

definition getPendingCount :: "'x RetryService \<Rightarrow> nat" where
  "getPendingCount s = length (rs_pendingDeliveries s)"

definition onDeliveryFailed :: "(string \<Rightarrow> string list \<Rightarrow> 'x \<Rightarrow> 'x) \<Rightarrow> 'x RetryService \<Rightarrow> 'x RetryService" where
  "onDeliveryFailed handler s = s\<lparr>rs_failureHandlers := rs_failureHandlers s @ [handler]\<rparr>"

section \<open>The loop of the check, delivery by delivery\<close>

text \<open>What the check makes of a due delivery that has retries left.\<close>

definition retried :: "RetryConfig \<Rightarrow> int \<Rightarrow> PendingDelivery \<Rightarrow> PendingDelivery" where
  "retried config now pd =
     (if now < pd_nextRetryAt pd then pd
      else pd\<lparr>pd_retryCount := pd_retryCount pd + 1,
              pd_recipientStatuses := map (apsnd retry_status) (pd_recipientStatuses pd),
              pd_nextRetryAt := now + min (rc_maxBackoffMs config)
                (rc_initialTimeoutMs config * rc_backoffMultiplier config ^ nat (pd_retryCount pd))\<rparr>)"

definition exhausted :: "RetryConfig \<Rightarrow> int \<Rightarrow> PendingDelivery \<Rightarrow> bool" where
  "exhausted config now pd \<longleftrightarrow> pd_nextRetryAt pd \<le> now \<and> rc_maxRetries config \<le> pd_retryCount pd"

text \<open>A configuration whose delays and counts stay in range.\<close>

definition config_ok :: "RetryConfig \<Rightarrow> bool" where
  "config_ok c \<longleftrightarrow> 0 \<le> rc_initialTimeoutMs c \<and> 0 \<le> rc_backoffMultiplier c \<and> 0 \<le> rc_maxRetries c \<and>
     rc_maxRetries c < 2 ^ 31 - 1 \<and> 0 \<le> rc_maxBackoffMs c"

text \<open>
  The invariant: one entry per message and per recipient, a retry count within its limit,
  and a recipient still to hear from in every delivery that has any.
\<close>

definition delivery_ok :: "RetryConfig \<Rightarrow> PendingDelivery \<Rightarrow> bool" where
  "delivery_ok c pd \<longleftrightarrow> umap_wf (pd_recipientStatuses pd) \<and> 0 \<le> pd_retryCount pd \<and>
     pd_retryCount pd \<le> rc_maxRetries c \<and>
     (pd_recipientStatuses pd \<noteq> [] \<longrightarrow> \<not> allDone (pd_recipientStatuses pd))"

definition retry_ok :: "'x RetryService \<Rightarrow> bool" where
  "retry_ok s \<longleftrightarrow> config_ok (rs_config s) \<and> umap_wf (rs_pendingDeliveries s) \<and>
     (\<forall>(m, pd) \<in> set (rs_pendingDeliveries s). delivery_ok (rs_config s) pd)"

lemma calculateBackoff_min:
  assumes "config_ok c" and "0 \<le> k"
  shows "calculateBackoff c (k + 1) =
    Inr (min (rc_maxBackoffMs c) (rc_initialTimeoutMs c * rc_backoffMultiplier c ^ nat k))"
proof -
  have "0 \<le> rc_initialTimeoutMs c * rc_backoffMultiplier c ^ nat k"
    using assms by (simp add: config_ok_def)
  then show ?thesis using assms(2) by (simp add: calculateBackoff_def Let_def min_def)
qed

text \<open>The entry of an exhausted delivery, and the calls its failure makes.\<close>

definition given_up :: "PendingDelivery \<Rightarrow> PendingDelivery" where
  "given_up pd = pd\<lparr>pd_retryCount := pd_retryCount pd + 1,
     pd_recipientStatuses := map (apsnd fail_status) (pd_recipientStatuses pd)\<rparr>"

definition report :: "(string \<Rightarrow> string list \<Rightarrow> 'x \<Rightarrow> 'x) list \<Rightarrow> string \<times> PendingDelivery \<Rightarrow> 'x \<Rightarrow> 'x" where
  "report hs mpd = fold (\<lambda>handler. handler (fst mpd) (failedRecipients (pd_recipientStatuses (snd mpd)))) hs"

lemma check_deliveries_result:
  assumes "config_ok c" and "\<forall>(m, pd) \<in> set pds. delivery_ok c pd"
  shows "check_deliveries c hs now pds x =
      Inr (map (\<lambda>(m, pd). (m, if exhausted c now pd then given_up pd else retried c now pd)) pds,
           map fst (filter (exhausted c now \<circ> snd) pds),
           fold (report hs) (filter (exhausted c now \<circ> snd) pds) x)"
  using assms(2)
proof (induction pds arbitrary: x)
  case (Cons mpd pds)
  obtain m pd where mpd: "mpd = (m, pd)" by (cases mpd)
  have ok: "delivery_ok c pd" "\<forall>(m, pd) \<in> set pds. delivery_ok c pd" using Cons.prems mpd by auto
  have small: "pd_retryCount pd \<noteq> 2 ^ 31 - 1" and "0 \<le> pd_retryCount pd"
    using assms(1) ok(1) by (auto simp: config_ok_def delivery_ok_def)
  note IH = Cons.IH [OF ok(2)] calculateBackoff_min [OF assms(1) \<open>0 \<le> pd_retryCount pd\<close>]
  consider "now < pd_nextRetryAt pd"
    | "pd_nextRetryAt pd \<le> now" "rc_maxRetries c < pd_retryCount pd + 1"
    | "pd_nextRetryAt pd \<le> now" "\<not> rc_maxRetries c < pd_retryCount pd + 1" by linarith
  then show ?case
    by cases (use small in \<open>simp_all add: mpd exhausted_def retried_def given_up_def report_def Let_def IH\<close>)
qed simp

text \<open>
  The whole check: exhausted deliveries leave and are reported, the others are retried when
  they are due and stay as they are when they are not.
\<close>

lemma fold_map_del: "fold map_del ks ps = filter (\<lambda>p. fst p \<notin> set ks) ps"
  by (induction ks arbitrary: ps) (auto simp: map_del_def intro: filter_cong)

lemma drop_exhausted:
  assumes "distinct (map fst pds)"
  shows "fold map_del (map fst (filter (P \<circ> snd) pds)) (map (\<lambda>(m, pd). (m, if P pd then f pd else g pd)) pds) =
    map (\<lambda>(m, pd). (m, g pd)) (filter (Not \<circ> P \<circ> snd) pds)"
proof -
  let ?ks = "map fst (filter (P \<circ> snd) pds)" and ?h = "\<lambda>(m, pd). (m, if P pd then f pd else g pd)"
  have "fold map_del ?ks (map ?h pds) = filter (\<lambda>p. fst p \<notin> set ?ks) (map ?h pds)"
    by (rule fold_map_del)
  also have "\<dots> = map ?h (filter (\<lambda>p. fst p \<notin> set ?ks) pds)"
    by (simp add: filter_map comp_def case_prod_beta)
  also have "filter (\<lambda>p. fst p \<notin> set ?ks) pds = filter (Not \<circ> P \<circ> snd) pds"
  proof (rule filter_cong)
    fix p assume p: "p \<in> set pds"
    have "fst p \<in> set ?ks \<longleftrightarrow> P (snd p)"
    proof
      assume "fst p \<in> set ?ks"
      then obtain q where q: "q \<in> set (filter (P \<circ> snd) pds)" "fst p = fst q" by (metis imageE set_map)
      then have "(fst p, snd q) \<in> set pds" by simp
      moreover have "(fst p, snd p) \<in> set pds" using p by simp
      ultimately have "snd p = snd q" using eq_key_imp_eq_value [OF assms] by metis
      then show "P (snd p)" using q(1) by simp
    next
      assume "P (snd p)"
      then have "p \<in> set (filter (P \<circ> snd) pds)" using p by simp
      then show "fst p \<in> set ?ks" unfolding set_map by (rule imageI)
    qed
    then show "(fst p \<notin> set ?ks) = (Not \<circ> P \<circ> snd) p" by simp
  qed simp
  also have "map ?h (filter (Not \<circ> P \<circ> snd) pds) = map (\<lambda>(m, pd). (m, g pd)) (filter (Not \<circ> P \<circ> snd) pds)"
    by (intro map_cong) auto
  finally show ?thesis .
qed

lemma check_effect:
  assumes "retry_ok s"
  shows "checkRetries now s = Inr (s\<lparr>
     rs_pendingDeliveries := map (\<lambda>(m, pd). (m, retried (rs_config s) now pd))
       (filter (Not \<circ> exhausted (rs_config s) now \<circ> snd) (rs_pendingDeliveries s)),
     rs_client := fold (report (rs_failureHandlers s))
       (filter (exhausted (rs_config s) now \<circ> snd) (rs_pendingDeliveries s)) (rs_client s)\<rparr>)"
  using assms
  by (simp add: checkRetries_def retry_ok_def umap_wf_def check_deliveries_result drop_exhausted)

section \<open>The invariant is kept\<close>

lemma umap_wf_map_values: "umap_wf (map (apsnd f) m) \<longleftrightarrow> umap_wf m"
  by (simp add: umap_wf_def comp_def)

lemma allDone_retry: "allDone (map (apsnd retry_status) sts) \<longleftrightarrow> allDone sts"
  by (auto simp: allDone_def list_all_iff retry_status_def case_prod_beta)

lemma retried_ok:
  assumes "config_ok c" and "delivery_ok c pd" and "\<not> exhausted c now pd"
  shows "delivery_ok c (retried c now pd)"
  using assms by (auto simp: delivery_ok_def retried_def exhausted_def umap_wf_map_values allDone_retry)

lemma check_ok:
  assumes "retry_ok s" and "checkRetries now s = Inr s'"
  shows "retry_ok s'"
proof -
  have s': "rs_config s' = rs_config s"
    "rs_pendingDeliveries s' = map (\<lambda>(m, pd). (m, retried (rs_config s) now pd))
       (filter (Not \<circ> exhausted (rs_config s) now \<circ> snd) (rs_pendingDeliveries s))"
    using assms(2) unfolding check_effect [OF assms(1)] by auto
  have "umap_wf (rs_pendingDeliveries s')"
    using assms(1) by (auto simp: s' retry_ok_def umap_wf_def comp_def case_prod_beta intro: distinct_map_filter)
  moreover have "\<forall>(m, pd) \<in> set (rs_pendingDeliveries s'). delivery_ok (rs_config s) pd"
    using assms(1) by (auto simp: s' retry_ok_def intro!: retried_ok)
  ultimately show ?thesis using assms(1) by (simp add: s' retry_ok_def)
qed

lemma fold_update_wf: "umap_wf m \<Longrightarrow> umap_wf (fold (\<lambda>r m. AList.update r v m) rs m)"
  by (induction rs arbitrary: m) (auto simp: std_umap.inv_put)

lemma set_update_subset: "set (AList.update k v m) \<subseteq> insert (k, v) (set m)"
  by (induction m) auto

lemma set_map_del: "set (map_del k m) \<subseteq> set m"
  by (auto simp: map_del_def)

lemma fold_update_values:
  "\<forall>p \<in> set m. snd p = v \<Longrightarrow> \<forall>p \<in> set (fold (\<lambda>r m. AList.update r v m) rs m). snd p = v"
proof (induction rs arbitrary: m)
  case (Cons r rs)
  have "\<forall>p \<in> set (AList.update r v m). snd p = v"
    using Cons.prems by (auto dest: subsetD [OF set_update_subset])
  then show ?case using Cons.IH by simp
qed simp

lemma track_ok:
  assumes "retry_ok s"
  shows "retry_ok (trackDelivery now messageId blockIds metadata s)"
proof -
  let ?sts = "fold (\<lambda>r m. AList.update r Announced m) (md_recipientIds metadata) []"
  have "umap_wf ?sts" by (intro fold_update_wf) simp
  moreover have "?sts \<noteq> [] \<longrightarrow> \<not> allDone ?sts"
  proof
    assume "?sts \<noteq> []"
    then obtain r st where "(r, st) \<in> set ?sts" by (cases ?sts) auto
    moreover from this have "st = Announced"
      using fold_update_values [of "[]" Announced "md_recipientIds metadata"] by auto
    ultimately show "\<not> allDone ?sts" by (force simp: allDone_def list_all_iff)
  qed
  ultimately show ?thesis using assms
    by (auto simp: trackDelivery_def Let_def retry_ok_def delivery_ok_def config_ok_def std_umap.inv_put
        dest!: subsetD [OF set_update_subset])
qed

lemma ack_ok:
  assumes "retry_ok s"
  shows "retry_ok (handleAck ack s)"
  using assms
  by (auto simp: handleAck_def Let_def retry_ok_def delivery_ok_def std_umap.inv_put umap_wf_del
      split: option.splits dest!: subsetD [OF set_update_subset] subsetD [OF set_map_del] map_of_SomeD)

end
