(* ===== verification/RetryProperties.thy ===== *)
theory RetryProperties
  imports RetryService
begin

text \<open>
  Runs of the retry service: the steps its clients and its timer take, the invariant and the
  status machine they keep, and how a delivery ends: by acknowledgment or by exhaustion.
\<close>

section \<open>Steps\<close>

inductive retry_step :: "'x RetryService \<Rightarrow> 'x RetryService \<Rightarrow> bool" where
  track: "retry_step s (trackDelivery now messageId blockIds metadata s)"
| acked: "retry_step s (handleAck ack s)"
| check: "checkRetries now s = Inr s' \<Longrightarrow> retry_step s s'"
| handler: "retry_step s (onDeliveryFailed h s)"
| started: "retry_step s (start s)"
| stopped: "retry_step s (stop s)"
| timer: "rs_waiting s \<Longrightarrow> retryTimerFired failed now s = Inr s' \<Longrightarrow> retry_step s s'"

inductive_cases retry_stepE: "retry_step s s'"

text \<open>Only the deliveries and the configuration matter to the invariant.\<close>

lemma retry_ok_cong:
  "rs_config s' = rs_config s \<Longrightarrow> rs_pendingDeliveries s' = rs_pendingDeliveries s \<Longrightarrow> retry_ok s' \<longleftrightarrow> retry_ok s"
  by (simp add: retry_ok_def)

lemma schedule_same [simp]:
  "rs_config (scheduleRetryTimer s) = rs_config s"
  "rs_pendingDeliveries (scheduleRetryTimer s) = rs_pendingDeliveries s"
  by (simp_all add: scheduleRetryTimer_def)

lemma start_stop_same:
  "rs_config (start s) = rs_config s" "rs_pendingDeliveries (start s) = rs_pendingDeliveries s"
  "rs_config (stop s) = rs_config s" "rs_pendingDeliveries (stop s) = rs_pendingDeliveries s"
  "rs_config (onDeliveryFailed h s) = rs_config s"
  "rs_pendingDeliveries (onDeliveryFailed h s) = rs_pendingDeliveries s"
  by (simp_all add: start_def stop_def onDeliveryFailed_def)

text \<open>A timer that fires leaves the deliveries alone or checks them.\<close>

lemma timer_pending:
  assumes "retryTimerFired failed now s = Inr s'"
  obtains "rs_config s' = rs_config s" "rs_pendingDeliveries s' = rs_pendingDeliveries s"
    | s1 where "checkRetries now (s\<lparr>rs_waiting := False\<rparr>) = Inr s1" "s' = scheduleRetryTimer s1"
proof (cases "failed \<or> \<not> rs_running s")
  case True
  then have "s' = s\<lparr>rs_waiting := False\<rparr>" using assms by (auto simp: retryTimerFired_def)
  then show thesis by (intro that(1)) simp_all
next
  case False
  then have "bind_res (checkRetries now (s\<lparr>rs_waiting := False\<rparr>)) (\<lambda>s'. Inr (scheduleRetryTimer s')) = Inr s'"
    using assms by (simp add: retryTimerFired_def)
  then show thesis unfolding bind_res_Inr_iff by (auto intro: that(2))
qed

lemma step_ok:
  assumes "retry_step s s'" and "retry_ok s"
  shows "retry_ok s'"
  using assms
proof (cases rule: retry_step.cases)
  case (timer failed now)
  from timer(2) show ?thesis
  proof (cases rule: timer_pending)
    case 1
    then show ?thesis using assms(2) retry_ok_cong [of s' s] by simp
  next
    case (2 s1)
    have "retry_ok (s\<lparr>rs_waiting := False\<rparr>)" using assms(2) by (simp add: retry_ok_def)
    then have "retry_ok s1" using 2(1) by (rule check_ok)
    then show ?thesis using 2(2) by (simp add: retry_ok_def)
  qed
next
  case (check now)
  then show ?thesis by (rule check_ok [OF assms(2)])
qed (use assms(2) in \<open>simp_all add: track_ok ack_ok start_stop_same retry_ok_cong [of "start s" s]
    retry_ok_cong [of "stop s" s] retry_ok_cong [of "onDeliveryFailed h s" s for h]\<close>)

definition sample_delivery :: MessageDeliveryMetadata where
  "sample_delivery = \<lparr>md_messageId = ''m'', md_recipientIds = [''a'', ''b''], md_priority = ''high'',
     md_blockIds = [''k''], md_cblBlockId = ''k'', md_ackRequired = True, md_gatewayOutbound = False\<rparr>"

definition sample_service :: "string list RetryService" where
  "sample_service = trackDelivery 0 ''m'' [''k''] sample_delivery
     (onDeliveryFailed (\<lambda>m rs x. x @ rs) (mkRetryService defaultRetryConfig []))"

lemma default_config_ok: "config_ok defaultRetryConfig"
  by (simp add: config_ok_def defaultRetryConfig_def)

lemma sample_service_ok: "retry_ok sample_service"
  unfolding sample_service_def
  by (intro track_ok) (simp add: retry_ok_def onDeliveryFailed_def mkRetryService_def default_config_ok)

definition sample_retried :: "string list RetryService" where
  "sample_retried = (case checkRetries 31000 sample_service of Inr s \<Rightarrow> s | Inl _ \<Rightarrow> sample_service)"

lemma sample_retried: "checkRetries 31000 sample_service = Inr sample_retried"
  by (simp add: sample_retried_def check_effect [OF sample_service_ok])

lemma sample_runs:
  "retry_step\<^sup>*\<^sup>* (mkRetryService defaultRetryConfig []) sample_service"
  "retry_step sample_service sample_retried"
  "retry_step\<^sup>*\<^sup>* (mkRetryService defaultRetryConfig []) sample_retried"
proof -
  let ?s = "onDeliveryFailed (\<lambda>m rs x. x @ rs) (mkRetryService defaultRetryConfig [])"
  have "retry_step (mkRetryService defaultRetryConfig []) ?s" "retry_step ?s sample_service"
    unfolding sample_service_def by (rule retry_step.handler, rule retry_step.track)
  then show r: "retry_step\<^sup>*\<^sup>* (mkRetryService defaultRetryConfig []) sample_service"
    by (meson rtranclp.rtrancl_into_rtrancl rtranclp.rtrancl_refl)
  show "retry_step sample_service sample_retried" using sample_retried by (rule retry_step.check)
  with r show "retry_step\<^sup>*\<^sup>* (mkRetryService defaultRetryConfig []) sample_retried" by (rule rtranclp.rtrancl_into_rtrancl)
qed

text \<open>
  C16: whatever sequence of tracked deliveries, acknowledgments, retry checks, timer firings
  and lifecycle calls a service goes through, no delivery is retried more often than the
  configuration allows, no delivery of which every recipient has confirmed is kept, and every
  further check returns.
\<close>

theorem retry_invariant:
  assumes "retry_step\<^sup>*\<^sup>* (mkRetryService config x) s" and "config_ok config"
  shows "retry_ok s \<and> (\<exists>s'. checkRetries now s = Inr s')"
proof -
  have "retry_ok (mkRetryService config x)"
    using assms(2) by (simp add: retry_ok_def mkRetryService_def)
  with assms(1) have "retry_ok s"
    by (induction rule: rtranclp_induct) (auto intro: step_ok)
  then show ?thesis by (simp add: check_effect)
qed

theorem retry_invariant_witness:
  "retry_ok sample_retried \<and> (\<exists>s'. checkRetries 61000 sample_retried = Inr s')"
  by (rule retry_invariant [OF sample_runs(3) default_config_ok])

section \<open>The status machine\<close>

text \<open>The status of a recipient of a delivery the service tracks.\<close>

definition status_of :: "string \<Rightarrow> string \<Rightarrow> 'x RetryService \<Rightarrow> DeliveryStatus option" where
  "status_of m r s = (case getPendingDelivery m s of None \<Rightarrow> None
     | Some pd \<Rightarrow> map_of (pd_recipientStatuses pd) r)"

lemma status_cong: "rs_pendingDeliveries s' = rs_pendingDeliveries s \<Longrightarrow> status_of m r s' = status_of m r s"
  by (simp add: status_of_def getPendingDelivery_def)

lemma map_of_map_snd: "map_of (map (\<lambda>(k, v). (k, f v)) m) k = map_option f (map_of m k)"
  by (induction m) auto

lemma map_of_filter_snd:
  "distinct (map fst m) \<Longrightarrow> map_of (filter (\<lambda>p. P (snd p)) m) k =
     (case map_of m k of Some v \<Rightarrow> if P v then Some v else None | None \<Rightarrow> None)"
  by (induction m) (auto simp: map_of_eq_None_iff split: option.splits intro: rev_image_eqI)

lemma check_status:
  assumes "retry_ok s" and "checkRetries now s = Inr s'"
    and "status_of m r s = Some st" and "status_of m r s' = Some st'"
  shows "st' = st \<or> validateTransition st st'"
proof -
  let ?c = "rs_config s"
  have d: "distinct (map fst (rs_pendingDeliveries s))"
    using assms(1) by (simp add: retry_ok_def umap_wf_def)
  have s': "map_of (rs_pendingDeliveries s') m = map_option (retried ?c now)
     (case map_of (rs_pendingDeliveries s) m of Some v \<Rightarrow> if \<not> exhausted ?c now v then Some v else None | None \<Rightarrow> None)"
    using assms(2) unfolding check_effect [OF assms(1)]
    by (auto simp: map_of_map_snd comp_def
      map_of_filter_snd [OF d, of "\<lambda>v. \<not> exhausted ?c now v"])
  obtain pd where "map_of (rs_pendingDeliveries s) m = Some pd" "map_of (pd_recipientStatuses pd) r = Some st"
    using assms(3) by (auto simp: status_of_def getPendingDelivery_def split: option.splits)
  then show ?thesis using assms(4) s'
    by (auto simp: status_of_def getPendingDelivery_def retried_def apsnd_def map_prod_def map_of_map_snd
        retry_status_def validateTransition_def split: if_splits)
qed

lemma track_status:
  assumes "status_of m r s = Some st" 
  shows "status_of m r (trackDelivery now m' blockIds metadata s) = Some st"
  using assms by (auto simp: status_of_def getPendingDelivery_def trackDelivery_def Let_def update_conv'
      split: option.splits)

lemma ack_status:
  assumes "retry_ok s" and "status_of m r s = Some st" and "status_of m r (handleAck ack s) = Some st'"
  shows "st' = st \<or> validateTransition st st'"
  using assms
  by (auto simp: status_of_def getPendingDelivery_def handleAck_def Let_def update_conv' map_of_map_del
      split: option.splits if_splits)

text \<open>
  In every reachable state the status of a recipient of a tracked delivery moves only
  along the documented machine: announced to pending, pending to delivered, failed or
  bounced, delivered to read.
\<close>

theorem statuses_follow_machine:
  assumes "retry_step\<^sup>*\<^sup>* (mkRetryService config x) s" and "config_ok config" and "retry_step s s'"
    and "status_of m r s = Some st" and "status_of m r s' = Some st'"
  shows "st' = st \<or> (st, st') \<in> {(Announced, Pending), (Pending, Delivered), (Pending, Failed),
    (Pending, Bounced), (Delivered, Read)}"
proof -
  have "retry_ok (mkRetryService config x)"
    using assms(2) by (simp add: retry_ok_def mkRetryService_def)
  with assms(1) have ok: "retry_ok s"
    by (induction rule: rtranclp_induct) (auto intro: step_ok)
  have "st' = st \<or> validateTransition st st'"
    using assms(3)
  proof (cases rule: retry_step.cases)
    case (track now messageId blockIds metadata)
    then show ?thesis using assms(5) track_status [OF assms(4)] by simp
  next
    case (acked ack)
    then show ?thesis using ack_status [OF ok assms(4)] assms(5) by simp
  next
    case (check now)
    then show ?thesis by (rule check_status [OF ok _ assms(4,5)])
  next
    case (timer failed now)
    from timer(2) show ?thesis
    proof (cases rule: timer_pending)
      case 1
      then show ?thesis using assms(4,5) status_cong [of s' s m r] by simp
    next
      case (2 s1)
      then show ?thesis using check_status [of "s\<lparr>rs_waiting := False\<rparr>" now s1 m r st st'] ok assms(4,5)
        by (simp add: retry_ok_def status_of_def getPendingDelivery_def)
    qed
  next
    case (handler h)
    then show ?thesis using assms(4,5) status_cong [of s' s m r] by (simp add: start_stop_same)
  next
    case started
    then show ?thesis using assms(4,5) status_cong [of s' s m r] by (simp add: start_stop_same)
  next
    case stopped
    then show ?thesis using assms(4,5) status_cong [of s' s m r] by (simp add: start_stop_same)
  qed
  then show ?thesis by (cases st) (auto simp: validateTransition_def)
qed

lemma sample_statuses:
  "status_of ''m'' ''a'' sample_service = Some Announced" "status_of ''m'' ''a'' sample_retried = Some Pending"
  by code_simp+

theorem statuses_follow_machine_witness:
  "Pending = Announced \<or> (Announced, Pending) \<in> {(Announced, Pending), (Pending, Delivered), (Pending, Failed),
    (Pending, Bounced), (Delivered, Read)}"
  by (rule statuses_follow_machine [OF sample_runs(1) default_config_ok sample_runs(2) sample_statuses])

section \<open>How deliveries end\<close>

definition delivered_by :: "string \<Rightarrow> string \<Rightarrow> DeliveryAckMetadata" where
  "delivered_by m r = \<lparr>da_messageId = m, da_recipientId = r, da_status = ''delivered'', da_originalSenderNode = []\<rparr>"

text \<open>One more recipient confirms: it is marked, and the delivery leaves when it was the last.\<close>

lemma delivered_ack:
  assumes "map_of (rs_pendingDeliveries s) m = Some pd" and "map_of (pd_recipientStatuses pd) r = Some Pending"
  shows "handleAck (delivered_by m r) s =
    (let sts = AList.update r Delivered (pd_recipientStatuses pd)
     in if allDone sts then s\<lparr>rs_pendingDeliveries := map_del m (rs_pendingDeliveries s)\<rparr>
        else s\<lparr>rs_pendingDeliveries := AList.update m (pd\<lparr>pd_recipientStatuses := sts\<rparr>) (rs_pendingDeliveries s)\<rparr>)"
  using assms
  by (simp add: handleAck_def delivered_by_def status_of_ack_def validateTransition_def Let_def)

lemma allDone_iff: "umap_wf sts \<Longrightarrow> allDone sts \<longleftrightarrow> (\<forall>r st. map_of sts r = Some st \<longrightarrow> st = Delivered \<or> st = Read)"
  unfolding allDone_def list_all_iff umap_wf_def by (auto dest: map_of_SomeD)

lemma acks_complete:
  assumes "map_of (rs_pendingDeliveries s) m = Some pd" and "umap_wf (pd_recipientStatuses pd)"
    and "\<forall>r st. map_of (pd_recipientStatuses pd) r = Some st \<longrightarrow>
           (if r \<in> set rs then st = Pending else st = Delivered \<or> st = Read)"
    and "set rs \<subseteq> dom (map_of (pd_recipientStatuses pd))" and "distinct rs" and "rs \<noteq> []"
  shows "map_of (rs_pendingDeliveries (fold (\<lambda>r. handleAck (delivered_by m r)) rs s)) m = None"
  using assms
proof (induction rs arbitrary: s pd)
  case (Cons r rs)
  let ?sts = "AList.update r Delivered (pd_recipientStatuses pd)"
  let ?pd = "pd\<lparr>pd_recipientStatuses := ?sts\<rparr>"
  have r: "map_of (pd_recipientStatuses pd) r = Some Pending" using Cons.prems(3,4) by auto
  have wf: "umap_wf ?sts" using Cons.prems(2) by (rule std_umap.inv_put)
  have sts: "map_of ?sts = (map_of (pd_recipientStatuses pd))(r \<mapsto> Delivered)" by (rule update_conv')
  note ack = delivered_ack [OF Cons.prems(1) r, unfolded Let_def]
  show ?case
  proof (cases "rs = []")
    case True
    then have "allDone ?sts" unfolding allDone_iff [OF wf] sts using Cons.prems(3) by auto
    then show ?thesis by (simp add: ack True map_of_map_del)
  next
    case False
    then obtain r' where r': "r' \<in> set rs" "r' \<noteq> r" using Cons.prems(5) by (cases rs) auto
    then have "map_of ?sts r' = Some Pending" unfolding sts using Cons.prems(3,4) by auto
    then have "\<not> allDone ?sts" unfolding allDone_iff [OF wf] by fastforce
    then have "handleAck (delivered_by m r) s = s\<lparr>rs_pendingDeliveries := AList.update m ?pd (rs_pendingDeliveries s)\<rparr>"
      by (simp add: ack)
    moreover have "map_of (rs_pendingDeliveries (fold (\<lambda>r. handleAck (delivered_by m r)) rs
        (s\<lparr>rs_pendingDeliveries := AList.update m ?pd (rs_pendingDeliveries s)\<rparr>))) m = None"
      using Cons.prems wf False by (intro Cons.IH [of _ ?pd]) (auto simp: update_conv' sts)
    ultimately show ?thesis by simp
  qed
qed simp

text \<open>
  C17: once a tracked delivery awaits every one of its recipients, their confirmations, in
  whatever order they come, complete it: after the last of them it is no longer tracked.
\<close>

theorem confirmations_complete_delivery:
  assumes "retry_step\<^sup>*\<^sup>* (mkRetryService config x) s" and "config_ok config"
    and "getPendingDelivery m s = Some pd" and "pd_recipientStatuses pd \<noteq> []"
    and "\<forall>(r, st) \<in> set (pd_recipientStatuses pd). st = Pending"
    and "mset rs = mset (map fst (pd_recipientStatuses pd))"
  shows "getPendingDelivery m (fold (\<lambda>r. handleAck (delivered_by m r)) rs s) = None"
proof -
  have "retry_ok (mkRetryService config x)"
    using assms(2) by (simp add: retry_ok_def mkRetryService_def)
  with assms(1) have "retry_ok s"
    by (induction rule: rtranclp_induct) (auto intro: step_ok)
  then have "delivery_ok (rs_config s) pd"
    using map_of_SomeD [OF assms(3) [unfolded getPendingDelivery_def]] by (auto simp: retry_ok_def)
  then have wf: "umap_wf (pd_recipientStatuses pd)" by (simp add: delivery_ok_def)
  have rs: "set rs = fst ` set (pd_recipientStatuses pd)" by (metis assms(6) set_mset_mset set_map)
  have d: "distinct rs" using mset_eq_imp_distinct_iff [OF assms(6)] wf by (simp add: umap_wf_def)
  have "rs \<noteq> []" using assms(4,6) by auto
  then show ?thesis unfolding getPendingDelivery_def
    using assms(5) by (intro acks_complete [OF assms(3) [unfolded getPendingDelivery_def] wf _ _ d])
      (auto simp: rs dom_map_of_conv_image_fst dest!: map_of_SomeD intro: rev_image_eqI)
qed

theorem confirmations_complete_delivery_witness:
  "getPendingDelivery ''m'' (fold (\<lambda>r. handleAck (delivered_by ''m'' r)) [''b'', ''a''] sample_retried) = None"
proof -
  define pd where "pd = the (getPendingDelivery ''m'' sample_retried)"
  have "getPendingDelivery ''m'' sample_retried \<noteq> None"
    "pd_recipientStatuses (the (getPendingDelivery ''m'' sample_retried)) = [(''a'', Pending), (''b'', Pending)]"
    by code_simp+
  then have pd: "getPendingDelivery ''m'' sample_retried = Some pd"
      "pd_recipientStatuses pd = [(''a'', Pending), (''b'', Pending)]"
    by (auto simp: pd_def)
  show ?thesis
    by (rule confirmations_complete_delivery [OF sample_runs(3) default_config_ok pd(1)]) (simp_all add: pd(2))
qed

lemma retried_due:
  assumes "config_ok c" and "pd_nextRetryAt pd \<le> t" and "t + rc_maxBackoffMs c \<le> t'"
  shows "pd_nextRetryAt (retried c t pd) \<le> t'" "pd_retryCount (retried c t pd) = pd_retryCount pd + 1"
  using assms by (auto simp: retried_def min_def)

text \<open>
  C15: no delivery is retried for ever. A run of checks, one more than the configured
  retries and each at least the largest backoff after the one before it, returns and leaves
  no delivery that was due when it began.
\<close>

theorem retries_end:
  assumes "retry_ok s" and "\<forall>(m, pd) \<in> set (rs_pendingDeliveries s). pd_nextRetryAt pd \<le> hd ts"
    and "sorted_wrt (\<lambda>t t'. t + rc_maxBackoffMs (rs_config s) \<le> t') ts"
    and "rc_maxRetries (rs_config s) < int (length ts)"
  shows "\<exists>s'. fold_res checkRetries ts s = Inr s' \<and> rs_pendingDeliveries s' = []"
proof -
  have "\<exists>s'. fold_res checkRetries ts s = Inr s' \<and> rs_pendingDeliveries s' = []"
    if "\<forall>(m, pd) \<in> set (rs_pendingDeliveries s). rc_maxRetries (rs_config s) - pd_retryCount pd < int (length ts)"
    and "ts \<noteq> [] \<longrightarrow> (\<forall>(m, pd) \<in> set (rs_pendingDeliveries s). pd_nextRetryAt pd \<le> hd ts)"
    using assms(1) that(2) assms(3) that(1)
  proof (induction ts arbitrary: s)
    case Nil
    have "rs_pendingDeliveries s = []"
      using Nil.prems(1,4) by (cases "rs_pendingDeliveries s") (auto simp: retry_ok_def delivery_ok_def)
    then show ?case by simp
  next
    case (Cons t ts)
    obtain s1 where s1: "checkRetries t s = Inr s1" "rs_config s1 = rs_config s"
      "rs_pendingDeliveries s1 = map (\<lambda>(m, pd). (m, retried (rs_config s) t pd))
       (filter (Not \<circ> exhausted (rs_config s) t \<circ> snd) (rs_pendingDeliveries s))"
      by (simp add: check_effect [OF Cons.prems(1)])
    have c: "config_ok (rs_config s)" using Cons.prems(1) by (simp add: retry_ok_def)
    have "\<exists>s'. fold_res checkRetries ts s1 = Inr s' \<and> rs_pendingDeliveries s' = []"
    proof (rule Cons.IH)
      show "retry_ok s1" using check_ok [OF Cons.prems(1) s1(1)] .
      show "sorted_wrt (\<lambda>t t'. t + rc_maxBackoffMs (rs_config s1) \<le> t') ts" using Cons.prems(3) s1(2) by simp
      show "\<forall>(m, pd) \<in> set (rs_pendingDeliveries s1). rc_maxRetries (rs_config s1) - pd_retryCount pd < int (length ts)"
        using Cons.prems(2,4) by (fastforce simp: s1 retried_due(2) [OF c _ order_refl])
      show "ts \<noteq> [] \<longrightarrow> (\<forall>(m, pd) \<in> set (rs_pendingDeliveries s1). pd_nextRetryAt pd \<le> hd ts)"
        using Cons.prems(2,3) by (cases ts) (auto simp: s1 exhausted_def retried_def min_def)
    qed
    then show ?case by (simp add: s1(1))
  qed
  moreover have "\<forall>(m, pd) \<in> set (rs_pendingDeliveries s). rc_maxRetries (rs_config s) - pd_retryCount pd < int (length ts)"
    using assms(1,4) by (fastforce simp: retry_ok_def delivery_ok_def)
  ultimately show ?thesis using assms(2) by blast
qed

definition check_times :: "int list" where
  "check_times = [30000, 270000, 510000, 750000, 990000, 1230000]"

theorem retries_end_witness:
  "\<exists>s'. fold_res checkRetries check_times sample_service = Inr s' \<and> rs_pendingDeliveries s' = []"
proof (rule retries_end [OF sample_service_ok])
  have "list_all (\<lambda>(m, pd). pd_nextRetryAt pd \<le> hd check_times) (rs_pendingDeliveries sample_service)" by code_simp
  then show "\<forall>(m, pd) \<in> set (rs_pendingDeliveries sample_service). pd_nextRetryAt pd \<le> hd check_times"
    by (simp add: list_all_iff)
  have c: "rc_maxBackoffMs (rs_config sample_service) = 240000" "rc_maxRetries (rs_config sample_service) = 5"
    by code_simp+
  show "sorted_wrt (\<lambda>t t'. t + rc_maxBackoffMs (rs_config sample_service) \<le> t') check_times"
    by (simp add: c check_times_def)
  show "rc_maxRetries (rs_config sample_service) < int (length check_times)"
    by (simp add: c check_times_def)
qed

text \<open>
  An acknowledgment that comes before the first retry check is lost: it is valid only
  from \<open>Pending\<close>, which only the check sets. Whatever the recipients of a message just tracked
  answer before that, the service is as it was.
\<close>

theorem early_acks_are_lost:
  assumes "map_of (rs_pendingDeliveries s) messageId = None"
    and "\<forall>ack \<in> set acks. da_messageId ack = messageId"
  shows "fold handleAck acks (trackDelivery now messageId blockIds metadata s) =
     trackDelivery now messageId blockIds metadata s"
  using assms(2)
proof (induction acks)
  case (Cons ack acks)
  let ?s = "trackDelivery now messageId blockIds metadata s"
  let ?sts = "fold (\<lambda>r m. AList.update r Announced m) (md_recipientIds metadata) []"
  have announced: "st = Announced" if "map_of ?sts r = Some st" for r st
    using map_of_SomeD [OF that] fold_update_values [of "[]" Announced "md_recipientIds metadata"] by auto
  obtain pd where "map_of (rs_pendingDeliveries ?s) messageId = Some pd" "pd_recipientStatuses pd = ?sts"
    using assms(1) by (auto simp: trackDelivery_def Let_def update_conv')
  moreover have "\<not> validateTransition Announced new" if "status_of_ack str = Some new" for str new
    using that by (auto simp: status_of_ack_def validateTransition_def split: if_splits)
  ultimately have "handleAck ack ?s = ?s"
    using announced [of "da_recipientId ack"] Cons.prems
    by (cases "map_of ?sts (da_recipientId ack)") (auto simp: handleAck_def split: option.splits)
  then show ?case using Cons by simp
qed simp

theorem early_acks_are_lost_witness:
  "fold handleAck [delivered_by ''m'' ''a'', delivered_by ''m'' ''b''] sample_service = sample_service"
proof -
  let ?s = "onDeliveryFailed (\<lambda>m rs x. x @ rs) (mkRetryService defaultRetryConfig [])"
  have "map_of (rs_pendingDeliveries ?s) ''m'' = None"
    by (simp add: onDeliveryFailed_def mkRetryService_def)
  then show ?thesis unfolding sample_service_def
    by (rule early_acks_are_lost) (simp add: delivered_by_def)
qed

end
