(* ===== verification/PeerManager.thy ===== *)
theory PeerManager
  imports Complex_Main Announcements HexText
begin

text \<open>
  \<open>gossip/peer_manager.{hpp,cpp}\<close>: the sessions of a node, its heartbeat, the reconnection of
  peers that went silent and the cache of announced pools. The network is a parameter: \<open>net\<close>
  says which addresses resolve, connect and complete the WebSocket handshake. A session's
  socket is whether it has one; \<open>pm_wire\<close> is what was written to sockets, \<open>pm_sentMessages\<close>
  what \<open>sendToPeer\<close> was asked to send. Times are milliseconds of the steady clock.
\<close>

section \<open>State\<close>

record PeerInfo =
  pi_nodeId :: string
  pi_address :: string
  pi_httpPort :: "16 word"
  pi_wsPort :: "16 word"
  pi_lastSeen :: string
  pi_capabilities :: "string list"
  pi_connected :: bool
  pi_latencyMs :: rat
  pi_publicKey :: bytes

record PoolCacheEntry =
  pc_metadata :: PoolAnnouncementMetadata
  pc_hostNodeId :: string

record PeerSession =
  ps_info :: PeerInfo
  ps_ws :: bool
  ps_lastPongReceived :: int
  ps_reconnectAttempts :: int

text \<open>\<open>pm_waiting\<close>: the heartbeat timer is running. \<open>pm_reconnects\<close>: the reconnection timers that are running: peer, attempt and delay in seconds.\<close>

record PeerManager =
  pm_sessions :: "(string \<times> PeerSession) list"
  pm_poolCache :: "(string \<times> PoolCacheEntry) list"
  pm_bootstrapAddresses :: "string list"
  pm_sentMessages :: "(string \<times> string) list"
  pm_wire :: "(string \<times> string) list"
  pm_heartbeatTimer :: bool
  pm_waiting :: bool
  pm_heartbeatTimeoutMs :: int
  pm_heartbeatIntervalMs :: int
  pm_running :: bool
  pm_reconnects :: "(string \<times> int \<times> int) list"

definition mkPeerManager :: PeerManager where
  "mkPeerManager = \<lparr>pm_sessions = [], pm_poolCache = [], pm_bootstrapAddresses = [], pm_sentMessages = [],
     pm_wire = [], pm_heartbeatTimer = False, pm_waiting = False,
     pm_heartbeatTimeoutMs = 30000, pm_heartbeatIntervalMs = 10000,
     pm_running = False, pm_reconnects = []\<rparr>"

type_synonym network = "string \<Rightarrow> 16 word \<Rightarrow> bool"

section \<open>Discovery and connections\<close>

text \<open>\<open>std::stoi\<close> in base 10; \<open>None\<close> is either exception it throws.\<close>

definition is_digit :: "char \<Rightarrow> bool" where
  "is_digit c = (let n = of_char c :: nat in 48 \<le> n \<and> n \<le> 57)"

definition stoi10 :: "string \<Rightarrow> int option" where
  "stoi10 str =
     (let t = dropWhile is_space str;
          u = (if t \<noteq> [] \<and> (hd t = CHR ''-'' \<or> hd t = CHR ''+'') then tl t else t);
          ds = takeWhile is_digit u;
          m = int (foldl (\<lambda>v c. 10 * v + (of_char c - 48)) 0 ds);
          n = (if t \<noteq> [] \<and> hd t = CHR ''-'' then - m else m)
      in if ds = [] \<or> n < - (2 ^ 31) \<or> 2 ^ 31 \<le> n then None else Some n)"

text \<open>The parts of \<open>host:port\<close>, at the last colon.\<close>

definition split_address :: "string \<Rightarrow> (string \<times> string) option" where
  "split_address addr =
     (let r = rev addr; p = takeWhile (\<lambda>c. c \<noteq> CHR '':'') r
      in if p = r then None else Some (rev (drop (Suc (length p)) r), rev p))"

definition temp_id :: "string \<Rightarrow> 16 word \<Rightarrow> string" where
  "temp_id address wsPort = address @ '':'' @ digits (unat wsPort)"

definition mkPeerInfo :: PeerInfo where
  "mkPeerInfo = \<lparr>pi_nodeId = [], pi_address = [], pi_httpPort = 0, pi_wsPort = 0, pi_lastSeen = [],
     pi_capabilities = [], pi_connected = False, pi_latencyMs = 0, pi_publicKey = []\<rparr>"

definition emplace :: "'k \<Rightarrow> 'v \<Rightarrow> ('k \<times> 'v) list \<Rightarrow> ('k \<times> 'v) list" where
  "emplace k v m = (if map_of m k = None then AList.update k v m else m)"

definition connectToPeer :: "network \<Rightarrow> int \<Rightarrow> string \<Rightarrow> 16 word \<Rightarrow> PeerManager \<Rightarrow> PeerManager" where
  "connectToPeer net now address wsPort s =
     (if \<not> net address wsPort then s
      else
        let tempId = temp_id address wsPort;
            session = \<lparr>ps_info = mkPeerInfo\<lparr>pi_address := address, pi_wsPort := wsPort, pi_connected := True,
                         pi_nodeId := tempId\<rparr>,
                       ps_ws = True, ps_lastPongReceived = now, ps_reconnectAttempts = 0\<rparr>
        in s\<lparr>pm_sessions := emplace tempId session (pm_sessions s)\<rparr>)"

definition addBootstrapNodes :: "string list \<Rightarrow> PeerManager \<Rightarrow> PeerManager" where
  "addBootstrapNodes addresses s = s\<lparr>pm_bootstrapAddresses := pm_bootstrapAddresses s @ addresses\<rparr>"

definition startDiscovery :: "network \<Rightarrow> int \<Rightarrow> PeerManager \<Rightarrow> PeerManager" where
  "startDiscovery net now s =
     fold (\<lambda>addr s. (case split_address addr of
         None \<Rightarrow> s
       | Some (host, port) \<Rightarrow>
           (case stoi10 port of None \<Rightarrow> s | Some p \<Rightarrow> connectToPeer net now host (word_of_int p) s)))
       (pm_bootstrapAddresses s) s"

definition disconnectPeer :: "string \<Rightarrow> PeerManager \<Rightarrow> PeerManager" where
  "disconnectPeer nodeId s = s\<lparr>pm_sessions := map_del nodeId (pm_sessions s)\<rparr>"

definition addPeer :: "int \<Rightarrow> PeerInfo \<Rightarrow> PeerManager \<Rightarrow> PeerManager" where
  "addPeer now peer s = s\<lparr>pm_sessions := AList.update (pi_nodeId peer)
     \<lparr>ps_info = peer, ps_ws = False, ps_lastPongReceived = now, ps_reconnectAttempts = 0\<rparr> (pm_sessions s)\<rparr>"

section \<open>Queries, messages and the pool cache\<close>

definition getConnectedPeers :: "PeerManager \<Rightarrow> PeerInfo list" where
  "getConnectedPeers s = map (ps_info \<circ> snd) (filter (\<lambda>(k, ss). pi_connected (ps_info ss)) (pm_sessions s))"

definition getConnectedPeerIds :: "PeerManager \<Rightarrow> string list" where
  "getConnectedPeerIds s = map fst (filter (\<lambda>(k, ss). pi_connected (ps_info ss)) (pm_sessions s))"

definition getPeer :: "string \<Rightarrow> PeerManager \<Rightarrow> PeerInfo option" where
  "getPeer nodeId s = map_option ps_info (map_of (pm_sessions s) nodeId)"

definition sendToPeer :: "string \<Rightarrow> string \<Rightarrow> PeerManager \<Rightarrow> PeerManager" where
  "sendToPeer nodeId msg s =
     (let s = s\<lparr>pm_sentMessages := pm_sentMessages s @ [(nodeId, msg)]\<rparr>
      in case map_of (pm_sessions s) nodeId of
           None \<Rightarrow> s
         | Some ss \<Rightarrow> if \<not> pi_connected (ps_info ss) \<or> \<not> ps_ws ss then s
                      else s\<lparr>pm_wire := pm_wire s @ [(nodeId, msg)]\<rparr>)"

definition broadcastToPeers :: "string list \<Rightarrow> string \<Rightarrow> PeerManager \<Rightarrow> PeerManager" where
  "broadcastToPeers peerIds msg = fold (\<lambda>peerId. sendToPeer peerId msg) peerIds"

definition updatePoolCache :: "string \<Rightarrow> PoolAnnouncementMetadata \<Rightarrow> string \<Rightarrow> PeerManager \<Rightarrow> PeerManager" where
  "updatePoolCache poolId meta hostNodeId s =
     s\<lparr>pm_poolCache := AList.update poolId \<lparr>pc_metadata = meta, pc_hostNodeId = hostNodeId\<rparr> (pm_poolCache s)\<rparr>"

definition removePoolFromCache :: "string \<Rightarrow> PeerManager \<Rightarrow> PeerManager" where
  "removePoolFromCache poolId s = s\<lparr>pm_poolCache := map_del poolId (pm_poolCache s)\<rparr>"

definition clearSentMessages :: "PeerManager \<Rightarrow> PeerManager" where
  "clearSentMessages s = s\<lparr>pm_sentMessages := []\<rparr>"

section \<open>Heartbeat and reconnection\<close>

text \<open>
  \<open>1 << attempt\<close> of an \<open>int\<close>: 32 bits, undefined for a shift by 32 or more.
\<close>

definition calculateReconnectDelay :: "int \<Rightarrow> int res" where
  "calculateReconnectDelay attempt =
     (if attempt < 0 then Inr 1
      else if 32 \<le> attempt then Inl UndefinedBehaviour
      else
        let delay = sint (push_bit (nat attempt) 1 :: 32 word)
        in if 60 < delay \<or> delay < 0 then Inr 60 else Inr (min delay 60))"

definition scheduleReconnect :: "string \<Rightarrow> int \<Rightarrow> PeerManager \<Rightarrow> PeerManager res" where
  "scheduleReconnect nodeId attempt s =
     (if \<not> pm_running s then Inr s
      else bind_res (calculateReconnectDelay attempt) (\<lambda>delaySec.
             Inr (s\<lparr>pm_reconnects := pm_reconnects s @ [(nodeId, attempt, delaySec)]\<rparr>)))"

definition reconnectWithBackoff :: "string \<Rightarrow> PeerManager \<Rightarrow> PeerManager res" where
  "reconnectWithBackoff nodeId s =
     scheduleReconnect nodeId
       (case map_of (pm_sessions s) nodeId of None \<Rightarrow> 0 | Some ss \<Rightarrow> ps_reconnectAttempts ss) s"

definition handlePongTimeout :: "string \<Rightarrow> PeerManager \<Rightarrow> PeerManager res" where
  "handlePongTimeout nodeId s =
     (case map_of (pm_sessions s) nodeId of
        None \<Rightarrow> Inr s
      | Some ss \<Rightarrow> reconnectWithBackoff nodeId (s\<lparr>pm_sessions := AList.update nodeId
          (ss\<lparr>ps_info := (ps_info ss)\<lparr>pi_connected := False\<rparr>, ps_ws := False\<rparr>) (pm_sessions s)\<rparr>))"

definition scheduleHeartbeat :: "PeerManager \<Rightarrow> PeerManager" where
  "scheduleHeartbeat s = (if \<not> pm_running s \<or> \<not> pm_heartbeatTimer s then s else s\<lparr>pm_waiting := True\<rparr>)"

text \<open>The sessions silent for longer than the timeout.\<close>

definition timedOut :: "int \<Rightarrow> PeerManager \<Rightarrow> string list" where
  "timedOut now s = map fst (filter (\<lambda>(k, ss). pi_connected (ps_info ss) \<and>
     pm_heartbeatTimeoutMs s < now - ps_lastPongReceived ss) (pm_sessions s))"

definition heartbeatFired :: "bool \<Rightarrow> int \<Rightarrow> PeerManager \<Rightarrow> PeerManager res" where
  "heartbeatFired failed now s =
     (let s = s\<lparr>pm_waiting := False\<rparr> in
      if failed \<or> \<not> pm_running s then Inr s
      else bind_res (fold_res handlePongTimeout (timedOut now s) s) (\<lambda>s'. Inr (scheduleHeartbeat s')))"

definition update_session :: "string \<Rightarrow> (PeerSession \<Rightarrow> PeerSession) \<Rightarrow> PeerManager \<Rightarrow> PeerManager" where
  "update_session nodeId f s =
     (case map_of (pm_sessions s) nodeId of None \<Rightarrow> s
      | Some ss \<Rightarrow> s\<lparr>pm_sessions := AList.update nodeId (f ss) (pm_sessions s)\<rparr>)"

text \<open>The handler of a reconnection timer.\<close>

definition reconnectFired :: "bool \<Rightarrow> network \<Rightarrow> int \<Rightarrow> string \<times> int \<times> int \<Rightarrow> PeerManager \<Rightarrow> PeerManager res" where
  "reconnectFired failed net now tm s =
     (let (nodeId, attempt, delaySec) = tm;
          s = s\<lparr>pm_reconnects := remove1 tm (pm_reconnects s)\<rparr>
      in if failed \<or> \<not> pm_running s then Inr s
         else
           case map_of (pm_sessions s) nodeId of
             None \<Rightarrow> Inr s
           | Some ss \<Rightarrow>
               let address = pi_address (ps_info ss); port = pi_wsPort (ps_info ss)
               in if address = [] \<or> port = 0 then Inr s
                  else
                    let s1 = connectToPeer net now address port s;
                        connected = (case map_of (pm_sessions s1) nodeId of None \<Rightarrow> False
                                     | Some ss1 \<Rightarrow> pi_connected (ps_info ss1))
                    in if \<not> connected
                       then scheduleReconnect nodeId (attempt + 1)
                              (update_session nodeId (\<lambda>ss1. ss1\<lparr>ps_reconnectAttempts := attempt + 1\<rparr>) s1)
                       else Inr (update_session nodeId (\<lambda>ss1. ss1\<lparr>ps_reconnectAttempts := 0\<rparr>) s1))"

section \<open>Lifecycle and authentication\<close>

definition start :: "PeerManager \<Rightarrow> PeerManager" where
  "start s = (if pm_running s then s else scheduleHeartbeat (s\<lparr>pm_running := True, pm_heartbeatTimer := True\<rparr>))"

definition stop :: "PeerManager \<Rightarrow> PeerManager" where
  "stop s = s\<lparr>pm_running := False, pm_heartbeatTimer := False, pm_waiting := False, pm_sessions := []\<rparr>"

text \<open>\<open>challenge\<close> is the random challenge, \<open>encrypt\<close> the ECIES of the peer's public key.\<close>

definition authenticateConnection :: "(bytes \<Rightarrow> bytes \<Rightarrow> bytes res) \<Rightarrow> bytes \<Rightarrow> bytes \<Rightarrow>
    (bytes \<Rightarrow> bytes res) \<Rightarrow> bool" where
  "authenticateConnection encrypt challenge peerPublicKey peerDecryptFn =
     (case encrypt challenge peerPublicKey of
        Inl _ \<Rightarrow> False
      | Inr encrypted \<Rightarrow>
          (case peerDecryptFn encrypted of Inl _ \<Rightarrow> False | Inr decrypted \<Rightarrow> decrypted = challenge))"

end
