(* ===== verification/PeerProperties.thy ===== *)
theory PeerProperties
  imports PeerManager
begin

text \<open>
  What the heartbeat and the reconnection timers do to sessions: the effect of one beat, the
  delays of the backoff, and what no run of the manager's own steps can undo.
\<close>

section \<open>Backoff\<close>

lemma below_32: "n < 32 \<Longrightarrow> n \<in> {0, 1, 2, 3, 4, 5, 6, 7, 8, 9, 10, 11, 12, 13, 14, 15, 16, 17, 18, 19,
    20, 21, 22, 23, 24, 25, 26, 27, 28, 29, 30, 31 :: nat}"
  by simp presburger

lemma reconnect_delays:
  "map (\<lambda>n. calculateReconnectDelay (int n)) [0..<32] = map (\<lambda>n. Inr (min (2 ^ n) 60)) [0..<32]"
  by code_simp

lemma reconnect_delay:
  assumes "0 \<le> a" and "a < 32"
  shows "calculateReconnectDelay a = Inr (min (2 ^ nat a) 60)"
proof -
  have n: "nat a < 32" using assms by simp
  have "map (\<lambda>n. calculateReconnectDelay (int n)) [0..<32] ! nat a = map (\<lambda>n. Inr (min (2 ^ n) 60)) [0..<32] ! nat a"
    by (simp only: reconnect_delays)
  then show ?thesis using n assms(1) by simp
qed

section \<open>One beat\<close>

definition mark_silent :: "PeerSession \<Rightarrow> PeerSession" where
  "mark_silent ss = ss\<lparr>ps_info := (ps_info ss)\<lparr>pi_connected := False\<rparr>, ps_ws := False\<rparr>"

definition attempts :: "string \<Rightarrow> PeerManager \<Rightarrow> int" where
  "attempts n s = (case map_of (pm_sessions s) n of None \<Rightarrow> 0 | Some ss \<Rightarrow> ps_reconnectAttempts ss)"

text \<open>The retry counts for which the backoff is defined.\<close>

definition attempts_ok :: "PeerManager \<Rightarrow> bool" where
  "attempts_ok s \<longleftrightarrow> (\<forall>(n, ss) \<in> set (pm_sessions s). 0 \<le> ps_reconnectAttempts ss \<and> ps_reconnectAttempts ss < 32)"

lemma pong_timeout:
  assumes "map_of (pm_sessions s) n = Some ss" and "pm_running s"
    and "0 \<le> ps_reconnectAttempts ss" and "ps_reconnectAttempts ss < 32"
  shows "handlePongTimeout n s = Inr (s\<lparr>pm_sessions := AList.update n (mark_silent ss) (pm_sessions s),
     pm_reconnects := pm_reconnects s @ [(n, ps_reconnectAttempts ss, min (2 ^ nat (ps_reconnectAttempts ss)) 60)]\<rparr>)"
  using assms by (simp add: handlePongTimeout_def mark_silent_def reconnectWithBackoff_def
      scheduleReconnect_def reconnect_delay update_conv')

lemma pong_timeouts:
  assumes "set ns \<subseteq> dom (map_of (pm_sessions s))" and "distinct ns" and "pm_running s"
    and "\<forall>n ss. map_of (pm_sessions s) n = Some ss \<longrightarrow> 0 \<le> ps_reconnectAttempts ss \<and> ps_reconnectAttempts ss < 32"
  shows "\<exists>s'. fold_res handlePongTimeout ns s = Inr s' \<and> map fst (pm_sessions s') = map fst (pm_sessions s) \<and>
     (\<forall>n. map_of (pm_sessions s') n =
        (if n \<in> set ns then map_option mark_silent (map_of (pm_sessions s) n) else map_of (pm_sessions s) n)) \<and>
     pm_reconnects s' = pm_reconnects s @ map (\<lambda>n. (n, attempts n s, min (2 ^ nat (attempts n s)) 60)) ns \<and>
     pm_running s' = pm_running s"
  using assms
proof (induction ns arbitrary: s)
  case (Cons n ns)
  obtain ss where ss: "map_of (pm_sessions s) n = Some ss" using Cons.prems(1) by auto
  let ?s = "s\<lparr>pm_sessions := AList.update n (mark_silent ss) (pm_sessions s),
     pm_reconnects := pm_reconnects s @ [(n, ps_reconnectAttempts ss, min (2 ^ nat (ps_reconnectAttempts ss)) 60)]\<rparr>"
  have step: "handlePongTimeout n s = Inr ?s" using Cons.prems(3,4) ss by (intro pong_timeout) auto
  have keys: "map fst (AList.update n (mark_silent ss) (pm_sessions s)) = map fst (pm_sessions s)"
    using map_of_SomeD [OF ss] by (simp add: update_keys dom_map_of_conv_image_fst rev_image_eqI)
  have att: "attempts k ?s = attempts k s" for k
    by (simp add: attempts_def update_conv' ss mark_silent_def)
  have "map (\<lambda>n. (n, attempts n ?s, min (2 ^ nat (attempts n ?s)) 60)) ns =
      map (\<lambda>n. (n, attempts n s, min (2 ^ nat (attempts n s)) 60)) ns" by (simp only: att)
  moreover have "\<exists>s'. fold_res handlePongTimeout ns ?s = Inr s' \<and>
     map fst (pm_sessions s') = map fst (pm_sessions ?s) \<and>
     (\<forall>k. map_of (pm_sessions s') k =
        (if k \<in> set ns then map_option mark_silent (map_of (pm_sessions ?s) k) else map_of (pm_sessions ?s) k)) \<and>
     pm_reconnects s' = pm_reconnects ?s @ map (\<lambda>n. (n, attempts n ?s, min (2 ^ nat (attempts n ?s)) 60)) ns \<and>
     pm_running s' = pm_running ?s"
    using Cons.prems ss by (intro Cons.IH) (auto simp: update_conv' mark_silent_def)
  ultimately show ?case
    using Cons.prems(2) ss step by (auto simp: keys update_conv' attempts_def)
qed simp

lemma beat_effect:
  assumes "umap_wf (pm_sessions s)" and "attempts_ok s" and "pm_running s"
  shows "\<exists>s'. heartbeatFired False now s = Inr s' \<and> map fst (pm_sessions s') = map fst (pm_sessions s) \<and>
     (\<forall>n. map_of (pm_sessions s') n =
        (if n \<in> set (timedOut now s) then map_option mark_silent (map_of (pm_sessions s) n)
         else map_of (pm_sessions s) n)) \<and>
     pm_reconnects s' = pm_reconnects s @ map (\<lambda>n. (n, attempts n s, min (2 ^ nat (attempts n s)) 60)) (timedOut now s)"
proof -
  let ?s = "s\<lparr>pm_waiting := False\<rparr>"
  have to: "timedOut now ?s = timedOut now s" "attempts n ?s = attempts n s" for n
    by (simp_all add: timedOut_def attempts_def)
  have "distinct (timedOut now s)"
    using assms(1) by (simp add: timedOut_def umap_wf_def distinct_map_filter)
  moreover have "set (timedOut now s) \<subseteq> dom (map_of (pm_sessions s))"
    by (auto simp: timedOut_def dom_map_of_conv_image_fst intro: rev_image_eqI)
  moreover have "\<forall>n ss. map_of (pm_sessions s) n = Some ss \<longrightarrow> 0 \<le> ps_reconnectAttempts ss \<and> ps_reconnectAttempts ss < 32"
    using assms(2) by (auto simp: attempts_ok_def dest!: map_of_SomeD)
  ultimately obtain s' where "fold_res handlePongTimeout (timedOut now s) ?s = Inr s'"
      "map fst (pm_sessions s') = map fst (pm_sessions s)"
      "\<forall>n. map_of (pm_sessions s') n =
        (if n \<in> set (timedOut now s) then map_option mark_silent (map_of (pm_sessions s) n) else map_of (pm_sessions s) n)"
      "pm_reconnects s' = pm_reconnects s @ map (\<lambda>n. (n, attempts n s, min (2 ^ nat (attempts n s)) 60)) (timedOut now s)"
    using pong_timeouts [of "timedOut now s" ?s] assms(3) by (auto simp: to)
  then show ?thesis using assms(3) by (auto simp: heartbeatFired_def Let_def to scheduleHeartbeat_def)
qed

lemma keys_filter:
  assumes "distinct (map fst m)"
  shows "map fst (filter (\<lambda>(k, v). P v) m) =
    filter (\<lambda>k. case map_of m k of None \<Rightarrow> False | Some v \<Rightarrow> P v) (map fst m)"
proof -
  have "filter (\<lambda>(k, v). P v) m = filter ((\<lambda>k. case map_of m k of None \<Rightarrow> False | Some v \<Rightarrow> P v) \<circ> fst) m"
    using assms by (intro filter_cong) (auto simp: map_of_is_SomeI)
  then show ?thesis by (simp add: filter_map)
qed

text \<open>
  A beat disconnects exactly the peers whose last pong is older than the timeout and
  leaves every other session connected; for each peer it disconnects it starts one
  reconnection timer, with a delay that doubles from one second to at most sixty.
\<close>

theorem heartbeat_disconnects_silent:
  assumes "umap_wf (pm_sessions s)" and "attempts_ok s" and "pm_running s"
  shows "\<exists>s'. heartbeatFired False now s = Inr s' \<and>
     getConnectedPeerIds s' = filter (\<lambda>n. n \<notin> set (timedOut now s)) (getConnectedPeerIds s) \<and>
     (\<forall>n \<in> set (getConnectedPeerIds s'). \<exists>ss. map_of (pm_sessions s') n = Some ss \<and>
        now - ps_lastPongReceived ss \<le> pm_heartbeatTimeoutMs s) \<and>
     pm_reconnects s' = pm_reconnects s @ map (\<lambda>n. (n, attempts n s, min (2 ^ nat (attempts n s)) 60)) (timedOut now s)"
proof -
  let ?up = "\<lambda>ss. pi_connected (ps_info ss)" and ?to = "timedOut now s"
  obtain s' where beat: "heartbeatFired False now s = Inr s'" "map fst (pm_sessions s') = map fst (pm_sessions s)"
     "\<And>n. map_of (pm_sessions s') n =
        (if n \<in> set ?to then map_option mark_silent (map_of (pm_sessions s) n) else map_of (pm_sessions s) n)"
     "pm_reconnects s' = pm_reconnects s @ map (\<lambda>n. (n, attempts n s, min (2 ^ nat (attempts n s)) 60)) ?to"
    using beat_effect [OF assms, of now] by blast
  have d: "distinct (map fst (pm_sessions s))" "distinct (map fst (pm_sessions s'))"
    using assms(1) beat(2) by (simp_all add: umap_wf_def)
  have up: "getConnectedPeerIds s' = filter (\<lambda>n. n \<notin> set ?to) (getConnectedPeerIds s)"
    unfolding getConnectedPeerIds_def keys_filter [OF d(1)] keys_filter [OF d(2)] beat(2,3) filter_filter
    by (intro filter_cong) (auto simp: mark_silent_def split: option.splits)
  moreover have "\<exists>ss. map_of (pm_sessions s') n = Some ss \<and> now - ps_lastPongReceived ss \<le> pm_heartbeatTimeoutMs s"
    if "n \<in> set (getConnectedPeerIds s')" for n
  proof -
    have n: "n \<in> set (getConnectedPeerIds s)" "n \<notin> set ?to" using that unfolding up by simp_all
    then obtain ss where ss: "(n, ss) \<in> set (pm_sessions s)" "?up ss" by (auto simp: getConnectedPeerIds_def)
    have "\<not> pm_heartbeatTimeoutMs s < now - ps_lastPongReceived ss"
    proof
      assume "pm_heartbeatTimeoutMs s < now - ps_lastPongReceived ss"
      then have "n \<in> set ?to" unfolding timedOut_def using ss by (auto intro!: rev_image_eqI [of "(n, ss)"])
      then show False using n(2) by simp
    qed
    moreover have "map_of (pm_sessions s') n = Some ss" using ss(1) d(1) n(2) by (simp add: beat(3))
    ultimately show ?thesis by auto
  qed
  ultimately show ?thesis using beat(1,4) by blast
qed

definition sample_peer :: PeerInfo where
  "sample_peer = mkPeerInfo\<lparr>pi_nodeId := ''p1'', pi_address := ''host'', pi_wsPort := 80, pi_connected := True\<rparr>"

definition sample_manager :: PeerManager where
  "sample_manager = addPeer 20000 (sample_peer\<lparr>pi_nodeId := ''p2''\<rparr>) (addPeer 0 sample_peer (start mkPeerManager))"

lemma sample_manager_ok: "umap_wf (pm_sessions sample_manager)" "attempts_ok sample_manager" "pm_running sample_manager"
  by (simp_all add: sample_manager_def addPeer_def start_def mkPeerManager_def scheduleHeartbeat_def
      umap_wf_def attempts_ok_def sample_peer_def mkPeerInfo_def)

theorem heartbeat_disconnects_silent_witness:
  "\<exists>s'. heartbeatFired False 40000 sample_manager = Inr s' \<and>
     getConnectedPeerIds s' = [''p2''] \<and> pm_reconnects s' = [(''p1'', 0, 1)]"
proof -
  have "getConnectedPeerIds sample_manager = [''p1'', ''p2'']" "timedOut 40000 sample_manager = [''p1'']"
    "pm_reconnects sample_manager = []" "attempts ''p1'' sample_manager = 0" by code_simp+
  then show ?thesis
    using heartbeat_disconnects_silent [OF sample_manager_ok, of 40000] by auto
qed

section \<open>What no step of the manager does\<close>

text \<open>The manager's own steps: everything but the calls that replace or drop a session.\<close>

inductive peer_step :: "PeerManager \<Rightarrow> PeerManager \<Rightarrow> bool" where
  connect: "peer_step s (connectToPeer net now address wsPort s)"
| discover: "peer_step s (startDiscovery net now s)"
| bootstrap: "peer_step s (addBootstrapNodes addresses s)"
| send: "peer_step s (sendToPeer n msg s)"
| pool: "peer_step s (updatePoolCache poolId meta host s)"
| unpool: "peer_step s (removePoolFromCache poolId s)"
| started: "peer_step s (start s)"
| beat: "pm_waiting s \<Longrightarrow> heartbeatFired failed now s = Inr s' \<Longrightarrow> peer_step s s'"
| reconnect: "tm \<in> set (pm_reconnects s) \<Longrightarrow> reconnectFired failed net now tm s = Inr s' \<Longrightarrow> peer_step s s'"

text \<open>Sessions stay, keep the time of their last pong, and connect only by being created.\<close>

definition decays :: "PeerManager \<Rightarrow> PeerManager \<Rightarrow> bool" where
  "decays s s' \<longleftrightarrow> (\<forall>n ss. map_of (pm_sessions s) n = Some ss \<longrightarrow>
     (\<exists>ss'. map_of (pm_sessions s') n = Some ss' \<and> ps_lastPongReceived ss' = ps_lastPongReceived ss \<and>
        (pi_connected (ps_info ss') \<longrightarrow> pi_connected (ps_info ss))))"

lemma decays_same: "pm_sessions s' = pm_sessions s \<Longrightarrow> decays s s'"
  by (simp add: decays_def)

lemma decays_trans [trans]: "decays s s' \<Longrightarrow> decays s' s'' \<Longrightarrow> decays s s''"
  unfolding decays_def by (metis (no_types, opaque_lifting))

lemma decays_connect: "decays s (connectToPeer net now address wsPort s)"
  by (auto simp: decays_def connectToPeer_def Let_def emplace_def update_conv')

lemma decays_update:
  assumes "\<And>ss. ps_lastPongReceived (f ss) = ps_lastPongReceived ss"
    and "\<And>ss. pi_connected (ps_info (f ss)) \<Longrightarrow> pi_connected (ps_info ss)"
  shows "decays s (update_session n f s)"
  using assms by (auto simp: decays_def update_session_def update_conv' split: option.splits)

lemma decays_schedule: "scheduleReconnect n attempt s = Inr s' \<Longrightarrow> decays s s'"
  by (auto simp: scheduleReconnect_def bind_res_Inr_iff split: if_splits intro!: decays_same)

lemma decays_timeout:
  assumes "handlePongTimeout n s = Inr s'"
  shows "decays s s'"
proof (cases "map_of (pm_sessions s) n")
  case None
  then show ?thesis using assms by (intro decays_same) (simp add: handlePongTimeout_def)
next
  case (Some ss)
  have "decays s (update_session n mark_silent s)"
    by (rule decays_update) (simp_all add: mark_silent_def)
  also have "decays \<dots> s'"
    using assms Some by (intro decays_schedule)
      (simp add: handlePongTimeout_def reconnectWithBackoff_def mark_silent_def update_session_def)
  finally show ?thesis .
qed

lemma decays_timeouts: "fold_res handlePongTimeout ns s = Inr s' \<Longrightarrow> decays s s'"
proof (induction ns arbitrary: s)
  case (Cons n ns)
  then obtain s1 where s1: "handlePongTimeout n s = Inr s1" "fold_res handlePongTimeout ns s1 = Inr s'"
    by (auto simp: bind_res_Inr_iff)
  have "decays s s1" using s1(1) by (rule decays_timeout)
  also have "decays s1 s'" using Cons.IH s1(2) .
  finally show ?case .
qed (simp add: decays_same)

lemma decays_discover: "decays s (startDiscovery net now s)"
proof -
  have "decays s (fold (\<lambda>addr s. (case split_address addr of None \<Rightarrow> s
       | Some (host, port) \<Rightarrow> (case stoi10 port of None \<Rightarrow> s
           | Some p \<Rightarrow> connectToPeer net now host (word_of_int p) s))) addrs s)" for addrs
  proof (induction addrs arbitrary: s)
    case (Cons addr addrs)
    let ?s = "case split_address addr of None \<Rightarrow> s
       | Some (host, port) \<Rightarrow> (case stoi10 port of None \<Rightarrow> s
           | Some p \<Rightarrow> connectToPeer net now host (word_of_int p) s)"
    have "decays s ?s" by (auto split: option.split intro: decays_same decays_connect)
    then show ?case using Cons.IH [of ?s] decays_trans by simp
  qed (simp add: decays_same)
  then show ?thesis unfolding startDiscovery_def .
qed

lemma decays_reconnect:
  assumes "reconnectFired failed net now tm s = Inr s'"
  shows "decays s s'"
proof -
  obtain n attempt d where tm: "tm = (n, attempt, d)" by (cases tm)
  let ?s = "s\<lparr>pm_reconnects := remove1 tm (pm_reconnects s)\<rparr>"
  have s: "decays s ?s" by (simp add: decays_same)
  show ?thesis
  proof (cases "s' = ?s")
    case False
    then obtain ss where ss: "map_of (pm_sessions s) n = Some ss" and run: "\<not> (failed \<or> \<not> pm_running s)"
      and addr: "\<not> (pi_address (ps_info ss) = [] \<or> pi_wsPort (ps_info ss) = 0)"
      using assms unfolding reconnectFired_def tm Let_def prod.case
      by (auto split: option.splits if_splits)
    define s1 where "s1 = connectToPeer net now (pi_address (ps_info ss)) (pi_wsPort (ps_info ss)) ?s"
    have "decays ?s s1" unfolding s1_def by (rule decays_connect)
    with s have s1: "decays s s1" by (rule decays_trans)
    define up where "up = (case map_of (pm_sessions s1) n of None \<Rightarrow> False | Some ss1 \<Rightarrow> pi_connected (ps_info ss1))"
    have "(if \<not> up then scheduleReconnect n (attempt + 1)
             (update_session n (\<lambda>ss1. ss1\<lparr>ps_reconnectAttempts := attempt + 1\<rparr>) s1)
           else Inr (update_session n (\<lambda>ss1. ss1\<lparr>ps_reconnectAttempts := 0\<rparr>) s1)) = Inr s'"
      using assms ss run addr unfolding reconnectFired_def tm Let_def up_def s1_def by simp
    moreover have "decays s1 (update_session n (\<lambda>ss1. ss1\<lparr>ps_reconnectAttempts := k\<rparr>) s1)" for k
      by (rule decays_update) simp_all
    ultimately show ?thesis using s1 decays_schedule decays_trans by (metis sum.inject(2))
  qed (use s in simp)
qed

lemma step_decays: "peer_step s s' \<Longrightarrow> decays s s'"
proof (induction rule: peer_step.induct)
  case (beat s failed now s')
  then show ?case
    by (auto simp: heartbeatFired_def Let_def bind_res_Inr_iff scheduleHeartbeat_def decays_def
        split: if_splits dest!: decays_timeouts)
qed (auto simp: addBootstrapNodes_def sendToPeer_def updatePoolCache_def removePoolFromCache_def start_def
    scheduleHeartbeat_def Let_def intro: decays_same decays_connect decays_discover decays_reconnect
    split: option.splits)

text \<open>
  Nothing the manager itself does refreshes a session. Along any run of connections,
  messages, heartbeats and reconnection timers, the time of a session's last pong never
  changes, whatever the peer answers, and a session that was disconnected is never connected
  again: a reconnection that succeeds does not replace it.
\<close>

theorem silent_sessions_stay_down:
  assumes "peer_step\<^sup>*\<^sup>* s s'" and "map_of (pm_sessions s) n = Some ss"
  shows "\<exists>ss'. map_of (pm_sessions s') n = Some ss' \<and> ps_lastPongReceived ss' = ps_lastPongReceived ss \<and>
    (\<not> pi_connected (ps_info ss) \<longrightarrow> \<not> pi_connected (ps_info ss'))"
proof -
  have "decays s s'" using assms(1)
    by (induction rule: rtranclp_induct) (auto intro: decays_same step_decays decays_trans)
  then show ?thesis using assms(2) by (auto simp: decays_def)
qed

definition sample_down :: PeerManager where
  "sample_down = projr (heartbeatFired False 40000 sample_manager)"

definition sample_redialled :: PeerManager where
  "sample_redialled = projr (reconnectFired False (\<lambda>address port. True) 41000 (''p1'', 0, 1) sample_down)"

lemma projr_Inr: "\<not> isl r \<Longrightarrow> r = Inr (projr r)" for r :: "'a res"
  by (cases r) simp_all

theorem silent_sessions_stay_down_witness:
  "\<exists>ss'. map_of (pm_sessions sample_redialled) ''p1'' = Some ss' \<and> ps_lastPongReceived ss' = 0 \<and>
    \<not> pi_connected (ps_info ss')"
proof -
  have "\<not> isl (reconnectFired False (\<lambda>address port. True) 41000 (''p1'', 0, 1) sample_down)"
    "list_ex (\<lambda>t. t = (''p1'', 0, 1)) (pm_reconnects sample_down)" by code_simp+
  then have "(''p1'', 0, 1) \<in> set (pm_reconnects sample_down)"
    "reconnectFired False (\<lambda>address port. True) 41000 (''p1'', 0, 1) sample_down = Inr sample_redialled"
    unfolding sample_redialled_def by (auto simp: list_ex_iff intro: projr_Inr)
  then have "peer_step sample_down sample_redialled" by (rule peer_step.reconnect)
  then have run: "peer_step\<^sup>*\<^sup>* sample_down sample_redialled" by (rule r_into_rtranclp)
  define ss where "ss = the (map_of (pm_sessions sample_down) ''p1'')"
  have "map_of (pm_sessions sample_down) ''p1'' \<noteq> None"
    "ps_lastPongReceived (the (map_of (pm_sessions sample_down) ''p1'')) = 0"
    "\<not> pi_connected (ps_info (the (map_of (pm_sessions sample_down) ''p1'')))" by code_simp+
  then have ss: "map_of (pm_sessions sample_down) ''p1'' = Some ss"
    "ps_lastPongReceived ss = 0" "\<not> pi_connected (ps_info ss)" by (auto simp: ss_def)
  show ?thesis using silent_sessions_stay_down [OF run ss(1)] ss(2,3) by auto
qed

end
