(* ===== verification/HeadRegistry.thy ===== *)
theory HeadRegistry
  imports Json
begin

text \<open>
  \<open>head_registry.{hpp,cpp}\<close>: the map from collections to the block that heads them, kept in
  memory and written to \<open>head-registry.json\<close> under a lock file. What the operating system
  answers is a parameter: whether other processes hold the lock at each attempt, whether a lock
  file can be removed, and at which call a write fails, if at all.
\<close>

section \<open>State\<close>

record HeadEntry =
  he_blockId :: string
  he_timestamp :: string

text \<open>
  A file that does not exist, cannot be opened, does not parse, or holds a document. The
  directory, the registry, its temporary file and the lock file.
\<close>

datatype 'j file_content = Missing | Unreadable | Garbage | Document 'j

record 'j registry_disk =
  rd_dir :: bool
  rd_file :: "'j file_content"
  rd_tmp :: "'j file_content"
  rd_lock :: bool

record 'j HeadRegistry =
  hr_heads :: "(string \<times> HeadEntry) list"
  hr_disk :: "'j registry_disk"

datatype io_outcome = IoOk | DirFails | OpenFails | DumpFails | WriteFails | RenameFails

section \<open>Reading\<close>

text \<open>One entry of the document: a plain string, or an object with the block and its time.\<close>

definition read_entry :: "'j json_api \<Rightarrow> 'j \<Rightarrow> HeadEntry option res" where
  "read_entry J v =
     (case js_as_str J v of
        Some blockId \<Rightarrow> Inr (Some \<lparr>he_blockId = blockId, he_timestamp = []\<rparr>)
      | None \<Rightarrow>
          if js_items J v \<noteq> None \<and> contains J v ''blockId''
          then bind_res (field J (get_string J) v ''blockId'') (\<lambda>blockId.
               bind_res (optional J (get_string J) v ''timestamp'') (\<lambda>timestamp.
                 Inr (Some \<lparr>he_blockId = blockId,
                            he_timestamp = (case timestamp of None \<Rightarrow> [] | Some t \<Rightarrow> t)\<rparr>)))
          else Inr None)"

text \<open>An entry that cannot be read throws, with the entries before it already in place.\<close>

fun load_items :: "'j json_api \<Rightarrow> (string \<times> 'j) list \<Rightarrow> (string \<times> HeadEntry) list \<Rightarrow>
    (string \<times> HeadEntry) list \<times> unit res" where
  "load_items J [] heads = (heads, Inr ())"
| "load_items J ((key, v) # kvs) heads =
     (case read_entry J v of
        Inl e \<Rightarrow> (heads, Inl e)
      | Inr None \<Rightarrow> load_items J kvs heads
      | Inr (Some head) \<Rightarrow> load_items J kvs (AList.update key head heads))"

definition load :: "'j json_api \<Rightarrow> 'j HeadRegistry \<Rightarrow> 'j HeadRegistry \<times> unit res" where
  "load J r =
     (case rd_file (hr_disk r) of
        Document j \<Rightarrow>
          (case js_items J j of
             None \<Rightarrow> (r\<lparr>hr_heads := []\<rparr>, Inr ())
           | Some kvs \<Rightarrow> (let (heads, result) = load_items J kvs [] in (r\<lparr>hr_heads := heads\<rparr>, result)))
      | _ \<Rightarrow> (r\<lparr>hr_heads := []\<rparr>, Inr ()))"

definition getHead :: "string \<Rightarrow> 'j HeadRegistry \<Rightarrow> HeadEntry option" where
  "getHead key r = map_of (hr_heads r) key"

definition keys :: "'j HeadRegistry \<Rightarrow> string list" where
  "keys r = map fst (hr_heads r)"

section \<open>Writing\<close>

definition registryError :: "string \<Rightarrow> cpp_error" where
  "registryError msg = RuntimeError (''RegistryError: '' @ msg)"

definition heads_toJson :: "'j json_api \<Rightarrow> (string \<times> HeadEntry) list \<Rightarrow> 'j" where
  "heads_toJson J heads = js_obj J (map (\<lambda>(key, e). (key, js_obj J
     [(''blockId'', js_str J (he_blockId e)), (''timestamp'', js_str J (he_timestamp e))])) heads)"

text \<open>The new content goes to the temporary file, which then replaces the registry.\<close>

definition persist :: "'j json_api \<Rightarrow> io_outcome \<Rightarrow> 'j HeadRegistry \<Rightarrow> 'j HeadRegistry \<times> unit res" where
  "persist J io r =
     (let d = hr_disk r;
          j = heads_toJson J (hr_heads r)
      in case io of
        DirFails \<Rightarrow> (r, Inl filesystem_error)
      | OpenFails \<Rightarrow> (r\<lparr>hr_disk := d\<lparr>rd_dir := True\<rparr>\<rparr>,
                      Inl (registryError ''Failed to open temp file for head registry''))
      | DumpFails \<Rightarrow> (r\<lparr>hr_disk := d\<lparr>rd_dir := True, rd_tmp := Garbage\<rparr>\<rparr>, Inl json_type_error)
      | WriteFails \<Rightarrow> (r\<lparr>hr_disk := d\<lparr>rd_dir := True, rd_tmp := Garbage\<rparr>\<rparr>,
                       Inl (registryError ''Failed to write head registry temp file''))
      | RenameFails \<Rightarrow> (r\<lparr>hr_disk := d\<lparr>rd_dir := True, rd_tmp := Document j\<rparr>\<rparr>,
                        Inl filesystem_error)
      | IoOk \<Rightarrow> (r\<lparr>hr_disk := d\<lparr>rd_dir := True, rd_tmp := Missing, rd_file := Document j\<rparr>\<rparr>, Inr ()))"

text \<open>
  An \<open>open\<close> in a directory that does not exist fails as one of a file that is there does. After 250
  attempts the lock file is removed, whoever holds it, for one last attempt; there is nothing to
  remove, and no failure, where the directory does not exist.
\<close>

definition lock_opens :: "lock_io \<Rightarrow> 'j registry_disk \<Rightarrow> nat \<Rightarrow> bool" where
  "lock_opens taken d i \<longleftrightarrow> rd_dir d \<and> \<not> lk_taken taken i"

definition acquireLock :: "lock_io \<Rightarrow> 'j HeadRegistry \<Rightarrow> 'j HeadRegistry \<times> unit res" where
  "acquireLock taken r =
     (let d = hr_disk r
      in if list_ex (lock_opens taken d) [0..<250] then (r\<lparr>hr_disk := d\<lparr>rd_lock := True\<rparr>\<rparr>, Inr ())
         else if rd_dir d \<and> lk_stale_stuck taken then (r\<lparr>hr_disk := d\<lparr>rd_lock := True\<rparr>\<rparr>, Inl filesystem_error)
         else if lock_opens taken d 250 then (r\<lparr>hr_disk := d\<lparr>rd_lock := True\<rparr>\<rparr>, Inr ())
         else (r\<lparr>hr_disk := d\<lparr>rd_lock := rd_dir d \<and> lk_taken taken 250\<rparr>\<rparr>,
               Inl (registryError ''Failed to acquire head registry lock after timeout'')))"

definition releaseLock :: "lock_io \<Rightarrow> 'j HeadRegistry \<Rightarrow> 'j HeadRegistry \<times> unit res" where
  "releaseLock taken r =
     (if lk_remove_fails taken then (r, Inl filesystem_error)
      else (r\<lparr>hr_disk := (hr_disk r)\<lparr>rd_lock := False\<rparr>\<rparr>, Inr ()))"

text \<open>
  Lock, change the map, persist, and unlock whether or not that threw. What unlocking throws, after a
  successful write too, is what the caller sees.
\<close>

definition locked_update :: "'j json_api \<Rightarrow> lock_io \<Rightarrow> io_outcome \<Rightarrow>
    ((string \<times> HeadEntry) list \<Rightarrow> (string \<times> HeadEntry) list) \<Rightarrow> 'j HeadRegistry \<Rightarrow> 'j HeadRegistry \<times> unit res" where
  "locked_update J taken io f r =
     (case acquireLock taken r of
        (r1, Inl e) \<Rightarrow> (r1, Inl e)
      | (r1, Inr _) \<Rightarrow>
          (let (r2, result) = persist J io (r1\<lparr>hr_heads := f (hr_heads r1)\<rparr>);
               (r3, unlock) = releaseLock taken r2
           in (r3, bind_res unlock (\<lambda>_. result))))"

definition setHead :: "'j json_api \<Rightarrow> lock_io \<Rightarrow> io_outcome \<Rightarrow> string \<Rightarrow> string \<Rightarrow> string \<Rightarrow>
    'j HeadRegistry \<Rightarrow> 'j HeadRegistry \<times> unit res" where
  "setHead J taken io now key blockId =
     locked_update J taken io (AList.update key \<lparr>he_blockId = blockId, he_timestamp = now\<rparr>)"

definition removeHead :: "'j json_api \<Rightarrow> lock_io \<Rightarrow> io_outcome \<Rightarrow> string \<Rightarrow>
    'j HeadRegistry \<Rightarrow> 'j HeadRegistry \<times> unit res" where
  "removeHead J taken io key = locked_update J taken io (map_del key)"

definition clear :: "'j json_api \<Rightarrow> lock_io \<Rightarrow> io_outcome \<Rightarrow>
    'j HeadRegistry \<Rightarrow> 'j HeadRegistry \<times> unit res" where
  "clear J taken io = locked_update J taken io (\<lambda>heads. [])"

section \<open>Reading back what was written\<close>

context json_laws
begin

lemma read_entry_written:
  "read_entry J (js_obj J [(''blockId'', js_str J (he_blockId e)), (''timestamp'', js_str J (he_timestamp e))]) =
     Inr (Some e)"
proof -
  let ?kvs = "[(''blockId'', js_str J (he_blockId e)), (''timestamp'', js_str J (he_timestamp e))]"
  obtain kvs where "js_items J (js_obj J ?kvs) = Some kvs" using obj_items [of ?kvs] by auto
  then show ?thesis
    by (simp add: read_entry_def obj_str contains_obj optional_def field_obj get_string)
qed

lemma load_items_written:
  assumes "\<forall>(k, v) \<in> set kvs. \<exists>e. read_entry J v = Inr (Some e)"
    and "distinct (map fst kvs)"
  shows "\<exists>heads'. load_items J kvs heads = (heads', Inr ()) \<and>
    map_of heads' = map_of heads ++ (\<lambda>k. map_option (\<lambda>v. the (projr (read_entry J v))) (map_of kvs k))"
  using assms
proof (induction kvs arbitrary: heads)
  case Nil
  then show ?case by (auto simp: fun_eq_iff map_add_def)
next
  case (Cons kv kvs)
  obtain k v where kv: "kv = (k, v)" by (cases kv)
  obtain e where e: "read_entry J v = Inr (Some e)" using Cons.prems(1) kv by auto
  have "map_of kvs k = None" using Cons.prems(2) kv by (simp add: map_of_eq_None_iff)
  moreover obtain heads' where "load_items J kvs (AList.update k e heads) = (heads', Inr ())"
    "map_of heads' = map_of (AList.update k e heads) ++
       (\<lambda>k. map_option (\<lambda>v. the (projr (read_entry J v))) (map_of kvs k))"
    using Cons.IH [of "AList.update k e heads"] Cons.prems by auto
  ultimately show ?case
    by (auto simp: kv e update_conv' fun_eq_iff map_add_def split: option.splits)
qed

text \<open>Loading the document \<open>persist\<close> writes gives the same map.\<close>

lemma load_written:
  assumes "umap_wf (hr_heads r)" and "rd_file (hr_disk r') = Document (heads_toJson J (hr_heads r))"
  shows "\<exists>r''. load J r' = (r'', Inr ()) \<and> map_of (hr_heads r'') = map_of (hr_heads r)"
proof -
  let ?wr = "\<lambda>e. js_obj J [(''blockId'', js_str J (he_blockId e)), (''timestamp'', js_str J (he_timestamp e))]"
  let ?kvs = "map (\<lambda>(key, e). (key, ?wr e)) (hr_heads r)"
  have d: "distinct (map fst ?kvs)" using assms(1) by (simp add: umap_wf_def comp_def case_prod_beta)
  obtain kvs where kvs: "js_items J (js_obj J ?kvs) = Some kvs" "distinct (map fst kvs)" "map_of kvs = map_of ?kvs"
    using obj_items [OF d] by blast
  have m: "map_of kvs k = map_option ?wr (map_of (hr_heads r) k)" for k
    unfolding kvs(3) by (induction "hr_heads r") (auto simp: map_of_map [unfolded comp_def])
  have "\<forall>(k, v) \<in> set kvs. \<exists>e. read_entry J v = Inr (Some e)"
    using m map_of_is_SomeI [OF kvs(2)] by (fastforce simp: read_entry_written)
  from load_items_written [OF this kvs(2), of "[]"] obtain heads' where
    "load_items J kvs [] = (heads', Inr ())"
    "map_of heads' = (\<lambda>k. map_option (\<lambda>v. the (projr (read_entry J v))) (map_of kvs k))" by auto
  then show ?thesis
    by (auto simp: load_def assms(2) heads_toJson_def kvs(1) m read_entry_written option.map_comp comp_def
        option.map_ident)
qed

end

section \<open>Properties\<close>

text \<open>The heads a registry writes, as a step on its map.\<close>

inductive registry_write :: "'j json_api \<Rightarrow> 'j HeadRegistry \<Rightarrow> 'j HeadRegistry \<Rightarrow> bool" for J where
  set: "registry_write J r (fst (setHead J taken io now key blockId r))"
| remove: "registry_write J r (fst (removeHead J taken io key r))"
| clear: "registry_write J r (fst (clear J taken io r))"

definition registry_ok :: "'j HeadRegistry \<Rightarrow> bool" where
  "registry_ok r \<longleftrightarrow> umap_wf (hr_heads r)"

lemma acquire_heads: "hr_heads (fst (acquireLock taken r)) = hr_heads r"
  by (simp add: acquireLock_def Let_def)

lemma persist_heads: "hr_heads (fst (persist J io r)) = hr_heads r"
  by (simp add: persist_def Let_def split: io_outcome.split)

lemma release_heads: "hr_heads (fst (releaseLock taken r)) = hr_heads r"
  by (simp add: releaseLock_def)

lemma locked_update_heads:
  "hr_heads (fst (locked_update J taken io f r)) = hr_heads r \<or>
   hr_heads (fst (locked_update J taken io f r)) = f (hr_heads r)"
  by (simp add: acquire_heads persist_heads release_heads locked_update_def Let_def case_prod_beta split: sum.split)

lemma registry_write_ok:
  assumes "registry_write J r r'" and "registry_ok r"
  shows "registry_ok r'"
  using assms
proof (cases rule: registry_write.cases)
  case (set taken io now key blockId)
  then show ?thesis using assms(2) locked_update_heads [of J taken io _ r]
    by (metis registry_ok_def setHead_def std_umap.inv_put)
next
  case (remove taken io key)
  then show ?thesis using assms(2) locked_update_heads [of J taken io _ r]
    by (metis registry_ok_def removeHead_def umap_wf_del)
next
  case (clear taken io)
  then show ?thesis using assms(2) locked_update_heads [of J taken io "\<lambda>_. []" r]
    by (metis clear_def registry_ok_def umap_wf_Nil)
qed

text \<open>When the lock is obtained, and every way the update of the file can end.\<close>

definition obtains_lock :: "lock_io \<Rightarrow> 'j registry_disk \<Rightarrow> bool" where
  "obtains_lock taken d \<longleftrightarrow>
     (\<exists>i < 250. lock_opens taken d i) \<or> \<not> lk_stale_stuck taken \<and> lock_opens taken d 250"

lemma acquireLock_cases:
  obtains (got) "obtains_lock taken (hr_disk r)"
      "acquireLock taken r = (r\<lparr>hr_disk := (hr_disk r)\<lparr>rd_lock := True\<rparr>\<rparr>, Inr ())"
    | (not_got) e l where "\<not> obtains_lock taken (hr_disk r)"
      "acquireLock taken r = (r\<lparr>hr_disk := (hr_disk r)\<lparr>rd_lock := l\<rparr>\<rparr>, Inl e)"
proof (cases "list_ex (lock_opens taken (hr_disk r)) [0..<250]")
  case True
  then have "obtains_lock taken (hr_disk r)" by (auto simp: obtains_lock_def list_ex_iff)
  then show thesis using True got by (simp add: acquireLock_def)
next
  case False
  then have no: "\<not> (\<exists>i < 250. lock_opens taken (hr_disk r) i)" by (auto simp: list_ex_iff)
  show thesis
  proof (cases "\<not> lk_stale_stuck taken \<and> lock_opens taken (hr_disk r) 250")
    case True
    then show thesis using False got by (simp add: acquireLock_def obtains_lock_def)
  next
    case closed: False
    then have "\<not> obtains_lock taken (hr_disk r)" using no by (simp add: obtains_lock_def)
    then show thesis using False closed not_got
      by (cases "rd_dir (hr_disk r) \<and> lk_stale_stuck taken") (auto simp: acquireLock_def lock_opens_def Let_def)
  qed
qed

lemma locked_update_cases:
  assumes "locked_update J taken io f r = (r', result)"
  obtains (no_lock) e where "result = Inl e" "hr_heads r' = hr_heads r" "rd_file (hr_disk r') = rd_file (hr_disk r)"
      "\<not> obtains_lock taken (hr_disk r)"
    | (failed) e where "result = Inl e" "hr_heads r' = f (hr_heads r)" "rd_file (hr_disk r') = rd_file (hr_disk r)"
      "rd_lock (hr_disk r') \<longrightarrow> lk_remove_fails taken" "io \<noteq> IoOk"
    | (stuck) e where "result = Inl e" "hr_heads r' = f (hr_heads r)"
      "rd_file (hr_disk r') = Document (heads_toJson J (f (hr_heads r)))" "lk_remove_fails taken"
    | (written) "result = Inr ()" "hr_heads r' = f (hr_heads r)" "obtains_lock taken (hr_disk r)"
      "rd_file (hr_disk r') = Document (heads_toJson J (f (hr_heads r)))" "\<not> rd_lock (hr_disk r')" "io = IoOk"
      "\<not> lk_remove_fails taken"
proof (cases rule: acquireLock_cases [of taken r])
  case got
  let ?r1 = "r\<lparr>hr_disk := (hr_disk r)\<lparr>rd_lock := True\<rparr>, hr_heads := f (hr_heads r)\<rparr>"
  have u: "locked_update J taken io f r =
      (let (r2, result) = persist J io ?r1; (r3, unlock) = releaseLock taken r2 in (r3, bind_res unlock (\<lambda>_. result)))"
    by (simp add: locked_update_def got)
  show thesis
  proof (cases "io = IoOk")
    case True
    then show thesis using assms u got(1) stuck written
      by (cases "lk_remove_fails taken") (auto simp: persist_def releaseLock_def)
  next
    case False
    then show thesis using assms u failed
      by (cases "lk_remove_fails taken"; cases io) (auto simp: persist_def releaseLock_def Let_def)
  qed
next
  case (not_got e l)
  then show thesis using assms no_lock by (auto simp: locked_update_def)
qed

text \<open>
  A head that was set is in the registry, the others are as they were, and a process that
  loads the file afterwards reads the same heads.
\<close>

theorem head_persists:
  assumes "json_laws J" and "(registry_write J)\<^sup>*\<^sup>* r0 r" and "hr_heads r0 = []"
    and "setHead J taken io now key blockId r = (r', Inr ())" and "hr_disk r1 = hr_disk r'"
  shows "getHead key r' = Some \<lparr>he_blockId = blockId, he_timestamp = now\<rparr> \<and>
    (\<forall>k. k \<noteq> key \<longrightarrow> getHead k r' = getHead k r) \<and>
    (\<exists>r''. load J r1 = (r'', Inr ()) \<and> (\<forall>k. getHead k r'' = getHead k r'))"
proof -
  let ?f = "AList.update key \<lparr>he_blockId = blockId, he_timestamp = now\<rparr>"
  have "registry_ok r0" using assms(3) by (simp add: registry_ok_def)
  with assms(2) have "registry_ok r"
    by (induction rule: rtranclp_induct) (auto intro: registry_write_ok)
  then have wf: "umap_wf (?f (hr_heads r))" by (simp add: registry_ok_def std_umap.inv_put)
  from assms(4) obtain h: "hr_heads r' = ?f (hr_heads r)"
      and f: "rd_file (hr_disk r') = Document (heads_toJson J (?f (hr_heads r)))"
    unfolding setHead_def by (cases rule: locked_update_cases) auto
  obtain r'' where "load J r1 = (r'', Inr ())" "map_of (hr_heads r'') = map_of (hr_heads r')"
    using json_laws.load_written [OF assms(1), of r' r1] wf f assms(5) h by auto
  then show ?thesis by (auto simp: getHead_def h update_conv')
qed

definition sample_registry :: "json_value HeadRegistry" where
  "sample_registry = \<lparr>hr_heads = [],
     hr_disk = \<lparr>rd_dir = True, rd_file = Missing, rd_tmp = Missing, rd_lock = False\<rparr>\<rparr>"

definition never_taken :: lock_io where
  "never_taken = \<lparr>lk_taken = \<lambda>i. False, lk_stale_stuck = False, lk_remove_fails = False\<rparr>"

theorem head_persists_witness:
  "let r' = fst (setHead json_values never_taken IoOk ''now'' ''db:users'' ''b1'' sample_registry) in
     getHead ''db:users'' r' = Some \<lparr>he_blockId = ''b1'', he_timestamp = ''now''\<rparr> \<and>
     (\<forall>k. k \<noteq> ''db:users'' \<longrightarrow> getHead k r' = getHead k sample_registry) \<and>
     (\<exists>r''. load json_values (sample_registry\<lparr>hr_disk := hr_disk r'\<rparr>) = (r'', Inr ()) \<and>
       (\<forall>k. getHead k r'' = getHead k r'))"
  unfolding Let_def
proof (rule head_persists [OF json.json_laws_axioms rtranclp.rtrancl_refl])
  show "hr_heads sample_registry = []" by (simp add: sample_registry_def)
  have "snd (setHead json_values never_taken IoOk ''now'' ''db:users'' ''b1'' sample_registry) = Inr ()"
    by code_simp
  then show "setHead json_values never_taken IoOk ''now'' ''db:users'' ''b1'' sample_registry =
      (fst (setHead json_values never_taken IoOk ''now'' ''db:users'' ''b1'' sample_registry), Inr ())"
    by (metis prod.collapse)
qed simp

text \<open>
  C23: the registry's file is never half written. Whatever the locks and the disk answer, after a call
  that sets, removes or clears heads the file holds what it held before or exactly the heads the
  registry has in memory. A call succeeds exactly if it obtains the lock, the write succeeds and the
  lock file can be removed; the file then holds the heads and the lock is free. A call that throws
  leaves the file as it was, unless it is the lock file's removal that failed, which comes after the
  write; and a lock that was obtained is free again unless removing its file failed.
\<close>

theorem registry_file_atomic:
  assumes "f \<in> {setHead J taken io now key blockId, removeHead J taken io key, clear J taken io}"
    and "f r = (r', result)"
  shows "(result = Inr () \<longleftrightarrow> obtains_lock taken (hr_disk r) \<and> io = IoOk \<and> \<not> lk_remove_fails taken) \<and>
    (case result of
      Inr _ \<Rightarrow> rd_file (hr_disk r') = Document (heads_toJson J (hr_heads r')) \<and> \<not> rd_lock (hr_disk r')
    | Inl _ \<Rightarrow> (rd_file (hr_disk r') = rd_file (hr_disk r) \<or>
          lk_remove_fails taken \<and> rd_file (hr_disk r') = Document (heads_toJson J (hr_heads r'))) \<and>
        (obtains_lock taken (hr_disk r) \<longrightarrow> rd_lock (hr_disk r') \<longrightarrow> lk_remove_fails taken))"
proof -
  obtain g where "f = locked_update J taken io g"
    using assms(1) by (auto simp: setHead_def removeHead_def clear_def)
  then have "locked_update J taken io g r = (r', result)" using assms(2) by simp
  then show ?thesis by (cases rule: locked_update_cases) auto
qed

definition never_removed :: lock_io where
  "never_removed = never_taken\<lparr>lk_remove_fails := True\<rparr>"

theorem registry_file_atomic_witness:
  "let r' = fst (setHead json_values never_taken RenameFails ''now'' ''db:users'' ''b1'' sample_registry) in
     rd_file (hr_disk r') = Missing \<and> \<not> rd_lock (hr_disk r')"
proof -
  let ?f = "setHead json_values never_taken RenameFails ''now'' ''db:users'' ''b1''"
  have free: "obtains_lock never_taken (hr_disk sample_registry)" "\<not> lk_remove_fails never_taken"
    by (auto simp: obtains_lock_def lock_opens_def never_taken_def sample_registry_def)
  have "snd (?f sample_registry) = Inl filesystem_error" by code_simp
  then have "?f sample_registry = (fst (?f sample_registry), Inl filesystem_error)"
    by (metis prod.collapse)
  from registry_file_atomic [of ?f json_values never_taken RenameFails "''now''" "''db:users''" "''b1''", OF _ this] free
  show ?thesis by (simp add: Let_def) (simp add: sample_registry_def)
qed

text \<open>A lock file that cannot be removed: the write is done, the call throws, and the lock stays.\<close>

lemma stuck_lock:
  "let (r', result) = setHead json_values never_removed IoOk ''now'' ''db:users'' ''b1'' sample_registry in
     result = Inl filesystem_error \<and> rd_lock (hr_disk r') \<and> rd_file (hr_disk r') \<noteq> Missing"
  by code_simp

text \<open>
  \<open>persist\<close> creates a data directory that does not exist, but it is never reached: the
  lock is taken first, in that directory. Setting a head there fails after the timeout, with
  nothing changed, whatever the rest of the system does.
\<close>

theorem missing_directory_never_created:
  assumes "\<not> rd_dir (hr_disk r)"
  shows "\<exists>r'. setHead J taken io now key blockId r =
      (r', Inl (registryError ''Failed to acquire head registry lock after timeout'')) \<and>
    hr_heads r' = hr_heads r \<and> \<not> rd_dir (hr_disk r') \<and> rd_file (hr_disk r') = rd_file (hr_disk r)"
proof -
  have "\<not> list_ex (lock_opens taken (hr_disk r)) [0..<250]"
    using assms by (simp add: list_ex_iff lock_opens_def)
  moreover have "\<not> lock_opens taken (hr_disk r) 250" using assms by (simp add: lock_opens_def)
  ultimately show ?thesis using assms
    by (simp add: setHead_def locked_update_def acquireLock_def)
qed

theorem missing_directory_never_created_witness:
  "\<exists>r'. setHead json_values never_taken IoOk ''now'' ''db:users'' ''b1''
        (sample_registry\<lparr>hr_disk := (hr_disk sample_registry)\<lparr>rd_dir := False\<rparr>\<rparr>) =
      (r', Inl (registryError ''Failed to acquire head registry lock after timeout'')) \<and>
    hr_heads r' = [] \<and> \<not> rd_dir (hr_disk r') \<and> rd_file (hr_disk r') = Missing"
  using missing_directory_never_created [of "sample_registry\<lparr>hr_disk := (hr_disk sample_registry)\<lparr>rd_dir := False\<rparr>\<rparr>"
      json_values never_taken IoOk "''now''" "''db:users''" "''b1''"]
  by (simp add: sample_registry_def)

end
