(* ===== verification/GossipConfig.thy ===== *)
theory GossipConfig
  imports Json
begin

text \<open>
  \<open>gossip/gossip_config.{hpp,cpp}\<close>: how far and how widely announcements travel, the JSON form
  and the validity test of a configuration. C++ \<open>int\<close> members are integers; \<open>config_in_range\<close>
  says they are in range.
\<close>

record PriorityGossipConfig =
  pc_fanout :: int
  pc_ttl :: int

record MessagePriority =
  mp_normal :: PriorityGossipConfig
  mp_high :: PriorityGossipConfig

record GossipConfig =
  gc_fanout :: int
  gc_defaultTtl :: int
  gc_batchIntervalMs :: int
  gc_maxBatchSize :: int
  gc_messagePriority :: MessagePriority

definition defaultGossipConfig :: GossipConfig where
  "defaultGossipConfig = \<lparr>gc_fanout = 3, gc_defaultTtl = 3, gc_batchIntervalMs = 1000, gc_maxBatchSize = 100,
     gc_messagePriority = \<lparr>mp_normal = \<lparr>pc_fanout = 5, pc_ttl = 5\<rparr>, mp_high = \<lparr>pc_fanout = 7, pc_ttl = 7\<rparr>\<rparr>\<rparr>"

definition priority_toJson :: "'j json_api \<Rightarrow> PriorityGossipConfig \<Rightarrow> 'j" where
  "priority_toJson J p = js_obj J [(''fanout'', js_num J (pc_fanout p)), (''ttl'', js_num J (pc_ttl p))]"

definition priority_fromJson :: "'j json_api \<Rightarrow> 'j \<Rightarrow> PriorityGossipConfig res" where
  "priority_fromJson J j =
     bind_res (field J (get_int J) j ''fanout'') (\<lambda>fanout.
     bind_res (field J (get_int J) j ''ttl'') (\<lambda>ttl. Inr \<lparr>pc_fanout = fanout, pc_ttl = ttl\<rparr>))"

definition config_toJson :: "'j json_api \<Rightarrow> GossipConfig \<Rightarrow> 'j" where
  "config_toJson J c = js_obj J
     [(''fanout'', js_num J (gc_fanout c)), (''defaultTtl'', js_num J (gc_defaultTtl c)),
      (''batchIntervalMs'', js_num J (gc_batchIntervalMs c)), (''maxBatchSize'', js_num J (gc_maxBatchSize c)),
      (''messagePriority'', js_obj J
         [(''normal'', priority_toJson J (mp_normal (gc_messagePriority c))),
          (''high'', priority_toJson J (mp_high (gc_messagePriority c)))])]"

definition config_fromJson :: "'j json_api \<Rightarrow> 'j \<Rightarrow> GossipConfig res" where
  "config_fromJson J j =
     bind_res (field J (get_int J) j ''fanout'') (\<lambda>fanout.
     bind_res (field J (get_int J) j ''defaultTtl'') (\<lambda>defaultTtl.
     bind_res (field J (get_int J) j ''batchIntervalMs'') (\<lambda>batchIntervalMs.
     bind_res (field J (get_int J) j ''maxBatchSize'') (\<lambda>maxBatchSize.
     bind_res (at J j ''messagePriority'') (\<lambda>mp.
     bind_res (field J (priority_fromJson J) mp ''normal'') (\<lambda>normal.
     bind_res (field J (priority_fromJson J) mp ''high'') (\<lambda>high.
     Inr \<lparr>gc_fanout = fanout, gc_defaultTtl = defaultTtl, gc_batchIntervalMs = batchIntervalMs,
       gc_maxBatchSize = maxBatchSize, gc_messagePriority = \<lparr>mp_normal = normal, mp_high = high\<rparr>\<rparr>)))))))"

text \<open>The batch size and the interval are not looked at.\<close>

definition config_validate :: "GossipConfig \<Rightarrow> bool" where
  "config_validate c \<longleftrightarrow> 1 \<le> gc_fanout c \<and> 1 \<le> gc_defaultTtl c \<and>
     1 \<le> pc_fanout (mp_normal (gc_messagePriority c)) \<and> 1 \<le> pc_ttl (mp_normal (gc_messagePriority c)) \<and>
     1 \<le> pc_fanout (mp_high (gc_messagePriority c)) \<and> 1 \<le> pc_ttl (mp_high (gc_messagePriority c))"

definition int32 :: "int \<Rightarrow> bool" where
  "int32 n \<longleftrightarrow> - (2 ^ 31) \<le> n \<and> n < 2 ^ 31"

definition config_in_range :: "GossipConfig \<Rightarrow> bool" where
  "config_in_range c \<longleftrightarrow> int32 (gc_fanout c) \<and> int32 (gc_defaultTtl c) \<and> int32 (gc_batchIntervalMs c) \<and>
     int32 (gc_maxBatchSize c) \<and>
     int32 (pc_fanout (mp_normal (gc_messagePriority c))) \<and> int32 (pc_ttl (mp_normal (gc_messagePriority c))) \<and>
     int32 (pc_fanout (mp_high (gc_messagePriority c))) \<and> int32 (pc_ttl (mp_high (gc_messagePriority c)))"

lemma default_config: "config_validate defaultGossipConfig" "config_in_range defaultGossipConfig"
  by (simp_all add: defaultGossipConfig_def config_validate_def config_in_range_def int32_def)

context json_laws
begin

lemma get_int32: "int32 n \<Longrightarrow> get_int J (js_num J n) = Inr n"
  by (simp add: int32_def get_int)

lemma priority_trip:
  "int32 (pc_fanout p) \<Longrightarrow> int32 (pc_ttl p) \<Longrightarrow> priority_fromJson J (priority_toJson J p) = Inr p"
  by (simp add: priority_fromJson_def priority_toJson_def field_obj get_int32)

lemma config_trip: "config_in_range c \<Longrightarrow> config_fromJson J (config_toJson J c) = Inr c"
  by (simp add: config_in_range_def config_fromJson_def config_toJson_def field_obj at_obj get_int32 priority_trip)

end

lemmas config_trip_values = json.config_trip

end
