(* ===== verification/GossipEngine.thy ===== *)
theory GossipEngine
  imports GossipConfig PeerManager HeadRegistry
begin

text \<open>
  \<open>gossip/gossip_engine.{hpp,cpp}\<close>: the announcements a node queues and sends in batches, what
  it does with the ones it receives, and how it forwards them to random peers. The engine works
  on the peer manager and the head registry of the other theories. Parameters, in
  \<open>gossip_env\<close>: the JSON library, ECIES and signature verification (OpenSSL), the two texts of the clock,
  the outcomes of the random number generator, and the answers of the file system. The handlers
  are functions on the state \<open>'x\<close> of the client that registered them.
\<close>

section \<open>State\<close>

text \<open>
  \<open>env_random k\<close> gives the \<open>k\<close>-th number drawn: \<open>uniform_int_distribution(0, i)\<close> reduces it
  to \<open>{0..i}\<close>, and every sequence of outcomes is one of these.
\<close>

record 'j gossip_env =
  env_json :: "'j json_api"
  env_encrypt :: "bytes \<Rightarrow> bytes \<Rightarrow> bytes res"
  env_verify :: "bytes \<Rightarrow> bytes \<Rightarrow> bytes \<Rightarrow> bool"
  env_random :: "nat \<Rightarrow> nat"
  env_now :: string
  env_headNow :: string
  env_taken :: lock_io
  env_io :: io_outcome

type_synonym 'x handler = "BlockAnnouncement \<Rightarrow> 'x \<Rightarrow> 'x"

record ('j, 'x) GossipEngine =
  ge_peerManager :: PeerManager
  ge_headRegistry :: "'j HeadRegistry"
  ge_nodeId :: string
  ge_publicKey :: bytes
  ge_config :: GossipConfig
  ge_pending :: "BlockAnnouncement list"
  ge_announcementHandlers :: "'x handler list"
  ge_messageDeliveryHandlers :: "'x handler list"
  ge_deliveryAckHandlers :: "'x handler list"
  ge_brightTrustProposalHandlers :: "'x handler list"
  ge_brightTrustVoteHandlers :: "'x handler list"
  ge_localUserIds :: "string set"
  ge_running :: bool
  ge_batchTimer :: bool
  ge_waiting :: bool
  ge_draws :: nat
  ge_client :: 'x

definition mkGossipEngine :: "PeerManager \<Rightarrow> 'j HeadRegistry \<Rightarrow> string \<Rightarrow> bytes \<Rightarrow> GossipConfig \<Rightarrow> 'x \<Rightarrow>
    ('j, 'x) GossipEngine" where
  "mkGossipEngine peerManager headRegistry nodeId publicKey config x =
     \<lparr>ge_peerManager = peerManager, ge_headRegistry = headRegistry, ge_nodeId = nodeId, ge_publicKey = publicKey,
      ge_config = config, ge_pending = [], ge_announcementHandlers = [], ge_messageDeliveryHandlers = [],
      ge_deliveryAckHandlers = [], ge_brightTrustProposalHandlers = [], ge_brightTrustVoteHandlers = [],
      ge_localUserIds = {}, ge_running = False, ge_batchTimer = False, ge_waiting = False,
      ge_draws = 0, ge_client = x\<rparr>"

section \<open>Announcing\<close>

definition queueAnnouncement :: "BlockAnnouncement \<Rightarrow> ('j, 'x) GossipEngine \<Rightarrow> ('j, 'x) GossipEngine" where
  "queueAnnouncement a e = e\<lparr>ge_pending := ge_pending e @ [a]\<rparr>"

text \<open>What every announcement of this node starts from.\<close>

definition announcement_of :: "'j gossip_env \<Rightarrow> ('j, 'x) GossipEngine \<Rightarrow> AnnouncementType \<Rightarrow> string \<Rightarrow> int \<Rightarrow>
    BlockAnnouncement" where
  "announcement_of env e type blockId ttl = mkBlockAnnouncement\<lparr>ba_type := type, ba_blockId := blockId,
     ba_nodeId := ge_nodeId e, ba_timestamp := env_now env, ba_ttl := ttl\<rparr>"

definition announceBlock :: "'j gossip_env \<Rightarrow> string \<Rightarrow> string option \<Rightarrow> ('j, 'x) GossipEngine \<Rightarrow> ('j, 'x) GossipEngine" where
  "announceBlock env blockId poolId e = queueAnnouncement
     ((announcement_of env e Add blockId (gc_defaultTtl (ge_config e)))\<lparr>ba_poolId := poolId\<rparr>) e"

definition announceRemoval :: "'j gossip_env \<Rightarrow> string \<Rightarrow> string option \<Rightarrow> ('j, 'x) GossipEngine \<Rightarrow> ('j, 'x) GossipEngine" where
  "announceRemoval env blockId poolId e = queueAnnouncement
     ((announcement_of env e Remove blockId (gc_defaultTtl (ge_config e)))\<lparr>ba_poolId := poolId\<rparr>) e"

text \<open>The first argument, the blocks of the message, is not used.\<close>

definition announceMessage :: "'j gossip_env \<Rightarrow> string list \<Rightarrow> MessageDeliveryMetadata \<Rightarrow>
    ('j, 'x) GossipEngine \<Rightarrow> ('j, 'x) GossipEngine" where
  "announceMessage env blockIds metadata e = queueAnnouncement
     ((announcement_of env e Add (md_cblBlockId metadata)
         (if md_priority metadata = ''high'' then pc_ttl (mp_high (gc_messagePriority (ge_config e)))
          else pc_ttl (mp_normal (gc_messagePriority (ge_config e)))))
        \<lparr>ba_messageDelivery := Some metadata\<rparr>) e"

definition sendDeliveryAck :: "'j gossip_env \<Rightarrow> DeliveryAckMetadata \<Rightarrow> ('j, 'x) GossipEngine \<Rightarrow> ('j, 'x) GossipEngine" where
  "sendDeliveryAck env ack e = queueAnnouncement
     ((announcement_of env e Ack (da_messageId ack) (gc_defaultTtl (ge_config e)))\<lparr>ba_deliveryAck := Some ack\<rparr>) e"

definition announceHeadUpdate :: "'j gossip_env \<Rightarrow> string \<Rightarrow> string \<Rightarrow> string \<Rightarrow> WriteProof option \<Rightarrow>
    ('j, 'x) GossipEngine \<Rightarrow> ('j, 'x) GossipEngine" where
  "announceHeadUpdate env dbName collectionName blockId proof e = queueAnnouncement
     ((announcement_of env e HeadUpdate blockId (gc_defaultTtl (ge_config e)))
        \<lparr>ba_headUpdate := Some \<lparr>hu_dbName = dbName, hu_collectionName = collectionName\<rparr>,
         ba_writeProof := proof\<rparr>) e"

definition announcePoolRemoval :: "'j gossip_env \<Rightarrow> string \<Rightarrow> ('j, 'x) GossipEngine \<Rightarrow> ('j, 'x) GossipEngine" where
  "announcePoolRemoval env poolId e = queueAnnouncement
     ((announcement_of env e PoolRemove poolId (gc_defaultTtl (ge_config e)))\<lparr>ba_poolId := Some poolId\<rparr>) e"

definition announcePoolDeletion :: "'j gossip_env \<Rightarrow> string \<Rightarrow> ('j, 'x) GossipEngine \<Rightarrow> ('j, 'x) GossipEngine" where
  "announcePoolDeletion env poolId e = queueAnnouncement
     ((announcement_of env e PoolDeleted poolId (gc_defaultTtl (ge_config e)))\<lparr>ba_poolId := Some poolId\<rparr>) e"

definition announceBrightTrustProposal :: "'j gossip_env \<Rightarrow> QuorumProposalMetadata \<Rightarrow>
    ('j, 'x) GossipEngine \<Rightarrow> ('j, 'x) GossipEngine" where
  "announceBrightTrustProposal env meta e = queueAnnouncement
     ((announcement_of env e QuorumProposal (qp_proposalId meta)
         (pc_ttl (mp_high (gc_messagePriority (ge_config e)))))\<lparr>ba_quorumProposal := Some meta\<rparr>) e"

definition announceBrightTrustVote :: "'j gossip_env \<Rightarrow> QuorumVoteMetadata \<Rightarrow>
    ('j, 'x) GossipEngine \<Rightarrow> ('j, 'x) GossipEngine" where
  "announceBrightTrustVote env meta e = queueAnnouncement
     ((announcement_of env e QuorumVote (qv_proposalId meta)
         (pc_ttl (mp_high (gc_messagePriority (ge_config e)))))\<lparr>ba_quorumVote := Some meta\<rparr>) e"

definition announceCblIndexUpdate :: "'j gossip_env \<Rightarrow> string \<Rightarrow> CblIndexEntry \<Rightarrow>
    ('j, 'x) GossipEngine \<Rightarrow> ('j, 'x) GossipEngine" where
  "announceCblIndexUpdate env poolId entr e = queueAnnouncement
     ((announcement_of env e CblIndexUpdate (ci_blockId1 entr) (gc_defaultTtl (ge_config e)))
        \<lparr>ba_poolId := Some poolId, ba_cblIndexEntry := Some entr\<rparr>) e"

definition announceCblIndexDelete :: "'j gossip_env \<Rightarrow> string \<Rightarrow> CblIndexEntry \<Rightarrow>
    ('j, 'x) GossipEngine \<Rightarrow> ('j, 'x) GossipEngine" where
  "announceCblIndexDelete env poolId entr e = queueAnnouncement
     ((announcement_of env e CblIndexDelete (ci_blockId1 entr) (gc_defaultTtl (ge_config e)))
        \<lparr>ba_poolId := Some poolId, ba_cblIndexEntry := Some entr\<rparr>) e"

definition announceAclUpdate :: "'j gossip_env \<Rightarrow> string \<Rightarrow> string \<Rightarrow>
    ('j, 'x) GossipEngine \<Rightarrow> ('j, 'x) GossipEngine" where
  "announceAclUpdate env poolId aclBlockId e = queueAnnouncement
     ((announcement_of env e AclUpdate aclBlockId (gc_defaultTtl (ge_config e)))
        \<lparr>ba_poolId := Some poolId, ba_aclBlockId := Some aclBlockId\<rparr>) e"

section \<open>Pool creation\<close>

definition kBase64Chars :: string where
  "kBase64Chars = ''ABCDEFGHIJKLMNOPQRSTUVWXYZabcdefghijklmnopqrstuvwxyz0123456789+/''"

definition base64_char :: "byte \<Rightarrow> char" where
  "base64_char c = kBase64Chars ! unat c"

text \<open>Three bytes are four characters; the last one or two are padded with \<open>=\<close>.\<close>

fun base64Encode :: "bytes \<Rightarrow> string" where
  "base64Encode (a # b # c # bs) =
     base64_char (drop_bit 2 (a AND 0xfc)) #
     base64_char (push_bit 4 (a AND 0x03) + drop_bit 4 (b AND 0xf0)) #
     base64_char (push_bit 2 (b AND 0x0f) + drop_bit 6 (c AND 0xc0)) #
     base64_char (c AND 0x3f) # base64Encode bs"
| "base64Encode [a, b] =
     [base64_char (drop_bit 2 (a AND 0xfc)),
      base64_char (push_bit 4 (a AND 0x03) + drop_bit 4 (b AND 0xf0)),
      base64_char (push_bit 2 (b AND 0x0f) + drop_bit 6 (0 AND 0xc0)), CHR ''='']"
| "base64Encode [a] =
     [base64_char (drop_bit 2 (a AND 0xfc)),
      base64_char (push_bit 4 (a AND 0x03) + drop_bit 4 (0 AND 0xf0)), CHR ''='', CHR ''='']"
| "base64Encode [] = []"

definition string_bytes :: "string \<Rightarrow> bytes" where
  "string_bytes s = map (\<lambda>c. word_of_nat (of_char c)) s"

definition announcePoolCreation :: "'j gossip_env \<Rightarrow> string \<Rightarrow> PoolAnnouncementMetadata \<Rightarrow>
    ('j, 'x) GossipEngine \<Rightarrow> ('j, 'x) GossipEngine" where
  "announcePoolCreation env poolId meta e =
     (let J = env_json env;
          metaJson = js_obj J [(''blockCount'', js_num J (pa_blockCount meta)),
                               (''totalSize'', js_num J (pa_totalSize meta)),
                               (''encrypted'', js_bool J (pa_encrypted meta))];
          meta' = (if pa_encrypted meta \<and> pa_encryptedMetadata meta = None
                   then (case env_encrypt env (string_bytes (js_dump J metaJson)) (ge_publicKey e) of
                           Inl _ \<Rightarrow> meta
                         | Inr encrypted \<Rightarrow> meta\<lparr>pa_encryptedMetadata := Some (base64Encode encrypted)\<rparr>)
                   else meta)
      in queueAnnouncement
           ((announcement_of env e PoolAnnounce poolId (gc_defaultTtl (ge_config e)))
              \<lparr>ba_poolId := Some poolId, ba_poolAnnouncement := Some meta'\<rparr>) e)"

section \<open>Sending\<close>

definition swap_at :: "'a list \<Rightarrow> nat \<Rightarrow> nat \<Rightarrow> 'a list" where
  "swap_at xs i j = xs[i := xs ! j, j := xs ! i]"

text \<open>\<open>shuffle random i xs k\<close>: the rounds \<open>i, i - 1, \<dots>, 1\<close> of the loop, the next number drawn being
  the \<open>k\<close>-th.\<close>

fun shuffle :: "(nat \<Rightarrow> nat) \<Rightarrow> nat \<Rightarrow> 'a list \<Rightarrow> nat \<Rightarrow> 'a list \<times> nat" where
  "shuffle random 0 xs k = (xs, k)"
| "shuffle random (Suc i) xs k = shuffle random i (swap_at xs (Suc i) (random k mod (Suc i + 1))) (k + 1)"

text \<open>A negative count becomes a huge \<open>size_t\<close>.\<close>

definition size_t :: "int \<Rightarrow> nat" where
  "size_t n = nat (n mod 2 ^ 64)"

definition selectRandomPeers :: "'j gossip_env \<Rightarrow> int \<Rightarrow> ('j, 'x) GossipEngine \<Rightarrow>
    string list \<times> ('j, 'x) GossipEngine" where
  "selectRandomPeers env cnt e =
     (let allPeers = getConnectedPeerIds (ge_peerManager e)
      in if allPeers = [] then ([], e)
         else let (peers, draws) = shuffle (env_random env) (length allPeers - 1) allPeers (ge_draws e)
              in (take (min (size_t cnt) (length allPeers)) peers, e\<lparr>ge_draws := draws\<rparr>))"

definition fanout_of :: "GossipConfig \<Rightarrow> BlockAnnouncement \<Rightarrow> int" where
  "fanout_of config a =
     (case ba_messageDelivery a of
        Some m \<Rightarrow> if md_priority m = ''high'' then pc_fanout (mp_high (gc_messagePriority config))
                  else pc_fanout (mp_normal (gc_messagePriority config))
      | None \<Rightarrow> if ba_type a = QuorumProposal \<or> ba_type a = QuorumVote
                then pc_fanout (mp_high (gc_messagePriority config)) else gc_fanout config)"

definition sensitive :: "BlockAnnouncement \<Rightarrow> bool" where
  "sensitive a \<longleftrightarrow> ba_messageDelivery a \<noteq> None \<or> ba_deliveryAck a \<noteq> None"

text \<open>\<open>toJson\<close> never throws: the enumeration has a name for each of its constructors.\<close>

definition ann_json :: "'j json_api \<Rightarrow> BlockAnnouncement \<Rightarrow> 'j" where
  "ann_json J a = projr (toJson J a)"

definition batch_json :: "'j json_api \<Rightarrow> BlockAnnouncement list \<Rightarrow> 'j" where
  "batch_json J batch = js_arr J (map (ann_json J) batch)"

definition envelope :: "'j json_api \<Rightarrow> bytes \<Rightarrow> 'j" where
  "envelope J encrypted = js_obj J [(''encrypted'', js_bool J True),
     (''data'', js_arr J (map (\<lambda>b. js_num J (uint b)) encrypted))]"

definition encryptAndSendBatch :: "'j gossip_env \<Rightarrow> string \<Rightarrow> BlockAnnouncement list \<Rightarrow> PeerManager \<Rightarrow> PeerManager" where
  "encryptAndSendBatch env peerId batch pm =
     (let J = env_json env;
          payload = js_dump J (batch_json J batch);
          plain = sendToPeer peerId payload pm
      in if list_ex sensitive batch then
           (case getPeer peerId pm of
              None \<Rightarrow> plain
            | Some peerInfo \<Rightarrow>
                if pi_publicKey peerInfo = [] then plain
                else (case env_encrypt env (string_bytes payload) (pi_publicKey peerInfo) of
                        Inl _ \<Rightarrow> plain
                      | Inr encrypted \<Rightarrow> sendToPeer peerId (js_dump J (envelope J encrypted)) pm))
         else plain)"

definition forwardAnnouncement :: "'j gossip_env \<Rightarrow> BlockAnnouncement \<Rightarrow> ('j, 'x) GossipEngine \<Rightarrow> ('j, 'x) GossipEngine" where
  "forwardAnnouncement env a e =
     (if ba_ttl a \<le> 0 then e
      else
        let forwarded = a\<lparr>ba_ttl := ba_ttl a - 1\<rparr>;
            (targets, e1) = selectRandomPeers env (fanout_of (ge_config e) forwarded) e;
            send = (\<lambda>peerId pm.
              if sensitive forwarded then encryptAndSendBatch env peerId [forwarded] pm
              else sendToPeer peerId (js_dump (env_json env) (batch_json (env_json env) [forwarded])) pm)
        in e1\<lparr>ge_peerManager := fold send targets (ge_peerManager e1)\<rparr>)"

section \<open>Batches\<close>

definition send_announcement :: "'j gossip_env \<Rightarrow> BlockAnnouncement \<Rightarrow> ('j, 'x) GossipEngine \<Rightarrow> ('j, 'x) GossipEngine" where
  "send_announcement env a e =
     (let (targets, e1) = selectRandomPeers env (fanout_of (ge_config e) a) e
      in e1\<lparr>ge_peerManager := fold (\<lambda>peerId. encryptAndSendBatch env peerId [a]) targets (ge_peerManager e1)\<rparr>)"

text \<open>The loop over chunks, which does not end when the chunks are empty.\<close>

partial_function (option) flush_chunks :: "'j gossip_env \<Rightarrow> nat \<Rightarrow> BlockAnnouncement list \<Rightarrow> nat \<Rightarrow>
    ('j, 'x) GossipEngine \<Rightarrow> ('j, 'x) GossipEngine option" where
  "flush_chunks env maxBatch batch offset e =
     (if offset < length batch
      then let fin = min (offset + maxBatch) (length batch);
               chunk = take (fin - offset) (drop offset batch)
           in flush_chunks env maxBatch batch (offset + maxBatch) (fold (send_announcement env) chunk e)
      else Some e)"

text \<open>\<open>None\<close>: the call does not return.\<close>

definition batchFlush :: "'j gossip_env \<Rightarrow> ('j, 'x) GossipEngine \<Rightarrow> ('j, 'x) GossipEngine option" where
  "batchFlush env e =
     (let batch = ge_pending e; e1 = e\<lparr>ge_pending := []\<rparr>
      in if batch = [] then Some e1
         else if getConnectedPeerIds (ge_peerManager e1) = [] then Some e1
         else flush_chunks env (size_t (gc_maxBatchSize (ge_config e1))) batch 0 e1)"

definition flushAnnouncements :: "'j gossip_env \<Rightarrow> ('j, 'x) GossipEngine \<Rightarrow> ('j, 'x) GossipEngine option" where
  "flushAnnouncements env e = batchFlush env e"

definition scheduleBatchTimer :: "('j, 'x) GossipEngine \<Rightarrow> ('j, 'x) GossipEngine" where
  "scheduleBatchTimer e = (if \<not> ge_running e \<or> \<not> ge_batchTimer e then e else e\<lparr>ge_waiting := True\<rparr>)"

definition batchTimerFired :: "'j gossip_env \<Rightarrow> bool \<Rightarrow> ('j, 'x) GossipEngine \<Rightarrow> ('j, 'x) GossipEngine option" where
  "batchTimerFired env failed e =
     (let e1 = e\<lparr>ge_waiting := False\<rparr>
      in if failed \<or> \<not> ge_running e1 then Some e1 else map_option scheduleBatchTimer (batchFlush env e1))"

definition start :: "('j, 'x) GossipEngine \<Rightarrow> ('j, 'x) GossipEngine" where
  "start e = (if ge_running e then e else scheduleBatchTimer (e\<lparr>ge_running := True, ge_batchTimer := True\<rparr>))"

definition stop :: "'j gossip_env \<Rightarrow> ('j, 'x) GossipEngine \<Rightarrow> ('j, 'x) GossipEngine option" where
  "stop env e = batchFlush env (e\<lparr>ge_running := False, ge_batchTimer := False, ge_waiting := False\<rparr>)"

section \<open>Receiving\<close>

definition notify :: "'x handler list \<Rightarrow> BlockAnnouncement \<Rightarrow> ('j, 'x) GossipEngine \<Rightarrow> ('j, 'x) GossipEngine" where
  "notify handlers a e = e\<lparr>ge_client := fold (\<lambda>handler. handler a) handlers (ge_client e)\<rparr>"

text \<open>Pairs of hexadecimal digits; an odd last one is ignored, and \<open>std::stoi\<close> may throw.\<close>

fun hex_pairs :: "string \<Rightarrow> bytes res" where
  "hex_pairs (a # b # s) =
     (case stoi16 [a, b] of
        None \<Rightarrow> Inl (InvalidArgument ''stoi'')
      | Some n \<Rightarrow> bind_res (hex_pairs s) (\<lambda>bs. Inr (word_of_int n # bs)))"
| "hex_pairs s = Inr []"

text \<open>Whether the signature of the proof holds, over the three names the proof itself carries.\<close>

definition checkWriteProof :: "'j gossip_env \<Rightarrow> WriteProof \<Rightarrow> bool res" where
  "checkWriteProof env proof =
     (let dataBytes = string_bytes (wp_dbName proof @ wp_collectionName proof @ wp_blockId proof)
      in bind_res (hex_pairs (wp_signerPublicKey proof)) (\<lambda>pubKeyBytes.
         bind_res (hex_pairs (wp_signature proof)) (\<lambda>sigBytes.
         Inr (env_verify env dataBytes sigBytes pubKeyBytes))))"

definition head_key :: "HeadUpdateMetadata \<Rightarrow> string" where
  "head_key h = hu_dbName h @ '':'' @ hu_collectionName h"

definition applyHeadUpdate :: "'j gossip_env \<Rightarrow> BlockAnnouncement \<Rightarrow> ('j, 'x) GossipEngine \<Rightarrow>
    ('j, 'x) GossipEngine \<times> unit res" where
  "applyHeadUpdate env a e =
     (case ba_headUpdate a of
        None \<Rightarrow> (e, Inr ())
      | Some h \<Rightarrow>
          (let verified = (case ba_writeProof a of None \<Rightarrow> Inr True | Some proof \<Rightarrow> checkWriteProof env proof)
           in case verified of
                Inl err \<Rightarrow> (e, Inl err)
              | Inr False \<Rightarrow> (e, Inr ())
              | Inr True \<Rightarrow>
                  (let (r, result) = setHead (env_json env) (env_taken env) (env_io env) (env_headNow env)
                                       (head_key h) (ba_blockId a) (ge_headRegistry e)
                   in (e\<lparr>ge_headRegistry := r\<rparr>, result))))"

text \<open>The acknowledgment goes to the first recipient that is a user of this node.\<close>

definition deliver :: "'j gossip_env \<Rightarrow> BlockAnnouncement \<Rightarrow> MessageDeliveryMetadata \<Rightarrow>
    ('j, 'x) GossipEngine \<Rightarrow> ('j, 'x) GossipEngine" where
  "deliver env a m e =
     (let e1 = notify (ge_messageDeliveryHandlers e) a e
      in if md_ackRequired m
         then sendDeliveryAck env
           \<lparr>da_messageId = md_messageId m,
            da_recipientId = (case find (\<lambda>rid. rid \<in> ge_localUserIds e) (md_recipientIds m) of
                                None \<Rightarrow> [] | Some rid \<Rightarrow> rid),
            da_status = ''delivered'', da_originalSenderNode = ba_nodeId a\<rparr> e1
         else e1)"

definition local_match :: "('j, 'x) GossipEngine \<Rightarrow> MessageDeliveryMetadata \<Rightarrow> bool" where
  "local_match e m = list_ex (\<lambda>rid. rid \<in> ge_localUserIds e) (md_recipientIds m)"

text \<open>The \<open>switch\<close> of \<open>handleAnnouncement\<close>: the new state, whether to forward, or an exception.\<close>

definition handle_by_type :: "'j gossip_env \<Rightarrow> BlockAnnouncement \<Rightarrow> ('j, 'x) GossipEngine \<Rightarrow>
    ('j, 'x) GossipEngine \<times> bool res" where
  "handle_by_type env a e = (case ba_type a of
     Add \<Rightarrow>
       (case ba_messageDelivery a of
          None \<Rightarrow> (e, Inr True)
        | Some m \<Rightarrow> if local_match e m then (deliver env a m e, Inr False) else (e, Inr True))
   | Ack \<Rightarrow> ((if ba_deliveryAck a \<noteq> None then notify (ge_deliveryAckHandlers e) a e else e), Inr True)
   | QuorumProposal \<Rightarrow> (notify (ge_brightTrustProposalHandlers e) a e, Inr True)
   | QuorumVote \<Rightarrow> (notify (ge_brightTrustVoteHandlers e) a e, Inr True)
   | HeadUpdate \<Rightarrow> (let (e1, result) = applyHeadUpdate env a e in (e1, bind_res result (\<lambda>_. Inr True)))
   | PoolAnnounce \<Rightarrow>
       ((case (ba_poolId a, ba_poolAnnouncement a) of
           (Some poolId, Some meta) \<Rightarrow>
             e\<lparr>ge_peerManager := updatePoolCache poolId meta (ba_nodeId a) (ge_peerManager e)\<rparr>
         | _ \<Rightarrow> e), Inr True)
   | PoolDeleted \<Rightarrow>
       ((case ba_poolId a of
           Some poolId \<Rightarrow> e\<lparr>ge_peerManager := removePoolFromCache poolId (ge_peerManager e)\<rparr>
         | None \<Rightarrow> e), Inr True)
   | _ \<Rightarrow> (e, Inr True))"

definition handleAnnouncement :: "'j gossip_env \<Rightarrow> BlockAnnouncement \<Rightarrow> ('j, 'x) GossipEngine \<Rightarrow>
    ('j, 'x) GossipEngine \<times> unit res" where
  "handleAnnouncement env a e =
     (if \<not> validate a then (e, Inr ())
      else
        case handle_by_type env a (notify (ge_announcementHandlers e) a e) of
          (e1, Inl err) \<Rightarrow> (e1, Inl err)
        | (e1, Inr shouldForward) \<Rightarrow>
            ((if shouldForward \<and> 0 < ba_ttl a then forwardAnnouncement env a e1 else e1), Inr ()))"

section \<open>Subscriptions and inspection\<close>

definition onAnnouncement :: "'x handler \<Rightarrow> ('j, 'x) GossipEngine \<Rightarrow> ('j, 'x) GossipEngine" where
  "onAnnouncement h e = e\<lparr>ge_announcementHandlers := ge_announcementHandlers e @ [h]\<rparr>"

definition onMessageDelivery :: "'x handler \<Rightarrow> ('j, 'x) GossipEngine \<Rightarrow> ('j, 'x) GossipEngine" where
  "onMessageDelivery h e = e\<lparr>ge_messageDeliveryHandlers := ge_messageDeliveryHandlers e @ [h]\<rparr>"

definition onDeliveryAck :: "'x handler \<Rightarrow> ('j, 'x) GossipEngine \<Rightarrow> ('j, 'x) GossipEngine" where
  "onDeliveryAck h e = e\<lparr>ge_deliveryAckHandlers := ge_deliveryAckHandlers e @ [h]\<rparr>"

definition onBrightTrustProposal :: "'x handler \<Rightarrow> ('j, 'x) GossipEngine \<Rightarrow> ('j, 'x) GossipEngine" where
  "onBrightTrustProposal h e = e\<lparr>ge_brightTrustProposalHandlers := ge_brightTrustProposalHandlers e @ [h]\<rparr>"

definition onBrightTrustVote :: "'x handler \<Rightarrow> ('j, 'x) GossipEngine \<Rightarrow> ('j, 'x) GossipEngine" where
  "onBrightTrustVote h e = e\<lparr>ge_brightTrustVoteHandlers := ge_brightTrustVoteHandlers e @ [h]\<rparr>"

definition setLocalUserIds :: "string set \<Rightarrow> ('j, 'x) GossipEngine \<Rightarrow> ('j, 'x) GossipEngine" where
  "setLocalUserIds userIds e = e\<lparr>ge_localUserIds := userIds\<rparr>"

definition getPendingAnnouncements :: "('j, 'x) GossipEngine \<Rightarrow> BlockAnnouncement list" where
  "getPendingAnnouncements e = ge_pending e"

definition getConfig :: "('j, 'x) GossipEngine \<Rightarrow> GossipConfig" where
  "getConfig e = ge_config e"

end
