(* ===== verification/Jwt.thy ===== *)
theory Jwt
  imports Json
begin

text \<open>
  The tokens clients authenticate with: \<open>JwtClaims\<close> of \<open>gossip/websocket_server.hpp\<close> and how the
  WebSocket server and the introspection API read them. The library \<open>jwt-cpp\<close> is a parameter:
  \<open>jwt_verify now secret token\<close> is the payload of a token whose HS256 signature, issuer and
  expiry are in order, \<open>None\<close> when decoding or verifying throws. Times are in milliseconds.
\<close>

datatype MemberType = Admin | System | User | Anonymous

record JwtClaims =
  jc_memberId :: string
  jc_memberType :: MemberType
  jc_permissions :: "string list"
  jc_expiresAt :: int

record 'j jwt_api =
  jwt_verify :: "int \<Rightarrow> string \<Rightarrow> string \<Rightarrow> 'j option"
  jwt_sign :: "string \<Rightarrow> 'j \<Rightarrow> string"

definition mkJwtClaims :: JwtClaims where
  "mkJwtClaims = \<lparr>jc_memberId = [], jc_memberType = Anonymous, jc_permissions = [], jc_expiresAt = 0\<rparr>"

definition member_type_number :: "MemberType \<Rightarrow> nat" where
  "member_type_number t = (case t of Admin \<Rightarrow> 0 | System \<Rightarrow> 1 | User \<Rightarrow> 2 | Anonymous \<Rightarrow> 3)"

text \<open>\<open>static_cast<MemberType>(std::clamp(mt, 0, 3))\<close>\<close>

definition clamp_member_type :: "int \<Rightarrow> MemberType" where
  "clamp_member_type mt = (if mt \<le> 0 then Admin else if mt = 1 then System else if mt = 2 then User else Anonymous)"

text \<open>A claim that is absent leaves the default; one of the wrong type throws.\<close>

definition claim :: "'j json_api \<Rightarrow> ('j \<Rightarrow> 'a res) \<Rightarrow> 'j \<Rightarrow> string \<Rightarrow> 'a \<Rightarrow> 'a res" where
  "claim J rd payload k def =
     bind_res (optional J rd payload k) (\<lambda>v. Inr (case v of None \<Rightarrow> def | Some x \<Rightarrow> x))"

text \<open>\<open>as_set\<close> is a \<open>std::set\<close>; \<open>as_date\<close> counts seconds.\<close>

definition read_claims :: "'j json_api \<Rightarrow> 'j \<Rightarrow> JwtClaims res" where
  "read_claims J payload =
     bind_res (claim J (get_string J) payload ''memberId'' []) (\<lambda>memberId.
     bind_res (claim J (\<lambda>j. bind_res (get_int J j) (\<lambda>mt. Inr (clamp_member_type mt))) payload ''memberType'' Anonymous)
       (\<lambda>memberType.
     bind_res (claim J (get_strings J) payload ''permissions'' []) (\<lambda>permissions.
     bind_res (claim J (read_as (js_as_num J)) payload ''exp'' 0) (\<lambda>exp.
     Inr \<lparr>jc_memberId = memberId, jc_memberType = memberType,
       jc_permissions = sort (remdups permissions), jc_expiresAt = 1000 * exp\<rparr>))))"

definition validateJwt :: "'j json_api \<Rightarrow> 'j jwt_api \<Rightarrow> int \<Rightarrow> string \<Rightarrow> string \<Rightarrow> JwtClaims option" where
  "validateJwt J W now secret token =
     (if token = [] then None
      else case jwt_verify W now secret token of
             None \<Rightarrow> None
           | Some payload \<Rightarrow> (case read_claims J payload of Inl _ \<Rightarrow> None | Inr claims \<Rightarrow> Some claims))"

text \<open>The type of the member becomes the text of its number.\<close>

definition jwt_payload :: "'j json_api \<Rightarrow> JwtClaims \<Rightarrow> 'j" where
  "jwt_payload J claims = js_obj J (
     [(''iss'', js_str J ''brightchain''), (''memberId'', js_str J (jc_memberId claims)),
      (''memberType'', js_str J (digits (member_type_number (jc_memberType claims)))),
      (''exp'', js_num J (jc_expiresAt claims div 1000))] @
     (if jc_permissions claims \<noteq> []
      then [(''permissions'', js_arr J (map (js_str J) (sort (remdups (jc_permissions claims)))))] else []))"

definition createJwt :: "'j json_api \<Rightarrow> 'j jwt_api \<Rightarrow> string \<Rightarrow> JwtClaims \<Rightarrow> string" where
  "createJwt J W secret claims = jwt_sign W secret (jwt_payload J claims)"

section \<open>Permissions\<close>

definition isAdminOrSystem :: "MemberType \<Rightarrow> bool" where
  "isAdminOrSystem t \<longleftrightarrow> t = Admin \<or> t = System"

definition hasPoolReadPermission :: "JwtClaims \<Rightarrow> string \<Rightarrow> bool" where
  "hasPoolReadPermission claims poolId \<longleftrightarrow> ''pool:'' @ poolId @ '':read'' \<in> set (jc_permissions claims)"

section \<open>Reading a created token\<close>

context json_laws
begin

lemma payload_distinct:
  "distinct (map fst (
     [(''iss'', js_str J ''brightchain''), (''memberId'', js_str J (jc_memberId claims)),
      (''memberType'', js_str J (digits (member_type_number (jc_memberType claims)))),
      (''exp'', js_num J (jc_expiresAt claims div 1000))] @
     (if jc_permissions claims \<noteq> []
      then [(''permissions'', js_arr J (map (js_str J) (sort (remdups (jc_permissions claims)))))] else [])))"
  by simp

lemma payload_unreadable: "read_claims J (jwt_payload J claims) = Inl json_type_error"
  using payload_distinct [of claims]
  by (simp add: read_claims_def jwt_payload_def claim_def optional_def contains_obj field_obj get_string get_int_def
      read_as_def str_num)

end

end
