(* ===== verification/WebSocketServer.thy ===== *)
theory WebSocketServer
  imports GossipEngine Jwt
begin

text \<open>
  \<open>gossip/websocket_server.{hpp,cpp}\<close>: the connections of peers, authenticated by an ECIES
  challenge, whose messages go to the gossip engine, and those of clients, authenticated by a
  token, who subscribe to events. The callbacks of the asynchronous calls are operations of
  their own: a connection was accepted, a message was read, a timer fired. A socket is whether
  it is open; \<open>ws_sent\<close> is what was written to clients and \<open>ws_closed\<close> the close frames, with an
  empty name for a connection that has no session. Times are in milliseconds.
\<close>

section \<open>State\<close>

datatype EventAccessTier = AdminTier | PoolScoped | MemberScoped

record WebSocketEvent =
  we_event :: string
  we_data :: string
  we_accessTier :: EventAccessTier
  we_targetPoolId :: "string option"
  we_targetMemberId :: "string option"

record ClientSession =
  cs_sessionId :: string
  cs_claims :: JwtClaims
  cs_subscribedEvents :: "string set"
  cs_lastPongReceived :: int
  cs_authenticated :: bool
  cs_tokenExpiringSent :: bool

record ('j, 'x) WebSocketServer =
  ws_engine :: "('j, 'x) GossipEngine"
  ws_jwtSecret :: string
  ws_acceptor :: bool
  ws_clientSessions :: "(string \<times> ClientSession) list"
  ws_clientStreams :: "(string \<times> bool) list"
  ws_sent :: "(string \<times> string) list"
  ws_closed :: "(string \<times> nat) list"
  ws_nodes :: "string list"
  ws_heartbeatTimer :: bool
  ws_heartbeatWaiting :: bool
  ws_jwtTimer :: bool
  ws_jwtWaiting :: bool
  ws_heartbeatTimeoutMs :: int
  ws_jwtGracePeriodMs :: int
  ws_running :: bool

definition mkWebSocketServer :: "('j, 'x) GossipEngine \<Rightarrow> string \<Rightarrow> ('j, 'x) WebSocketServer" where
  "mkWebSocketServer engine jwtSecret =
     \<lparr>ws_engine = engine, ws_jwtSecret = jwtSecret, ws_acceptor = False, ws_clientSessions = [], ws_clientStreams = [],
      ws_sent = [], ws_closed = [], ws_nodes = [], ws_heartbeatTimer = False, ws_heartbeatWaiting = False,
      ws_jwtTimer = False, ws_jwtWaiting = False, ws_heartbeatTimeoutMs = 30000, ws_jwtGracePeriodMs = 30000,
      ws_running = False\<rparr>"

section \<open>Who may see an event\<close>

definition getAccessTierForEvent :: "string \<Rightarrow> EventAccessTier" where
  "getAccessTierForEvent eventType =
     (if eventType \<in> {''peer:connected'', ''peer:disconnected'', ''storage:alert''} then AdminTier
      else if eventType \<in> {''pool:changed'', ''pool:created'', ''pool:deleted''} then PoolScoped
      else if eventType = ''energy:updated'' then MemberScoped
      else AdminTier)"

definition isClientAuthorizedForEvent :: "JwtClaims \<Rightarrow> WebSocketEvent \<Rightarrow> bool" where
  "isClientAuthorizedForEvent claims event = (case we_accessTier event of
     AdminTier \<Rightarrow> jc_memberType claims = Admin \<or> jc_memberType claims = System
   | PoolScoped \<Rightarrow>
       if jc_memberType claims = Admin \<or> jc_memberType claims = System then True
       else (case we_targetPoolId event of None \<Rightarrow> False
             | Some poolId \<Rightarrow> ''pool:'' @ poolId @ '':read'' \<in> set (jc_permissions claims))
   | MemberScoped \<Rightarrow> (case we_targetMemberId event of None \<Rightarrow> False | Some m \<Rightarrow> jc_memberId claims = m))"

section \<open>Sessions\<close>

definition addClientSession :: "ClientSession \<Rightarrow> ('j, 'x) WebSocketServer \<Rightarrow> ('j, 'x) WebSocketServer" where
  "addClientSession session s =
     s\<lparr>ws_clientSessions := AList.update (cs_sessionId session) session (ws_clientSessions s)\<rparr>"

definition removeClientSession :: "string \<Rightarrow> ('j, 'x) WebSocketServer \<Rightarrow> ('j, 'x) WebSocketServer" where
  "removeClientSession sessionId s = s\<lparr>ws_clientSessions := map_del sessionId (ws_clientSessions s)\<rparr>"

definition getClientSession :: "string \<Rightarrow> ('j, 'x) WebSocketServer \<Rightarrow> ClientSession option" where
  "getClientSession sessionId s = map_of (ws_clientSessions s) sessionId"

definition getClientSessions :: "('j, 'x) WebSocketServer \<Rightarrow> ClientSession list" where
  "getClientSessions s = map snd (ws_clientSessions s)"

definition change_session :: "string \<Rightarrow> (ClientSession \<Rightarrow> ClientSession) \<Rightarrow> ('j, 'x) WebSocketServer \<Rightarrow>
    ('j, 'x) WebSocketServer" where
  "change_session sessionId f s =
     (case map_of (ws_clientSessions s) sessionId of
        None \<Rightarrow> s
      | Some session \<Rightarrow> s\<lparr>ws_clientSessions := AList.update sessionId (f session) (ws_clientSessions s)\<rparr>)"

definition subscribeClient :: "string \<Rightarrow> string \<Rightarrow> ('j, 'x) WebSocketServer \<Rightarrow> ('j, 'x) WebSocketServer" where
  "subscribeClient sessionId eventType =
     change_session sessionId (\<lambda>cs. cs\<lparr>cs_subscribedEvents := insert eventType (cs_subscribedEvents cs)\<rparr>)"

definition unsubscribeClient :: "string \<Rightarrow> string \<Rightarrow> ('j, 'x) WebSocketServer \<Rightarrow> ('j, 'x) WebSocketServer" where
  "unsubscribeClient sessionId eventType =
     change_session sessionId (\<lambda>cs. cs\<lparr>cs_subscribedEvents := cs_subscribedEvents cs - {eventType}\<rparr>)"

definition erase_stream :: "string \<Rightarrow> ('j, 'x) WebSocketServer \<Rightarrow> ('j, 'x) WebSocketServer" where
  "erase_stream sessionId s = s\<lparr>ws_clientStreams := map_del sessionId (ws_clientStreams s)\<rparr>"

text \<open>A session and its stream are gone, the connection closed with a code if it was open.\<close>

definition drop_session :: "nat \<Rightarrow> string \<Rightarrow> ('j, 'x) WebSocketServer \<Rightarrow> ('j, 'x) WebSocketServer" where
  "drop_session code sessionId s =
     (let s1 = (if map_of (ws_clientStreams s) sessionId = Some True
                then s\<lparr>ws_closed := ws_closed s @ [(sessionId, code)]\<rparr> else s)
      in erase_stream sessionId (removeClientSession sessionId s1))"

text \<open>\<open>fails\<close>: the sessions whose socket cannot be written to.\<close>

definition sendToClient :: "(string \<Rightarrow> bool) \<Rightarrow> string \<Rightarrow> string \<Rightarrow> ('j, 'x) WebSocketServer \<Rightarrow> ('j, 'x) WebSocketServer" where
  "sendToClient fails sessionId message s =
     (if map_of (ws_clientStreams s) sessionId \<noteq> Some True then s
      else if fails sessionId then erase_stream sessionId (removeClientSession sessionId s)
      else s\<lparr>ws_sent := ws_sent s @ [(sessionId, message)]\<rparr>)"

section \<open>Events\<close>

definition event_message :: "'j json_api \<Rightarrow> WebSocketEvent \<Rightarrow> string" where
  "event_message J event = js_dump J (js_obj J (
     [(''event'', js_str J (we_event event)), (''data'', js_str J (we_data event))] @
     entry ''targetPoolId'' (js_str J) (we_targetPoolId event) @
     entry ''targetMemberId'' (js_str J) (we_targetMemberId event)))"

definition event_targets :: "WebSocketEvent \<Rightarrow> ('j, 'x) WebSocketServer \<Rightarrow> string list" where
  "event_targets event s = map fst (filter (\<lambda>(sid, session).
     we_event event \<in> cs_subscribedEvents session \<and> isClientAuthorizedForEvent (cs_claims session) event)
     (ws_clientSessions s))"

definition broadcastEvent :: "'j json_api \<Rightarrow> (string \<Rightarrow> bool) \<Rightarrow> WebSocketEvent \<Rightarrow>
    ('j, 'x) WebSocketServer \<Rightarrow> ('j, 'x) WebSocketServer" where
  "broadcastEvent J fails event s =
     fold (\<lambda>sessionId. sendToClient fails sessionId (event_message J event)) (event_targets event s) s"

section \<open>Connections\<close>

datatype route = NodeRoute string | ClientRoute string | UnknownRoute

text \<open>What follows the first occurrence of a text.\<close>

fun find_after :: "'a list \<Rightarrow> 'a list \<Rightarrow> 'a list option" where
  "find_after pat [] = (if pat = [] then Some [] else None)"
| "find_after pat (c # s) =
     (if take (length pat) (c # s) = pat then Some (drop (length pat) (c # s)) else find_after pat s)"

definition token_of :: "string \<Rightarrow> string" where
  "token_of target =
     (case find_after ''?'' target of
        None \<Rightarrow> []
      | Some query \<Rightarrow> (case find_after ''token='' query of
                        None \<Rightarrow> [] | Some token \<Rightarrow> takeWhile (\<lambda>c. c \<noteq> CHR ''&'') token))"

definition route_of :: "string \<Rightarrow> route" where
  "route_of target =
     (if take 9 target = ''/ws/node/'' then NodeRoute (drop 9 target)
      else if take 10 target = ''/ws/client'' then ClientRoute (token_of target)
      else UnknownRoute)"

text \<open>
  \<open>exchange\<close>: what the peer answers to the encrypted challenge, if the writing and the reading
  succeed.
\<close>

definition authenticateEcies :: "(bytes \<Rightarrow> bytes \<Rightarrow> bytes res) \<Rightarrow> bytes \<Rightarrow> (bytes \<Rightarrow> bytes option) \<Rightarrow> bytes \<Rightarrow> bool" where
  "authenticateEcies encrypt challenge exchange peerPublicKey =
     (case encrypt challenge peerPublicKey of
        Inl _ \<Rightarrow> False
      | Inr encrypted \<Rightarrow> (case exchange encrypted of None \<Rightarrow> False | Some response \<Rightarrow> response = challenge))"

definition startNodeReadLoop :: "string \<Rightarrow> ('j, 'x) WebSocketServer \<Rightarrow> ('j, 'x) WebSocketServer" where
  "startNodeReadLoop nodeId s = (if \<not> ws_running s then s else s\<lparr>ws_nodes := ws_nodes s @ [nodeId]\<rparr>)"

definition handleNodeConnection :: "'j gossip_env \<Rightarrow> bytes \<Rightarrow> (bytes \<Rightarrow> bytes option) \<Rightarrow> string \<Rightarrow>
    ('j, 'x) WebSocketServer \<Rightarrow> ('j, 'x) WebSocketServer" where
  "handleNodeConnection env challenge exchange nodeId s =
     (let reject = s\<lparr>ws_closed := ws_closed s @ [([], 1008)]\<rparr>
      in case getPeer nodeId (ge_peerManager (ws_engine s)) of
           None \<Rightarrow> reject
         | Some peer \<Rightarrow>
             if pi_publicKey peer = [] then reject
             else if \<not> authenticateEcies (env_encrypt env) challenge exchange (pi_publicKey peer) then reject
             else startNodeReadLoop nodeId s)"

text \<open>\<open>ticks\<close> is the count of the steady clock, \<open>pongNow\<close> its time; \<open>now\<close> is the system clock.\<close>

definition handleClientConnection :: "'j json_api \<Rightarrow> 'j jwt_api \<Rightarrow> int \<Rightarrow> nat \<Rightarrow> int \<Rightarrow> string \<Rightarrow>
    ('j, 'x) WebSocketServer \<Rightarrow> ('j, 'x) WebSocketServer" where
  "handleClientConnection J W now ticks pongNow token s =
     (case validateJwt J W now (ws_jwtSecret s) token of
        None \<Rightarrow> s\<lparr>ws_closed := ws_closed s @ [([], 4001)]\<rparr>
      | Some claims \<Rightarrow>
          let sessionId = ''client-'' @ jc_memberId claims @ ''-'' @ digits ticks;
              session = \<lparr>cs_sessionId = sessionId, cs_claims = claims, cs_subscribedEvents = {},
                         cs_lastPongReceived = pongNow, cs_authenticated = True, cs_tokenExpiringSent = False\<rparr>;
              s1 = addClientSession session s
          in s1\<lparr>ws_clientStreams := AList.update sessionId True (ws_clientStreams s1)\<rparr>)"

definition accepted :: "'j gossip_env \<Rightarrow> 'j jwt_api \<Rightarrow> bytes \<Rightarrow> (bytes \<Rightarrow> bytes option) \<Rightarrow> int \<Rightarrow> nat \<Rightarrow> int \<Rightarrow> string \<Rightarrow>
    ('j, 'x) WebSocketServer \<Rightarrow> ('j, 'x) WebSocketServer" where
  "accepted env W challenge exchange now ticks pongNow target s =
     (if \<not> ws_running s then s
      else case route_of target of
        NodeRoute nodeId \<Rightarrow> handleNodeConnection env challenge exchange nodeId s
      | ClientRoute token \<Rightarrow> handleClientConnection (env_json env) W now ticks pongNow token s
      | UnknownRoute \<Rightarrow> s)"

section \<open>Messages\<close>

text \<open>
  A message of a peer: \<open>parse\<close> is \<open>nlohmann::json::parse\<close>. Whatever throws is swallowed and the
  loop reads on; a failed read ends it.
\<close>

definition nodeMessage :: "'j gossip_env \<Rightarrow> (string \<Rightarrow> 'j option) \<Rightarrow> bool \<Rightarrow> string \<Rightarrow> string \<Rightarrow>
    ('j, 'x) WebSocketServer \<Rightarrow> ('j, 'x) WebSocketServer" where
  "nodeMessage env parse failed nodeId msg s =
     (if failed \<or> \<not> ws_running s then s\<lparr>ws_nodes := remove1 nodeId (ws_nodes s)\<rparr>
      else case parse msg of
        None \<Rightarrow> s
      | Some j \<Rightarrow>
          (case fromJson (env_json env) j of
             Inl _ \<Rightarrow> s
           | Inr a \<Rightarrow> s\<lparr>ws_engine := fst (handleAnnouncement env a (ws_engine s))\<rparr>))"

definition clientMessage :: "'j json_api \<Rightarrow> (string \<Rightarrow> 'j option) \<Rightarrow> bool \<Rightarrow> string \<Rightarrow> string \<Rightarrow>
    ('j, 'x) WebSocketServer \<Rightarrow> ('j, 'x) WebSocketServer" where
  "clientMessage J parse failed sessionId msg s =
     (if failed \<or> \<not> ws_running s then erase_stream sessionId (removeClientSession sessionId s)
      else case parse msg of
        None \<Rightarrow> s
      | Some j \<Rightarrow>
          if contains J j ''action'' \<and> contains J j ''event''
          then (case (field J (get_string J) j ''action'', field J (get_string J) j ''event'') of
                  (Inr action, Inr eventType) \<Rightarrow>
                    if action = ''subscribe'' then subscribeClient sessionId eventType s
                    else if action = ''unsubscribe'' then unsubscribeClient sessionId eventType s
                    else s
                | _ \<Rightarrow> s)
          else s)"

section \<open>Timers\<close>

definition scheduleHeartbeat :: "('j, 'x) WebSocketServer \<Rightarrow> ('j, 'x) WebSocketServer" where
  "scheduleHeartbeat s = (if \<not> ws_running s \<or> \<not> ws_heartbeatTimer s then s else s\<lparr>ws_heartbeatWaiting := True\<rparr>)"

text \<open>The sessions with an open stream that have been silent for too long.\<close>

definition silent_sessions :: "int \<Rightarrow> ('j, 'x) WebSocketServer \<Rightarrow> string list" where
  "silent_sessions now s = filter (\<lambda>sid. (case map_of (ws_clientSessions s) sid of
       None \<Rightarrow> False | Some session \<Rightarrow> ws_heartbeatTimeoutMs s < now - cs_lastPongReceived session))
     (map fst (filter snd (ws_clientStreams s)))"

definition heartbeatFired :: "bool \<Rightarrow> int \<Rightarrow> ('j, 'x) WebSocketServer \<Rightarrow> ('j, 'x) WebSocketServer" where
  "heartbeatFired failed now s =
     (let s1 = s\<lparr>ws_heartbeatWaiting := False\<rparr>
      in if failed \<or> \<not> ws_running s1 then s1
         else scheduleHeartbeat (fold (drop_session 1008) (silent_sessions now s1) s1))"

definition scheduleJwtExpiryCheck :: "('j, 'x) WebSocketServer \<Rightarrow> ('j, 'x) WebSocketServer" where
  "scheduleJwtExpiryCheck s = (if \<not> ws_running s \<or> \<not> ws_jwtTimer s then s else s\<lparr>ws_jwtWaiting := True\<rparr>)"

definition kCloseCodeJwtExpired :: nat where
  "kCloseCodeJwtExpired = 4002"

definition expired :: "int \<Rightarrow> ClientSession \<Rightarrow> bool" where
  "expired now session \<longleftrightarrow> jc_expiresAt (cs_claims session) - now \<le> 0"

definition expiring :: "int \<Rightarrow> int \<Rightarrow> ClientSession \<Rightarrow> bool" where
  "expiring grace now session \<longleftrightarrow> \<not> expired now session \<and>
     jc_expiresAt (cs_claims session) - now \<le> grace \<and> \<not> cs_tokenExpiringSent session"

definition expiring_message :: "'j json_api \<Rightarrow> string" where
  "expiring_message J = js_dump J (js_obj J [(''event'', js_str J ''auth:token_expiring''), (''data'', js_obj J [])])"

definition warn_expiring :: "'j json_api \<Rightarrow> (string \<Rightarrow> bool) \<Rightarrow> string \<Rightarrow> ('j, 'x) WebSocketServer \<Rightarrow>
    ('j, 'x) WebSocketServer" where
  "warn_expiring J fails sessionId s =
     change_session sessionId (\<lambda>cs. cs\<lparr>cs_tokenExpiringSent := True\<rparr>)
       (sendToClient fails sessionId (expiring_message J) s)"

definition jwtExpiryFired :: "'j json_api \<Rightarrow> (string \<Rightarrow> bool) \<Rightarrow> bool \<Rightarrow> int \<Rightarrow>
    ('j, 'x) WebSocketServer \<Rightarrow> ('j, 'x) WebSocketServer" where
  "jwtExpiryFired J fails failed now s =
     (let s1 = s\<lparr>ws_jwtWaiting := False\<rparr>
      in if failed \<or> \<not> ws_running s1 then s1
         else
           let expiredSessions = map fst (filter (\<lambda>(sid, cs). expired now cs) (ws_clientSessions s1));
               expiringSessions =
                 map fst (filter (\<lambda>(sid, cs). expiring (ws_jwtGracePeriodMs s1) now cs) (ws_clientSessions s1));
               s2 = fold (warn_expiring J fails) expiringSessions s1;
               s3 = fold (drop_session kCloseCodeJwtExpired) expiredSessions s2
           in scheduleJwtExpiryCheck s3)"

section \<open>Lifecycle\<close>

text \<open>
  What listening on the address gives: \<open>make_address\<close> throws on a text that is no address, and
  opening, binding or listening may fail. In both cases the server already counts as running.
\<close>

datatype listen_outcome = BadAddress | ListenFails | Listening

definition start :: "listen_outcome \<Rightarrow> ('j, 'x) WebSocketServer \<Rightarrow> ('j, 'x) WebSocketServer \<times> unit res" where
  "start outcome s =
     (if ws_running s then (s, Inr ())
      else
        let s1 = s\<lparr>ws_running := True\<rparr>
        in case outcome of
             BadAddress \<Rightarrow> (s1, Inl (RuntimeError ''system_error''))
           | ListenFails \<Rightarrow> (s1\<lparr>ws_acceptor := True\<rparr>, Inr ())
           | Listening \<Rightarrow>
               (scheduleJwtExpiryCheck ((scheduleHeartbeat
                  (s1\<lparr>ws_acceptor := True, ws_heartbeatTimer := True\<rparr>))\<lparr>ws_jwtTimer := True\<rparr>), Inr ()))"

definition stop :: "('j, 'x) WebSocketServer \<Rightarrow> ('j, 'x) WebSocketServer" where
  "stop s = s\<lparr>ws_running := False, ws_acceptor := False, ws_heartbeatTimer := False, ws_heartbeatWaiting := False,
     ws_jwtTimer := False, ws_jwtWaiting := False,
     ws_closed := ws_closed s @ map (\<lambda>sid. (sid, 1001)) (map fst (filter snd (ws_clientStreams s))),
     ws_clientStreams := [], ws_clientSessions := []\<rparr>"

end
