(* ===== verification/GossipProperties.thy ===== *)
theory GossipProperties
  imports GossipEngine AnnouncementProperties
begin

text \<open>
  What the gossip engine promises: which peers a message goes to, what it carries and when it
  stops travelling; that batches send every queued announcement and when they do not return;
  what a node does with messages for its users and with updates of heads.
\<close>

section \<open>The transport the engine sends through\<close>

text \<open>
  What the engine needs of the peer manager: a message goes to the end of the outbox, and sending
  changes neither who is connected nor anybody's key.
\<close>

locale transport =
  fixes send :: "string \<Rightarrow> string \<Rightarrow> 'p \<Rightarrow> 'p"
    and outbox :: "'p \<Rightarrow> (string \<times> string) list"
    and peers :: "'p \<Rightarrow> 'i"
  assumes outbox_send: "outbox (send p m s) = outbox s @ [(p, m)]"
    and peers_send: "peers (send p m s) = peers s"
begin

lemma fold_send:
  "outbox (fold (\<lambda>p s. send p (msg (peers s) p) s) ps s) = outbox s @ map (\<lambda>p. (p, msg (peers s) p)) ps \<and>
   peers (fold (\<lambda>p s. send p (msg (peers s) p) s) ps s) = peers s"
  by (induction ps arbitrary: s) (simp_all add: outbox_send peers_send)

end

interpretation peer_transport: transport sendToPeer pm_sentMessages pm_sessions
  by unfold_locales (simp_all add: sendToPeer_def Let_def split: option.split)

section \<open>Random peers\<close>

lemma mset_shuffle: "i < length xs \<Longrightarrow> mset (fst (shuffle random i xs k)) = mset xs"
proof (induction random i xs k rule: shuffle.induct)
  case (2 random i xs k)
  have "random k mod (Suc i + 1) < Suc i + 1" by simp
  then have j: "random k mod (Suc i + 1) < length xs" using 2(2) by linarith
  have "mset (swap_at xs (Suc i) (random k mod (Suc i + 1))) = mset xs"
    unfolding swap_at_def by (rule mset_swap) (use 2(2) j in auto)
  then show ?case using 2(1,2) by (simp add: swap_at_def)
qed simp

text \<open>\<open>chosen cnt ids ps\<close>: \<open>ps\<close> are \<open>cnt\<close> different peers of \<open>ids\<close>, or all of them.\<close>

definition chosen :: "nat \<Rightarrow> string list \<Rightarrow> string list \<Rightarrow> bool" where
  "chosen cnt ids ps \<longleftrightarrow> distinct ps \<and> set ps \<subseteq> set ids \<and> length ps = min cnt (length ids)"

lemma select_chosen:
  assumes "distinct (getConnectedPeerIds (ge_peerManager e))" and "selectRandomPeers env cnt e = (ps, e')"
  shows "chosen (size_t cnt) (getConnectedPeerIds (ge_peerManager e)) ps \<and> e' = e\<lparr>ge_draws := ge_draws e'\<rparr>"
proof (cases "getConnectedPeerIds (ge_peerManager e) = []")
  case False
  let ?ids = "getConnectedPeerIds (ge_peerManager e)"
  let ?xs = "fst (shuffle (env_random env) (length ?ids - 1) ?ids (ge_draws e))"
  have m: "mset ?xs = mset ?ids" using False by (intro mset_shuffle) simp
  have "set ?xs = set ?ids" "distinct ?xs" "length ?xs = length ?ids"
    using mset_eq_setD [OF m] mset_eq_imp_distinct_iff [OF m] mset_eq_length [OF m] assms(1) by auto
  moreover have "ps = take (min (size_t cnt) (length ?ids)) ?xs" "e' = e\<lparr>ge_draws := ge_draws e'\<rparr>"
    using assms(2) False by (auto simp: selectRandomPeers_def Let_def case_prod_beta)
  ultimately show ?thesis using set_take_subset [of _ ?xs] by (auto simp: chosen_def)
qed (use assms(2) in \<open>auto simp: selectRandomPeers_def chosen_def\<close>)

lemma distinct_ids: "umap_wf (pm_sessions pm) \<Longrightarrow> distinct (getConnectedPeerIds pm)"
  by (simp add: umap_wf_def getConnectedPeerIds_def distinct_map_filter)

section \<open>What is sent\<close>

text \<open>
  The document that carries one announcement to a peer: sealed with the peer's key when it is
  sensitive and can be, in the clear otherwise.
\<close>

definition payload_doc :: "'j gossip_env \<Rightarrow> (string \<times> PeerSession) list \<Rightarrow> BlockAnnouncement \<Rightarrow> string \<Rightarrow> 'j" where
  "payload_doc env sessions a peerId =
     (let J = env_json env; clear = batch_json J [a]
      in case map_of sessions peerId of
           Some ss \<Rightarrow>
             if sensitive a \<and> pi_publicKey (ps_info ss) \<noteq> []
             then (case env_encrypt env (string_bytes (js_dump J clear)) (pi_publicKey (ps_info ss)) of
                     Inr sealed \<Rightarrow> envelope J sealed | Inl _ \<Rightarrow> clear)
             else clear
         | None \<Rightarrow> clear)"

definition payload_for :: "'j gossip_env \<Rightarrow> (string \<times> PeerSession) list \<Rightarrow> BlockAnnouncement \<Rightarrow> string \<Rightarrow> string" where
  "payload_for env sessions a peerId = js_dump (env_json env) (payload_doc env sessions a peerId)"

lemma send_batch:
  "encryptAndSendBatch env p [a] = (\<lambda>pm. sendToPeer p (payload_for env (pm_sessions pm) a p) pm)"
  by (rule ext) (simp add: encryptAndSendBatch_def payload_for_def payload_doc_def getPeer_def Let_def split: option.split sum.split)

lemma send_plain:
  "\<not> sensitive a \<Longrightarrow>
     sendToPeer p (js_dump (env_json env) (batch_json (env_json env) [a])) pm =
     sendToPeer p (payload_for env (pm_sessions pm) a p) pm"
  by (simp add: payload_for_def payload_doc_def Let_def split: option.split)

text \<open>A message to \<open>fanout\<close> peers, as every announcement is sent.\<close>

definition sent_to :: "'j gossip_env \<Rightarrow> BlockAnnouncement \<Rightarrow> string list \<Rightarrow> PeerManager \<Rightarrow> PeerManager \<Rightarrow> bool" where
  "sent_to env a ps pm pm' \<longleftrightarrow> pm_sessions pm' = pm_sessions pm \<and>
     pm_sentMessages pm' = pm_sentMessages pm @ map (\<lambda>p. (p, payload_for env (pm_sessions pm) a p)) ps"

lemma sent_batches: "sent_to env a ps pm (fold (\<lambda>p. encryptAndSendBatch env p [a]) ps pm)"
  using peer_transport.fold_send [of "\<lambda>s. payload_for env s a" ps pm] by (simp add: sent_to_def send_batch)

lemma fanout_ttl [simp]: "fanout_of config (a\<lparr>ba_ttl := t\<rparr>) = fanout_of config a"
  by (simp add: fanout_of_def)

lemma sensitive_ttl [simp]: "sensitive (a\<lparr>ba_ttl := t\<rparr>) = sensitive a"
  by (simp add: sensitive_def)

lemma forward_sends:
  assumes "0 < ba_ttl a" and "umap_wf (pm_sessions (ge_peerManager e))"
  obtains ps where "chosen (size_t (fanout_of (ge_config e) a)) (getConnectedPeerIds (ge_peerManager e)) ps"
    and "sent_to env (a\<lparr>ba_ttl := ba_ttl a - 1\<rparr>) ps (ge_peerManager e) (ge_peerManager (forwardAnnouncement env a e))"
proof -
  let ?a = "a\<lparr>ba_ttl := ba_ttl a - 1\<rparr>"
  obtain ps e1 where s: "selectRandomPeers env (fanout_of (ge_config e) ?a) e = (ps, e1)"
    by (cases "selectRandomPeers env (fanout_of (ge_config e) ?a) e")
  with select_chosen [OF distinct_ids [OF assms(2)] this]
  have c: "chosen (size_t (fanout_of (ge_config e) a)) (getConnectedPeerIds (ge_peerManager e)) ps"
    and "e1 = e\<lparr>ge_draws := ge_draws e1\<rparr>" by simp_all
  then have pm: "ge_peerManager e1 = ge_peerManager e" by (metis GossipEngine.ext_inject GossipEngine.surjective GossipEngine.update_convs(16))
  have "ge_peerManager (forwardAnnouncement env a e) =
      fold (\<lambda>p. encryptAndSendBatch env p [?a]) ps (ge_peerManager e)"
    using assms(1) s
    by (simp add: forwardAnnouncement_def Let_def pm send_batch send_plain cong: if_cong)
  then show thesis using that c sent_batches [of env ?a ps "ge_peerManager e"] by simp
qed

section \<open>Handling an announcement\<close>

text \<open>The message is for a user of this node.\<close>

definition for_local_user :: "('j, 'x) GossipEngine \<Rightarrow> BlockAnnouncement \<Rightarrow> bool" where
  "for_local_user e a \<longleftrightarrow>
     (case ba_messageDelivery a of None \<Rightarrow> False | Some m \<Rightarrow> set (md_recipientIds m) \<inter> ge_localUserIds e \<noteq> {})"

lemma local_match_iff: "local_match e m \<longleftrightarrow> set (md_recipientIds m) \<inter> ge_localUserIds e \<noteq> {}"
  by (auto simp: local_match_def list_ex_iff)

lemma notify_simps [simp]:
  "ge_peerManager (notify hs a e) = ge_peerManager e" "ge_config (notify hs a e) = ge_config e"
  "ge_localUserIds (notify hs a e) = ge_localUserIds e" "ge_headRegistry (notify hs a e) = ge_headRegistry e"
  "ge_pending (notify hs a e) = ge_pending e" "ge_nodeId (notify hs a e) = ge_nodeId e"
  "ge_messageDeliveryHandlers (notify hs a e) = ge_messageDeliveryHandlers e"
  "ge_client (notify hs a e) = fold (\<lambda>h. h a) hs (ge_client e)"
  by (simp_all add: notify_def)

lemma notify_Nil [simp]: "notify [] a e = e"
  by (simp add: notify_def)

lemma validate_delivery: "validate a \<Longrightarrow> ba_messageDelivery a \<noteq> None \<Longrightarrow> ba_type a = Add"
  by (auto simp: validate_def split: if_splits)

lemma handle_keeps_sending:
  assumes "handle_by_type env a e = (e1, r)"
  shows "pm_sessions (ge_peerManager e1) = pm_sessions (ge_peerManager e) \<and>
    pm_sentMessages (ge_peerManager e1) = pm_sentMessages (ge_peerManager e) \<and> ge_config e1 = ge_config e"
  using assms
  by (auto simp: handle_by_type_def deliver_def sendDeliveryAck_def queueAnnouncement_def applyHeadUpdate_def
      updatePoolCache_def removePoolFromCache_def case_prod_beta Let_def
      split: AnnouncementType.splits option.splits if_splits sum.splits bool.splits)

lemma handle_forwards_iff:
  assumes "handle_by_type env a e = (e1, Inr fwd)" and "validate a"
  shows "fwd \<longleftrightarrow> \<not> for_local_user e a"
  using assms validate_delivery [of a]
  by (auto simp: handle_by_type_def for_local_user_def local_match_iff case_prod_beta Let_def bind_res_Inr_iff
      split: AnnouncementType.splits option.splits if_splits)

lemma for_local_user_notify [simp]: "for_local_user (notify hs a' e) a = for_local_user e a"
  by (simp add: for_local_user_def split: option.split)

lemma handle_sends:
  assumes "handleAnnouncement env a e = (e', Inr ())" and "validate a"
    and "umap_wf (pm_sessions (ge_peerManager e))"
  shows "\<exists>ps. chosen (if ba_ttl a \<le> 0 \<or> for_local_user e a then 0 else size_t (fanout_of (ge_config e) a))
      (getConnectedPeerIds (ge_peerManager e)) ps \<and>
    sent_to env (a\<lparr>ba_ttl := ba_ttl a - 1\<rparr>) ps (ge_peerManager e) (ge_peerManager e')"
proof -
  obtain e1 r where h: "handle_by_type env a (notify (ge_announcementHandlers e) a e) = (e1, r)"
    by (cases "handle_by_type env a (notify (ge_announcementHandlers e) a e)")
  obtain fwd where r: "r = Inr fwd" using assms(1,2) h by (cases r) (auto simp: handleAnnouncement_def)
  have fwd: "fwd \<longleftrightarrow> \<not> for_local_user e a" using handle_forwards_iff [OF h [unfolded r] assms(2)] by simp
  have keeps: "pm_sessions (ge_peerManager e1) = pm_sessions (ge_peerManager e)"
    "pm_sentMessages (ge_peerManager e1) = pm_sentMessages (ge_peerManager e)" "ge_config e1 = ge_config e"
    using handle_keeps_sending [OF h] by simp_all
  then have ids: "getConnectedPeerIds (ge_peerManager e1) = getConnectedPeerIds (ge_peerManager e)"
    by (simp add: getConnectedPeerIds_def)
  have e': "e' = (if fwd \<and> 0 < ba_ttl a then forwardAnnouncement env a e1 else e1)"
    using assms(1,2) h r by (simp add: handleAnnouncement_def)
  show ?thesis
  proof (cases "fwd \<and> 0 < ba_ttl a")
    case True
    then obtain ps where "chosen (size_t (fanout_of (ge_config e) a)) (getConnectedPeerIds (ge_peerManager e)) ps"
      "sent_to env (a\<lparr>ba_ttl := ba_ttl a - 1\<rparr>) ps (ge_peerManager e1) (ge_peerManager e')"
      using forward_sends [of a e1 env] assms(3) keeps ids e' by auto
    then show ?thesis using True fwd keeps by (auto simp: sent_to_def)
  next
    case False
    have "e' = e1" unfolding e' using False by (rule if_not_P)
    then have "chosen 0 (getConnectedPeerIds (ge_peerManager e)) [] \<and>
        sent_to env (a\<lparr>ba_ttl := ba_ttl a - 1\<rparr>) [] (ge_peerManager e) (ge_peerManager e')"
      using keeps by (simp add: chosen_def sent_to_def)
    then show ?thesis using False fwd by auto
  qed
qed

section \<open>Properties: receiving and forwarding\<close>

text \<open>
  A valid announcement that is handled without an exception is forwarded exactly when it is
  not for a user of this node and may still travel; it goes, with one hop less, to as many
  different connected peers as its fanout says, or to all there are.
\<close>

theorem forwards_to_random_peers:
  assumes "handleAnnouncement env a e = (e', Inr ())" and "validate a"
    and "umap_wf (pm_sessions (ge_peerManager e))"
  shows "\<exists>ps. distinct ps \<and> set ps \<subseteq> set (getConnectedPeerIds (ge_peerManager e)) \<and>
    length ps = (if ba_ttl a \<le> 0 \<or> for_local_user e a then 0
                 else min (size_t (fanout_of (ge_config e) a)) (length (getConnectedPeerIds (ge_peerManager e)))) \<and>
    pm_sentMessages (ge_peerManager e') = pm_sentMessages (ge_peerManager e) @
      map (\<lambda>p. (p, payload_for env (pm_sessions (ge_peerManager e)) (a\<lparr>ba_ttl := ba_ttl a - 1\<rparr>) p)) ps"
  using handle_sends [OF assms] by (auto simp: chosen_def sent_to_def)

definition sample_env :: "json_value gossip_env" where
  "sample_env = \<lparr>env_json = json_values, env_encrypt = (\<lambda>msg key. Inr (map (\<lambda>b. b + hd key) msg)),
     env_verify = (\<lambda>msg sig key. sig = key), env_random = (\<lambda>k. k), env_now = ''now'', env_headNow = ''now'',
     env_taken = never_taken, env_io = IoOk\<rparr>"

definition sample_peer :: "string \<Rightarrow> bytes \<Rightarrow> PeerSession" where
  "sample_peer nodeId key = \<lparr>ps_info = mkPeerInfo\<lparr>pi_nodeId := nodeId, pi_connected := True, pi_publicKey := key\<rparr>,
     ps_ws = True, ps_lastPongReceived = 0, ps_reconnectAttempts = 0\<rparr>"

definition sample_engine :: "(json_value, string list) GossipEngine" where
  "sample_engine = (mkGossipEngine
     (mkPeerManager\<lparr>pm_sessions := [(''p1'', sample_peer ''p1'' []), (''p2'', sample_peer ''p2'' [1])]\<rparr>)
     sample_registry ''n0'' [1] defaultGossipConfig [])
       \<lparr>ge_localUserIds := {''ann'', ''bob''},
        ge_messageDeliveryHandlers := [\<lambda>a seen. seen @ [ba_blockId a]]\<rparr>"

lemma sample_engine_simps [simp]:
  "getConnectedPeerIds (ge_peerManager sample_engine) = [''p1'', ''p2'']"
  "ge_localUserIds sample_engine = {''ann'', ''bob''}" "ge_config sample_engine = defaultGossipConfig"
  "ge_headRegistry sample_engine = sample_registry" "ge_pending sample_engine = []" "ge_nodeId sample_engine = ''n0''"
  "ge_client sample_engine = []" "ge_announcementHandlers sample_engine = []"
  "pm_sentMessages (ge_peerManager sample_engine) = []"
  by (simp_all add: sample_engine_def mkGossipEngine_def mkPeerManager_def getConnectedPeerIds_def sample_peer_def)

lemma sample_sessions [simp]: "umap_wf (pm_sessions (ge_peerManager sample_engine))"
  by (simp add: sample_engine_def mkGossipEngine_def mkPeerManager_def umap_wf_def)

definition sample_removal :: BlockAnnouncement where
  "sample_removal = mkBlockAnnouncement\<lparr>ba_type := Remove, ba_blockId := ''b'', ba_nodeId := ''n9'', ba_ttl := 2\<rparr>"

lemma handle_removal: "validate sample_removal"
    "handleAnnouncement sample_env sample_removal sample_engine =
      (forwardAnnouncement sample_env sample_removal sample_engine, Inr ())"
  by (simp_all add: sample_removal_def mkBlockAnnouncement_def validate_def handleAnnouncement_def handle_by_type_def)

lemma sample_removal_facts [simp]:
  "ba_ttl sample_removal = 2" "\<not> for_local_user e sample_removal" "fanout_of defaultGossipConfig sample_removal = 3"
  by (simp_all add: sample_removal_def mkBlockAnnouncement_def for_local_user_def fanout_of_def defaultGossipConfig_def)

theorem forwards_to_random_peers_witness:
  "\<exists>ps. distinct ps \<and> set ps \<subseteq> {''p1'', ''p2''} \<and> length ps = 2 \<and>
     pm_sentMessages (ge_peerManager (forwardAnnouncement sample_env sample_removal sample_engine)) =
       map (\<lambda>p. (p, payload_for sample_env (pm_sessions (ge_peerManager sample_engine))
              (sample_removal\<lparr>ba_ttl := 1\<rparr>) p)) ps"
  using forwards_to_random_peers [OF handle_removal(2,1) sample_sessions]
  by (simp add: size_t_def numeral_2_eq_2)

text \<open>The acknowledgment this node queues for a message it delivers.\<close>

definition ack_for :: "('j, 'x) GossipEngine \<Rightarrow> BlockAnnouncement \<Rightarrow> MessageDeliveryMetadata \<Rightarrow> DeliveryAckMetadata" where
  "ack_for e a m = \<lparr>da_messageId = md_messageId m,
     da_recipientId = (case filter (\<lambda>rid. rid \<in> ge_localUserIds e) (md_recipientIds m) of [] \<Rightarrow> [] | rid # _ \<Rightarrow> rid),
     da_status = ''delivered'', da_originalSenderNode = ba_nodeId a\<rparr>"

lemma find_filter: "find P xs = (case filter P xs of [] \<Rightarrow> None | x # _ \<Rightarrow> Some x)"
  by (induction xs) auto

text \<open>
  A message for a user of this node goes to the handlers of announcements and then to those of
  deliveries, and to no peer; when an acknowledgment is asked for, exactly one is queued, for the
  first recipient that is a user here, even when several are. Nothing else changes.
\<close>

theorem local_delivery:
  assumes "validate a" and "ba_messageDelivery a = Some m" and "set (md_recipientIds m) \<inter> ge_localUserIds e \<noteq> {}"
  shows "handleAnnouncement env a e =
    (e\<lparr>ge_client := fold (\<lambda>h. h a) (ge_announcementHandlers e @ ge_messageDeliveryHandlers e) (ge_client e),
       ge_pending := ge_pending e @ (if md_ackRequired m
         then [(announcement_of env e Ack (md_messageId m) (gc_defaultTtl (ge_config e)))
                 \<lparr>ba_deliveryAck := Some (ack_for e a m)\<rparr>] else [])\<rparr>, Inr ())"
  using assms validate_delivery [OF assms(1)]
  by (simp add: handleAnnouncement_def handle_by_type_def local_match_iff deliver_def sendDeliveryAck_def
      queueAnnouncement_def announcement_of_def ack_for_def find_filter notify_def split: list.split)

definition sample_message :: MessageDeliveryMetadata where
  "sample_message = \<lparr>md_messageId = ''m1'', md_recipientIds = [''eve'', ''bob'', ''ann''], md_priority = ''high'',
     md_blockIds = [''b''], md_cblBlockId = ''c'', md_ackRequired = True, md_gatewayOutbound = False\<rparr>"

definition sample_delivery :: BlockAnnouncement where
  "sample_delivery = mkBlockAnnouncement\<lparr>ba_blockId := ''c'', ba_nodeId := ''n9'', ba_ttl := 2,
     ba_messageDelivery := Some sample_message\<rparr>"

theorem local_delivery_witness:
  "\<exists>e'. handleAnnouncement sample_env sample_delivery sample_engine = (e', Inr ()) \<and>
     ge_client e' = [''c''] \<and>
     map ba_deliveryAck (ge_pending e') = [Some \<lparr>da_messageId = ''m1'', da_recipientId = ''bob'',
        da_status = ''delivered'', da_originalSenderNode = ''n9''\<rparr>]"
proof -
  have "validate sample_delivery" "ba_messageDelivery sample_delivery = Some sample_message"
    "set (md_recipientIds sample_message) \<inter> ge_localUserIds sample_engine \<noteq> {}"
    by (simp_all add: validate_def sample_delivery_def sample_message_def mkBlockAnnouncement_def)
  from local_delivery [OF this, of sample_env] show ?thesis
    by (simp add: sample_message_def sample_delivery_def ack_for_def mkBlockAnnouncement_def)
      (simp add: sample_engine_def)
qed

section \<open>Properties: updates of heads\<close>

lemma forward_keeps [simp]:
  "ge_headRegistry (forwardAnnouncement env a e) = ge_headRegistry e"
  "ge_pending (forwardAnnouncement env a e) = ge_pending e"
  "ge_client (forwardAnnouncement env a e) = ge_client e"
  by (simp_all add: forwardAnnouncement_def selectRandomPeers_def Let_def case_prod_beta)

lemma handle_keeps_registry:
  assumes "handle_by_type env a e = (e1, r)" and "ba_type a \<noteq> HeadUpdate"
  shows "ge_headRegistry e1 = ge_headRegistry e"
  using assms
  by (auto simp: handle_by_type_def deliver_def sendDeliveryAck_def queueAnnouncement_def Let_def
      split: AnnouncementType.splits option.splits if_splits)

lemma handle_head_update:
  assumes "validate a" and "ba_type a = HeadUpdate" and "ba_headUpdate a = Some h"
  shows "ge_headRegistry (fst (handleAnnouncement env a e)) =
    (if \<forall>p. ba_writeProof a = Some p \<longrightarrow> checkWriteProof env p = Inr True
     then fst (setHead (env_json env) (env_taken env) (env_io env) (env_headNow env) (head_key h) (ba_blockId a)
            (ge_headRegistry e))
     else ge_headRegistry e)"
  using assms
  by (auto simp: handleAnnouncement_def handle_by_type_def applyHeadUpdate_def case_prod_beta Let_def
      split: option.split sum.splits bool.splits)

text \<open>
  C21: an announcement changes the registry of heads only if it is a valid update of the head it
  names, and the signature of its proof, when it carries one, holds. An update without a proof
  is applied as it is, and the proof may be one for another head: only the names inside the
  proof are signed, and they are not compared with those of the update.
\<close>

theorem head_updates_checked:
  assumes "ge_headRegistry (fst (handleAnnouncement env a e)) \<noteq> ge_headRegistry e"
  shows "validate a \<and> ba_type a = HeadUpdate \<and>
    (\<forall>p. ba_writeProof a = Some p \<longrightarrow> checkWriteProof env p = Inr True) \<and>
    (\<exists>h. ba_headUpdate a = Some h \<and> ge_headRegistry (fst (handleAnnouncement env a e)) =
       fst (setHead (env_json env) (env_taken env) (env_io env) (env_headNow env) (head_key h) (ba_blockId a)
          (ge_headRegistry e)))"
proof -
  have v: "validate a" using assms by (cases "validate a") (simp_all add: handleAnnouncement_def)
  have t: "ba_type a = HeadUpdate"
  proof (rule ccontr)
    assume n: "ba_type a \<noteq> HeadUpdate"
    obtain e1 r where h: "handle_by_type env a (notify (ge_announcementHandlers e) a e) = (e1, r)"
      by (cases "handle_by_type env a (notify (ge_announcementHandlers e) a e)")
    show False using assms v h handle_keeps_registry [OF h n] by (cases r) (auto simp: handleAnnouncement_def)
  qed
  then obtain h where "ba_headUpdate a = Some h" using v by (auto simp: validate_def split: option.splits if_splits)
  with v t assms handle_head_update [OF v t this, of env e] show ?thesis by (auto split: if_splits)
qed

definition sample_update :: BlockAnnouncement where
  "sample_update = mkBlockAnnouncement\<lparr>ba_type := HeadUpdate, ba_blockId := ''b1'',
     ba_headUpdate := Some \<lparr>hu_dbName = ''db'', hu_collectionName = ''users''\<rparr>,
     ba_writeProof := Some \<lparr>wp_signerPublicKey = ''0a'', wp_signature = ''0a'', wp_dbName = ''db'',
       wp_collectionName = ''users'', wp_blockId = ''b1''\<rparr>\<rparr>"

lemma sample_update_facts [simp]:
  "validate sample_update" "ba_type sample_update = HeadUpdate" "ba_blockId sample_update = ''b1''"
  "ba_headUpdate sample_update = Some \<lparr>hu_dbName = ''db'', hu_collectionName = ''users''\<rparr>"
  by (simp_all add: sample_update_def mkBlockAnnouncement_def validate_def)

lemma sample_update_verified: "ba_writeProof sample_update = Some p \<Longrightarrow> checkWriteProof sample_env p = Inr True"
proof -
  have "checkWriteProof sample_env (the (ba_writeProof sample_update)) = Inr True" by code_simp
  then show "ba_writeProof sample_update = Some p \<Longrightarrow> ?thesis" by simp
qed

theorem head_updates_checked_witness:
  "checkWriteProof sample_env (the (ba_writeProof sample_update)) = Inr True \<and>
   getHead ''db:users'' (ge_headRegistry (fst (handleAnnouncement sample_env sample_update sample_engine))) =
     Some \<lparr>he_blockId = ''b1'', he_timestamp = ''now''\<rparr>"
proof -
  let ?set = "setHead json_values never_taken IoOk ''now'' ''db:users'' ''b1'' sample_registry"
  have h: "head_key \<lparr>hu_dbName = ''db'', hu_collectionName = ''users''\<rparr> = ''db:users''"
    by (simp add: head_key_def)
  have env: "env_json sample_env = json_values" "env_taken sample_env = never_taken" "env_io sample_env = IoOk"
    "env_headNow sample_env = ''now''" by (simp_all add: sample_env_def)
  have reg: "ge_headRegistry (fst (handleAnnouncement sample_env sample_update sample_engine)) = fst ?set"
    using handle_head_update [of sample_update _ sample_env sample_engine] sample_update_verified by (simp add: h env)
  have "getHead ''db:users'' (fst ?set) = Some \<lparr>he_blockId = ''b1'', he_timestamp = ''now''\<rparr>" by code_simp
  moreover from this have "fst ?set \<noteq> sample_registry" by (auto simp: getHead_def sample_registry_def)
  ultimately show ?thesis
    using head_updates_checked [of sample_env sample_update sample_engine] reg
    by (auto simp: sample_update_def)
qed

text \<open>
  An update whose signature does not hold is not applied, but it is not discarded either: the
  handlers have seen it, and it is forwarded to the peers as a valid one would be.
\<close>

lemma rejected_update_travels_on:
  assumes "validate a" and "ba_type a = HeadUpdate" and "ba_writeProof a = Some p" and "checkWriteProof env p = Inr False"
    and "0 < ba_ttl a"
  shows "handleAnnouncement env a e = (forwardAnnouncement env a (notify (ge_announcementHandlers e) a e), Inr ())"
  using assms by (simp add: handleAnnouncement_def handle_by_type_def applyHeadUpdate_def split: option.split)

section \<open>Properties: batches\<close>

text \<open>Cutting the queue into chunks makes no difference to what is sent, as long as chunks are not empty.\<close>

lemma flush_chunks_all:
  "0 < maxBatch \<Longrightarrow> flush_chunks env maxBatch batch offset e = Some (fold (send_announcement env) (drop offset batch) e)"
proof (induction "length batch - offset" arbitrary: offset e rule: less_induct)
  case less
  show ?case
  proof (cases "offset < length batch")
    case True
    let ?fin = "min (offset + maxBatch) (length batch)"
    let ?chunk = "take (?fin - offset) (drop offset batch)"
    have "drop offset batch = ?chunk @ drop (offset + maxBatch) batch"
      using True by (simp add: min_def add.commute flip: drop_drop)
    moreover have "flush_chunks env maxBatch batch offset e =
        flush_chunks env maxBatch batch (offset + maxBatch) (fold (send_announcement env) ?chunk e)"
      using True by (subst flush_chunks.simps) (simp add: Let_def)
    ultimately show ?thesis using less.hyps [of "offset + maxBatch"] less.prems True
      by (simp del: drop_drop) (metis comp_apply fold_append)
  qed (simp add: flush_chunks.simps)
qed

lemma flush_chunks_empty:
  assumes "flush_chunks env maxBatch batch offset e = Some e'" and "maxBatch = 0"
  shows "length batch \<le> offset"
proof -
  have "maxBatch = 0 \<longrightarrow> length batch \<le> offset"
    by (rule flush_chunks.raw_induct [where P = "\<lambda>env maxBatch batch offset e e'. maxBatch = 0 \<longrightarrow> length batch \<le> offset",
          OF _ assms(1)]) (metis add_0_right not_le option.inject)
  then show ?thesis using assms(2) by blast
qed

lemma batch_flush_cases:
  "batchFlush env e = (if ge_pending e = [] then Some e
     else if getConnectedPeerIds (ge_peerManager e) = [] then Some (e\<lparr>ge_pending := []\<rparr>)
     else if size_t (gc_maxBatchSize (ge_config e)) = 0 then None
     else Some (fold (send_announcement env) (ge_pending e) (e\<lparr>ge_pending := []\<rparr>)))"
proof -
  have "flush_chunks env 0 (ge_pending e) 0 (e\<lparr>ge_pending := []\<rparr>) = None" if "ge_pending e \<noteq> []"
    using flush_chunks_empty [of env 0 "ge_pending e" 0] that by (metis le_zero_eq length_0_conv option.exhaust)
  moreover have "e\<lparr>ge_pending := []\<rparr> = e" if "ge_pending e = []" using that by (cases e) simp
  ultimately show ?thesis by (simp add: batchFlush_def Let_def flush_chunks_all)
qed

text \<open>One announcement after the other goes to its peers.\<close>

definition sent_each :: "'j gossip_env \<Rightarrow> BlockAnnouncement list \<Rightarrow> string list list \<Rightarrow> PeerManager \<Rightarrow> PeerManager \<Rightarrow> bool" where
  "sent_each env as pss pm pm' \<longleftrightarrow> pm_sessions pm' = pm_sessions pm \<and>
     pm_sentMessages pm' = pm_sentMessages pm @
       concat (map2 (\<lambda>a ps. map (\<lambda>p. (p, payload_for env (pm_sessions pm) a p)) ps) as pss)"

lemma send_announcement_sends:
  assumes "umap_wf (pm_sessions (ge_peerManager e))"
  obtains ps where "chosen (size_t (fanout_of (ge_config e) a)) (getConnectedPeerIds (ge_peerManager e)) ps"
    and "sent_to env a ps (ge_peerManager e) (ge_peerManager (send_announcement env a e))"
    and "ge_config (send_announcement env a e) = ge_config e"
    and "ge_pending (send_announcement env a e) = ge_pending e"
proof -
  obtain ps e1 where s: "selectRandomPeers env (fanout_of (ge_config e) a) e = (ps, e1)"
    by (cases "selectRandomPeers env (fanout_of (ge_config e) a) e")
  from select_chosen [OF distinct_ids [OF assms] this]
  have c: "chosen (size_t (fanout_of (ge_config e) a)) (getConnectedPeerIds (ge_peerManager e)) ps"
    and e1: "e1 = e\<lparr>ge_draws := ge_draws e1\<rparr>" by simp_all
  have "ge_peerManager e1 = ge_peerManager e" "ge_config e1 = ge_config e" "ge_pending e1 = ge_pending e"
    by (subst e1, simp)+
  then show thesis using c sent_batches [of env a ps "ge_peerManager e"]
    by (intro that) (auto simp: send_announcement_def s)
qed

lemma fold_send_announcement:
  "umap_wf (pm_sessions (ge_peerManager e)) \<Longrightarrow>
     \<exists>pss. list_all2 (\<lambda>a ps. chosen (size_t (fanout_of (ge_config e) a)) (getConnectedPeerIds (ge_peerManager e)) ps) as pss \<and>
       sent_each env as pss (ge_peerManager e) (ge_peerManager (fold (send_announcement env) as e)) \<and>
       ge_pending (fold (send_announcement env) as e) = ge_pending e"
proof (induction as arbitrary: e)
  case (Cons a as)
  obtain ps where ps: "chosen (size_t (fanout_of (ge_config e) a)) (getConnectedPeerIds (ge_peerManager e)) ps"
    and s: "sent_to env a ps (ge_peerManager e) (ge_peerManager (send_announcement env a e))"
    and k: "ge_config (send_announcement env a e) = ge_config e" "ge_pending (send_announcement env a e) = ge_pending e"
    by (rule send_announcement_sends [OF Cons.prems])
  have ids: "getConnectedPeerIds (ge_peerManager (send_announcement env a e)) = getConnectedPeerIds (ge_peerManager e)"
    using s by (simp add: sent_to_def getConnectedPeerIds_def)
  have "umap_wf (pm_sessions (ge_peerManager (send_announcement env a e)))"
    using s Cons.prems by (simp add: sent_to_def)
  from Cons.IH [OF this] obtain pss where
    "list_all2 (\<lambda>a ps. chosen (size_t (fanout_of (ge_config e) a)) (getConnectedPeerIds (ge_peerManager e)) ps) as pss"
    "sent_each env as pss (ge_peerManager (send_announcement env a e))
       (ge_peerManager (fold (send_announcement env) (a # as) e))"
    "ge_pending (fold (send_announcement env) (a # as) e) = ge_pending e"
    by (auto simp: k ids)
  then show ?case using ps s by (intro exI [of _ "ps # pss"]) (auto simp: sent_each_def sent_to_def)
qed (auto simp: sent_each_def)

text \<open>
  Flushing a batch returns unless the configured batch size is 0, announcements are waiting and
  a peer is connected. When it returns the queue is empty, and every announcement that was in it
  has gone, in order, to as many different connected peers as its fanout says. With no peer
  connected that is none: the announcements are lost.
\<close>

theorem batch_flush_sends_all:
  assumes "umap_wf (pm_sessions (ge_peerManager e))"
  shows "(batchFlush env e = None \<longleftrightarrow> ge_pending e \<noteq> [] \<and> getConnectedPeerIds (ge_peerManager e) \<noteq> [] \<and>
      size_t (gc_maxBatchSize (ge_config e)) = 0) \<and>
    (\<forall>e'. batchFlush env e = Some e' \<longrightarrow> ge_pending e' = [] \<and>
      (\<exists>pss. list_all2 (\<lambda>a ps. distinct ps \<and> set ps \<subseteq> set (getConnectedPeerIds (ge_peerManager e)) \<and>
          length ps = min (size_t (fanout_of (ge_config e) a)) (length (getConnectedPeerIds (ge_peerManager e))))
          (ge_pending e) pss \<and>
        pm_sentMessages (ge_peerManager e') = pm_sentMessages (ge_peerManager e) @
          concat (map2 (\<lambda>a ps. map (\<lambda>p. (p, payload_for env (pm_sessions (ge_peerManager e)) a p)) ps)
            (ge_pending e) pss)))"
proof (cases "ge_pending e = [] \<or> getConnectedPeerIds (ge_peerManager e) = []")
  case True
  have "list_all2 (\<lambda>a ps. distinct ps \<and> set ps \<subseteq> set [] \<and> length ps = min (size_t (fanout_of (ge_config e) a)) 0)
      as (map (\<lambda>a. []) as) \<and>
    concat (map2 (\<lambda>a ps. map (\<lambda>p. (p, payload_for env (pm_sessions (ge_peerManager e)) a p)) ps) as (map (\<lambda>a. []) as)) = []"
    for as by (induction as) auto
  from this [of "ge_pending e"] show ?thesis using True by (auto simp: batch_flush_cases)
next
  case False
  with fold_send_announcement [of "e\<lparr>ge_pending := []\<rparr>" "ge_pending e" env] assms
  show ?thesis by (auto simp: batch_flush_cases sent_each_def chosen_def)
qed

theorem batch_flush_sends_all_witness:
  "\<exists>e' p. batchFlush sample_env (sample_engine\<lparr>ge_pending := [sample_removal],
        ge_config := defaultGossipConfig\<lparr>gc_fanout := 1\<rparr>\<rparr>) = Some e' \<and> ge_pending e' = [] \<and> p \<in> {''p1'', ''p2''} \<and>
     pm_sentMessages (ge_peerManager e') =
       [(p, payload_for sample_env (pm_sessions (ge_peerManager sample_engine)) sample_removal p)]"
proof -
  let ?e = "sample_engine\<lparr>ge_pending := [sample_removal], ge_config := defaultGossipConfig\<lparr>gc_fanout := 1\<rparr>\<rparr>"
  have f: "fanout_of (defaultGossipConfig\<lparr>gc_fanout := 1\<rparr>) sample_removal = 1"
    by (simp add: fanout_of_def defaultGossipConfig_def sample_removal_def mkBlockAnnouncement_def)
  have "size_t (gc_maxBatchSize (ge_config ?e)) \<noteq> 0" by (simp add: size_t_def defaultGossipConfig_def)
  with batch_flush_sends_all [of ?e sample_env] obtain e' where "batchFlush sample_env ?e = Some e'"
    by (cases "batchFlush sample_env ?e") auto
  moreover have "size_t 1 = 1" by (simp add: size_t_def)
  ultimately show ?thesis using batch_flush_sends_all [of ?e sample_env]
    by (auto simp: f list_all2_Cons1 length_Suc_conv)
qed

end
