(* ===== verification/GossipNetwork.thy ===== *)
theory GossipNetwork
  imports GossipProperties "HOL-Library.Countable"
begin

text \<open>
  The messages between engines: what a peer that holds its private key reads out of the texts the
  engine of another node sends, and how long an announcement keeps travelling.
\<close>

section \<open>Reading a batch\<close>

text \<open>
  The format \<open>encryptAndSendBatch\<close> writes: an array of announcements, or an envelope around the
  encrypted text of one. \<open>parse\<close> is the parser of the JSON library and \<open>unseal\<close> the decryption with
  the private key of the peer. What cannot be read is dropped.
\<close>

definition bytes_string :: "bytes \<Rightarrow> string" where
  "bytes_string bs = map (\<lambda>b. char_of (unat b)) bs"

definition read_array :: "'j json_api \<Rightarrow> 'j \<Rightarrow> BlockAnnouncement list" where
  "read_array J j = (case js_as_arr J j of
     None \<Rightarrow> []
   | Some js \<Rightarrow> concat (map (\<lambda>elem. case fromJson J elem of Inl _ \<Rightarrow> [] | Inr a \<Rightarrow> [a]) js))"

definition read_batch :: "'j json_api \<Rightarrow> (string \<Rightarrow> 'j option) \<Rightarrow> (bytes \<Rightarrow> bytes option) \<Rightarrow> string \<Rightarrow>
    BlockAnnouncement list" where
  "read_batch J parse unseal msg =
     (case parse msg of
        None \<Rightarrow> []
      | Some j \<Rightarrow>
          (case field J (share_fromJson J) j ''data'' of
             Inl _ \<Rightarrow> read_array J j
           | Inr sealed \<Rightarrow>
               (case Option.bind (unseal sealed) (\<lambda>m. parse (bytes_string m)) of
                  None \<Rightarrow> []
                | Some opened \<Rightarrow> read_array J opened)))"

text \<open>
  What is relied on: the laws of the JSON library and of its parser, and that a peer can decrypt what was
  encrypted with the public key its session has.
\<close>

definition network_laws :: "'j json_api \<Rightarrow> (string \<Rightarrow> 'j option) \<Rightarrow> (string \<Rightarrow> bytes \<Rightarrow> bytes option) \<Rightarrow>
    ('j gossip_env \<times> ('j, 'x) GossipEngine) set \<Rightarrow> bool" where
  "network_laws J parse unseal nodes \<longleftrightarrow> json_laws J \<and> (\<forall>j. parse (js_dump J j) = Some j) \<and>
     (\<forall>(env, e) \<in> nodes. env_json env = J \<and> umap_wf (pm_sessions (ge_peerManager e)) \<and>
        (\<forall>p ss m c. map_of (pm_sessions (ge_peerManager e)) p = Some ss \<longrightarrow>
           env_encrypt env m (pi_publicKey (ps_info ss)) = Inr c \<longrightarrow> unseal p c = Some m))"

lemma bytes_string_string_bytes: "bytes_string (string_bytes s) = s"
proof -
  have "char_of (unat (word_of_nat (of_char c) :: byte)) = c" for c
  proof -
    have "(of_char c :: nat) < 256" by simp
    then show ?thesis by (simp add: unat_of_nat take_bit_nat_eq_self)
  qed
  then show ?thesis by (simp add: bytes_string_def string_bytes_def comp_def map_idI)
qed

context json_laws
begin

lemma ann_json_ttl:
  "\<exists>kvs. ann_json J a = js_obj J kvs \<and> distinct (map fst kvs) \<and> map_of kvs ''ttl'' = Some (js_num J (ba_ttl a))"
proof -
  obtain s where s: "announcementTypeToString (ba_type a) = Inr s" using type_names by blast
  define kvs where "kvs = [(''type'', js_str J s), (''blockId'', js_str J (ba_blockId a)),
      (''nodeId'', js_str J (ba_nodeId a)), (''timestamp'', js_str J (ba_timestamp a)), (''ttl'', js_num J (ba_ttl a))] @
       entry ''messageDelivery'' (messageDelivery_toJson J) (ba_messageDelivery a) @
       entry ''deliveryAck'' (deliveryAck_toJson J) (ba_deliveryAck a) @
       entry ''poolId'' (js_str J) (ba_poolId a) @
       entry ''cblIndexEntry'' (cblIndexEntry_toJson J) (ba_cblIndexEntry a) @
       entry ''headUpdate'' (headUpdate_toJson J) (ba_headUpdate a) @
       entry ''aclBlockId'' (js_str J) (ba_aclBlockId a) @
       entry ''poolAnnouncement'' (poolAnnouncement_toJson J) (ba_poolAnnouncement a) @
       entry ''quorumProposal'' (quorumProposal_toJson J) (ba_quorumProposal a) @
       entry ''quorumVote'' (quorumVote_toJson J) (ba_quorumVote a) @
       entry ''writeProof'' (writeProof_toJson J) (ba_writeProof a) @ []"
  have "distinct (map fst kvs)"
    unfolding kvs_def by (auto simp: distinct_entry dest!: subsetD [OF keys_entry])
  moreover have "ann_json J a = js_obj J kvs" by (simp add: ann_json_def toJson_def s kvs_def)
  moreover have "map_of kvs ''ttl'' = Some (js_num J (ba_ttl a))" by (simp add: kvs_def)
  ultimately show ?thesis by blast
qed

lemma fromJson_ttl: "fromJson J (ann_json J a) = Inr b \<Longrightarrow> ba_ttl b = signed_take_bit 31 (ba_ttl a)"
proof -
  assume b: "fromJson J (ann_json J a) = Inr b"
  then have "field J (get_int J) (ann_json J a) ''ttl'' = Inr (ba_ttl b)"
    by (auto simp: fromJson_def bind_res_Inr_iff)
  moreover obtain kvs where "ann_json J a = js_obj J kvs" "distinct (map fst kvs)" "map_of kvs ''ttl'' = Some (js_num J (ba_ttl a))"
    using ann_json_ttl by blast
  ultimately show ?thesis by (simp add: field_obj get_int_def read_as_def as_num)
qed

text \<open>What a peer reads out of the text that was written for it.\<close>

lemma read_clear: "(\<And>j. parse (js_dump J j) = Some j) \<Longrightarrow>
  read_batch J parse unseal (js_dump J (batch_json J as)) = read_array J (batch_json J as)"
  by (simp add: read_batch_def field_def Json.at_def batch_json_def arr_items)

lemma read_sealed:
  assumes "\<And>j. parse (js_dump J j) = Some j" and "unseal c = Some (string_bytes (js_dump J (batch_json J as)))"
  shows "read_batch J parse unseal (js_dump J (envelope J c)) = read_array J (batch_json J as)"
proof -
  have "field J (share_fromJson J) (envelope J c) ''data'' = Inr c"
    using share_trip [of c] by (simp add: envelope_def field_obj share_toJson_def)
  then show ?thesis using assms by (simp add: read_batch_def bytes_string_string_bytes)
qed

lemma read_one: "read_array J (batch_json J [a]) = (case fromJson J (ann_json J a) of Inl e \<Rightarrow> [] | Inr b \<Rightarrow> [b])"
  by (simp add: read_array_def batch_json_def as_arr)

end

lemma read_payload:
  assumes "network_laws J parse unseal nodes" and "(env, e) \<in> nodes"
  shows "read_batch J parse (unseal p) (payload_for env (pm_sessions (ge_peerManager e)) a p) =
    (case fromJson J (ann_json J a) of Inl err \<Rightarrow> [] | Inr b \<Rightarrow> [b])"
proof -
  have J: "json_laws J" "\<And>j. parse (js_dump J j) = Some j" "env_json env = J"
    and unseal: "\<And>ss m c. map_of (pm_sessions (ge_peerManager e)) p = Some ss \<Longrightarrow>
       env_encrypt env m (pi_publicKey (ps_info ss)) = Inr c \<Longrightarrow> unseal p c = Some m"
    using assms unfolding network_laws_def by fastforce+
  show ?thesis
    by (auto simp: payload_for_def payload_doc_def Let_def J(3) json_laws.read_one [OF J(1)]
        json_laws.read_clear [where parse = parse, OF J(1,2)] json_laws.read_sealed [where parse = parse, OF J(1,2) unseal]
        split: option.split sum.split)
qed

section \<open>What handling an announcement sends\<close>

lemma handle_sent:
  assumes "handleAnnouncement env a e = (e', r)" and "umap_wf (pm_sessions (ge_peerManager e))"
  obtains ps where "sent_to env (a\<lparr>ba_ttl := ba_ttl a - 1\<rparr>) ps (ge_peerManager e) (ge_peerManager e')"
    and "length ps \<le> (if ba_ttl a \<le> 0 then 0 else size_t (fanout_of (ge_config e) a))"
proof (cases "validate a \<and> r = Inr ()")
  case True
  with handle_sends [of env a e e'] assms that show thesis by (auto simp: chosen_def split: if_splits)
next
  case False
  then have "pm_sentMessages (ge_peerManager e') = pm_sentMessages (ge_peerManager e) \<and>
      pm_sessions (ge_peerManager e') = pm_sessions (ge_peerManager e)"
    using assms(1) handle_keeps_sending [of env a "notify (ge_announcementHandlers e) a e"]
    by (cases "handle_by_type env a (notify (ge_announcementHandlers e) a e)")
      (auto simp: handleAnnouncement_def split: if_splits sum.splits)
  then show thesis by (intro that [of "[]"]) (simp_all add: sent_to_def)
qed

text \<open>The operations of the engine that send.\<close>

inductive sending :: "'j gossip_env \<Rightarrow> ('j, 'x) GossipEngine \<Rightarrow> ('j, 'x) GossipEngine \<Rightarrow> bool" for env e where
  handling: "sending env e (fst (handleAnnouncement env a e))"
| flushing: "batchFlush env e = Some e' \<Longrightarrow> sending env e e'"
| timer: "batchTimerFired env failed e = Some e' \<Longrightarrow> sending env e e'"
| stopping: "stop env e = Some e' \<Longrightarrow> sending env e e'"

lemma flush_texts:
  assumes "batchFlush env e = Some e'" and "umap_wf (pm_sessions (ge_peerManager e))"
    and "pm_sentMessages (ge_peerManager e') = pm_sentMessages (ge_peerManager e) @ msgs" and "(p, msg) \<in> set msgs"
  shows "\<exists>a. msg = payload_for env (pm_sessions (ge_peerManager e)) a p"
proof -
  obtain pss where "pm_sentMessages (ge_peerManager e') = pm_sentMessages (ge_peerManager e) @
      concat (map2 (\<lambda>a ps. map (\<lambda>p. (p, payload_for env (pm_sessions (ge_peerManager e)) a p)) ps) (ge_pending e) pss)"
    using batch_flush_sends_all [OF assms(2), of env] assms(1) by blast
  with assms(3,4) show ?thesis by auto
qed

lemma sending_texts:
  assumes "sending env e e'" and "umap_wf (pm_sessions (ge_peerManager e))"
    and "pm_sentMessages (ge_peerManager e') = pm_sentMessages (ge_peerManager e) @ msgs" and "(p, msg) \<in> set msgs"
  shows "\<exists>a. msg = payload_for env (pm_sessions (ge_peerManager e)) a p"
  using assms(1)
proof cases
  case (handling a)
  obtain ps where "sent_to env (a\<lparr>ba_ttl := ba_ttl a - 1\<rparr>) ps (ge_peerManager e) (ge_peerManager e')"
    using handle_sent [of env a e e' "snd (handleAnnouncement env a e)"] assms(2) handling by (metis prod.collapse)
  with assms(3,4) show ?thesis by (auto simp: sent_to_def)
next
  case flushing
  then show ?thesis using flush_texts assms by blast
next
  case (timer failed)
  then obtain e2 where "e2 = e\<lparr>ge_waiting := False\<rparr> \<and> e' = e2 \<or>
      (\<exists>e3. batchFlush env (e\<lparr>ge_waiting := False\<rparr>) = Some e3 \<and> ge_peerManager e' = ge_peerManager e3)"
    by (auto simp: batchTimerFired_def Let_def scheduleBatchTimer_def split: if_splits)
  then show ?thesis using flush_texts [of env "e\<lparr>ge_waiting := False\<rparr>"] assms(2-4) by fastforce
next
  case stopping
  then show ?thesis using flush_texts [of env "e\<lparr>ge_running := False, ge_batchTimer := False, ge_waiting := False\<rparr>"] assms(2-4)
    by (simp add: stop_def)
qed

section \<open>The size of a flood\<close>

text \<open>
  Announcements in flight. Whichever node receives one, in whatever state it is, the announcements that
  its peers read out of the texts it sends take the place of the one it got.
\<close>

inductive delivery :: "'j json_api \<Rightarrow> (string \<Rightarrow> 'j option) \<Rightarrow> (string \<Rightarrow> bytes \<Rightarrow> bytes option) \<Rightarrow>
    ('j gossip_env \<times> ('j, 'x) GossipEngine) set \<Rightarrow> BlockAnnouncement multiset \<Rightarrow> BlockAnnouncement multiset \<Rightarrow> bool"
    for J parse unseal nodes where
  deliver: "(env, e) \<in> nodes \<Longrightarrow> handleAnnouncement env a e = (e', r) \<Longrightarrow>
    pm_sentMessages (ge_peerManager e') = pm_sentMessages (ge_peerManager e) @ msgs \<Longrightarrow>
    delivery J parse unseal nodes (add_mset a M)
      (M + mset (concat (map (\<lambda>(p, msg). read_batch J parse (unseal p) msg) msgs)))"

definition flood_bound :: "nat \<Rightarrow> int \<Rightarrow> nat" where
  "flood_bound F t = (\<Sum>i\<le>nat t. F ^ i)"

lemma flood_bound_step: "0 < t \<Longrightarrow> flood_bound F t = Suc (F * flood_bound F (t - 1))"
  by (simp add: flood_bound_def sum_distrib_left flip: power_Suc)
    (metis Suc_nat_eq_nat_zadd1 diff_add_cancel diff_ge_0_iff_ge int_one_le_iff_zero_less
      lessThan_Suc_atMost power_0 sum.atMost_Suc_shift add.commute plus_1_eq_Suc)

lemma flood_bound_pos: "0 < flood_bound F t"
  by (simp add: flood_bound_def sum_pos2 [of _ 0])

definition flood_weight :: "nat \<Rightarrow> BlockAnnouncement multiset \<Rightarrow> nat" where
  "flood_weight F M = (\<Sum>a\<in>#M. flood_bound F (ba_ttl a))"

definition in_range :: "BlockAnnouncement multiset \<Rightarrow> bool" where
  "in_range M \<longleftrightarrow> (\<forall>a \<in># M. ba_ttl a < 2 ^ 31)"

lemma read_weight:
  assumes "network_laws J parse unseal nodes" and "(env, e) \<in> nodes" and "0 < ba_ttl a" and "ba_ttl a < 2 ^ 31"
    and "N = mset (concat (map (\<lambda>p. read_batch J parse (unseal p)
      (payload_for env (pm_sessions (ge_peerManager e)) (a\<lparr>ba_ttl := ba_ttl a - 1\<rparr>) p)) ps))"
  shows "flood_weight F N \<le> length ps * flood_bound F (ba_ttl a - 1)" and "in_range N"
proof -
  let ?a = "a\<lparr>ba_ttl := ba_ttl a - 1\<rparr>"
  have J: "json_laws J" using assms(1) by (simp add: network_laws_def)
  have "signed_take_bit 31 (ba_ttl ?a) = ba_ttl ?a" using assms(3,4) by (simp add: signed_take_bit_int_eq_self)
  then have ttl: "ba_ttl b = ba_ttl a - 1" if "fromJson J (ann_json J ?a) = Inr b" for b
    using json_laws.fromJson_ttl [OF J that] by simp
  note read = read_payload [OF assms(1,2)]
  show "flood_weight F N \<le> length ps * flood_bound F (ba_ttl a - 1)"
    unfolding assms(5) flood_weight_def
    by (induction ps) (auto simp: read ttl split: sum.split)
  show "in_range N"
    unfolding assms(5) in_range_def
  proof
    fix b assume "b \<in># mset (concat (map (\<lambda>p. read_batch J parse (unseal p)
      (payload_for env (pm_sessions (ge_peerManager e)) ?a p)) ps))"
    then have "fromJson J (ann_json J ?a) = Inr b" by (auto simp: read split: sum.splits if_splits)
    then show "ba_ttl b < 2 ^ 31" using ttl assms(4) by simp
  qed
qed

lemma default_fanouts: "size_t (fanout_of defaultGossipConfig a) \<le> 7"
  by (simp add: fanout_of_def defaultGossipConfig_def size_t_def split: option.split)

text \<open>Every delivery takes at least one from the weight of what is in flight.\<close>

lemma delivery_weight:
  assumes "delivery J parse unseal nodes M N" and "network_laws J parse unseal nodes"
    and "\<forall>(env, e) \<in> nodes. \<forall>a. size_t (fanout_of (ge_config e) a) \<le> F" and "in_range M"
  shows "Suc (flood_weight F N) \<le> flood_weight F M" and "in_range N"
proof -
  obtain env e a e' r msgs M0 where 1: "M = add_mset a M0" "(env, e) \<in> nodes" "handleAnnouncement env a e = (e', r)"
      "pm_sentMessages (ge_peerManager e') = pm_sentMessages (ge_peerManager e) @ msgs"
      "N = M0 + mset (concat (map (\<lambda>(p, msg). read_batch J parse (unseal p) msg) msgs))"
    using assms(1) by (cases rule: delivery.cases) blast
  have "umap_wf (pm_sessions (ge_peerManager e))" using assms(2) 1(2) by (auto simp: network_laws_def)
  then obtain ps where ps: "sent_to env (a\<lparr>ba_ttl := ba_ttl a - 1\<rparr>) ps (ge_peerManager e) (ge_peerManager e')"
      "length ps \<le> (if ba_ttl a \<le> 0 then 0 else size_t (fanout_of (ge_config e) a))"
    by (rule handle_sent [OF 1(3)])
  let ?new = "mset (concat (map (\<lambda>p. read_batch J parse (unseal p)
      (payload_for env (pm_sessions (ge_peerManager e)) (a\<lparr>ba_ttl := ba_ttl a - 1\<rparr>) p)) ps))"
  have msgs: "N = M0 + ?new" using ps(1) 1(4,5) by (simp add: sent_to_def comp_def)
  have ttl: "ba_ttl a < 2 ^ 31" "in_range M0" using assms(4) by (simp_all add: 1(1) in_range_def)
  have "Suc (flood_weight F ?new) \<le> flood_bound F (ba_ttl a) \<and> in_range ?new"
  proof (cases "0 < ba_ttl a")
    case True
    have "size_t (fanout_of (ge_config e) a) \<le> F" using assms(3) 1(2) by blast
    then have "length ps \<le> F" using ps(2) True by simp
    then have "length ps * flood_bound F (ba_ttl a - 1) \<le> F * flood_bound F (ba_ttl a - 1)" by simp
    with read_weight(1) [OF assms(2) 1(2) True ttl(1) HOL.refl, where ps = ps and F = F]
      read_weight(2) [OF assms(2) 1(2) True ttl(1) HOL.refl, where ps = ps] show ?thesis
      using flood_bound_step [OF True, of F] by linarith
  next
    case False
    then have "ps = []" using ps(2) by simp
    then show ?thesis using flood_bound_pos [of F "ba_ttl a"] by (simp add: flood_weight_def in_range_def Suc_le_eq)
  qed
  then show "Suc (flood_weight F N) \<le> flood_weight F M" "in_range N"
    using ttl(2) by (auto simp: msgs 1(1) flood_weight_def in_range_def)
qed

text \<open>
  C18: a flood dies out. Take the announcements that peers read out of the texts the engines send. When no
  node sends an announcement to more than \<open>F\<close> peers, one that starts with \<open>t\<close> hops is handled at most
  \<open>1 + F + \<dots> + F\<^sup>t\<close> times in the whole network, whatever the nodes, their states and the order of
  deliveries: every copy that is forwarded has one hop less.
\<close>

theorem floods_die_out:
  assumes "(delivery J parse unseal nodes ^^ n) {#a#} N" and "network_laws J parse unseal nodes"
    and "\<forall>(env, e) \<in> nodes. \<forall>a. size_t (fanout_of (ge_config e) a) \<le> F" and "ba_ttl a < 2 ^ 31"
  shows "n + size N \<le> (\<Sum>i\<le>nat (ba_ttl a). F ^ i)"
proof -
  have "n + flood_weight F N \<le> flood_weight F {#a#} \<and> in_range N"
    using assms(1)
  proof (induction n arbitrary: N)
    case 0
    then show ?case using assms(4) by (auto simp: in_range_def)
  next
    case (Suc n)
    then obtain K where K: "(delivery J parse unseal nodes ^^ n) {#a#} K" "delivery J parse unseal nodes K N" by auto
    with Suc.IH [OF K(1)] delivery_weight [OF K(2) assms(2,3)] show ?case by force
  qed
  moreover have "size N \<le> flood_weight F N"
  proof (induction N)
    case (add b N)
    then show ?case using flood_bound_pos [of F "ba_ttl b"] by (simp add: flood_weight_def)
  qed simp
  ultimately show ?thesis by (simp add: flood_weight_def flood_bound_def)
qed

section \<open>Examples\<close>

text \<open>A JSON library whose texts say which value they are: the number of the value, in strokes.\<close>

instance json_value :: countable
  by countable_datatype

definition stroke_json :: "json_value json_api" where
  "stroke_json = json_values\<lparr>js_dump := \<lambda>j. replicate (to_nat j) CHR ''|''\<rparr>"

definition stroke_parse :: "string \<Rightarrow> json_value option" where
  "stroke_parse s = Some (from_nat (length s))"

definition stroke_env :: "json_value gossip_env" where
  "stroke_env = sample_env\<lparr>env_json := stroke_json\<rparr>"

text \<open>The inverse of the cipher of the example, for the keys of its two peers.\<close>

definition sample_unseal :: "string \<Rightarrow> bytes \<Rightarrow> bytes option" where
  "sample_unseal p c = Some (map (\<lambda>b. b - hd (if p = ''p2'' then [1] else [])) c)"

lemma stroke_laws: "json_laws stroke_json" "stroke_parse (js_dump stroke_json j) = Some j"
proof -
  have "json_laws json_values" by (rule json.json_laws_axioms)
  then show "json_laws stroke_json" by (simp add: json_laws_def stroke_json_def)
  show "stroke_parse (js_dump stroke_json j) = Some j" by (simp add: stroke_parse_def stroke_json_def)
qed

lemma stroke_network: "network_laws stroke_json stroke_parse sample_unseal {(stroke_env, sample_engine)}"
  using sample_sessions
  by (auto simp: network_laws_def stroke_laws stroke_env_def sample_env_def sample_unseal_def comp_def
      sample_engine_def mkGossipEngine_def mkPeerManager_def sample_peer_def split: if_splits)

lemma stroke_removal:
  "handleAnnouncement stroke_env sample_removal sample_engine = (forwardAnnouncement stroke_env sample_removal sample_engine, Inr ())"
  by (simp add: sample_removal_def mkBlockAnnouncement_def validate_def handleAnnouncement_def handle_by_type_def)

theorem floods_die_out_witness:
  "\<exists>N. (delivery stroke_json stroke_parse sample_unseal {(stroke_env, sample_engine)} ^^ 1) {#sample_removal#} N \<and>
     size N = 2 \<and> 1 + size N \<le> 57"
proof -
  let ?b = "sample_removal\<lparr>ba_ttl := 1\<rparr>" and ?e = "forwardAnnouncement stroke_env sample_removal sample_engine"
  let ?pay = "payload_for stroke_env (pm_sessions (ge_peerManager sample_engine)) ?b"
  obtain ps where ps: "length ps = 2" "pm_sentMessages (ge_peerManager ?e) = map (\<lambda>p. (p, ?pay p)) ps"
    using handle_sends [OF stroke_removal handle_removal(1) sample_sessions]
    by (auto simp: sent_to_def chosen_def size_t_def numeral_2_eq_2)
  have "int_fields_ok ?b" by (simp add: int_fields_ok_def sample_removal_def mkBlockAnnouncement_def)
  then have b: "fromJson stroke_json (ann_json stroke_json ?b) = Inr ?b"
    using announcement_roundtrip [OF stroke_laws(1), of ?b] by (cases "toJson stroke_json ?b") (auto simp: ann_json_def)
  let ?N = "mset (concat (map (\<lambda>(p, msg). read_batch stroke_json stroke_parse (sample_unseal p) msg) (map (\<lambda>p. (p, ?pay p)) ps)))"
  have "delivery stroke_json stroke_parse sample_unseal {(stroke_env, sample_engine)} (add_mset sample_removal {#}) ({#} + ?N)"
    using ps(2) by (intro delivery.deliver [OF _ stroke_removal]) simp_all
  then have d: "(delivery stroke_json stroke_parse sample_unseal {(stroke_env, sample_engine)} ^^ 1) {#sample_removal#} ?N"
    by (simp add: OO_def)
  have "map (\<lambda>p. read_batch stroke_json stroke_parse (sample_unseal p) (?pay p)) ps = map (\<lambda>p. [?b]) ps"
    using read_payload [OF stroke_network, of stroke_env sample_engine _ ?b] by (simp add: b)
  then have "?N = replicate_mset 2 ?b" using ps(1) by (simp add: comp_def map_replicate_const numeral_2_eq_2)
  moreover have "nat (ba_ttl sample_removal) = Suc (Suc 0)" "ba_ttl sample_removal < 2 ^ 31" by simp_all
  moreover have "\<forall>(env, e) \<in> {(stroke_env, sample_engine)}. \<forall>a. size_t (fanout_of (ge_config e) a) \<le> 7"
    by (simp add: default_fanouts)
  ultimately show ?thesis using d floods_die_out [OF d stroke_network, of 7] by auto
qed

end
