(* ===== verification/WebSocketProperties.thy ===== *)
theory WebSocketProperties
  imports WebSocketServer GossipNetwork
begin

text \<open>
  What the WebSocket server promises: an event goes to clients whose token entitles them to it and
  to nobody else, expired sessions are closed; and what becomes of the messages of peers.
\<close>

section \<open>Sessions and streams\<close>

text \<open>
  What every way of ending a session keeps: the sessions and streams of the others. Dropping a
  session and losing it while sending to it both meet it.
\<close>

locale session_end =
  fixes fin :: "string \<Rightarrow> ('j, 'x) WebSocketServer \<Rightarrow> ('j, 'x) WebSocketServer"
  assumes fin_sessions: "ws_clientSessions (fin sid s) = map_del sid (ws_clientSessions s)"
    and fin_streams: "ws_clientStreams (fin sid s) = map_del sid (ws_clientStreams s)"
begin

lemma fold_sessions: "map_of (ws_clientSessions (fold fin sids s)) i =
    (if i \<in> set sids then None else map_of (ws_clientSessions s) i)"
  by (induction sids arbitrary: s) (auto simp: fin_sessions map_of_map_del)

lemma fold_streams: "map_of (ws_clientStreams (fold fin sids s)) i =
    (if i \<in> set sids then None else map_of (ws_clientStreams s) i)"
  by (induction sids arbitrary: s) (auto simp: fin_streams map_of_map_del)

end

interpretation dropping: session_end "drop_session code"
  by unfold_locales (simp_all add: drop_session_def removeClientSession_def erase_stream_def Let_def)

interpretation losing: session_end "\<lambda>sid s. erase_stream sid (removeClientSession sid s)"
  by unfold_locales (simp_all add: removeClientSession_def erase_stream_def)

lemma drop_simps [simp]:
  "ws_sent (drop_session code sid s) = ws_sent s" "ws_running (drop_session code sid s) = ws_running s"
  "ws_closed (drop_session code sid s) =
     ws_closed s @ (if map_of (ws_clientStreams s) sid = Some True then [(sid, code)] else [])"
  by (simp_all add: drop_session_def removeClientSession_def erase_stream_def Let_def)

lemma fold_drop_closed:
  "distinct sids \<Longrightarrow> ws_closed (fold (drop_session code) sids s) =
     ws_closed s @ map (\<lambda>sid. (sid, code)) (filter (\<lambda>sid. map_of (ws_clientStreams s) sid = Some True) sids)"
proof (induction sids arbitrary: s)
  case (Cons sid sids)
  have "map_of (ws_clientStreams (drop_session code sid s)) i = map_of (ws_clientStreams s) i" if "i \<in> set sids" for i
    using that Cons.prems by (auto simp: dropping.fin_streams map_of_map_del)
  with Cons show ?case by (auto cong: filter_cong)
qed simp

lemma change_session_simps [simp]:
  "ws_sent (change_session sid f s) = ws_sent s" "ws_clientStreams (change_session sid f s) = ws_clientStreams s"
  "ws_closed (change_session sid f s) = ws_closed s" "ws_running (change_session sid f s) = ws_running s"
  by (simp_all add: change_session_def split: option.split)

lemma map_of_change_session:
  "map_of (ws_clientSessions (change_session sid f s)) i =
     (if i = sid then map_option f (map_of (ws_clientSessions s) sid) else map_of (ws_clientSessions s) i)"
  by (auto simp: change_session_def update_conv' split: option.split)

section \<open>Events reach who may see them\<close>

text \<open>Sending to one client after the other, each at most once.\<close>

lemma fold_sendToClient:
  assumes "distinct sids"
  shows "ws_sent (fold (\<lambda>sid. sendToClient fails sid msg) sids s) = ws_sent s @
    map (\<lambda>sid. (sid, msg)) (filter (\<lambda>sid. map_of (ws_clientStreams s) sid = Some True \<and> \<not> fails sid) sids)"
  using assms
proof (induction sids arbitrary: s)
  case (Cons sid sids)
  let ?s = "sendToClient fails sid msg s"
  have streams: "map_of (ws_clientStreams ?s) i = map_of (ws_clientStreams s) i" if "i \<in> set sids" for i
    using that Cons.prems
    by (auto simp: sendToClient_def erase_stream_def removeClientSession_def map_of_map_del)
  have "ws_sent ?s = ws_sent s @ (if map_of (ws_clientStreams s) sid = Some True \<and> \<not> fails sid then [(sid, msg)] else [])"
    by (simp add: sendToClient_def erase_stream_def removeClientSession_def)
  with Cons.IH [of ?s] Cons.prems streams show ?case by (auto cong: filter_cong)
qed simp

text \<open>What the server does, one call or callback at a time.\<close>

inductive server_step :: "'j gossip_env \<Rightarrow> 'j jwt_api \<Rightarrow> ('j, 'x) WebSocketServer \<Rightarrow> ('j, 'x) WebSocketServer \<Rightarrow> bool"
    for env W where
  accept: "server_step env W s (accepted env W challenge exchange now ticks pongNow target s)"
| node: "server_step env W s (nodeMessage env parse failed nodeId msg s)"
| client: "server_step env W s (clientMessage (env_json env) parse failed sid msg s)"
| event: "server_step env W s (broadcastEvent (env_json env) fails event s)"
| heartbeat: "server_step env W s (heartbeatFired failed now s)"
| expiry: "server_step env W s (jwtExpiryFired (env_json env) fails failed now s)"
| start: "server_step env W s (fst (WebSocketServer.start outcome s))"
| stop: "server_step env W s (WebSocketServer.stop s)"

text \<open>Every session was opened with a token that was valid then.\<close>

definition entitled :: "'j json_api \<Rightarrow> 'j jwt_api \<Rightarrow> string \<Rightarrow> JwtClaims \<Rightarrow> bool" where
  "entitled J W secret claims \<longleftrightarrow> (\<exists>now token. validateJwt J W now secret token = Some claims)"

definition sessions_ok :: "'j json_api \<Rightarrow> 'j jwt_api \<Rightarrow> ('j, 'x) WebSocketServer \<Rightarrow> bool" where
  "sessions_ok J W s \<longleftrightarrow> umap_wf (ws_clientSessions s) \<and>
     (\<forall>cs \<in> snd ` set (ws_clientSessions s). cs_authenticated cs \<and> entitled J W (ws_jwtSecret s) (cs_claims cs))"

text \<open>An operation that opens no session: those it leaves are old ones, with the same claims and the same last pong.\<close>

definition old_sessions :: "('j, 'x) WebSocketServer \<Rightarrow> ('j, 'x) WebSocketServer \<Rightarrow> bool" where
  "old_sessions s s' \<longleftrightarrow> ws_jwtSecret s' = ws_jwtSecret s \<and>
     (umap_wf (ws_clientSessions s) \<longrightarrow> umap_wf (ws_clientSessions s')) \<and>
     (\<forall>(sid, cs') \<in> set (ws_clientSessions s'). \<exists>cs. (sid, cs) \<in> set (ws_clientSessions s) \<and>
        cs_claims cs' = cs_claims cs \<and> cs_authenticated cs' = cs_authenticated cs \<and>
        cs_lastPongReceived cs' = cs_lastPongReceived cs)"

lemma old_refl: "ws_jwtSecret s' = ws_jwtSecret s \<Longrightarrow> ws_clientSessions s' = ws_clientSessions s \<Longrightarrow> old_sessions s s'"
  by (auto simp: old_sessions_def)

lemma old_trans: "old_sessions s s1 \<Longrightarrow> old_sessions s1 s2 \<Longrightarrow> old_sessions s s2"
  unfolding old_sessions_def by (fastforce simp: case_prod_beta)

lemma old_fold: "(\<And>x s. old_sessions s (f x s)) \<Longrightarrow> old_sessions s (fold f xs s)"
  by (induction xs arbitrary: s) (auto intro: old_refl old_trans)

lemma old_remove: "old_sessions s (erase_stream sid (removeClientSession sid s))"
  by (auto simp: old_sessions_def erase_stream_def removeClientSession_def umap_wf_del)
    (auto simp: map_del_def)

lemma old_drop: "old_sessions s (drop_session code sid s)"
  using old_remove [of "s\<lparr>ws_closed := ws_closed s @ [(sid, code)]\<rparr>" sid] old_remove [of s sid]
  by (auto simp: drop_session_def Let_def old_sessions_def)

lemma old_change:
  assumes "\<And>cs. cs_claims (f cs) = cs_claims cs \<and> cs_authenticated (f cs) = cs_authenticated cs \<and>
    cs_lastPongReceived (f cs) = cs_lastPongReceived cs"
  shows "old_sessions s (change_session sid f s)"
proof (cases "map_of (ws_clientSessions s) sid")
  case (Some cs)
  have "set (AList.update sid (f cs) m) \<subseteq> insert (sid, f cs) (set m)" for m :: "(string \<times> ClientSession) list"
    by (induction m) auto
  then show ?thesis using Some map_of_SomeD [OF Some] assms
    by (fastforce simp: old_sessions_def change_session_def umap_wf_def distinct_update)
qed (simp add: change_session_def old_refl)

lemma old_send: "old_sessions s (sendToClient fails sid msg s)"
  by (simp add: sendToClient_def old_remove old_refl)

lemmas old_intros = old_remove old_drop old_change old_send old_fold

lemma old_client_message: "old_sessions s (clientMessage J parse failed sid msg s)"
  by (auto simp: clientMessage_def subscribeClient_def unsubscribeClient_def
      intro!: old_intros old_refl split: option.split sum.split)

lemma old_heartbeat: "old_sessions s (heartbeatFired failed now s)"
proof -
  have a: "old_sessions s (s\<lparr>ws_heartbeatWaiting := False\<rparr>)" by (rule old_refl) simp_all
  have b: "old_sessions s1 (scheduleHeartbeat s1)" for s1 :: "('a, 'b) WebSocketServer"
    by (rule old_refl) (simp_all add: scheduleHeartbeat_def)
  have "old_sessions s (scheduleHeartbeat (fold (drop_session 1008) sids (s\<lparr>ws_heartbeatWaiting := False\<rparr>)))" for sids
    by (rule old_trans [OF a old_trans [OF old_fold [OF old_drop] b]])
  with a show ?thesis by (simp add: heartbeatFired_def Let_def)
qed

lemma old_warn: "old_sessions s (warn_expiring J fails sid s)"
  unfolding warn_expiring_def by (rule old_trans [OF old_send old_change]) simp

lemma old_expiry: "old_sessions s (jwtExpiryFired J fails failed now s)"
proof -
  have a: "old_sessions s (s\<lparr>ws_jwtWaiting := False\<rparr>)" by (rule old_refl) simp_all
  have b: "old_sessions s1 (scheduleJwtExpiryCheck s1)" for s1 :: "('a, 'b) WebSocketServer"
    by (rule old_refl) (simp_all add: scheduleJwtExpiryCheck_def)
  have "old_sessions s (scheduleJwtExpiryCheck (fold (drop_session code) gone
      (fold (warn_expiring J fails) warned (s\<lparr>ws_jwtWaiting := False\<rparr>))))" for code gone warned
    by (rule old_trans [OF a old_trans [OF old_fold [OF old_warn] old_trans [OF old_fold [OF old_drop] b]]])
  with a show ?thesis by (simp add: jwtExpiryFired_def Let_def)
qed

lemma old_node_message: "old_sessions s (nodeMessage env parse failed nodeId msg s)"
  by (rule old_refl) (simp_all add: nodeMessage_def split: option.split sum.split)

lemma old_broadcast: "old_sessions s (broadcastEvent J fails event s)"
  by (simp add: broadcastEvent_def old_fold old_send)

lemma sessions_ok_old: "old_sessions s s' \<Longrightarrow> sessions_ok J W s \<Longrightarrow> sessions_ok J W s'"
  by (fastforce simp: old_sessions_def sessions_ok_def)

lemma old_step_ok:
  "old_sessions s s' \<Longrightarrow> sessions_ok J W s \<Longrightarrow> sessions_ok J W s' \<and> ws_jwtSecret s' = ws_jwtSecret s"
  using sessions_ok_old by (auto simp: old_sessions_def)

lemma step_sessions_ok:
  assumes "server_step env W s s'" and "sessions_ok (env_json env) W s"
  shows "sessions_ok (env_json env) W s' \<and> ws_jwtSecret s' = ws_jwtSecret s"
  using assms(1)
proof (cases rule: server_step.cases)
  case (accept challenge exchange now ticks pongNow target)
  let ?J = "env_json env"
  have client: "sessions_ok ?J W (handleClientConnection ?J W now ticks pongNow token s)" for token
  proof (cases "validateJwt ?J W now (ws_jwtSecret s) token")
    case (Some claims)
    have "set (AList.update k v m) \<subseteq> insert (k, v) (set m)" for k v and m :: "(string \<times> ClientSession) list"
      by (induction m) auto
    then show ?thesis using Some assms(2)
      by (fastforce simp: sessions_ok_def handleClientConnection_def addClientSession_def Let_def entitled_def
          std_umap.inv_put)
  qed (use assms(2) in \<open>simp add: sessions_ok_def handleClientConnection_def\<close>)
  have secret: "ws_jwtSecret (handleClientConnection ?J W now ticks pongNow token s) = ws_jwtSecret s" for token
    by (simp add: handleClientConnection_def addClientSession_def Let_def split: option.split)
  have node: "old_sessions s (handleNodeConnection env challenge exchange nodeId s)" for nodeId
    by (rule old_refl) (simp_all add: handleNodeConnection_def Let_def startNodeReadLoop_def split: option.split)
  show ?thesis unfolding accept accepted_def
    using client secret old_step_ok [OF node assms(2)] assms(2) by (auto split: route.split)
next
  case (start outcome)
  have "old_sessions s (fst (WebSocketServer.start outcome s))"
    by (rule old_refl)
      (simp_all add: WebSocketServer.start_def scheduleHeartbeat_def scheduleJwtExpiryCheck_def Let_def split: listen_outcome.split)
  then show ?thesis unfolding start by (rule old_step_ok [OF _ assms(2)])
next
  case stop
  have "old_sessions s (WebSocketServer.stop s)" by (simp add: old_sessions_def WebSocketServer.stop_def)
  then show ?thesis unfolding stop by (rule old_step_ok [OF _ assms(2)])
qed (simp_all only: old_step_ok [OF _ assms(2)] old_node_message old_client_message old_broadcast old_heartbeat old_expiry)

lemma reachable_sessions_ok:
  assumes "(server_step env W)\<^sup>*\<^sup>* (mkWebSocketServer engine secret) s"
  shows "sessions_ok (env_json env) W s \<and> ws_jwtSecret s = secret"
  using assms
proof (induction rule: rtranclp_induct)
  case base
  show ?case by (simp add: sessions_ok_def mkWebSocketServer_def)
next
  case (step s1 s2)
  then show ?case using step_sessions_ok by fastforce
qed

text \<open>
  C19: in every reachable state of the server, broadcasting an event writes it to exactly the
  clients that subscribed to it, whose token allows them to see it (an administrator's or the
  system's for the first tier, these or a permission to read the pool for the second, the
  member's own for the third) and whose connection takes it, once each; and every one of
  them presented a token that was valid when it connected.
\<close>

theorem events_reach_entitled:
  assumes "(server_step env W)\<^sup>*\<^sup>* (mkWebSocketServer engine secret) s"
  shows "\<exists>sids. distinct sids \<and>
    ws_sent (broadcastEvent (env_json env) fails event s) =
      ws_sent s @ map (\<lambda>sid. (sid, event_message (env_json env) event)) sids \<and>
    (\<forall>sid. sid \<in> set sids \<longleftrightarrow> map_of (ws_clientStreams s) sid = Some True \<and> \<not> fails sid \<and>
      (\<exists>cs. getClientSession sid s = Some cs \<and> we_event event \<in> cs_subscribedEvents cs \<and>
        (case we_accessTier event of
           AdminTier \<Rightarrow> isAdminOrSystem (jc_memberType (cs_claims cs))
         | PoolScoped \<Rightarrow> isAdminOrSystem (jc_memberType (cs_claims cs)) \<or>
             (\<exists>poolId. we_targetPoolId event = Some poolId \<and> hasPoolReadPermission (cs_claims cs) poolId)
         | MemberScoped \<Rightarrow> we_targetMemberId event = Some (jc_memberId (cs_claims cs))))) \<and>
    (\<forall>sid \<in> set sids. \<exists>cs now token. getClientSession sid s = Some cs \<and>
       validateJwt (env_json env) W now secret token = Some (cs_claims cs))"
proof -
  have ok: "sessions_ok (env_json env) W s" and secret: "ws_jwtSecret s = secret"
    using reachable_sessions_ok [OF assms] by simp_all
  then have d: "distinct (map fst (ws_clientSessions s))" by (simp add: sessions_ok_def umap_wf_def)
  let ?sids = "filter (\<lambda>sid. map_of (ws_clientStreams s) sid = Some True \<and> \<not> fails sid) (event_targets event s)"
  have dt: "distinct (event_targets event s)" using d by (simp add: event_targets_def distinct_map_filter)
  have mem: "sid \<in> set (event_targets event s) \<longleftrightarrow> (\<exists>cs. getClientSession sid s = Some cs \<and>
      we_event event \<in> cs_subscribedEvents cs \<and> isClientAuthorizedForEvent (cs_claims cs) event)" for sid
    using d by (force simp: event_targets_def getClientSession_def map_of_eq_Some_iff image_iff)
  have auth: "isClientAuthorizedForEvent claims event \<longleftrightarrow> (case we_accessTier event of
           AdminTier \<Rightarrow> isAdminOrSystem (jc_memberType claims)
         | PoolScoped \<Rightarrow> isAdminOrSystem (jc_memberType claims) \<or>
             (\<exists>poolId. we_targetPoolId event = Some poolId \<and> hasPoolReadPermission claims poolId)
         | MemberScoped \<Rightarrow> we_targetMemberId event = Some (jc_memberId claims))" for claims
    by (auto simp: isClientAuthorizedForEvent_def isAdminOrSystem_def hasPoolReadPermission_def
        split: EventAccessTier.split option.split)
  have "\<exists>cs now token. getClientSession sid s = Some cs \<and>
       validateJwt (env_json env) W now secret token = Some (cs_claims cs)" if sid: "sid \<in> set ?sids" for sid
  proof -
    obtain cs where cs: "getClientSession sid s = Some cs" using sid mem by auto
    then have "cs \<in> snd ` set (ws_clientSessions s)"
      unfolding getClientSession_def by (force dest: map_of_SomeD)
    then show ?thesis using ok cs secret unfolding sessions_ok_def entitled_def by blast
  qed
  moreover have "ws_sent (broadcastEvent (env_json env) fails event s) =
      ws_sent s @ map (\<lambda>sid. (sid, event_message (env_json env) event)) ?sids"
    by (simp add: broadcastEvent_def fold_sendToClient [OF dt])
  ultimately show ?thesis using dt mem unfolding auth by (intro exI [of _ ?sids]) auto
qed

definition sample_jwt :: "json_value jwt_api" where
  "sample_jwt = \<lparr>jwt_verify = (\<lambda>now secret token. if token = ''tok''
       then Some (json_object [(''memberId'', JStr ''ann''), (''memberType'', JNum 0), (''exp'', JNum 9)]) else None),
     jwt_sign = (\<lambda>secret payload. secret)\<rparr>"

definition sample_server :: "(json_value, string list) WebSocketServer" where
  "sample_server = mkWebSocketServer sample_engine ''key''"

definition started_server :: "(json_value, string list) WebSocketServer" where
  "started_server = fst (WebSocketServer.start Listening sample_server)"

definition connected_server :: "(json_value, string list) WebSocketServer" where
  "connected_server =
     accepted sample_env sample_jwt [] (\<lambda>bs. None) 0 7 0 ''/ws/client?token=tok'' started_server"

definition subscribed_server :: "(json_value, string list) WebSocketServer" where
  "subscribed_server = clientMessage json_values
     (\<lambda>msg. Some (json_object [(''action'', JStr ''subscribe''), (''event'', JStr ''storage:alert'')]))
     False ''client-ann-7'' ''msg'' connected_server"

lemma subscribed_reachable: "(server_step sample_env sample_jwt)\<^sup>*\<^sup>* (mkWebSocketServer sample_engine ''key'') subscribed_server"
proof -
  have env: "env_json sample_env = json_values" by (simp add: sample_env_def)
  have a: "server_step sample_env sample_jwt sample_server started_server"
    unfolding started_server_def by (rule server_step.start)
  have b: "server_step sample_env sample_jwt started_server connected_server"
    unfolding connected_server_def by (rule server_step.accept)
  have c: "server_step sample_env sample_jwt connected_server subscribed_server"
    unfolding subscribed_server_def env [symmetric] by (rule server_step.client)
  show ?thesis unfolding sample_server_def [symmetric]
    by (rule converse_rtranclp_into_rtranclp, rule a, rule converse_rtranclp_into_rtranclp, rule b,
        rule r_into_rtranclp, rule c)
qed

definition sample_event :: WebSocketEvent where
  "sample_event = \<lparr>we_event = ''storage:alert'', we_data = ''d'', we_accessTier = AdminTier,
     we_targetPoolId = None, we_targetMemberId = None\<rparr>"

definition ann_claims :: JwtClaims where
  "ann_claims = \<lparr>jc_memberId = ''ann'', jc_memberType = Admin, jc_permissions = [], jc_expiresAt = 9000\<rparr>"

lemma ann_payload: "json_object [(''memberId'', JStr ''ann''), (''memberType'', JNum 0), (''exp'', JNum 9)] =
    JObj [(''exp'', JNum 9), (''memberId'', JStr ''ann''), (''memberType'', JNum 0)]"
  by code_simp

lemma ann_token: "validateJwt json_values sample_jwt now secret ''tok'' = Some ann_claims"
  by (simp add: validateJwt_def sample_jwt_def ann_payload read_claims_def claim_def optional_def contains_def field_def
      at_def get_string_def get_int_def get_strings_def read_as_def json_values_def clamp_member_type_def ann_claims_def)

lemma ann_route: "route_of ''/ws/client?token=tok'' = ClientRoute ''tok''"
  by (simp add: route_of_def token_of_def)

lemma started_facts [simp]:
  "ws_running started_server" "ws_sent started_server = []" "ws_clientSessions started_server = []"
  "ws_clientStreams started_server = []" "ws_closed started_server = []"
  by (simp_all add: started_server_def WebSocketServer.start_def sample_server_def mkWebSocketServer_def
      scheduleHeartbeat_def scheduleJwtExpiryCheck_def)

lemma connected_eq: "connected_server = started_server\<lparr>ws_clientStreams := [(''client-ann-7'', True)],
    ws_clientSessions := [(''client-ann-7'', \<lparr>cs_sessionId = ''client-ann-7'', cs_claims = ann_claims,
      cs_subscribedEvents = {}, cs_lastPongReceived = 0, cs_authenticated = True, cs_tokenExpiringSent = False\<rparr>)]\<rparr>"
proof -
  have "digits 7 = ''7''" by code_simp
  then show ?thesis
    by (simp add: connected_server_def accepted_def ann_route handleClientConnection_def sample_env_def ann_token Let_def
        addClientSession_def)
      (simp add: ann_claims_def)
qed

lemma connected_facts:
  "ws_clientStreams connected_server = [(''client-ann-7'', True)]" "ws_sent connected_server = []"
  "ws_running connected_server" "ws_closed connected_server = []"
  "ws_clientSessions connected_server = [(''client-ann-7'', \<lparr>cs_sessionId = ''client-ann-7'', cs_claims = ann_claims,
     cs_subscribedEvents = {}, cs_lastPongReceived = 0, cs_authenticated = True, cs_tokenExpiringSent = False\<rparr>)]"
  by (simp_all add: connected_eq)

lemma subscribe_message: "json_object [(''action'', JStr ''subscribe''), (''event'', JStr ''storage:alert'')] =
    JObj [(''action'', JStr ''subscribe''), (''event'', JStr ''storage:alert'')]"
  by code_simp

lemma subscribed_server_facts:
  "ws_clientStreams subscribed_server = [(''client-ann-7'', True)]" "ws_sent subscribed_server = []"
  "\<exists>cs. getClientSession ''client-ann-7'' subscribed_server = Some cs \<and> ''storage:alert'' \<in> cs_subscribedEvents cs \<and>
     jc_memberType (cs_claims cs) = Admin"
proof -
  have "subscribed_server = subscribeClient ''client-ann-7'' ''storage:alert'' connected_server"
    by (simp add: subscribed_server_def clientMessage_def connected_facts contains_def field_def at_def
        subscribe_message get_string_def read_as_def json_values_def)
  note eq = this
  show "ws_clientStreams subscribed_server = [(''client-ann-7'', True)]" "ws_sent subscribed_server = []"
    "\<exists>cs. getClientSession ''client-ann-7'' subscribed_server = Some cs \<and>
      ''storage:alert'' \<in> cs_subscribedEvents cs \<and> jc_memberType (cs_claims cs) = Admin"
    unfolding eq by (simp_all add: subscribeClient_def change_session_def connected_facts getClientSession_def ann_claims_def)
qed

theorem events_reach_entitled_witness:
  "ws_sent (broadcastEvent json_values (\<lambda>sid. False) sample_event subscribed_server) =
     [(''client-ann-7'', event_message json_values sample_event)]"
proof -
  have env: "env_json sample_env = json_values" by (simp add: sample_env_def)
  from events_reach_entitled [OF subscribed_reachable, of "\<lambda>sid. False" sample_event] obtain sids where
    s: "distinct sids" "ws_sent (broadcastEvent json_values (\<lambda>sid. False) sample_event subscribed_server) =
        map (\<lambda>sid. (sid, event_message json_values sample_event)) sids"
      "\<forall>sid. sid \<in> set sids \<longleftrightarrow> sid = ''client-ann-7''"
    using subscribed_server_facts by (auto simp: env sample_event_def isAdminOrSystem_def)
  then have "sids = [''client-ann-7'']"
    by (metis distinct.simps(2) list.set_intros(1) list.set_intros(2) neq_Nil_conv set_empty2 empty_iff list.set(1))
  with s show ?thesis by simp
qed

section \<open>Expired sessions\<close>

lemma warn_streams: "i \<noteq> sid \<Longrightarrow> map_of (ws_clientStreams (warn_expiring J fails sid s)) i = map_of (ws_clientStreams s) i"
  by (simp add: warn_expiring_def sendToClient_def erase_stream_def removeClientSession_def map_of_map_del)

text \<open>Whose connection breaks while it is warned is gone, with no close frame; the others are marked.\<close>

lemma fold_warn:
  assumes "distinct sids"
  shows "map_of (ws_clientSessions (fold (warn_expiring J fails) sids s)) i =
      (if i \<notin> set sids then map_of (ws_clientSessions s) i
       else if map_of (ws_clientStreams s) i = Some True \<and> fails i then None
       else map_option (\<lambda>cs. cs\<lparr>cs_tokenExpiringSent := True\<rparr>) (map_of (ws_clientSessions s) i)) \<and>
    (i \<notin> set sids \<longrightarrow> map_of (ws_clientStreams (fold (warn_expiring J fails) sids s)) i = map_of (ws_clientStreams s) i) \<and>
    ws_sent (fold (warn_expiring J fails) sids s) = ws_sent s @ map (\<lambda>sid. (sid, expiring_message J))
      (filter (\<lambda>sid. map_of (ws_clientStreams s) sid = Some True \<and> \<not> fails sid) sids) \<and>
    ws_closed (fold (warn_expiring J fails) sids s) = ws_closed s"
  using assms
proof (induction sids arbitrary: s)
  case (Cons sid sids)
  let ?s = "warn_expiring J fails sid s"
  have streams: "map_of (ws_clientStreams ?s) j = map_of (ws_clientStreams s) j" if "j \<in> set sids" for j
    using that Cons.prems by (intro warn_streams) auto
  have sent: "ws_sent ?s = ws_sent s @
      (if map_of (ws_clientStreams s) sid = Some True \<and> \<not> fails sid then [(sid, expiring_message J)] else [])"
    "ws_closed ?s = ws_closed s"
    by (simp_all add: warn_expiring_def sendToClient_def erase_stream_def removeClientSession_def)
  have here: "map_of (ws_clientSessions ?s) i =
      (if i \<noteq> sid then map_of (ws_clientSessions s) i
       else if map_of (ws_clientStreams s) i = Some True \<and> fails i then None
       else map_option (\<lambda>cs. cs\<lparr>cs_tokenExpiringSent := True\<rparr>) (map_of (ws_clientSessions s) i))"
    by (simp add: warn_expiring_def map_of_change_session sendToClient_def erase_stream_def removeClientSession_def
        map_of_map_del)
  have "sid \<notin> set sids" "distinct sids" using Cons.prems by simp_all
  with Cons.IH [of ?s] streams sent here warn_streams [of i sid J fails s] show ?case by (auto cong: filter_cong)
qed simp

text \<open>
  After a check of the tokens every session that is left has a token that has not expired, and
  has been told when it is about to; the connections whose token has expired were closed with
  code 4002, the warnings went once to those that were due one.
\<close>

theorem expired_sessions_closed:
  assumes "ws_running s" and "umap_wf (ws_clientSessions s)"
    and "s' = jwtExpiryFired J fails False now s"
  shows "(\<forall>sid cs. getClientSession sid s' = Some cs \<longrightarrow> now < jc_expiresAt (cs_claims cs) \<and>
      (jc_expiresAt (cs_claims cs) - now \<le> ws_jwtGracePeriodMs s \<longrightarrow> cs_tokenExpiringSent cs)) \<and>
    ws_closed s' = ws_closed s @ map (\<lambda>sid. (sid, 4002)) (filter (\<lambda>sid. map_of (ws_clientStreams s) sid = Some True)
      (map fst (filter (\<lambda>(sid, cs). jc_expiresAt (cs_claims cs) \<le> now) (ws_clientSessions s)))) \<and>
    ws_sent s' = ws_sent s @ map (\<lambda>sid. (sid, expiring_message J))
      (filter (\<lambda>sid. map_of (ws_clientStreams s) sid = Some True \<and> \<not> fails sid)
        (map fst (filter (\<lambda>(sid, cs). expiring (ws_jwtGracePeriodMs s) now cs) (ws_clientSessions s))))"
proof -
  let ?gone = "map fst (filter (\<lambda>(sid, cs). expired now cs) (ws_clientSessions s))"
  let ?warned = "map fst (filter (\<lambda>(sid, cs). expiring (ws_jwtGracePeriodMs s) now cs) (ws_clientSessions s))"
  let ?s1 = "s\<lparr>ws_jwtWaiting := False\<rparr>"
  let ?s2 = "fold (warn_expiring J fails) ?warned ?s1"
  let ?s3 = "fold (drop_session kCloseCodeJwtExpired) ?gone ?s2"
  have d: "distinct ?warned" "distinct ?gone" using assms(2) by (simp_all add: umap_wf_def distinct_map_filter)
  have s': "s' = scheduleJwtExpiryCheck ?s3" using assms(1,3) by (simp add: jwtExpiryFired_def Let_def)
  note warn = fold_warn [OF d(1), of J fails ?s1]
  have mem: "sid \<in> set (map fst (filter (\<lambda>(sid, cs). P cs) (ws_clientSessions s))) \<longleftrightarrow>
      (\<exists>cs. map_of (ws_clientSessions s) sid = Some cs \<and> P cs)" for sid P
    using assms(2) by (force simp: umap_wf_def map_of_eq_Some_iff image_iff)
  have gone_streams: "map_of (ws_clientStreams ?s2) sid = map_of (ws_clientStreams s) sid" if "sid \<in> set ?gone" for sid
  proof -
    have "sid \<notin> set ?warned" using that unfolding mem by (auto simp: expiring_def)
    then show ?thesis using warn [of sid] by simp
  qed
  have sent: "ws_sent s' = ws_sent ?s2" and closed: "ws_closed s' = ws_closed ?s3"
    and sessions: "ws_clientSessions s' = ws_clientSessions ?s3"
  proof -
    have "ws_sent (fold (drop_session code) sids x) = ws_sent x" for code sids and x :: "('a, 'b) WebSocketServer"
      by (induction sids arbitrary: x) simp_all
    then show "ws_sent s' = ws_sent ?s2" by (simp add: s' scheduleJwtExpiryCheck_def)
  qed (simp_all add: s' scheduleJwtExpiryCheck_def)
  have "filter (\<lambda>sid. map_of (ws_clientStreams ?s2) sid = Some True) ?gone =
      filter (\<lambda>sid. map_of (ws_clientStreams s) sid = Some True) ?gone"
    by (rule filter_cong [OF refl]) (simp only: gone_streams)
  then have "ws_closed s' = ws_closed s @ map (\<lambda>sid. (sid, 4002)) (filter (\<lambda>sid. map_of (ws_clientStreams s) sid = Some True) ?gone)"
    unfolding closed fold_drop_closed [OF d(2)] using warn by (simp only: kCloseCodeJwtExpired_def) simp
  moreover have "now < jc_expiresAt (cs_claims cs) \<and>
      (jc_expiresAt (cs_claims cs) - now \<le> ws_jwtGracePeriodMs s \<longrightarrow> cs_tokenExpiringSent cs)"
    if "getClientSession sid s' = Some cs" for sid cs
  proof -
    have gone: "sid \<notin> set ?gone" and cs: "map_of (ws_clientSessions ?s2) sid = Some cs"
      using that unfolding getClientSession_def sessions dropping.fold_sessions by (simp_all split: if_splits)
    obtain cs0 where cs0: "map_of (ws_clientSessions s) sid = Some cs0"
      and cs: "cs = (if sid \<in> set ?warned then cs0\<lparr>cs_tokenExpiringSent := True\<rparr> else cs0)"
      using cs unfolding conjunct1 [OF warn] by (auto simp del: set_map split: if_splits)
    have "\<not> expired now cs0" using gone cs0 unfolding mem by simp
    moreover have "sid \<in> set ?warned \<longleftrightarrow> expiring (ws_jwtGracePeriodMs s) now cs0" unfolding mem by (simp add: cs0)
    with cs have "cs = (if expiring (ws_jwtGracePeriodMs s) now cs0 then cs0\<lparr>cs_tokenExpiringSent := True\<rparr> else cs0)"
      by (simp only:)
    ultimately show ?thesis by (auto simp: expired_def expiring_def)
  qed
  ultimately show ?thesis using warn sent by (auto simp: expired_def)
qed

theorem expired_sessions_closed_witness:
  "ws_closed (jwtExpiryFired json_values (\<lambda>sid. False) False 9000 connected_server) = [(''client-ann-7'', 4002)]"
proof -
  have "umap_wf (ws_clientSessions connected_server)" by (simp add: umap_wf_def connected_facts)
  then show ?thesis
    using expired_sessions_closed [OF connected_facts(3) _ refl, of json_values "\<lambda>sid. False" 9000]
    by (simp add: connected_facts ann_claims_def)
qed

text \<open>
  No operation records a pong: a session keeps the time it was opened at, so a heartbeat more
  than the timeout later closes it, however alive the client is.
\<close>

lemma every_client_times_out:
  assumes "ws_running s" and "map_of (ws_clientStreams s) sid = Some True" and "umap_wf (ws_clientStreams s)"
    and "getClientSession sid s = Some cs" and "ws_heartbeatTimeoutMs s < now - cs_lastPongReceived cs"
  shows "getClientSession sid (heartbeatFired False now s) = None"
proof -
  have "sid \<in> set (silent_sessions now (s\<lparr>ws_heartbeatWaiting := False\<rparr>))"
    using assms(2-5) by (force simp: silent_sessions_def getClientSession_def umap_wf_def map_of_eq_Some_iff)
  then show ?thesis using assms(1)
    by (simp add: heartbeatFired_def Let_def scheduleHeartbeat_def getClientSession_def dropping.fold_sessions)
qed

section \<open>Tokens\<close>

text \<open>
  The server does not accept the tokens it creates: it writes the type of the member as a text
  and reads it as a number.
\<close>

theorem created_tokens_rejected:
  assumes "json_laws J" and "jwt_verify W now secret (createJwt J W secret claims) \<in> {None, Some (jwt_payload J claims)}"
  shows "validateJwt J W now secret (createJwt J W secret claims) = None"
  using assms json_laws.payload_unreadable [OF assms(1), of claims] by (auto simp: validateJwt_def split: option.split)

definition plain_jwt :: "json_value jwt_api" where
  "plain_jwt = \<lparr>jwt_verify = (\<lambda>now secret token. if token = text_of (jwt_payload json_values ann_claims)
       then Some (jwt_payload json_values ann_claims) else None),
     jwt_sign = (\<lambda>secret payload. text_of payload)\<rparr>"

theorem created_tokens_rejected_witness:
  "jwt_verify plain_jwt 0 ''key'' (createJwt json_values plain_jwt ''key'' ann_claims) \<noteq> None \<and>
   validateJwt json_values plain_jwt 0 ''key'' (createJwt json_values plain_jwt ''key'' ann_claims) = None"
proof -
  have "jwt_verify plain_jwt 0 ''key'' (createJwt json_values plain_jwt ''key'' ann_claims) =
      Some (jwt_payload json_values ann_claims)" by (simp add: plain_jwt_def createJwt_def)
  then show ?thesis using created_tokens_rejected [OF json.json_laws_axioms, of plain_jwt 0 "''key''" ann_claims] by simp
qed

section \<open>What peers send is not understood\<close>

lemma batch_not_read: "json_laws J \<Longrightarrow> fromJson J (batch_json J as) = Inl json_type_error"
  by (simp add: fromJson_def field_def Json.at_def batch_json_def json_laws.arr_items)

lemma envelope_not_read:
  assumes "json_laws J"
  shows "fromJson J (envelope J bs) = Inl json_out_of_range"
proof -
  have "Json.at J (envelope J bs) ''type'' = Inl json_out_of_range"
    unfolding envelope_def by (simp add: json_laws.at_obj [OF assms])
  then show ?thesis by (simp add: fromJson_def field_def)
qed

lemma payload_not_read:
  assumes "json_laws (env_json env)"
  shows "\<exists>err. fromJson (env_json env) (payload_doc env sessions a peerId) = Inl err"
  using batch_not_read [OF assms] envelope_not_read [OF assms]
  by (auto simp: payload_doc_def Let_def split: option.split sum.split)

text \<open>
  C20: nothing the gossip engine of a node sends changes the engine of the node that receives it. Whatever
  text the engine sends to a peer while it handles an announcement, flushes its queue, is woken by its
  timer or stops, the receiving server reads it as a single announcement, and it is none: announcements
  travel in an array, or in the envelope of an encrypted one.
\<close>

theorem gossip_not_understood:
  assumes "json_laws (env_json env)" and "\<forall>j. parse (js_dump (env_json env) j) = Some j" and "env_json env' = env_json env"
    and "umap_wf (pm_sessions (ge_peerManager e))" and "sending env e e'"
    and "pm_sentMessages (ge_peerManager e') = pm_sentMessages (ge_peerManager e) @ msgs" and "(peerId, msg) \<in> set msgs"
  shows "ws_engine (nodeMessage env' parse failed nodeId msg s) = ws_engine s"
proof -
  obtain a where "msg = payload_for env (pm_sessions (ge_peerManager e)) a peerId"
    using sending_texts [OF assms(5,4,6,7)] by blast
  then have "parse msg = Some (payload_doc env (pm_sessions (ge_peerManager e)) a peerId)"
    using assms(2) by (simp add: payload_for_def)
  moreover obtain err where "fromJson (env_json env) (payload_doc env (pm_sessions (ge_peerManager e)) a peerId) = Inl err"
    using payload_not_read [OF assms(1)] by blast
  ultimately show ?thesis using assms(3) by (simp add: nodeMessage_def)
qed

theorem gossip_not_understood_witness:
  "\<exists>p msg. (p, msg) \<in> set (pm_sentMessages (ge_peerManager (fst (handleAnnouncement stroke_env sample_removal sample_engine)))) \<and>
     ws_engine (nodeMessage stroke_env stroke_parse False ''n0'' msg started_server) = ws_engine started_server"
proof -
  let ?e = "fst (handleAnnouncement stroke_env sample_removal sample_engine)"
  have J: "json_laws (env_json stroke_env)" "\<forall>j. stroke_parse (js_dump (env_json stroke_env) j) = Some j"
    using stroke_laws by (simp_all add: stroke_env_def)
  obtain ps where "length ps = 2" "sent_to stroke_env (sample_removal\<lparr>ba_ttl := 1\<rparr>) ps (ge_peerManager sample_engine) (ge_peerManager ?e)"
    using handle_sends [OF stroke_removal handle_removal(1) sample_sessions]
    by (auto simp: chosen_def size_t_def numeral_2_eq_2 stroke_removal)
  then obtain p msg where m: "(p, msg) \<in> set (pm_sentMessages (ge_peerManager ?e))"
    by (cases ps) (auto simp: sent_to_def)
  have "pm_sentMessages (ge_peerManager ?e) = pm_sentMessages (ge_peerManager sample_engine) @ pm_sentMessages (ge_peerManager ?e)"
    by simp
  from gossip_not_understood [OF J HOL.refl sample_sessions sending.handling this m] m show ?thesis by blast
qed

end
