(* ===== verification/IntrospectionApi.thy ===== *)
theory IntrospectionApi
  imports PeerManager GossipConfig Jwt
begin

text \<open>
  \<open>gossip/introspection_api.{hpp,cpp}\<close>: the HTTP endpoints that show a node's state to whoever
  holds a token, and what each shows to whom. A request is its method, its target and its
  \<open>Authorization\<close> header; a response its status and body. The file system's answer about the
  space of the store is a parameter, as is the JSON of a \<open>double\<close>.
\<close>

section \<open>State\<close>

record HttpRequest =
  rq_method :: string
  rq_target :: string
  rq_authorization :: "string option"

record HttpResponse =
  hs_status :: nat
  hs_body :: string

record 'j introspection_env =
  ie_json :: "'j json_api"
  ie_jwt :: "'j jwt_api"
  ie_double :: "rat \<Rightarrow> 'j"
  ie_now :: int
  ie_steadyNow :: int
  ie_space :: "(int \<times> int) option"

record IntrospectionApi =
  ia_peerManager :: PeerManager
  ia_config :: GossipConfig
  ia_storePath :: string
  ia_blockSize :: int
  ia_jwtSecret :: string
  ia_startTime :: int
  ia_version :: string

section \<open>Responses and tokens\<close>

definition sendSuccess :: "'j json_api \<Rightarrow> string \<Rightarrow> 'j \<Rightarrow> HttpResponse" where
  "sendSuccess J message data =
     \<lparr>hs_status = 200, hs_body = js_dump J (js_obj J [(''message'', js_str J message), (''data'', data)])\<rparr>"

definition sendError :: "'j json_api \<Rightarrow> nat \<Rightarrow> string \<Rightarrow> string \<Rightarrow> HttpResponse" where
  "sendError J status message err =
     \<lparr>hs_status = status, hs_body = js_dump J (js_obj J ([(''message'', js_str J message)] @
        (if err \<noteq> [] then [(''error'', js_str J err)] else [])))\<rparr>"

definition bearerPrefix :: string where
  "bearerPrefix = ''Bearer ''"

definition extractAndValidateJwt :: "'j introspection_env \<Rightarrow> IntrospectionApi \<Rightarrow> HttpRequest \<Rightarrow> JwtClaims option" where
  "extractAndValidateJwt E A req =
     (case rq_authorization req of
        None \<Rightarrow> None
      | Some authHeader \<Rightarrow>
          if length authHeader \<le> length bearerPrefix \<or> take (length bearerPrefix) authHeader \<noteq> bearerPrefix then None
          else validateJwt (ie_json E) (ie_jwt E) (ie_now E) (ia_jwtSecret A) (drop (length bearerPrefix) authHeader))"

section \<open>Handlers\<close>

definition unauthorized :: "'j json_api \<Rightarrow> HttpResponse" where
  "unauthorized J = sendError J 401 ''Unauthorized'' []"

definition forbidden :: "'j json_api \<Rightarrow> HttpResponse" where
  "forbidden J = sendError J 403 ''Forbidden'' []"

text \<open>\<open>duration_cast\<close> rounds towards zero.\<close>

definition to_seconds :: "int \<Rightarrow> int" where
  "to_seconds ms = sgn ms * (\<bar>ms\<bar> div 1000)"

definition handleStatus :: "'j introspection_env \<Rightarrow> IntrospectionApi \<Rightarrow> HttpRequest \<Rightarrow> HttpResponse res" where
  "handleStatus E A req =
     (let J = ie_json E in
      case extractAndValidateJwt E A req of
        None \<Rightarrow> Inr (unauthorized J)
      | Some claims \<Rightarrow> Inr (sendSuccess J ''Success'' (js_obj J
          [(''nodeId'', js_str J (if 0 < gc_fanout (ia_config A) then ''local-node'' else ''local-node'')),
           (''healthy'', js_bool J True),
           (''uptime'', js_num J (to_seconds (ie_steadyNow E - ia_startTime A))),
           (''version'', js_str J (ia_version A)),
           (''capabilities'', js_arr J (map (js_str J) [''blocks'', ''pools'', ''gossip''])),
           (''partitionMode'', js_bool J False)])))"

definition peer_json :: "'j introspection_env \<Rightarrow> PeerInfo \<Rightarrow> 'j" where
  "peer_json E peer =
     (let J = ie_json E in js_obj J
        [(''nodeId'', js_str J (pi_nodeId peer)), (''address'', js_str J (pi_address peer)),
         (''httpPort'', js_num J (uint (pi_httpPort peer))), (''wsPort'', js_num J (uint (pi_wsPort peer))),
         (''lastSeen'', js_str J (pi_lastSeen peer)),
         (''capabilities'', js_arr J (map (js_str J) (pi_capabilities peer))),
         (''connected'', js_bool J (pi_connected peer)), (''latencyMs'', ie_double E (pi_latencyMs peer))])"

definition handlePeers :: "'j introspection_env \<Rightarrow> IntrospectionApi \<Rightarrow> HttpRequest \<Rightarrow> HttpResponse res" where
  "handlePeers E A req =
     (let J = ie_json E in
      case extractAndValidateJwt E A req of
        None \<Rightarrow> Inr (unauthorized J)
      | Some claims \<Rightarrow>
          if \<not> isAdminOrSystem (jc_memberType claims) then Inr (forbidden J)
          else Inr (sendSuccess J ''Success'' (js_arr J (map (peer_json E) (getConnectedPeers (ia_peerManager A))))))"

definition pool_json :: "'j json_api \<Rightarrow> string \<times> PoolCacheEntry \<Rightarrow> 'j" where
  "pool_json J pool =
     (let (poolId, e) = pool; m = pc_metadata e in js_obj J
        [(''poolId'', js_str J poolId), (''blockCount'', js_num J (pa_blockCount m)),
         (''totalSize'', js_num J (pa_totalSize m)), (''encrypted'', js_bool J (pa_encrypted m)),
         (''hostNodeId'', js_str J (pc_hostNodeId e))])"

definition may_see_pool :: "JwtClaims \<Rightarrow> string \<Rightarrow> bool" where
  "may_see_pool claims poolId \<longleftrightarrow> isAdminOrSystem (jc_memberType claims) \<or> hasPoolReadPermission claims poolId"

definition handlePools :: "'j introspection_env \<Rightarrow> IntrospectionApi \<Rightarrow> HttpRequest \<Rightarrow> HttpResponse res" where
  "handlePools E A req =
     (let J = ie_json E in
      case extractAndValidateJwt E A req of
        None \<Rightarrow> Inr (unauthorized J)
      | Some claims \<Rightarrow> Inr (sendSuccess J ''Success'' (js_arr J (map (pool_json J)
          (filter (\<lambda>(poolId, e). may_see_pool claims poolId) (pm_poolCache (ia_peerManager A)))))))"

text \<open>\<open>fs::space\<close> gives the capacity and what is available, as 64-bit unsigned numbers.\<close>

definition handleStats :: "'j introspection_env \<Rightarrow> IntrospectionApi \<Rightarrow> HttpRequest \<Rightarrow> HttpResponse res" where
  "handleStats E A req =
     (let J = ie_json E in
      case extractAndValidateJwt E A req of
        None \<Rightarrow> Inr (unauthorized J)
      | Some claims \<Rightarrow>
          if \<not> isAdminOrSystem (jc_memberType claims) then Inr (forbidden J)
          else
            let (total, available, used) = (case ie_space E of
                   None \<Rightarrow> (0, 0, 0)
                 | Some (capacity, available) \<Rightarrow> (capacity, available, take_bit 64 (capacity - available)))
            in Inr (sendSuccess J ''Success'' (js_obj J
                 [(''storePath'', js_str J (ia_storePath A)), (''blockSize'', js_num J (ia_blockSize A)),
                  (''totalCapacity'', js_num J total), (''availableSpace'', js_num J available),
                  (''currentUsage'', js_num J used)])))"

text \<open>The loop of \<open>handleDiscoverPools\<close>, with the pools it has seen.\<close>

fun discovered :: "JwtClaims \<Rightarrow> string set \<Rightarrow> (string \<times> PoolCacheEntry) list \<Rightarrow> (string \<times> PoolCacheEntry) list" where
  "discovered claims seen [] = []"
| "discovered claims seen ((poolId, e) # pools) =
     (if poolId \<in> seen then discovered claims seen pools
      else if \<not> may_see_pool claims poolId then discovered claims (insert poolId seen) pools
      else (poolId, e) # discovered claims (insert poolId seen) pools)"

definition handleDiscoverPools :: "'j introspection_env \<Rightarrow> IntrospectionApi \<Rightarrow> HttpRequest \<Rightarrow> HttpResponse res" where
  "handleDiscoverPools E A req =
     (let J = ie_json E in
      case extractAndValidateJwt E A req of
        None \<Rightarrow> Inr (unauthorized J)
      | Some claims \<Rightarrow> Inr (sendSuccess J ''Success'' (js_arr J (map (pool_json J)
          (discovered claims {} (pm_poolCache (ia_peerManager A)))))))"

section \<open>Dispatch\<close>

definition routes :: "(string \<times> ('j introspection_env \<Rightarrow> IntrospectionApi \<Rightarrow> HttpRequest \<Rightarrow> HttpResponse res)) list" where
  "routes = [(''GET /api/introspection/status'', handleStatus), (''GET /api/introspection/peers'', handlePeers),
     (''GET /api/introspection/pools'', handlePools), (''GET /api/introspection/stats'', handleStats),
     (''POST /api/introspection/discover-pools'', handleDiscoverPools)]"

definition route_key :: "HttpRequest \<Rightarrow> string" where
  "route_key req = rq_method req @ '' '' @ takeWhile (\<lambda>c. c \<noteq> CHR ''?'') (rq_target req)"

definition handleRequest :: "'j introspection_env \<Rightarrow> IntrospectionApi \<Rightarrow> HttpRequest \<Rightarrow> HttpResponse" where
  "handleRequest E A req =
     (case map_of routes (route_key req) of
        None \<Rightarrow> sendError (ie_json E) 404 ''Not Found'' []
      | Some handler \<Rightarrow>
          (case handler E A req of
             Inl _ \<Rightarrow> sendError (ie_json E) 500 ''Internal Server Error'' []
           | Inr response \<Rightarrow> response))"

section \<open>Properties\<close>

lemma discovered_filter:
  "distinct (map fst pools) \<Longrightarrow> fst ` set pools \<inter> seen = {} \<Longrightarrow>
     discovered claims seen pools = filter (\<lambda>(poolId, e). may_see_pool claims poolId) pools"
  by (induction claims seen pools rule: discovered.induct) auto

definition admin_routes :: "string set" where
  "admin_routes = {''GET /api/introspection/peers'', ''GET /api/introspection/stats''}"

definition pool_routes :: "string set" where
  "pool_routes = {''GET /api/introspection/pools'', ''POST /api/introspection/discover-pools''}"

text \<open>
  C22: a request is answered with success only for a valid token; the peers and the storage figures
  only for an administrator's or the system's; and the pools a response lists are exactly those
  of the cache that the token lets its holder read.
\<close>

theorem introspection_gated:
  fixes E :: "'j introspection_env"
  assumes "hs_status (handleRequest E A req) = 200" and "umap_wf (pm_poolCache (ia_peerManager A))"
  shows "\<exists>claims. extractAndValidateJwt E A req = Some claims \<and>
    (route_key req \<in> admin_routes \<longrightarrow> isAdminOrSystem (jc_memberType claims)) \<and>
    (route_key req \<in> pool_routes \<longrightarrow> handleRequest E A req = sendSuccess (ie_json E) ''Success''
       (js_arr (ie_json E) (map (pool_json (ie_json E)) (filter (\<lambda>(poolId, e).
          isAdminOrSystem (jc_memberType claims) \<or> ''pool:'' @ poolId @ '':read'' \<in> set (jc_permissions claims))
          (pm_poolCache (ia_peerManager A))))))"
proof -
  note handlers = handleStatus_def handlePeers_def handlePools_def handleStats_def handleDiscoverPools_def
  have d: "discovered claims {} (pm_poolCache (ia_peerManager A)) =
      filter (\<lambda>(poolId, e). may_see_pool claims poolId) (pm_poolCache (ia_peerManager A))" for claims
    using assms(2) by (intro discovered_filter) (simp_all add: umap_wf_def)
  obtain h :: "'j introspection_env \<Rightarrow> IntrospectionApi \<Rightarrow> HttpRequest \<Rightarrow> HttpResponse res"
    where h: "map_of routes (route_key req) = Some h"
    using assms(1)
    by (cases "map_of (routes :: (string \<times> ('j introspection_env \<Rightarrow> IntrospectionApi \<Rightarrow> HttpRequest \<Rightarrow> HttpResponse res)) list)
      (route_key req)") (auto simp: handleRequest_def sendError_def)
  obtain claims where c: "extractAndValidateJwt E A req = Some claims"
  proof (cases "extractAndValidateJwt E A req")
    case None
    then have "hs_status (handleRequest E A req) \<noteq> 200" using h
      by (auto simp: handleRequest_def routes_def handlers unauthorized_def sendError_def Let_def split: if_splits)
    then show ?thesis using assms(1) by blast
  qed
  show ?thesis
  proof (intro exI [of _ claims] conjI impI)
    assume "route_key req \<in> admin_routes"
    then show "isAdminOrSystem (jc_memberType claims)" using assms(1) c
      by (auto simp: handleRequest_def admin_routes_def routes_def handlers forbidden_def sendError_def Let_def split: if_splits)
  qed (auto simp: c pool_routes_def handleRequest_def routes_def handlers d may_see_pool_def hasPoolReadPermission_def Let_def)
qed

definition sample_introspection :: "json_value introspection_env" where
  "sample_introspection = \<lparr>ie_json = json_values,
     ie_jwt = \<lparr>jwt_verify = (\<lambda>now secret token. if token = ''tok''
         then Some (JObj [(''memberId'', JStr ''ann''), (''permissions'', JArr [JStr ''pool:p1:read''])]) else None),
       jwt_sign = (\<lambda>secret payload. secret)\<rparr>,
     ie_double = (\<lambda>r. JNull), ie_now = 0, ie_steadyNow = 0, ie_space = None\<rparr>"

definition sample_pool :: "string \<Rightarrow> PoolCacheEntry" where
  "sample_pool host = \<lparr>pc_metadata = \<lparr>pa_blockCount = 1, pa_totalSize = 2, pa_encrypted = False,
     pa_encryptedMetadata = None\<rparr>, pc_hostNodeId = host\<rparr>"

definition sample_api :: IntrospectionApi where
  "sample_api = \<lparr>ia_peerManager = mkPeerManager\<lparr>pm_poolCache := [(''p1'', sample_pool ''n1''), (''p2'', sample_pool ''n2'')]\<rparr>,
     ia_config = defaultGossipConfig, ia_storePath = [], ia_blockSize = 512, ia_jwtSecret = ''key'', ia_startTime = 0,
     ia_version = ''1.0.0''\<rparr>"

definition pools_request :: HttpRequest where
  "pools_request = \<lparr>rq_method = ''GET'', rq_target = ''/api/introspection/pools?x=1'', rq_authorization = Some ''Bearer tok''\<rparr>"

theorem introspection_gated_witness:
  "handleRequest sample_introspection sample_api pools_request =
     sendSuccess json_values ''Success'' (JArr [pool_json json_values (''p1'', sample_pool ''n1'')])"
proof -
  have key: "route_key pools_request = ''GET /api/introspection/pools''" by (simp add: route_key_def pools_request_def)
  have claims: "extractAndValidateJwt sample_introspection sample_api pools_request =
      Some \<lparr>jc_memberId = ''ann'', jc_memberType = Anonymous, jc_permissions = [''pool:p1:read''], jc_expiresAt = 0\<rparr>"
    by (simp add: extractAndValidateJwt_def pools_request_def bearerPrefix_def validateJwt_def sample_introspection_def
        sample_api_def read_claims_def claim_def optional_def contains_def field_def Json.at_def get_string_def get_int_def
        get_strings_def read_as_def json_values_def)
  have ok: "hs_status (handleRequest sample_introspection sample_api pools_request) = 200"
    unfolding handleRequest_def key by (simp add: routes_def handlePools_def claims Let_def sendSuccess_def)
  have wf: "umap_wf (pm_poolCache (ia_peerManager sample_api))" by (simp add: sample_api_def mkPeerManager_def umap_wf_def)
  have J: "ie_json sample_introspection = json_values" "js_arr json_values = JArr"
    "pm_poolCache (ia_peerManager sample_api) = [(''p1'', sample_pool ''n1''), (''p2'', sample_pool ''n2'')]"
    by (simp_all add: sample_introspection_def json_values_def sample_api_def mkPeerManager_def)
  show ?thesis using introspection_gated [OF ok wf]
    by (simp add: claims key J pool_routes_def isAdminOrSystem_def)
qed

end
