(* ===== verification/AppendOnly.thy ===== *)
theory AppendOnly
  imports Prelude "HOL-Library.Sublist"
begin

text \<open>
  The contract of a log that only grows: every operation adds at most one entry at the end and
  keeps the invariant, whether it succeeds or throws. The audit log, the event log and the
  bulletin board provide it.
\<close>

locale append_only =
  fixes step :: "'o \<Rightarrow> 's \<Rightarrow> 's"
    and entries :: "'s \<Rightarrow> 'e list"
    and inv :: "'s \<Rightarrow> bool"
  assumes appends: "\<exists>es. length es \<le> 1 \<and> entries (step opn s) = entries s @ es"
    and inv_step: "inv s \<Longrightarrow> inv (step opn s)"
begin

lemma run_inv: "inv s \<Longrightarrow> inv (fold step ops s)"
  by (induction ops arbitrary: s) (auto simp: inv_step)

lemma step_prefix: "prefix (entries s) (entries (step opn s))"
  using appends [of opn s] by auto

lemma run_prefix: "prefix (entries s) (entries (fold step ops s))"
proof (induction ops arbitrary: s)
  case (Cons opn ops)
  show ?case using prefix_order.trans [OF step_prefix [of s opn] Cons.IH [of "step opn s"]] by simp
qed simp

lemma run_nth: "i < length (entries s) \<Longrightarrow> entries (fold step ops s) ! i = entries s ! i"
  using run_prefix [of s ops] by (auto simp: prefix_def nth_append)

lemma run_length: "length (entries (fold step ops s)) \<le> length (entries s) + length ops"
proof (induction ops arbitrary: s)
  case (Cons opn ops)
  obtain es where "length es \<le> 1" "entries (step opn s) = entries s @ es" using appends by blast
  then have "length (entries (step opn s)) \<le> Suc (length (entries s))" by simp
  then show ?case using Cons.IH [of "step opn s"] by simp
qed simp

end

text \<open>Fields written one after the other: equal texts with equal lengths of the first field split.\<close>

lemma split_fields: "length as = length bs \<Longrightarrow> as @ xs = bs @ ys \<longleftrightarrow> as = bs \<and> xs = ys"
  by simp

end
