(* ===== verification/AuditLog.thy ===== *)
theory AuditLog
  imports AppendOnly Polls
begin

text \<open>
  \<open>audit_log.{hpp,cpp}\<close>: the chain of signed entries an authority keeps about its polls. The
  digest, the authority's signature and the clock are parameters. The loop that writes the
  sequence number shifts an \<open>int\<close> by up to 56 bits; shifting by 32 or more is undefined, and
  \<open>wide s i\<close> stands for the byte the compiled code takes from \<open>s\<close> then.
\<close>

datatype AuditEventType = PollCreated | VoteCast | PollClosed

record AuditEntry =
  ae_sequence :: "32 word"
  ae_eventType :: AuditEventType
  ae_timestamp :: timestamp
  ae_pollId :: bytes
  ae_voterIdHash :: "bytes option"
  ae_authorityId :: "bytes option"
  ae_previousHash :: bytes
  ae_entryHash :: bytes
  ae_signature :: bytes
  ae_metadata :: "(string \<times> string) list option"

record AuditLog =
  al_authority :: member
  al_entries :: "AuditEntry list"
  al_sequence :: "32 word"

text \<open>The authority's key and the digest.\<close>

record audit_env =
  en_sign :: "bytes \<Rightarrow> bytes res"
  en_verify :: "bytes \<Rightarrow> bytes \<Rightarrow> bool"
  en_hash :: "bytes \<Rightarrow> bytes"
  en_wide :: "32 word \<Rightarrow> nat \<Rightarrow> byte"

definition mkAuditLog :: "member \<Rightarrow> AuditLog" where
  "mkAuditLog authority = \<lparr>al_authority = authority, al_entries = [], al_sequence = 0\<rparr>"

section \<open>Hashing and signing\<close>

definition event_byte :: "AuditEventType \<Rightarrow> byte" where
  "event_byte t = (case t of PollCreated \<Rightarrow> 0 | VoteCast \<Rightarrow> 1 | PollClosed \<Rightarrow> 2)"

definition sequence_bytes :: "(32 word \<Rightarrow> nat \<Rightarrow> byte) \<Rightarrow> 32 word \<Rightarrow> bytes" where
  "sequence_bytes wide s = map (\<lambda>i. if 8 * i < 32 then byte_of s i else wide s i) [0..<8]"

definition opt_bytes :: "bytes option \<Rightarrow> bytes" where
  "opt_bytes b = (case b of None \<Rightarrow> [] | Some bs \<Rightarrow> bs)"

definition serializeForHashing :: "audit_env \<Rightarrow> AuditEntry \<Rightarrow> bytes" where
  "serializeForHashing E e = sequence_bytes (en_wide E) (ae_sequence e) @ [event_byte (ae_eventType e)] @
     le_bytes 8 (ae_timestamp e) @ ae_pollId e @ ae_previousHash e @
     opt_bytes (ae_voterIdHash e) @ opt_bytes (ae_authorityId e)"

definition computeEntryHash :: "audit_env \<Rightarrow> AuditEntry \<Rightarrow> bytes" where
  "computeEntryHash E e = en_hash E (serializeForHashing E e)"

definition serializeForSigning :: "audit_env \<Rightarrow> AuditEntry \<Rightarrow> bytes" where
  "serializeForSigning E e = serializeForHashing E e @ ae_entryHash e"

section \<open>Appending\<close>

text \<open>
  The sequence number is taken before the signature is made: a signature that throws leaves a gap.
  Incrementing the largest \<open>int\<close> is undefined.
\<close>

definition unsigned_entry :: "audit_env \<Rightarrow> timestamp \<Rightarrow> AuditEventType \<Rightarrow> bytes \<Rightarrow> bytes option \<Rightarrow> bytes option \<Rightarrow>
    (string \<times> string) list \<Rightarrow> AuditLog \<Rightarrow> AuditEntry" where
  "unsigned_entry E now type pollId voterIdHash authorityId metadata l =
     (let e = \<lparr>ae_sequence = al_sequence l, ae_eventType = type, ae_timestamp = now, ae_pollId = pollId,
                ae_voterIdHash = voterIdHash, ae_authorityId = authorityId,
                ae_previousHash = (if al_entries l = [] then replicate 32 0 else ae_entryHash (last (al_entries l))),
                ae_entryHash = [], ae_signature = [],
                ae_metadata = (if metadata = [] then None else Some metadata)\<rparr>
      in e\<lparr>ae_entryHash := computeEntryHash E e\<rparr>)"

definition appendEntry :: "audit_env \<Rightarrow> timestamp \<Rightarrow> AuditEventType \<Rightarrow> bytes \<Rightarrow> bytes option \<Rightarrow> bytes option \<Rightarrow>
    (string \<times> string) list \<Rightarrow> AuditLog \<Rightarrow> AuditEntry res \<times> AuditLog" where
  "appendEntry E now type pollId voterIdHash authorityId metadata l =
     (if al_sequence l = 0x7FFFFFFF then (Inl UndefinedBehaviour, l) else
      let l1 = l\<lparr>al_sequence := al_sequence l + 1\<rparr>;
          e = unsigned_entry E now type pollId voterIdHash authorityId metadata l
      in case en_sign E (serializeForSigning E e) of
           Inl err \<Rightarrow> (Inl err, l1)
         | Inr signature \<Rightarrow>
             let signed_e = e\<lparr>ae_signature := signature\<rparr>
             in (Inr signed_e, l1\<lparr>al_entries := al_entries l @ [signed_e]\<rparr>))"

definition recordPollCreated :: "audit_env \<Rightarrow> timestamp \<Rightarrow> bytes \<Rightarrow> (string \<times> string) list \<Rightarrow> AuditLog \<Rightarrow>
    AuditEntry res \<times> AuditLog" where
  "recordPollCreated E now pollId metadata l =
     appendEntry E now PollCreated pollId None (Some (m_idBytes (al_authority l))) metadata l"

definition recordVoteCast :: "audit_env \<Rightarrow> timestamp \<Rightarrow> bytes \<Rightarrow> bytes \<Rightarrow> AuditLog \<Rightarrow> AuditEntry res \<times> AuditLog" where
  "recordVoteCast E now pollId voterIdHash l = appendEntry E now VoteCast pollId (Some voterIdHash) None [] l"

definition recordPollClosed :: "audit_env \<Rightarrow> timestamp \<Rightarrow> bytes \<Rightarrow> (string \<times> string) list \<Rightarrow> AuditLog \<Rightarrow>
    AuditEntry res \<times> AuditLog" where
  "recordPollClosed E now pollId metadata l =
     appendEntry E now PollClosed pollId None (Some (m_idBytes (al_authority l))) metadata l"

definition getEntriesForPoll :: "bytes \<Rightarrow> AuditLog \<Rightarrow> AuditEntry list" where
  "getEntriesForPoll pollId l = filter (\<lambda>e. ae_pollId e = pollId) (al_entries l)"

section \<open>Verifying\<close>

definition verifyEntry :: "audit_env \<Rightarrow> AuditEntry \<Rightarrow> bool" where
  "verifyEntry E e \<longleftrightarrow> en_verify E (serializeForSigning E e) (ae_signature e)"

text \<open>The loop of \<open>verifyChain\<close>, with the hash of the entry before.\<close>

fun verify_from :: "audit_env \<Rightarrow> bytes option \<Rightarrow> AuditEntry list \<Rightarrow> bool" where
  "verify_from E prev [] = True"
| "verify_from E prev (e # es) =
     (if computeEntryHash E e \<noteq> ae_entryHash e then False
      else if \<not> verifyEntry E e then False
      else if prev \<noteq> None \<and> Some (ae_previousHash e) \<noteq> prev then False
      else verify_from E (Some (ae_entryHash e)) es)"

definition verifyChain :: "audit_env \<Rightarrow> AuditLog \<Rightarrow> bool" where
  "verifyChain E l = verify_from E None (al_entries l)"

section \<open>Runs\<close>

datatype audit_op =
    RecordPollCreated timestamp bytes "(string \<times> string) list"
  | RecordVoteCast timestamp bytes bytes
  | RecordPollClosed timestamp bytes "(string \<times> string) list"

fun audit_step :: "audit_env \<Rightarrow> audit_op \<Rightarrow> AuditLog \<Rightarrow> AuditLog" where
  "audit_step E (RecordPollCreated now p md) l = snd (recordPollCreated E now p md l)"
| "audit_step E (RecordVoteCast now p v) l = snd (recordVoteCast E now p v l)"
| "audit_step E (RecordPollClosed now p md) l = snd (recordPollClosed E now p md l)"

text \<open>What the code writes: hashes, signatures, links, and growing sequence numbers.\<close>

definition sealed :: "audit_env \<Rightarrow> AuditEntry \<Rightarrow> bool" where
  "sealed E e \<longleftrightarrow> computeEntryHash E e = ae_entryHash e \<and> en_sign E (serializeForSigning E e) = Inr (ae_signature e)"

definition linked :: "AuditEntry list \<Rightarrow> bool" where
  "linked es \<longleftrightarrow> successively (\<lambda>d e. ae_previousHash e = ae_entryHash d) es"

definition audit_ok :: "audit_env \<Rightarrow> AuditLog \<Rightarrow> bool" where
  "audit_ok E l \<longleftrightarrow> (\<forall>e \<in> set (al_entries l). sealed E e) \<and> linked (al_entries l) \<and>
     sorted_wrt (<) (map ae_sequence (al_entries l)) \<and>
     (\<forall>e \<in> set (al_entries l). ae_sequence e < al_sequence l) \<and> al_sequence l \<le> 0x7FFFFFFF"

lemma serialize_seal [simp]:
  "serializeForHashing E (e\<lparr>ae_entryHash := h\<rparr>) = serializeForHashing E e"
  "serializeForHashing E (e\<lparr>ae_signature := s\<rparr>) = serializeForHashing E e"
  "serializeForSigning E (e\<lparr>ae_signature := s\<rparr>) = serializeForSigning E e"
  "computeEntryHash E (e\<lparr>ae_entryHash := h\<rparr>) = computeEntryHash E e"
  "computeEntryHash E (e\<lparr>ae_signature := s\<rparr>) = computeEntryHash E e"
  by (simp_all add: serializeForHashing_def serializeForSigning_def computeEntryHash_def)

lemma linked_snoc:
  "linked (es @ [e]) \<longleftrightarrow> linked es \<and> (es \<noteq> [] \<longrightarrow> ae_previousHash e = ae_entryHash (last es))"
  by (auto simp: linked_def successively_append_iff)

lemma unsigned_entry_facts:
  "ae_sequence (unsigned_entry E now ty p v a md l) = al_sequence l"
  "computeEntryHash E (unsigned_entry E now ty p v a md l) = ae_entryHash (unsigned_entry E now ty p v a md l)"
  "al_entries l \<noteq> [] \<Longrightarrow> ae_previousHash (unsigned_entry E now ty p v a md l) = ae_entryHash (last (al_entries l))"
  by (simp_all add: unsigned_entry_def Let_def computeEntryHash_def serializeForHashing_def)

lemma appendEntry_cases:
  obtains (full) "al_sequence l = 0x7FFFFFFF" "snd (appendEntry E now ty p v a md l) = l"
  | (unsigned) "al_sequence l \<noteq> 0x7FFFFFFF"
      "snd (appendEntry E now ty p v a md l) = l\<lparr>al_sequence := al_sequence l + 1\<rparr>"
  | (appended) e where "al_sequence l \<noteq> 0x7FFFFFFF" "sealed E e" "ae_sequence e = al_sequence l"
      "al_entries l \<noteq> [] \<Longrightarrow> ae_previousHash e = ae_entryHash (last (al_entries l))"
      "snd (appendEntry E now ty p v a md l) =
         l\<lparr>al_sequence := al_sequence l + 1, al_entries := al_entries l @ [e]\<rparr>"
proof (cases "al_sequence l = 0x7FFFFFFF")
  case True
  then show ?thesis by (intro full) (simp_all add: appendEntry_def)
next
  case False
  let ?e = "unsigned_entry E now ty p v a md l"
  show ?thesis
  proof (cases "en_sign E (serializeForSigning E ?e)")
    case (Inl err)
    with False show ?thesis by (intro unsigned) (simp_all add: appendEntry_def)
  next
    case (Inr s)
    with False show ?thesis
      by (intro appended [of "?e\<lparr>ae_signature := s\<rparr>"])
        (simp_all add: appendEntry_def sealed_def unsigned_entry_facts Let_def)
  qed
qed

lemma append_appends: "\<exists>es. length es \<le> 1 \<and> al_entries (snd (appendEntry E now ty p v a md l)) = al_entries l @ es"
  by (rule appendEntry_cases [of l E now ty p v a md]) auto

lemmas record_defs = recordPollCreated_def recordVoteCast_def recordPollClosed_def

lemma word_step: "s \<le> (0x7FFFFFFF :: 32 word) \<Longrightarrow> s \<noteq> 0x7FFFFFFF \<Longrightarrow> s < s + 1 \<and> s + 1 \<le> 0x7FFFFFFF"
  by (simp add: word_le_nat_alt word_less_nat_alt unat_word_ariths word_unat_eq_iff)

lemma append_ok: "audit_ok E l \<Longrightarrow> audit_ok E (snd (appendEntry E now ty p v a md l))"
  by (rule appendEntry_cases [of l E now ty p v a md])
    (auto simp: audit_ok_def linked_snoc sorted_wrt_append dest: word_step intro: less_trans)

interpretation audit: append_only "audit_step E" al_entries "audit_ok E" for E
proof unfold_locales
  fix s opn
  show "\<exists>es. length es \<le> 1 \<and> al_entries (audit_step E opn s) = al_entries s @ es"
    by (cases opn) (simp_all only: audit_step.simps record_defs append_appends)
  assume "audit_ok E s"
  then show "audit_ok E (audit_step E opn s)"
    by (cases opn) (simp_all only: audit_step.simps record_defs append_ok)
qed

lemma new_log_ok: "audit_ok E (mkAuditLog m)"
  by (simp add: audit_ok_def mkAuditLog_def linked_def)

section \<open>What verification accepts\<close>

lemma verify_from_iff:
  "verify_from E prev es \<longleftrightarrow>
     (\<forall>e \<in> set es. computeEntryHash E e = ae_entryHash e \<and> verifyEntry E e) \<and> linked es \<and>
     (es \<noteq> [] \<longrightarrow> prev = None \<or> prev = Some (ae_previousHash (hd es)))"
proof (induction es arbitrary: prev)
  case (Cons e es)
  then show ?case by (cases es) (auto simp: linked_def)
qed (simp add: linked_def)

text \<open>The hash covers everything but the metadata and the boundaries of the fields without a length.\<close>

lemma serialize_fields:
  assumes "serializeForHashing E d = serializeForHashing E e" and "length (ae_pollId d) = length (ae_pollId e)"
  shows "ae_sequence d = ae_sequence e" and "ae_eventType d = ae_eventType e"
    and "ae_timestamp d = ae_timestamp e" and "ae_pollId d = ae_pollId e"
    and "ae_previousHash d @ opt_bytes (ae_voterIdHash d) @ opt_bytes (ae_authorityId d) =
         ae_previousHash e @ opt_bytes (ae_voterIdHash e) @ opt_bytes (ae_authorityId e)"
proof -
  have s: "sequence_bytes (en_wide E) (ae_sequence d) = sequence_bytes (en_wide E) (ae_sequence e)"
    and t: "event_byte (ae_eventType d) = event_byte (ae_eventType e)"
    and rest: "le_bytes 8 (ae_timestamp d) = le_bytes 8 (ae_timestamp e)" "ae_pollId d = ae_pollId e"
      "ae_previousHash d @ opt_bytes (ae_voterIdHash d) @ opt_bytes (ae_authorityId d) =
         ae_previousHash e @ opt_bytes (ae_voterIdHash e) @ opt_bytes (ae_authorityId e)"
    using assms by (simp_all add: serializeForHashing_def sequence_bytes_def split_fields)
  have "le_bytes 4 (ae_sequence d) = le_bytes 4 (ae_sequence e)"
    using arg_cong [OF s, of "take 4"] by (simp add: sequence_bytes_def le_bytes_def take_map upt_rec)
  then show "ae_sequence d = ae_sequence e" by (simp add: le_bytes_inj)
  show "ae_eventType d = ae_eventType e"
    using t by (cases "ae_eventType d"; cases "ae_eventType e") (simp_all add: event_byte_def)
qed (use assms in \<open>simp_all add: serializeForHashing_def sequence_bytes_def split_fields le_bytes_inj\<close>)

text \<open>
  C24: as long as the authority accepts its own signatures, every log made by any sequence of
  operations verifies, the ones whose signature failed included; its sequence numbers grow
  strictly, and no later operation changes or removes an entry.
\<close>

theorem audit_log_verifies:
  assumes "\<And>d s. en_sign E d = Inr s \<Longrightarrow> en_verify E d s"
  shows "verifyChain E (fold (audit_step E) ops (mkAuditLog m)) \<and>
    sorted_wrt (<) (map ae_sequence (al_entries (fold (audit_step E) ops (mkAuditLog m)))) \<and>
    prefix (al_entries (fold (audit_step E) ops (mkAuditLog m)))
      (al_entries (fold (audit_step E) later (fold (audit_step E) ops (mkAuditLog m))))"
proof -
  let ?l = "fold (audit_step E) ops (mkAuditLog m)"
  have "audit_ok E ?l" by (rule audit.run_inv [OF new_log_ok])
  then have "verifyChain E ?l" "sorted_wrt (<) (map ae_sequence (al_entries ?l))"
    using assms by (auto simp: audit_ok_def verifyChain_def verify_from_iff sealed_def verifyEntry_def)
  then show ?thesis using audit.run_prefix by blast
qed

text \<open>Reading two chains from their ends: equal last hashes are equal entries, all the way back.\<close>

lemma chain_serializations:
  assumes "\<forall>e \<in> set as \<union> set bs. computeEntryHash E e = ae_entryHash e" and "linked as" and "linked bs"
    and "inj_on (en_hash E) (serializeForHashing E ` (set as \<union> set bs))"
    and "\<forall>e \<in> set as \<union> set bs. length (ae_pollId e) = k" and "\<forall>d. length (en_hash E d) = n"
    and "as \<noteq> []" and "bs \<noteq> []" and "ae_entryHash (last as) = ae_entryHash (last bs)"
    and "i < length as" and "i < length bs"
  shows "serializeForHashing E (rev as ! i) = serializeForHashing E (rev bs ! i)"
  using assms
proof (induction i arbitrary: "as" bs)
  case 0
  then have "en_hash E (serializeForHashing E (last as)) = en_hash E (serializeForHashing E (last bs))"
    by (metis UnI1 UnI2 computeEntryHash_def last_in_set)
  then show ?case using 0 by (simp add: rev_nth last_conv_nth inj_on_def)
next
  case (Suc i)
  obtain as' a bs' b where l: "as = as' @ [a]" "bs = bs' @ [b]"
    using Suc.prems(7,8) by (metis append_butlast_last_id)
  have ne: "as' \<noteq> []" "bs' \<noteq> []" using Suc.prems(10,11) l by auto
  have hash: "ae_entryHash e = en_hash E (serializeForHashing E e)" if "e \<in> set as \<union> set bs" for e
    using Suc.prems(1) that by (simp add: computeEntryHash_def)
  have ab: "serializeForHashing E a = serializeForHashing E b"
    using inj_onD [OF Suc.prems(4), of "serializeForHashing E a" "serializeForHashing E b"] Suc.prems(9) hash [of a]
      hash [of b] l by simp
  have prev: "ae_previousHash a = ae_entryHash (last as')" "ae_previousHash b = ae_entryHash (last bs')"
    using Suc.prems(2,3) l ne by (simp_all add: linked_snoc)
  have "length (ae_previousHash a) = n" "length (ae_previousHash b) = n"
    using prev hash [of "last as'"] hash [of "last bs'"] ne l Suc.prems(6) by simp_all
  then have "ae_entryHash (last as') = ae_entryHash (last bs')"
    using serialize_fields(5) [OF ab] Suc.prems(5) l prev by simp
  moreover have "inj_on (en_hash E) (serializeForHashing E ` (set as' \<union> set bs'))"
    by (rule inj_on_subset [OF Suc.prems(4)]) (auto simp: l)
  ultimately have "serializeForHashing E (rev as' ! i) = serializeForHashing E (rev bs' ! i)"
    using Suc.prems l ne by (intro Suc.IH) (simp_all add: linked_snoc)
  then show ?case by (simp add: l)
qed


lemma verify_segment:
  assumes "verifyChain E l"
  shows "verifyChain E (l\<lparr>al_entries := map (\<lambda>e. e\<lparr>ae_metadata := f e\<rparr>) (take n (drop k (al_entries l)))\<rparr>)"
proof -
  have same: "serializeForHashing E (e\<lparr>ae_metadata := x\<rparr>) = serializeForHashing E e" for e x
    by (simp add: serializeForHashing_def)
  have "linked (take n (drop k (al_entries l)))"
    using assms unfolding verifyChain_def verify_from_iff linked_def
    by (metis append_take_drop_id successively_append_iff)
  then have "linked (map (\<lambda>e. e\<lparr>ae_metadata := f e\<rparr>) (take n (drop k (al_entries l))))"
    by (simp add: linked_def successively_map)
  moreover have "set (take n (drop k (al_entries l))) \<subseteq> set (al_entries l)"
    by (meson order_trans set_drop_subset set_take_subset)
  ultimately show ?thesis
    using assms
    by (auto simp: verifyChain_def verify_from_iff computeEntryHash_def verifyEntry_def serializeForSigning_def same)
qed

text \<open>
  Verification does not cover everything. A log that verifies still does after entries are cut
  off at its beginning and at its end and after the metadata of any entries is changed.
\<close>

theorem audit_segment_verifies:
  "verifyChain E l \<Longrightarrow>
     verifyChain E (l\<lparr>al_entries := map (\<lambda>e. e\<lparr>ae_metadata := f e\<rparr>) (take n (drop k (al_entries l)))\<rparr>)"
  by (rule verify_segment)

section \<open>Examples\<close>

text \<open>A digest that repeats the first byte tells the entries of the example apart.\<close>

definition first_byte_env :: audit_env where
  "first_byte_env = \<lparr>en_sign = (\<lambda>d. Inr (take 9 d)), en_verify = (\<lambda>d s. s = take 9 d),
     en_hash = (\<lambda>d. replicate 64 (hd (d @ [0]))), en_wide = (\<lambda>s i. 0)\<rparr>"

definition example_member :: member where
  "example_member = \<lparr>m_idBytes = [7], m_votingPublicKey = True, m_votingPrivateKey = True\<rparr>"

definition example_ops :: "audit_op list" where
  "example_ops = [RecordPollCreated 100 [1] [(''a'', ''b'')], RecordVoteCast 101 [1] [5]]"

definition example_log :: AuditLog where
  "example_log = fold (audit_step first_byte_env) example_ops (mkAuditLog example_member)"

lemma example_log_verifies: "verifyChain first_byte_env example_log"
proof -
  have "audit_ok first_byte_env example_log"
    unfolding example_log_def by (rule audit.run_inv [OF new_log_ok])
  then show ?thesis
    by (auto simp: audit_ok_def verifyChain_def verify_from_iff sealed_def verifyEntry_def first_byte_env_def)
qed

lemma example_entries:
  "map (\<lambda>e. (length (ae_pollId e), hd (serializeForHashing first_byte_env e @ [0]))) (al_entries example_log) = [(1, 0), (1, 1)]"
  by code_simp

lemma example_no_collision:
  "inj_on (en_hash first_byte_env) (serializeForHashing first_byte_env ` set (al_entries example_log))"
proof -
  have "distinct (map (\<lambda>e. hd (serializeForHashing first_byte_env e @ [0])) (al_entries example_log))"
    using arg_cong [OF example_entries, of "map snd"] by (simp add: comp_def)
  then show ?thesis by (auto simp: inj_on_def first_byte_env_def distinct_map)
qed

definition example_tail :: AuditLog where
  "example_tail = example_log\<lparr>al_entries := map (\<lambda>e. e\<lparr>ae_metadata := None\<rparr>) (take 1 (drop 1 (al_entries example_log)))\<rparr>"

lemma two_example_entries: obtains d e where "al_entries example_log = [d, e]" "length (ae_pollId d) = 1" "length (ae_pollId e) = 1"
proof -
  have "length (map (\<lambda>e. (length (ae_pollId e), hd (serializeForHashing first_byte_env e @ [0]))) (al_entries example_log)) = 2"
    by (simp add: example_entries)
  then obtain d e where "al_entries example_log = [d, e]" by (auto simp: length_Suc_conv numeral_2_eq_2)
  with example_entries that show ?thesis by simp
qed

theorem audit_log_verifies_witness:
  "verifyChain first_byte_env (fold (audit_step first_byte_env) example_ops (mkAuditLog example_member))"
  using audit_log_verifies [of first_byte_env example_ops example_member "[]"] by (simp add: first_byte_env_def)

theorem audit_segment_verifies_witness: "verifyChain first_byte_env example_tail"
  using audit_segment_verifies [OF example_log_verifies, of "\<lambda>e. None" 1 1] by (simp add: example_tail_def)


end
