(* ===== verification/BulletinBoard.thy ===== *)
theory BulletinBoard
  imports AppendOnly Polls
begin

text \<open>
  \<open>bulletin_board.{hpp,cpp}\<close>: the board on which encrypted votes are published, each entry with
  the Merkle root of the entries before it, and the proofs of tallies. SHA-256, the authority's
  signature and the clock are parameters.
\<close>

record BulletinBoardEntry =
  bb_sequence :: "64 word"
  bb_timestamp :: timestamp
  bb_pollId :: bytes
  bb_encryptedVote :: "bytes list"
  bb_voterIdHash :: bytes
  bb_merkleRoot :: bytes
  bb_entryHash :: bytes
  bb_signature :: bytes

record TallyProof =
  tp_pollId :: bytes
  tp_tallies :: "bytes list"
  tp_choices :: "string list"
  tp_timestamp :: timestamp
  tp_votesHash :: bytes
  tp_decryptionProof :: bytes
  tp_signature :: bytes

record BulletinBoard =
  bo_entries :: "BulletinBoardEntry list"
  bo_tallyProofs :: "(string \<times> TallyProof) list"
  bo_sequence :: "64 word"

record board_env =
  be_sha256 :: "bytes \<Rightarrow> bytes"
  be_sign :: "bytes \<Rightarrow> bytes res"
  be_verify :: "bytes \<Rightarrow> bytes \<Rightarrow> bool"

definition mkBulletinBoard :: BulletinBoard where
  "mkBulletinBoard = \<lparr>bo_entries = [], bo_tallyProofs = [], bo_sequence = 0\<rparr>"

section \<open>Encodings\<close>

definition encodeNumber :: "64 word \<Rightarrow> bytes" where
  "encodeNumber n = be_bytes 8 n"

definition encodeString :: "string \<Rightarrow> bytes" where
  "encodeString s = map (\<lambda>c. word_of_nat (of_char c)) s"

definition serializeEntryData :: "BulletinBoardEntry \<Rightarrow> bytes" where
  "serializeEntryData e = concat ([encodeNumber (bb_sequence e), encodeNumber (bb_timestamp e), bb_pollId e,
     bb_voterIdHash e, bb_merkleRoot e] @ bb_encryptedVote e)"

definition serializeTallyProof :: "TallyProof \<Rightarrow> bytes" where
  "serializeTallyProof p = concat ([tp_pollId p, encodeNumber (tp_timestamp p), tp_votesHash p,
     tp_decryptionProof p] @ tp_tallies p @ map encodeString (tp_choices p))"

definition hashEncryptedVotes :: "board_env \<Rightarrow> bytes list list \<Rightarrow> bytes" where
  "hashEncryptedVotes E votes = be_sha256 E (concat (concat votes))"

definition generateDecryptionProof :: "board_env \<Rightarrow> bytes list list \<Rightarrow> bytes list \<Rightarrow> bytes" where
  "generateDecryptionProof E encryptedVotes tallies = be_sha256 E (concat (concat encryptedVotes @ tallies))"

section \<open>The Merkle root\<close>

text \<open>One level: hashes of pairs, the last one of an odd number as it is.\<close>

fun next_level :: "board_env \<Rightarrow> bytes list \<Rightarrow> bytes list" where
  "next_level E (h1 # h2 # hs) = be_sha256 E (h1 @ h2) # next_level E hs"
| "next_level E hs = hs"

lemma length_next_level: "length (next_level E hs) = (length hs + 1) div 2"
  by (induction E hs rule: next_level.induct) auto

function merkle_levels :: "board_env \<Rightarrow> bytes list \<Rightarrow> bytes list" where
  "merkle_levels E hashes = (if 1 < length hashes then merkle_levels E (next_level E hashes) else hashes)"
  by auto
termination by (relation "measure (\<lambda>(E, hs). length hs)") (auto simp: length_next_level)

declare merkle_levels.simps [simp del]

definition computeMerkleRootInternal :: "board_env \<Rightarrow> BulletinBoardEntry list \<Rightarrow> bytes" where
  "computeMerkleRootInternal E es = (if es = [] then replicate 32 0 else hd (merkle_levels E (map bb_entryHash es)))"

definition computeMerkleRoot :: "board_env \<Rightarrow> BulletinBoard \<Rightarrow> string" where
  "computeMerkleRoot E b =
     (if bo_entries b = [] then replicate 64 CHR ''0'' else toHex (computeMerkleRootInternal E (bo_entries b)))"

section \<open>Publishing\<close>

definition unsigned_vote :: "board_env \<Rightarrow> timestamp \<Rightarrow> bytes \<Rightarrow> bytes list \<Rightarrow> bytes \<Rightarrow> BulletinBoard \<Rightarrow> BulletinBoardEntry" where
  "unsigned_vote E now pollId encryptedVote voterIdHash b =
     (let e = \<lparr>bb_sequence = bo_sequence b, bb_timestamp = now, bb_pollId = pollId,
               bb_encryptedVote = encryptedVote, bb_voterIdHash = voterIdHash,
               bb_merkleRoot = computeMerkleRootInternal E (bo_entries b), bb_entryHash = [], bb_signature = []\<rparr>
      in e\<lparr>bb_entryHash := be_sha256 E (serializeEntryData e)\<rparr>)"

definition publishVote :: "board_env \<Rightarrow> timestamp \<Rightarrow> bytes \<Rightarrow> bytes list \<Rightarrow> bytes \<Rightarrow> BulletinBoard \<Rightarrow>
    BulletinBoardEntry res \<times> BulletinBoard" where
  "publishVote E now pollId encryptedVote voterIdHash b =
     (let e = unsigned_vote E now pollId encryptedVote voterIdHash b in
      case be_sign E (bb_entryHash e) of
        Inl err \<Rightarrow> (Inl err, b)
      | Inr signature \<Rightarrow>
          let signed_e = e\<lparr>bb_signature := signature\<rparr>
          in (Inr signed_e, b\<lparr>bo_sequence := bo_sequence b + 1, bo_entries := bo_entries b @ [signed_e]\<rparr>))"

definition publishTally :: "board_env \<Rightarrow> timestamp \<Rightarrow> bytes \<Rightarrow> bytes list \<Rightarrow> string list \<Rightarrow> bytes list list \<Rightarrow>
    BulletinBoard \<Rightarrow> TallyProof res \<times> BulletinBoard" where
  "publishTally E now pollId tallies choices encryptedVotes b =
     (let p = \<lparr>tp_pollId = pollId, tp_tallies = tallies, tp_choices = choices, tp_timestamp = now,
               tp_votesHash = hashEncryptedVotes E encryptedVotes,
               tp_decryptionProof = generateDecryptionProof E encryptedVotes tallies, tp_signature = []\<rparr> in
      case be_sign E (serializeTallyProof p) of
        Inl err \<Rightarrow> (Inl err, b)
      | Inr signature \<Rightarrow>
          let signed_p = p\<lparr>tp_signature := signature\<rparr>
          in (Inr signed_p, b\<lparr>bo_tallyProofs := map_put (toHex pollId) signed_p (bo_tallyProofs b)\<rparr>))"

section \<open>Reading and verifying\<close>

definition getEntries :: "bytes \<Rightarrow> BulletinBoard \<Rightarrow> BulletinBoardEntry list" where
  "getEntries pollId b = filter (\<lambda>e. toHex (bb_pollId e) = toHex pollId) (bo_entries b)"

definition getTallyProof :: "bytes \<Rightarrow> BulletinBoard \<Rightarrow> TallyProof option" where
  "getTallyProof pollId b = map_of (bo_tallyProofs b) (toHex pollId)"

definition board_verifyEntry :: "board_env \<Rightarrow> BulletinBoardEntry \<Rightarrow> bool" where
  "board_verifyEntry E e \<longleftrightarrow>
     be_sha256 E (serializeEntryData e) = bb_entryHash e \<and> be_verify E (bb_entryHash e) (bb_signature e)"

definition verifyTallyProof :: "board_env \<Rightarrow> TallyProof \<Rightarrow> bool" where
  "verifyTallyProof E p \<longleftrightarrow> be_verify E (serializeTallyProof p) (tp_signature p)"

definition verifyMerkleTree :: "board_env \<Rightarrow> BulletinBoard \<Rightarrow> bool" where
  "verifyMerkleTree E b \<longleftrightarrow>
     list_all (\<lambda>i. bb_merkleRoot (bo_entries b ! i) = computeMerkleRootInternal E (take i (bo_entries b)))
       [0..<length (bo_entries b)]"

definition exportBoard :: "BulletinBoard \<Rightarrow> bytes" where
  "exportBoard b = concat ([encodeNumber (of_nat (length (bo_entries b)))] @ map bb_entryHash (bo_entries b) @
     [encodeNumber (of_nat (length (bo_tallyProofs b)))] @ map (\<lambda>kv. tp_signature (snd kv)) (bo_tallyProofs b))"

section \<open>Runs\<close>

datatype board_op =
    PublishVote timestamp bytes "bytes list" bytes
  | PublishTally timestamp bytes "bytes list" "string list" "bytes list list"

fun board_step :: "board_env \<Rightarrow> board_op \<Rightarrow> BulletinBoard \<Rightarrow> BulletinBoard" where
  "board_step E (PublishVote now p v h) b = snd (publishVote E now p v h b)"
| "board_step E (PublishTally now p ts cs vs) b = snd (publishTally E now p ts cs vs b)"

definition entry_ok :: "board_env \<Rightarrow> BulletinBoardEntry list \<Rightarrow> nat \<Rightarrow> bool" where
  "entry_ok E es i \<longleftrightarrow>
     bb_sequence (es ! i) = of_nat i \<and> bb_merkleRoot (es ! i) = computeMerkleRootInternal E (take i es) \<and>
     bb_entryHash (es ! i) = be_sha256 E (serializeEntryData (es ! i)) \<and>
     be_sign E (bb_entryHash (es ! i)) = Inr (bb_signature (es ! i))"

definition board_ok :: "board_env \<Rightarrow> BulletinBoard \<Rightarrow> bool" where
  "board_ok E b \<longleftrightarrow> (\<forall>i < length (bo_entries b). entry_ok E (bo_entries b) i) \<and>
     bo_sequence b = of_nat (length (bo_entries b)) \<and> map_wf (bo_tallyProofs b) \<and>
     (\<forall>(k, p) \<in> set (bo_tallyProofs b). k = toHex (tp_pollId p) \<and>
        be_sign E (serializeTallyProof p) = Inr (tp_signature p))"

lemma serialize_sealed [simp]:
  "serializeEntryData (e\<lparr>bb_entryHash := h\<rparr>) = serializeEntryData e"
  "serializeEntryData (e\<lparr>bb_signature := s\<rparr>) = serializeEntryData e"
  "serializeTallyProof (p\<lparr>tp_signature := s\<rparr>) = serializeTallyProof p"
  by (simp_all add: serializeEntryData_def serializeTallyProof_def)

lemma publishVote_cases:
  obtains (unsigned) "snd (publishVote E now p v h b) = b"
  | (published) e where "bb_sequence e = bo_sequence b" "bb_merkleRoot e = computeMerkleRootInternal E (bo_entries b)"
      "bb_entryHash e = be_sha256 E (serializeEntryData e)" "be_sign E (bb_entryHash e) = Inr (bb_signature e)"
      "snd (publishVote E now p v h b) = b\<lparr>bo_sequence := bo_sequence b + 1, bo_entries := bo_entries b @ [e]\<rparr>"
proof (cases "be_sign E (bb_entryHash (unsigned_vote E now p v h b))")
  case (Inl err)
  then show ?thesis by (intro unsigned) (simp add: publishVote_def)
next
  case (Inr s)
  then show ?thesis
    by (intro published [of "unsigned_vote E now p v h b\<lparr>bb_signature := s\<rparr>"])
      (simp_all add: publishVote_def unsigned_vote_def Let_def serializeEntryData_def)
qed

lemma publishTally_cases:
  obtains (unsigned) "snd (publishTally E now p ts cs vs b) = b"
  | (published) q where "tp_pollId q = p" "be_sign E (serializeTallyProof q) = Inr (tp_signature q)"
      "snd (publishTally E now p ts cs vs b) = b\<lparr>bo_tallyProofs := map_put (toHex p) q (bo_tallyProofs b)\<rparr>"
proof -
  let ?q = "\<lparr>tp_pollId = p, tp_tallies = ts, tp_choices = cs, tp_timestamp = now,
     tp_votesHash = hashEncryptedVotes E vs, tp_decryptionProof = generateDecryptionProof E vs ts, tp_signature = []\<rparr>"
  show ?thesis
  proof (cases "be_sign E (serializeTallyProof ?q)")
    case (Inl err)
    then show ?thesis by (intro unsigned) (simp add: publishTally_def)
  next
    case (Inr s)
    then show ?thesis
      by (intro published [of "?q\<lparr>tp_signature := s\<rparr>"]) (simp_all add: publishTally_def serializeTallyProof_def Let_def)
  qed
qed

lemma entry_ok_snoc:
  "i \<le> length es \<Longrightarrow> entry_ok E (es @ [e]) i = (if i < length es then entry_ok E es i
     else bb_sequence e = of_nat (length es) \<and> bb_merkleRoot e = computeMerkleRootInternal E es \<and>
       bb_entryHash e = be_sha256 E (serializeEntryData e) \<and> be_sign E (bb_entryHash e) = Inr (bb_signature e))"
  by (auto simp: entry_ok_def nth_append)

interpretation board: append_only "board_step E" bo_entries "board_ok E" for E
proof unfold_locales
  fix s opn
  show "\<exists>es. length es \<le> 1 \<and> bo_entries (board_step E opn s) = bo_entries s @ es"
  proof (cases opn)
    case (PublishVote now p v h)
    then show ?thesis by (cases rule: publishVote_cases [of E now p v h s]) simp_all
  next
    case (PublishTally now p ts cs vs)
    then show ?thesis by (cases rule: publishTally_cases [of E now p ts cs vs s]) simp_all
  qed
  assume ok: "board_ok E s"
  show "board_ok E (board_step E opn s)"
  proof (cases opn)
    case (PublishVote now p v h)
    then show ?thesis using ok
      by (cases rule: publishVote_cases [of E now p v h s]) (simp_all add: board_ok_def entry_ok_snoc less_Suc_eq_le)
  next
    case (PublishTally now p ts cs vs)
    then show ?thesis using ok set_map_put
      by (cases rule: publishTally_cases [of E now p ts cs vs s]) (fastforce simp: board_ok_def map_wf_put)+
  qed
qed

lemma new_board_ok: "board_ok E mkBulletinBoard"
  by (simp add: board_ok_def mkBulletinBoard_def)

section \<open>The board and its roots\<close>

lemma board_ok_verifies:
  assumes "board_ok E b" and "\<And>d s. be_sign E d = Inr s \<Longrightarrow> be_verify E d s"
  shows "list_all (board_verifyEntry E) (bo_entries b)"
  unfolding list_all_length board_verifyEntry_def
  using assms unfolding board_ok_def entry_ok_def by metis

text \<open>
  C26: whatever is published, and whichever signatures fail, every entry of the board verifies and
  is numbered by its place, its root is that of the entries before it, every tally proof verifies,
  and no later publication changes an entry.
\<close>

theorem board_verifies:
  assumes "\<And>d s. be_sign E d = Inr s \<Longrightarrow> be_verify E d s" and "b = fold (board_step E) ops mkBulletinBoard"
  shows "list_all (board_verifyEntry E) (bo_entries b) \<and> verifyMerkleTree E b \<and>
    map bb_sequence (bo_entries b) = map of_nat [0..<length (bo_entries b)] \<and>
    list_all (\<lambda>(k, p). verifyTallyProof E p \<and> getTallyProof (tp_pollId p) b = Some p) (bo_tallyProofs b) \<and>
    prefix (bo_entries b) (bo_entries (fold (board_step E) later b))"
proof -
  have ok: "board_ok E b" unfolding assms(2) by (rule board.run_inv [OF new_board_ok])
  have "list_all (board_verifyEntry E) (bo_entries b)"
    by (rule board_ok_verifies [OF ok assms(1)])
  moreover have "verifyMerkleTree E b"
    using ok by (simp add: board_ok_def verifyMerkleTree_def list_all_iff entry_ok_def)
  moreover have "map bb_sequence (bo_entries b) = map of_nat [0..<length (bo_entries b)]"
    using ok by (intro nth_equalityI) (simp_all add: board_ok_def entry_ok_def)
  moreover have "verifyTallyProof E p \<and> getTallyProof (tp_pollId p) b = Some p"
    if "(k, p) \<in> set (bo_tallyProofs b)" for k p
    using ok that assms(1) map_wf_distinct
    by (fastforce simp: board_ok_def verifyTallyProof_def getTallyProof_def)
  ultimately show ?thesis by (auto simp: list_all_iff intro: board.run_prefix)
qed

text \<open>Everything the computation of a root passes to the digest.\<close>

fun pair_inputs :: "bytes list \<Rightarrow> bytes set" where
  "pair_inputs (h1 # h2 # hs) = insert (h1 @ h2) (pair_inputs hs)"
| "pair_inputs hs = {}"

function merkle_inputs :: "board_env \<Rightarrow> bytes list \<Rightarrow> bytes set" where
  "merkle_inputs E hs = (if 1 < length hs then pair_inputs hs \<union> merkle_inputs E (next_level E hs) else {})"
  by auto
termination by (relation "measure (\<lambda>(E, hs). length hs)") (auto simp: length_next_level)

declare merkle_inputs.simps [simp del]

lemma next_level_inj:
  assumes "length hs = length ks" and "\<forall>h \<in> set hs \<union> set ks. length h = n"
    and "inj_on (be_sha256 E) (pair_inputs hs \<union> pair_inputs ks)" and "next_level E hs = next_level E ks"
  shows "hs = ks"
  using assms
proof (induction E hs arbitrary: ks rule: next_level.induct)
  case (1 E h1 h2 hs)
  obtain k1 k2 ks' where ks: "ks = k1 # k2 # ks'"
    using 1(2) by (auto simp: length_Suc_conv Suc_length_conv)
  have "h1 @ h2 = k1 @ k2"
    using inj_onD [OF 1(4), of "h1 @ h2" "k1 @ k2"] 1(5) ks by simp
  moreover have "hs = ks'"
    using 1 ks by (intro "1.IH") (auto intro: inj_on_subset)
  ultimately show ?case using 1(3) ks by simp
qed (auto simp: length_Suc_conv Suc_length_conv)

lemma next_level_length:
  "\<forall>d. length (be_sha256 E d) = n \<Longrightarrow> \<forall>h \<in> set hs. length h = n \<Longrightarrow> \<forall>h \<in> set (next_level E hs). length h = n"
  by (induction E hs rule: next_level.induct) auto

lemma merkle_levels_inj:
  assumes "length hs = length ks" and "\<forall>h \<in> set hs \<union> set ks. length h = n" and "\<forall>d. length (be_sha256 E d) = n"
    and "inj_on (be_sha256 E) (merkle_inputs E hs \<union> merkle_inputs E ks)"
    and "hs \<noteq> []" and "hd (merkle_levels E hs) = hd (merkle_levels E ks)"
  shows "hs = ks"
  using assms
proof (induction E hs arbitrary: ks rule: merkle_levels.induct)
  case (1 E hs)
  show ?case
  proof (cases "1 < length hs")
    case True
    then have l: "1 < length ks" using 1 by simp
    have "next_level E hs = next_level E ks"
    proof (rule "1.IH" [OF True])
      show "length (next_level E hs) = length (next_level E ks)" using 1 by (simp add: length_next_level)
      show "\<forall>h \<in> set (next_level E hs) \<union> set (next_level E ks). length h = n"
        using next_level_length [OF 1(4)] 1(3) by blast
      show "inj_on (be_sha256 E) (merkle_inputs E (next_level E hs) \<union> merkle_inputs E (next_level E ks))"
        by (rule inj_on_subset [OF 1(5)])
          (use True l in \<open>auto simp: merkle_inputs.simps [of E hs] merkle_inputs.simps [of E ks]\<close>)
      show "next_level E hs \<noteq> []" using True length_next_level [of E hs] by auto
      show "hd (merkle_levels E (next_level E hs)) = hd (merkle_levels E (next_level E ks))"
        using 1(7) True l by (simp add: merkle_levels.simps [of E hs] merkle_levels.simps [of E ks])
    qed (use 1(4) in blast)
    moreover have "inj_on (be_sha256 E) (pair_inputs hs \<union> pair_inputs ks)"
      by (rule inj_on_subset [OF 1(5)])
        (use True l in \<open>auto simp: merkle_inputs.simps [of E hs] merkle_inputs.simps [of E ks]\<close>)
    ultimately show ?thesis using next_level_inj 1(2,3) by blast
  next
    case False
    then obtain h k where "hs = [h]" "ks = [k]"
      using 1(2,6) by (cases hs; cases ks) auto
    then show ?thesis using 1(7) by (simp add: merkle_levels.simps)
  qed
qed

lemma concat_same_lengths: "concat xs = concat ys \<Longrightarrow> map length xs = map length ys \<Longrightarrow> xs = ys"
proof (induction xs arbitrary: ys)
  case (Cons x xs)
  then obtain y zs where "ys = y # zs" by (cases ys) auto
  with Cons show ?case by auto
qed simp

text \<open>
  C27: what a Merkle root binds. If every entry of two boards of the same size verifies, the roots are
  the same and the digest tells its inputs apart, then the entries agree one by one in what is hashed:
  their hashes, sequence numbers and times, and the bytes of the poll, the voter, the earlier root and
  the ciphertexts written one after the other. Entries that split these bytes in the same way are equal
  up to the signature; entries that split them differently are not told apart.
\<close>

theorem merkle_root_binds:
  assumes "length (bo_entries b) = length (bo_entries c)" and "computeMerkleRoot E b = computeMerkleRoot E c"
    and "list_all (board_verifyEntry E) (bo_entries b @ bo_entries c)"
    and "\<forall>d. length (be_sha256 E d) = 32"
    and "inj_on (be_sha256 E) (merkle_inputs E (map bb_entryHash (bo_entries b)) \<union>
      merkle_inputs E (map bb_entryHash (bo_entries c)) \<union>
      serializeEntryData ` set (bo_entries b @ bo_entries c))"
    and "i < length (bo_entries b)" and "d = bo_entries b ! i" and "e = bo_entries c ! i"
  shows "bb_entryHash d = bb_entryHash e \<and> bb_sequence d = bb_sequence e \<and> bb_timestamp d = bb_timestamp e \<and>
    bb_pollId d @ bb_voterIdHash d @ bb_merkleRoot d @ concat (bb_encryptedVote d) =
      bb_pollId e @ bb_voterIdHash e @ bb_merkleRoot e @ concat (bb_encryptedVote e) \<and>
    (length (bb_pollId d) = length (bb_pollId e) \<and> length (bb_voterIdHash d) = length (bb_voterIdHash e) \<and>
       length (bb_merkleRoot d) = length (bb_merkleRoot e) \<and>
       map length (bb_encryptedVote d) = map length (bb_encryptedVote e) \<longrightarrow>
     d\<lparr>bb_signature := bb_signature e\<rparr> = e)"
proof -
  let ?hs = "map bb_entryHash (bo_entries b)" and ?ks = "map bb_entryHash (bo_entries c)"
  have ne: "bo_entries b \<noteq> []" "bo_entries c \<noteq> []" using assms(1,6) by auto
  have sha: "bb_entryHash x = be_sha256 E (serializeEntryData x)" if "x \<in> set (bo_entries b @ bo_entries c)" for x
    using assms(3) that unfolding list_all_iff board_verifyEntry_def by metis
  have hs: "?hs = ?ks"
  proof (rule merkle_levels_inj [where n = 32])
    show "inj_on (be_sha256 E) (merkle_inputs E ?hs \<union> merkle_inputs E ?ks)"
      using assms(5) by (rule inj_on_subset) auto
    show "hd (merkle_levels E ?hs) = hd (merkle_levels E ?ks)"
      using assms(2) ne by (simp add: computeMerkleRoot_def toHex_inj computeMerkleRootInternal_def)
    show "\<forall>h \<in> set ?hs \<union> set ?ks. length h = 32" using sha assms(4) by auto
  qed (use assms(1,4) ne in simp_all)
  have h: "bb_entryHash d = bb_entryHash e"
    using arg_cong [OF hs, of "\<lambda>xs. xs ! i"] assms(1,6) unfolding assms(7,8) by simp
  have mem: "d \<in> set (bo_entries b @ bo_entries c)" "e \<in> set (bo_entries b @ bo_entries c)"
    using assms(1,6) unfolding assms(7,8) by simp_all
  have "be_sha256 E (serializeEntryData d) = be_sha256 E (serializeEntryData e)"
    using h sha [OF mem(1)] sha [OF mem(2)] by simp
  then have "serializeEntryData d = serializeEntryData e"
    by (rule inj_onD [OF assms(5)]) (rule UnI2, rule imageI, rule mem)+
  then have bound: "bb_sequence d = bb_sequence e \<and> bb_timestamp d = bb_timestamp e \<and>
      bb_pollId d @ bb_voterIdHash d @ bb_merkleRoot d @ concat (bb_encryptedVote d) =
      bb_pollId e @ bb_voterIdHash e @ bb_merkleRoot e @ concat (bb_encryptedVote e)"
    by (simp add: serializeEntryData_def encodeNumber_def split_fields be_bytes_inj)
  moreover have "d\<lparr>bb_signature := bb_signature e\<rparr> = e"
    if l: "length (bb_pollId d) = length (bb_pollId e)" "length (bb_voterIdHash d) = length (bb_voterIdHash e)"
      "length (bb_merkleRoot d) = length (bb_merkleRoot e)" "map length (bb_encryptedVote d) = map length (bb_encryptedVote e)"
  proof -
    from bound l(1-3) have "bb_pollId d = bb_pollId e" "bb_voterIdHash d = bb_voterIdHash e"
      "bb_merkleRoot d = bb_merkleRoot e" "concat (bb_encryptedVote d) = concat (bb_encryptedVote e)" by simp_all
    moreover from this(4) l(4) have "bb_encryptedVote d = bb_encryptedVote e" by (rule concat_same_lengths)
    ultimately show ?thesis using bound h by (cases d; cases e) simp
  qed
  ultimately show ?thesis using h by blast
qed

lemma serialize_moved:
  assumes "bb_pollId e @ bb_voterIdHash e = p @ v" and "concat (bb_encryptedVote e) = concat cts"
  shows "serializeEntryData (e\<lparr>bb_pollId := p, bb_voterIdHash := v, bb_encryptedVote := cts\<rparr>) = serializeEntryData e"
proof -
  have fields: "bb_pollId e @ bb_voterIdHash e @ r = p @ v @ r" for r
    using assms(1) by (metis append.assoc)
  show ?thesis using assms(2) by (simp add: serializeEntryData_def fields)
qed

text \<open>
  Entries and tally proofs are signed without the lengths of their fields. One that
  verifies still does after bytes are moved between the poll and the voter, or between
  ciphertexts; or from the tallies to the names of the choices.
\<close>

theorem board_boundaries_unsigned:
  assumes "bb_pollId e @ bb_voterIdHash e = p @ v" and "concat (bb_encryptedVote e) = concat cts"
    and "concat (tp_tallies q) @ concat (map encodeString (tp_choices q)) = concat ts @ concat (map encodeString cs)"
  shows "board_verifyEntry E (e\<lparr>bb_pollId := p, bb_voterIdHash := v, bb_encryptedVote := cts\<rparr>) = board_verifyEntry E e \<and>
    verifyTallyProof E (q\<lparr>tp_tallies := ts, tp_choices := cs\<rparr>) = verifyTallyProof E q"
  using serialize_moved [OF assms(1,2)] assms(3)
  by (simp add: board_verifyEntry_def verifyTallyProof_def serializeTallyProof_def)

lemma merkle_root_cong:
  assumes "map bb_entryHash (bo_entries b) = map bb_entryHash (bo_entries c)"
  shows "computeMerkleRoot E b = computeMerkleRoot E c"
proof -
  have "bo_entries b = [] \<longleftrightarrow> bo_entries c = []" using arg_cong [OF assms, of length] by auto
  then show ?thesis using assms by (simp add: computeMerkleRoot_def computeMerkleRootInternal_def)
qed

section \<open>Examples\<close>

text \<open>A digest that doubles the last byte has no collisions in the example.\<close>

definition last_byte_env :: board_env where
  "last_byte_env = \<lparr>be_sha256 = (\<lambda>d. replicate 32 (2 * last (0 # d))),
     be_sign = (\<lambda>d. Inr (take 2 d)), be_verify = (\<lambda>d s. s = take 2 d)\<rparr>"

definition example_board_ops :: "board_op list" where
  "example_board_ops = [PublishVote 100 [1] [[9], [1]] [5], PublishVote 101 [1] [[7], [2]] [6],
     PublishTally 102 [1] [[3], [65]] [''B''] [[[9], [1]], [[7], [2]]]]"

definition example_board :: BulletinBoard where
  "example_board = fold (board_step last_byte_env) example_board_ops mkBulletinBoard"

text \<open>The same bytes with the poll's identifier moved into the voter's.\<close>

definition shifted_board :: BulletinBoard where
  "shifted_board = example_board\<lparr>bo_entries :=
     map (\<lambda>e. e\<lparr>bb_pollId := [], bb_voterIdHash := bb_pollId e @ bb_voterIdHash e\<rparr>) (bo_entries example_board)\<rparr>"

lemma board_example_entries:
  "map (\<lambda>e. (bb_entryHash e, last (serializeEntryData e))) (bo_entries example_board) = [(replicate 32 2, 1), (replicate 32 4, 2)]"
  by code_simp

lemma board_example_hashes:
  "map bb_entryHash (bo_entries example_board) = [replicate 32 2, replicate 32 4]"
  "map (\<lambda>e. last (serializeEntryData e)) (bo_entries example_board) = [1, 2]"
  "length (bo_entries example_board) = 2"
  using arg_cong [OF board_example_entries, of "map fst"] arg_cong [OF board_example_entries, of "map snd"]
    arg_cong [OF board_example_entries, of length] by (simp_all add: comp_def)

lemma shifted_hashes: "map bb_entryHash (bo_entries shifted_board) = map bb_entryHash (bo_entries example_board)"
  by (simp add: shifted_board_def comp_def)

lemma shifted_serialize: "map serializeEntryData (bo_entries shifted_board) = map serializeEntryData (bo_entries example_board)"
proof -
  have "serializeEntryData (e\<lparr>bb_pollId := [], bb_voterIdHash := bb_pollId e @ bb_voterIdHash e\<rparr>) = serializeEntryData e" for e
    using serialize_moved [of e "[]" "bb_pollId e @ bb_voterIdHash e" "bb_encryptedVote e"] by simp
  then show ?thesis by (simp add: shifted_board_def comp_def)
qed

lemma board_example_verify: "list_all (board_verifyEntry last_byte_env) (bo_entries example_board @ bo_entries shifted_board)"
proof -
  have "board_ok last_byte_env example_board"
    unfolding example_board_def by (rule board.run_inv [OF new_board_ok])
  then have "list_all (board_verifyEntry last_byte_env) (bo_entries example_board)"
    by (rule board_ok_verifies) (simp add: last_byte_env_def)
  moreover have "board_verifyEntry last_byte_env (e\<lparr>bb_pollId := [], bb_voterIdHash := bb_pollId e @ bb_voterIdHash e\<rparr>)
      = board_verifyEntry last_byte_env e" for e
    using serialize_moved [of e "[]" "bb_pollId e @ bb_voterIdHash e" "bb_encryptedVote e"]
    by (simp add: board_verifyEntry_def)
  ultimately show ?thesis by (auto simp: shifted_board_def list_all_iff)
qed

text \<open>All the inputs of the digest end in different bytes.\<close>

lemma board_no_collision:
  "inj_on (be_sha256 last_byte_env) (merkle_inputs last_byte_env (map bb_entryHash (bo_entries example_board)) \<union>
     merkle_inputs last_byte_env (map bb_entryHash (bo_entries shifted_board)) \<union>
     serializeEntryData ` set (bo_entries example_board @ bo_entries shifted_board))"
proof -
  have m: "merkle_inputs last_byte_env [replicate 32 2, replicate 32 4] = {replicate 32 2 @ replicate 32 4}"
    by (simp add: merkle_inputs.simps)
  have s: "serializeEntryData ` set (bo_entries example_board @ bo_entries shifted_board) =
      serializeEntryData ` set (bo_entries example_board)"
    using arg_cong [OF shifted_serialize, of set] by (simp add: image_Un)
  obtain d e where l: "bo_entries example_board = [d, e]"
    using board_example_hashes(3) by (auto simp: length_Suc_conv numeral_2_eq_2)
  have ne: "serializeEntryData d \<noteq> []" "serializeEntryData e \<noteq> []"
    by (simp_all add: serializeEntryData_def encodeNumber_def be_bytes_def upt_rec)
  have "last (serializeEntryData d) = 1" "last (serializeEntryData e) = 2" using board_example_hashes(2) l by simp_all
  then show ?thesis
    unfolding shifted_hashes board_example_hashes(1) m s
    using ne by (auto simp: l inj_on_def last_byte_env_def last_replicate)
qed

theorem board_verifies_witness:
  "list_all (board_verifyEntry last_byte_env) (bo_entries example_board) \<and> verifyMerkleTree last_byte_env example_board"
  using board_verifies [of last_byte_env example_board example_board_ops "[]"]
  by (simp add: last_byte_env_def example_board_def)

theorem merkle_root_binds_witness:
  "bb_timestamp (bo_entries example_board ! 1) = bb_timestamp (bo_entries shifted_board ! 1)"
proof -
  have r: "computeMerkleRoot last_byte_env example_board = computeMerkleRoot last_byte_env shifted_board"
    by (rule merkle_root_cong) (simp only: shifted_hashes)
  have l: "length (bo_entries example_board) = length (bo_entries shifted_board)" by (simp add: shifted_board_def)
  have n: "\<forall>d. length (be_sha256 last_byte_env d) = 32" by (simp add: last_byte_env_def)
  have "1 < length (bo_entries example_board)" by (simp only: board_example_hashes(3))
  from merkle_root_binds [OF l r board_example_verify n board_no_collision this HOL.refl HOL.refl]
  show ?thesis by blast
qed

definition example_proof :: TallyProof where
  "example_proof = \<lparr>tp_pollId = [1], tp_tallies = [[3], [65]], tp_choices = [''B''], tp_timestamp = 0,
     tp_votesHash = [], tp_decryptionProof = [], tp_signature = [1, 0]\<rparr>"

definition example_entry :: BulletinBoardEntry where
  "example_entry = \<lparr>bb_sequence = 0, bb_timestamp = 0, bb_pollId = [1], bb_encryptedVote = [[9], [1]],
     bb_voterIdHash = [5], bb_merkleRoot = replicate 32 0, bb_entryHash = replicate 32 2, bb_signature = [2, 2]\<rparr>"

theorem board_boundaries_unsigned_witness:
  "board_verifyEntry last_byte_env (example_entry\<lparr>bb_pollId := [], bb_voterIdHash := [1, 5], bb_encryptedVote := [[9, 1]]\<rparr>) \<and>
   verifyTallyProof last_byte_env (example_proof\<lparr>tp_tallies := [[3]], tp_choices := [''AB'']\<rparr>)"
proof -
  have "board_verifyEntry last_byte_env example_entry" and "verifyTallyProof last_byte_env example_proof"
    by code_simp+
  moreover have "concat (tp_tallies example_proof) @ concat (map encodeString (tp_choices example_proof)) =
      concat [[3]] @ concat (map encodeString [''AB''])"
    by code_simp
  ultimately show ?thesis
    using board_boundaries_unsigned [of example_entry "[]" "[1, 5]" "[[9, 1]]" example_proof "[[3]]" "[''AB'']" last_byte_env]
    by (simp add: example_entry_def)
qed

end
