(* ===== verification/EventLogger.thy ===== *)
theory EventLogger
  imports AppendOnly VotingMethods Json Codec
begin

text \<open>
  \<open>event_logger.{hpp,cpp}\<close>, \<open>event_type.hpp\<close> and \<open>event_log_entry.hpp\<close>: the numbered log of what
  happens to polls, and its export as bytes. The clock and the text of JSON values are parameters.
\<close>

section \<open>Entries\<close>

datatype EventType = PollCreated | VoteCast | PollClosed | VoteVerified | TallyComputed | AuditRequested

definition eventTypeToString :: "EventType \<Rightarrow> string" where
  "eventTypeToString t = (case t of PollCreated \<Rightarrow> ''poll_created'' | VoteCast \<Rightarrow> ''vote_cast''
     | PollClosed \<Rightarrow> ''poll_closed'' | VoteVerified \<Rightarrow> ''vote_verified''
     | TallyComputed \<Rightarrow> ''tally_computed'' | AuditRequested \<Rightarrow> ''audit_requested'')"

definition stringToEventType :: "string \<Rightarrow> EventType res" where
  "stringToEventType str =
     (if str = ''poll_created'' then Inr PollCreated
      else if str = ''vote_cast'' then Inr VoteCast
      else if str = ''poll_closed'' then Inr PollClosed
      else if str = ''vote_verified'' then Inr VoteVerified
      else if str = ''tally_computed'' then Inr TallyComputed
      else if str = ''audit_requested'' then Inr AuditRequested
      else Inl (InvalidArgument (''Unknown event type: '' @ str)))"

record PollConfiguration =
  pc_method :: VotingMethod
  pc_choices :: "string list"
  pc_maxWeight :: "int option"
  pc_threshold :: "int option"

text \<open>Every method has a name, so \<open>votingMethodToString\<close> does not throw here.\<close>

definition method_name :: "VotingMethod \<Rightarrow> string" where
  "method_name m = (case votingMethodToString m of Inl _ \<Rightarrow> [] | Inr s \<Rightarrow> s)"

lemma method_name: "votingMethodToString m = Inr (method_name m)"
  by (cases m) (simp_all add: method_name_def votingMethodToString_def METHOD_TO_STRING_def)

definition configuration_toJson :: "'j json_api \<Rightarrow> PollConfiguration \<Rightarrow> 'j" where
  "configuration_toJson J c = js_obj J
     ([(''method'', js_str J (method_name (pc_method c))),
       (''choices'', js_arr J (map (js_str J) (pc_choices c)))] @
      entry ''maxWeight'' (js_num J) (pc_maxWeight c) @ entry ''threshold'' (js_num J) (pc_threshold c))"

record 'j EventLogEntry =
  ev_sequence :: "64 word"
  ev_eventType :: EventType
  ev_timestamp :: "64 word"
  ev_pollId :: bytes
  ev_creatorId :: "bytes option"
  ev_voterToken :: "bytes option"
  ev_configuration :: "PollConfiguration option"
  ev_tallyHash :: "bytes option"
  ev_metadata :: "(string \<times> 'j) list option"

record 'j EventLogger =
  el_events :: "'j EventLogEntry list"
  el_sequence :: "64 word"

definition mkEventLogger :: "'j EventLogger" where
  "mkEventLogger = \<lparr>el_events = [], el_sequence = 0\<rparr>"

section \<open>Logging\<close>

definition appendEvent :: "64 word \<Rightarrow> EventType \<Rightarrow> bytes \<Rightarrow> bytes option \<Rightarrow> bytes option \<Rightarrow> PollConfiguration option \<Rightarrow>
    bytes option \<Rightarrow> (string \<times> 'j) list option \<Rightarrow> 'j EventLogger \<Rightarrow> 'j EventLogEntry \<times> 'j EventLogger" where
  "appendEvent now eventType pollId creatorId voterToken configuration tallyHash metadata l =
     (let e = \<lparr>ev_sequence = el_sequence l, ev_eventType = eventType, ev_timestamp = now, ev_pollId = pollId,
               ev_creatorId = creatorId, ev_voterToken = voterToken, ev_configuration = configuration,
               ev_tallyHash = tallyHash, ev_metadata = metadata\<rparr>
      in (e, l\<lparr>el_sequence := el_sequence l + 1, el_events := el_events l @ [e]\<rparr>))"

definition logPollCreated :: "64 word \<Rightarrow> bytes \<Rightarrow> bytes \<Rightarrow> PollConfiguration \<Rightarrow> 'j EventLogger \<Rightarrow>
    'j EventLogEntry \<times> 'j EventLogger" where
  "logPollCreated now pollId creatorId configuration =
     appendEvent now PollCreated pollId (Some creatorId) None (Some configuration) None None"

definition logVoteCast :: "64 word \<Rightarrow> bytes \<Rightarrow> bytes \<Rightarrow> (string \<times> 'j) list option \<Rightarrow> 'j EventLogger \<Rightarrow>
    'j EventLogEntry \<times> 'j EventLogger" where
  "logVoteCast now pollId voterToken metadata =
     appendEvent now VoteCast pollId None (Some voterToken) None None metadata"

definition logPollClosed :: "64 word \<Rightarrow> bytes \<Rightarrow> bytes \<Rightarrow> (string \<times> 'j) list option \<Rightarrow> 'j EventLogger \<Rightarrow>
    'j EventLogEntry \<times> 'j EventLogger" where
  "logPollClosed now pollId tallyHash metadata =
     appendEvent now PollClosed pollId None None None (Some tallyHash) metadata"

definition logEvent :: "64 word \<Rightarrow> EventType \<Rightarrow> bytes \<Rightarrow> bytes option \<Rightarrow> bytes option \<Rightarrow> PollConfiguration option \<Rightarrow>
    bytes option \<Rightarrow> (string \<times> 'j) list option \<Rightarrow> 'j EventLogger \<Rightarrow> 'j EventLogEntry \<times> 'j EventLogger" where
  "logEvent = appendEvent"

definition getEventsForPoll :: "bytes \<Rightarrow> 'j EventLogger \<Rightarrow> 'j EventLogEntry list" where
  "getEventsForPoll pollId l = filter (\<lambda>e. toHex (ev_pollId e) = toHex pollId) (el_events l)"

definition getEventsByType :: "EventType \<Rightarrow> 'j EventLogger \<Rightarrow> 'j EventLogEntry list" where
  "getEventsByType eventType l = filter (\<lambda>e. ev_eventType e = eventType) (el_events l)"

definition verifySequence :: "'j EventLogger \<Rightarrow> bool" where
  "verifySequence l \<longleftrightarrow> list_all (\<lambda>i. ev_sequence (el_events l ! i) = of_nat i) [0..<length (el_events l)]"

section \<open>Export\<close>

definition encodeNumber :: "64 word \<Rightarrow> bytes" where
  "encodeNumber n = be_bytes 8 n"

definition encodeString :: "string \<Rightarrow> bytes" where
  "encodeString s = map (\<lambda>c. word_of_nat (of_char c)) s"

text \<open>The size of a field and the field; a mark, and the field when it is present.\<close>

definition sized :: "bytes \<Rightarrow> bytes" where
  "sized bs = encodeNumber (of_nat (length bs)) @ bs"

definition optional_field :: "bytes option \<Rightarrow> bytes" where
  "optional_field b = (case b of None \<Rightarrow> encodeNumber 0 | Some bs \<Rightarrow> encodeNumber 1 @ sized bs)"

definition configuration_text :: "'j json_api \<Rightarrow> 'j EventLogEntry \<Rightarrow> bytes option" where
  "configuration_text J e = map_option (\<lambda>c. encodeString (js_dump J (configuration_toJson J c))) (ev_configuration e)"

definition metadata_text :: "'j json_api \<Rightarrow> 'j EventLogEntry \<Rightarrow> bytes option" where
  "metadata_text J e = map_option (\<lambda>m. encodeString (js_dump J (js_obj J m))) (ev_metadata e)"

definition serializeEvent :: "'j json_api \<Rightarrow> 'j EventLogEntry \<Rightarrow> bytes" where
  "serializeEvent J e = encodeNumber (ev_sequence e) @ encodeNumber (ev_timestamp e) @
     encodeString (eventTypeToString (ev_eventType e)) @ sized (ev_pollId e) @ optional_field (ev_creatorId e) @
     optional_field (ev_voterToken e) @ optional_field (configuration_text J e) @ optional_field (ev_tallyHash e) @
     optional_field (metadata_text J e)"

definition exportEvents :: "'j json_api \<Rightarrow> 'j EventLogger \<Rightarrow> bytes" where
  "exportEvents J l = encodeNumber (of_nat (length (el_events l))) @ concat (map (serializeEvent J) (el_events l))"

section \<open>The names of the types\<close>

lemma event_type_roundtrip: "stringToEventType (eventTypeToString t) = Inr t"
  by (cases t) (simp_all add: stringToEventType_def eventTypeToString_def)

section \<open>Runs\<close>

text \<open>Every logging operation appends one entry; these are its arguments.\<close>

datatype 'j log_op = LogOp "64 word" EventType bytes "bytes option" "bytes option" "PollConfiguration option"
  "bytes option" "(string \<times> 'j) list option"

fun log_step :: "'j log_op \<Rightarrow> 'j EventLogger \<Rightarrow> 'j EventLogger" where
  "log_step (LogOp now t p c v cfg h m) l = snd (logEvent now t p c v cfg h m l)"

definition log_ok :: "'j EventLogger \<Rightarrow> bool" where
  "log_ok l \<longleftrightarrow> map ev_sequence (el_events l) = map of_nat [0..<length (el_events l)] \<and>
     el_sequence l = of_nat (length (el_events l))"

lemma logging_is_a_step:
  "snd (logPollCreated now p c cfg l) = log_step (LogOp now PollCreated p (Some c) None (Some cfg) None None) l"
  "snd (logVoteCast now p v m l) = log_step (LogOp now VoteCast p None (Some v) None None m) l"
  "snd (logPollClosed now p h m l) = log_step (LogOp now PollClosed p None None None (Some h) m) l"
  by (simp_all add: logPollCreated_def logVoteCast_def logPollClosed_def logEvent_def)

interpretation event_log: append_only log_step el_events log_ok
proof unfold_locales
  fix l and opn
  obtain now t p c v cfg h m where o: "opn = LogOp now t p c v cfg h m" by (cases opn)
  show "\<exists>es. length es \<le> 1 \<and> el_events (log_step opn l) = el_events l @ es"
    by (simp add: o logEvent_def appendEvent_def Let_def)
  show "log_ok l \<Longrightarrow> log_ok (log_step opn l)"
    by (simp add: o logEvent_def appendEvent_def Let_def log_ok_def)
qed

section \<open>Codes that can be read back\<close>

text \<open>
  A code whose end can be told: what follows does not matter. \<open>view\<close> is what the code shows of a
  value.
\<close>

locale prefix_code =
  fixes enc :: "'a \<Rightarrow> bytes" and valid :: "'a \<Rightarrow> bool" and view :: "'a \<Rightarrow> 'v"
  assumes split: "valid x \<Longrightarrow> valid y \<Longrightarrow> enc x @ r = enc y @ s \<Longrightarrow> view x = view y \<and> r = s"
begin

lemma split_list:
  "length xs = length ys \<Longrightarrow> list_all valid xs \<Longrightarrow> list_all valid ys \<Longrightarrow>
     concat (map enc xs) @ r = concat (map enc ys) @ s \<Longrightarrow> map view xs = map view ys \<and> r = s"
proof (induction xs ys rule: list_induct2)
  case (Cons x xs y ys)
  then show ?case using split [of x y "concat (map enc xs) @ r" "concat (map enc ys) @ s"] by auto
qed simp

end

definition fits :: "bytes \<Rightarrow> bool" where
  "fits bs \<longleftrightarrow> length bs < 2 ^ 64"

interpretation number_code: prefix_code encodeNumber "\<lambda>n. True" id
  by unfold_locales (simp add: encodeNumber_def split_fields be_bytes_inj)

lemma of_nat_64: "m < 2 ^ 64 \<Longrightarrow> n < 2 ^ 64 \<Longrightarrow> (of_nat m :: 64 word) = of_nat n \<longleftrightarrow> m = n"
  by (simp add: word_of_nat_eq_iff take_bit_nat_eq_self)

lemma number_iff: "encodeNumber m @ r = encodeNumber n @ s \<longleftrightarrow> m = n \<and> r = s"
  using number_code.split [where x = m and y = n and r = r and s = s] by auto

interpretation sized_code: prefix_code sized fits id
proof unfold_locales
  fix x y r s
  assume f: "fits x" "fits y" and e: "sized x @ r = sized y @ s"
  then have "(of_nat (length x) :: 64 word) = of_nat (length y)" and "x @ r = y @ s"
    by (simp_all add: sized_def number_iff)
  then show "id x = id y \<and> r = s" using f by (simp add: fits_def of_nat_64)
qed

lemma sized_iff: "fits a \<Longrightarrow> fits b \<Longrightarrow> sized a @ r = sized b @ s \<longleftrightarrow> a = b \<and> r = s"
  using sized_code.split [where x = a and y = b and r = r and s = s] by auto

definition optional_fits :: "bytes option \<Rightarrow> bool" where
  "optional_fits b \<longleftrightarrow> pred_option fits b"

interpretation optional_code: prefix_code optional_field optional_fits id
proof unfold_locales
  fix x y :: "bytes option" and r s
  assume "optional_fits x" "optional_fits y" "optional_field x @ r = optional_field y @ s"
  then show "id x = id y \<and> r = s"
    by (cases x; cases y) (simp_all add: optional_field_def optional_fits_def number_iff sized_iff)
qed

lemma optional_iff:
  "optional_fits a \<Longrightarrow> optional_fits b \<Longrightarrow> optional_field a @ r = optional_field b @ s \<longleftrightarrow> a = b \<and> r = s"
  using optional_code.split [where x = a and y = b and r = r and s = s] by auto

lemma encodeString_chars: "map (\<lambda>b. char_of (unat b)) (encodeString s) = s"
proof (induction s)
  case (Cons c s)
  have "(of_char c :: nat) < 256" by simp
  then have "unat (word_of_nat (of_char c) :: byte) = of_char c" by (simp add: unsigned_of_nat take_bit_nat_eq_self)
  then show ?case using Cons by (simp add: encodeString_def)
qed (simp add: encodeString_def)

text \<open>No name begins with another.\<close>

lemma event_type_names: "eventTypeToString x @ r = eventTypeToString y @ s \<Longrightarrow> x = y"
  by (cases x; cases y) (simp_all add: eventTypeToString_def)

interpretation type_code: prefix_code "\<lambda>t. encodeString (eventTypeToString t)" "\<lambda>t. True" id
proof unfold_locales
  fix x y r s
  assume e: "encodeString (eventTypeToString x) @ r = encodeString (eventTypeToString y) @ s"
  have "x = y"
    using arg_cong [OF e, of "map (\<lambda>b. char_of (unat b))"] event_type_names [of x _ y] by (simp add: encodeString_chars)
  then show "id x = id y \<and> r = s" using e by simp
qed

text \<open>What the export shows of an entry, and that its sizes are those of vectors.\<close>

definition exported :: "'j json_api \<Rightarrow> 'j EventLogEntry \<Rightarrow>
    64 word \<times> 64 word \<times> EventType \<times> bytes \<times> bytes option \<times> bytes option \<times> bytes option \<times> bytes option \<times> bytes option" where
  "exported J e = (ev_sequence e, ev_timestamp e, ev_eventType e, ev_pollId e, ev_creatorId e, ev_voterToken e,
     configuration_text J e, ev_tallyHash e, metadata_text J e)"

definition entry_fits :: "'j json_api \<Rightarrow> 'j EventLogEntry \<Rightarrow> bool" where
  "entry_fits J e \<longleftrightarrow> fits (ev_pollId e) \<and>
     list_all optional_fits
       [ev_creatorId e, ev_voterToken e, configuration_text J e, ev_tallyHash e, metadata_text J e]"

lemma type_iff:
  "encodeString (eventTypeToString a) @ r = encodeString (eventTypeToString b) @ s \<longleftrightarrow> a = b \<and> r = s"
  using type_code.split [where x = a and y = b and r = r and s = s] by auto

lemmas field_iffs = number_iff sized_iff optional_iff type_iff

interpretation event_code: prefix_code "serializeEvent J" "entry_fits J" "exported J" for J
  by unfold_locales (simp add: serializeEvent_def exported_def entry_fits_def field_iffs)

text \<open>
  The exported bytes determine the log: two logs with the same export have the same entries,
  with their sequence numbers, times, types, polls, identities and hashes, and the texts of
  their configurations and metadata.
\<close>

theorem export_determines_log:
  assumes "list_all (entry_fits J) (el_events l)" and "list_all (entry_fits J) (el_events m)"
    and "length (el_events l) < 2 ^ 64" and "length (el_events m) < 2 ^ 64"
    and "exportEvents J l = exportEvents J m"
  shows "map (exported J) (el_events l) = map (exported J) (el_events m)"
proof -
  have "(of_nat (length (el_events l)) :: 64 word) = of_nat (length (el_events m))"
    and e: "concat (map (serializeEvent J) (el_events l)) @ [] = concat (map (serializeEvent J) (el_events m)) @ []"
    using assms(5) number_iff [where r = "concat (map (serializeEvent J) (el_events l))"
        and s = "concat (map (serializeEvent J) (el_events m))"] by (simp_all add: exportEvents_def)
  then have "length (el_events l) = length (el_events m)" using assms(3,4) by (simp add: of_nat_64)
  from event_code.split_list [OF this assms(1,2) e] show ?thesis by blast
qed

text \<open>
  A log made by any sequence of operations passes \<open>verifySequence\<close>, and later operations keep
  its entries.
\<close>

theorem event_log_in_sequence:
  "verifySequence (fold log_step ops mkEventLogger) \<and>
   prefix (el_events (fold log_step ops mkEventLogger)) (el_events (fold log_step later (fold log_step ops mkEventLogger)))"
proof -
  let ?l = "fold log_step ops mkEventLogger"
  have "log_ok ?l" by (rule event_log.run_inv) (simp add: log_ok_def mkEventLogger_def)
  then have s: "map ev_sequence (el_events ?l) = map of_nat [0..<length (el_events ?l)]"
    by (simp add: log_ok_def)
  have "ev_sequence (el_events ?l ! i) = of_nat i" if "i < length (el_events ?l)" for i
    using arg_cong [OF s, of "\<lambda>xs. xs ! i"] that by simp
  then have "verifySequence ?l" by (simp add: verifySequence_def list_all_iff)
  then show ?thesis using event_log.run_prefix by blast
qed

section \<open>Example\<close>

definition field_sizes :: "'j json_api \<Rightarrow> 'j EventLogEntry \<Rightarrow> nat list" where
  "field_sizes J e = length (ev_pollId e) # map (\<lambda>b. case b of None \<Rightarrow> 0 | Some bs \<Rightarrow> length bs)
     [ev_creatorId e, ev_voterToken e, configuration_text J e, ev_tallyHash e, metadata_text J e]"

lemma small_entry: "\<forall>n \<in> set (field_sizes J e). n < 100 \<Longrightarrow> entry_fits J e"
  by (auto simp: entry_fits_def field_sizes_def optional_fits_def fits_def pred_option_def split: option.splits)

definition example_log :: "json_value EventLogger" where
  "example_log = fold log_step [LogOp 5 PollCreated [1] (Some [2]) None
       (Some \<lparr>pc_method = Plurality, pc_choices = [''a'', ''b''], pc_maxWeight = None, pc_threshold = Some 3\<rparr>) None None,
     LogOp 6 VoteCast [1] None (Some [4]) None None (Some [(''k'', JBool True)])] mkEventLogger"

theorem export_determines_log_witness:
  "map (exported json_values) (el_events example_log) = map (exported json_values) (el_events (example_log\<lparr>el_sequence := 0\<rparr>))"
proof -
  have small: "list_all (\<lambda>e. list_all (\<lambda>n. n < 100) (field_sizes json_values e)) (el_events example_log)"
    by code_simp
  have "list_all (entry_fits json_values) (el_events example_log)"
    using small by (auto simp: list_all_iff intro: small_entry)
  moreover have "length (el_events example_log) = 2" by code_simp
  ultimately have "list_all (entry_fits json_values) (el_events example_log)" "length (el_events example_log) < 2 ^ 64"
    by simp_all
  then show ?thesis
    using export_determines_log [of json_values example_log "example_log\<lparr>el_sequence := 0\<rparr>"]
    by (simp add: exportEvents_def)
qed

end
