(* ===== verification/HexPairs.thy ===== *)
theory HexPairs
  imports Codec HexText
begin

text \<open>
  Bytes read from pairs of hexadecimal digits: by \<open>std::stoi\<close>, as \<open>checksum.cpp\<close> and
  \<open>ec_key_pair.cpp\<close> do, and by \<open>std::strtol\<close>, as \<open>paillier.cpp\<close> and \<open>member.cpp\<close> do.
\<close>

text \<open>\<open>static_cast<uint8_t>(std::strtol(str, nullptr, 16))\<close>, which is 0 where \<open>stoi\<close> throws.\<close>

definition strtol16 :: "string \<Rightarrow> byte" where
  "strtol16 str = (case stoi16 str of None \<Rightarrow> 0 | Some n \<Rightarrow> word_of_int n)"

fun hex_to_bytes :: "string \<Rightarrow> bytes" where
  "hex_to_bytes [] = []"
| "hex_to_bytes [c] = [strtol16 [c]]"
| "hex_to_bytes (c # d # hex) = strtol16 [c, d] # hex_to_bytes hex"

text \<open>Every pair of digits of \<open>toHex\<close> is read back.\<close>

lemma stoi16_digits: "d < 16 \<Longrightarrow> e < 16 \<Longrightarrow> stoi16 [digit_char d, digit_char e] = Some (int (16 * d + e))"
proof -
  assume a: "d < 16" "e < 16"
  have c: "HexText.hex_digit c \<noteq> None \<and> \<not> is_space c \<and> c \<notin> {CHR ''-'', CHR ''+'', CHR ''x'', CHR ''X''}"
    if "c = digit_char d \<or> c = digit_char e" for c
    using digit_chars [of c] a that by auto
  show ?thesis
    using c [of "digit_char d"] c [of "digit_char e"] a
    by (simp add: stoi16_def Let_def strip_0x_def hex_value_def hex_digit_char)
qed

lemma hex_digit_digit_char: "d < 16 \<Longrightarrow> Codec.hex_digit d = digit_char d"
proof -
  assume "d < 16"
  have "''0123456789abcdef'' ! d = map digit_char [0..<16] ! d" by (simp only: digit_list)
  also have "\<dots> = digit_char d" using \<open>d < 16\<close> nth_map [of d "[0..<16]" digit_char] by simp
  finally show ?thesis by (simp add: Codec.hex_digit_def)
qed

lemma nth_toHex:
  "i < length bs \<Longrightarrow> toHex bs ! (2 * i) = Codec.hex_digit (unat (bs ! i) div 16) \<and>
     toHex bs ! (2 * i + 1) = Codec.hex_digit (unat (bs ! i) mod 16)"
proof (induction bs arbitrary: i)
  case (Cons b bs)
  then show ?case by (cases i) (simp_all add: hex_byte_def)
qed simp

lemma pair_toHex: "i < length bs \<Longrightarrow> stoi16 [toHex bs ! (2 * i), toHex bs ! (2 * i + 1)] = Some (int (unat (bs ! i)))"
proof -
  assume "i < length bs"
  moreover have "unat (bs ! i) div 16 < 16" "unat (bs ! i) mod 16 < 16" using unat_byte_bound [of "bs ! i"] by auto
  ultimately show ?thesis using nth_toHex [of i bs] by (simp add: hex_digit_digit_char stoi16_digits)
qed

lemma stoi_pairs_toHex:
  fixes bs :: bytes
  shows "map_res (\<lambda>i. case stoi16 [toHex bs ! (2 * i), toHex bs ! (2 * i + 1)] of
      None \<Rightarrow> Inl e | Some n \<Rightarrow> Inr (word_of_int n)) [0..<length bs] = Inr bs"
proof -
  have "map_res (\<lambda>i. case stoi16 [toHex bs ! (2 * i), toHex bs ! (2 * i + 1)] of
      None \<Rightarrow> Inl e | Some n \<Rightarrow> Inr (word_of_int n)) [0..<length bs] = Inr (map (\<lambda>i. bs ! i) [0..<length bs])"
    by (intro map_res_Inr) (simp add: pair_toHex [simplified])
  then show ?thesis by (simp add: map_nth)
qed

lemma hex_to_bytes_toHex [codec_simps]: "hex_to_bytes (toHex bs) = bs"
proof (induction bs)
  case (Cons b bs)
  have "strtol16 [Codec.hex_digit (unat b div 16), Codec.hex_digit (unat b mod 16)] = b"
    using pair_toHex [of 0 "b # bs"] by (simp add: hex_byte_def strtol16_def)
  then show ?case using Cons by (simp add: hex_byte_def)
qed simp

end
