(* ===== verification/Documents.thy ===== *)
theory Documents
  imports Complex_Main "HOL-Library.Product_Lexorder" Json Codec
begin

text \<open>
  \<open>document.{hpp,cpp}\<close> and the values documents are made of. A \<open>Document\<close> is a
  \<open>nlohmann::json\<close>: null, booleans, integers, doubles, strings, arrays, and objects, which are
  \<open>std::map\<close>s. A double is the rational number it stands for, and \<open>rnd\<close>, an argument of the
  code that computes with doubles, rounds to the nearest one; infinities and NaN, which JSON
  cannot express, are left out. Writing and parsing the text of a document are parameters.
\<close>

section \<open>Values\<close>

datatype doc = DNull | DBool bool | DInt int | DFloat rat | DStr string | DArr "doc list"
  | DObj "(string \<times> doc) list"

definition doc_type_error :: cpp_error where
  "doc_type_error = RuntimeError ''json type_error''"

definition is_number :: "doc \<Rightarrow> bool" where
  "is_number d = (case d of DInt n \<Rightarrow> True | DFloat q \<Rightarrow> True | _ \<Rightarrow> False)"

text \<open>\<open>get<double>()\<close> of a number.\<close>

definition to_double :: "(rat \<Rightarrow> rat) \<Rightarrow> doc \<Rightarrow> rat" where
  "to_double rnd d = (case d of DInt n \<Rightarrow> rnd (of_int n) | DFloat q \<Rightarrow> q | _ \<Rightarrow> 0)"

text \<open>The members of an object; \<open>contains\<close>, \<open>operator[]\<close> to write, and \<open>erase\<close>.\<close>

definition members :: "doc \<Rightarrow> (string \<times> doc) list" where
  "members d = (case d of DObj kvs \<Rightarrow> kvs | _ \<Rightarrow> [])"

definition member :: "doc \<Rightarrow> string \<Rightarrow> doc option" where
  "member d k = map_of (members d) k"

definition put_member :: "string \<Rightarrow> doc \<Rightarrow> doc \<Rightarrow> doc res" where
  "put_member k v d = (case d of
     DObj kvs \<Rightarrow> Inr (DObj (map_put k v kvs))
   | DNull \<Rightarrow> Inr (DObj [(k, v)])
   | _ \<Rightarrow> Inl doc_type_error)"

definition erase_member :: "string \<Rightarrow> doc \<Rightarrow> doc res" where
  "erase_member k d = (case d of DObj kvs \<Rightarrow> Inr (DObj (map_del k kvs)) | _ \<Rightarrow> Inl doc_type_error)"

text \<open>Objects keep their keys in order, all the way down.\<close>

fun doc_wf :: "doc \<Rightarrow> bool" where
  "doc_wf (DArr ds) \<longleftrightarrow> list_all doc_wf ds"
| "doc_wf (DObj kvs) \<longleftrightarrow> map_wf kvs \<and> list_all (\<lambda>kv. doc_wf (snd kv)) kvs"
| "doc_wf d \<longleftrightarrow> True"

section \<open>Equality and order of values\<close>

text \<open>
  \<open>operator==\<close> and \<open>operator<\<close>: numbers of different kinds compare as doubles, values of
  different types by their type.
\<close>

fun doc_eq :: "(rat \<Rightarrow> rat) \<Rightarrow> doc \<Rightarrow> doc \<Rightarrow> bool"
  and docs_eq :: "(rat \<Rightarrow> rat) \<Rightarrow> doc list \<Rightarrow> doc list \<Rightarrow> bool"
  and members_eq :: "(rat \<Rightarrow> rat) \<Rightarrow> (string \<times> doc) list \<Rightarrow> (string \<times> doc) list \<Rightarrow> bool" where
  "doc_eq rnd DNull DNull = True"
| "doc_eq rnd (DBool a) (DBool b) = (a = b)"
| "doc_eq rnd (DInt a) (DInt b) = (a = b)"
| "doc_eq rnd (DInt a) (DFloat b) = (rnd (of_int a) = b)"
| "doc_eq rnd (DFloat a) (DInt b) = (a = rnd (of_int b))"
| "doc_eq rnd (DFloat a) (DFloat b) = (a = b)"
| "doc_eq rnd (DStr a) (DStr b) = (a = b)"
| "doc_eq rnd (DArr a) (DArr b) = docs_eq rnd a b"
| "doc_eq rnd (DObj a) (DObj b) = members_eq rnd a b"
| "doc_eq rnd _ _ = False"
| "docs_eq rnd [] [] = True"
| "docs_eq rnd (a # as) (b # bs) = (doc_eq rnd a b \<and> docs_eq rnd as bs)"
| "docs_eq rnd _ _ = False"
| "members_eq rnd [] [] = True"
| "members_eq rnd ((k, a) # as) ((l, b) # bs) = (k = l \<and> doc_eq rnd a b \<and> members_eq rnd as bs)"
| "members_eq rnd _ _ = False"

definition json_rank :: "doc \<Rightarrow> nat" where
  "json_rank d = (case d of DNull \<Rightarrow> 0 | DBool _ \<Rightarrow> 1 | DInt _ \<Rightarrow> 2 | DFloat _ \<Rightarrow> 2 | DObj _ \<Rightarrow> 3 | DArr _ \<Rightarrow> 4
     | DStr _ \<Rightarrow> 5)"

text \<open>Lexicographic: an element that is less decides, one that is greater too.\<close>

function (sequential) doc_less :: "(rat \<Rightarrow> rat) \<Rightarrow> doc \<Rightarrow> doc \<Rightarrow> bool"
  and docs_less :: "(rat \<Rightarrow> rat) \<Rightarrow> doc list \<Rightarrow> doc list \<Rightarrow> bool"
  and members_less :: "(rat \<Rightarrow> rat) \<Rightarrow> (string \<times> doc) list \<Rightarrow> (string \<times> doc) list \<Rightarrow> bool" where
  "doc_less rnd (DBool a) (DBool b) = (\<not> a \<and> b)"
| "doc_less rnd (DInt a) (DInt b) = (a < b)"
| "doc_less rnd (DInt a) (DFloat b) = (rnd (of_int a) < b)"
| "doc_less rnd (DFloat a) (DInt b) = (a < rnd (of_int b))"
| "doc_less rnd (DFloat a) (DFloat b) = (a < b)"
| "doc_less rnd (DStr a) (DStr b) = (a < b)"
| "doc_less rnd (DArr a) (DArr b) = docs_less rnd a b"
| "doc_less rnd (DObj a) (DObj b) = members_less rnd a b"
| "doc_less rnd a b = (json_rank a < json_rank b)"
| "docs_less rnd [] bs = (bs \<noteq> [])"
| "docs_less rnd (a # as) [] = False"
| "docs_less rnd (a # as) (b # bs) = (doc_less rnd a b \<or> \<not> doc_less rnd b a \<and> docs_less rnd as bs)"
| "members_less rnd [] bs = (bs \<noteq> [])"
| "members_less rnd (a # as) [] = False"
| "members_less rnd ((k, a) # as) ((l, b) # bs) =
     (k < l \<or> \<not> l < k \<and> (doc_less rnd a b \<or> \<not> doc_less rnd b a \<and> members_less rnd as bs))"
  by pat_completeness auto
termination
  by (relation "measure (case_sum (\<lambda>(rnd, a, b). size a + size b) (case_sum
      (\<lambda>(rnd, as, bs). size_list size as + size_list size bs)
      (\<lambda>(rnd, as, bs). size_list (size_prod (\<lambda>k. 0) size) as + size_list (size_prod (\<lambda>k. 0) size) bs)))")
    auto

section \<open>Identifiers and blocks\<close>

text \<open>
  \<open>generateDocumentId\<close>: sixteen random bytes with the version and variant bits of a UUID, in
  hexadecimal.
\<close>

definition uuid_bytes :: "bytes \<Rightarrow> bytes" where
  "uuid_bytes bs = bs[6 := (bs ! 6 AND 0x0F) OR 0x40, 8 := (bs ! 8 AND 0x3F) OR 0x80]"

definition generateDocumentId :: "bytes \<Rightarrow> string" where
  "generateDocumentId random = toHex (uuid_bytes random)"

text \<open>The document with an identifier, and that identifier; one that is not a string throws.\<close>

definition ensureDocumentId :: "bytes \<Rightarrow> doc \<Rightarrow> (doc \<times> string) res" where
  "ensureDocumentId random d =
     (let with_id = (if member d ''_id'' = None then put_member ''_id'' (DStr (generateDocumentId random)) d else Inr d)
      in bind_res with_id (\<lambda>d'. case member d' ''_id'' of
           Some (DStr docId) \<Rightarrow> Inr (d', docId)
         | _ \<Rightarrow> Inl doc_type_error))"

definition text_bytes :: "string \<Rightarrow> bytes" where
  "text_bytes s = map (\<lambda>c. word_of_nat (of_char c)) s"

definition bytes_text :: "bytes \<Rightarrow> string" where
  "bytes_text bs = map (\<lambda>b. char_of (unat b)) bs"

definition serializeDocument :: "(doc \<Rightarrow> string) \<Rightarrow> doc \<Rightarrow> bytes" where
  "serializeDocument dump d = text_bytes (dump d)"

definition deserializeDocument :: "(string \<Rightarrow> doc option) \<Rightarrow> bytes \<Rightarrow> doc res" where
  "deserializeDocument parse bs =
     (case parse (bytes_text bs) of None \<Rightarrow> Inl (RuntimeError ''json parse_error'') | Some d \<Rightarrow> Inr d)"

lemma bytes_text_trip: "bytes_text (text_bytes s) = s"
proof (induction s)
  case (Cons c s)
  have "(of_char c :: nat) < 256" by simp
  then have "unat (word_of_nat (of_char c) :: byte) = of_char c" by (simp add: unsigned_of_nat take_bit_nat_eq_self)
  then show ?case using Cons by (simp add: bytes_text_def text_bytes_def)
qed (simp add: bytes_text_def text_bytes_def)

lemma document_trip: "parse (dump d) = Some d \<Longrightarrow> deserializeDocument parse (serializeDocument dump d) = Inr d"
  by (simp add: serializeDocument_def deserializeDocument_def bytes_text_trip)

lemma generated_length: "length random = 16 \<Longrightarrow> length (generateDocumentId random) = 32"
  by (simp add: generateDocumentId_def length_toHex uuid_bytes_def)

section \<open>The order is total on exact numbers\<close>

text \<open>Integers up to \<open>2\<^sup>5\<^sup>3\<close> are doubles; larger ones may not be.\<close>

fun exact :: "(rat \<Rightarrow> rat) \<Rightarrow> doc \<Rightarrow> bool" where
  "exact rnd (DInt n) \<longleftrightarrow> rnd (of_int n) = of_int n"
| "exact rnd (DArr ds) \<longleftrightarrow> (\<forall>d \<in> set ds. exact rnd d)"
| "exact rnd (DObj kvs) \<longleftrightarrow> (\<forall>kv \<in> set kvs. exact rnd (snd kv))"
| "exact rnd d \<longleftrightarrow> True"

text \<open>Exactly one of less, equal and greater.\<close>

definition tri :: "bool \<Rightarrow> bool \<Rightarrow> bool \<Rightarrow> bool" where
  "tri a b c \<longleftrightarrow> (a \<and> \<not> b \<and> \<not> c) \<or> (\<not> a \<and> b \<and> \<not> c) \<or> (\<not> a \<and> \<not> b \<and> c)"

lemma doc_trichotomy:
  "exact rnd a \<Longrightarrow> exact rnd b \<Longrightarrow> tri (doc_less rnd a b) (doc_eq rnd a b) (doc_less rnd b a)"
  "\<forall>d \<in> set as. exact rnd d \<Longrightarrow> \<forall>d \<in> set bs. exact rnd d \<Longrightarrow>
     tri (docs_less rnd as bs) (docs_eq rnd as bs) (docs_less rnd bs as)"
  "\<forall>kv \<in> set kvs. exact rnd (snd kv) \<Longrightarrow> \<forall>kv \<in> set ls. exact rnd (snd kv) \<Longrightarrow>
     tri (members_less rnd kvs ls) (members_eq rnd kvs ls) (members_less rnd ls kvs)"
  by (induction rnd a b and rnd as bs and rnd kvs ls rule: doc_eq_docs_eq_members_eq.induct)
    (auto simp: tri_def json_rank_def neq_Nil_conv)

text \<open>
  The order is that of the tokens a value is written with: each value by the rank of its type and
  its content, an element after a mark that is above the mark of the end.
\<close>

type_synonym token = "nat \<times> rat \<times> string"

fun tokens :: "doc \<Rightarrow> token list" where
  "tokens DNull = [(0, 0, [])]"
| "tokens (DBool b) = [(1, of_bool b, [])]"
| "tokens (DInt n) = [(2, of_int n, [])]"
| "tokens (DFloat q) = [(2, q, [])]"
| "tokens (DStr s) = [(5, 0, s)]"
| "tokens (DArr ds) = (4, 0, []) # concat (map (\<lambda>d. (1, 0, []) # tokens d) ds) @ [(0, 0, [])]"
| "tokens (DObj kvs) = (3, 0, []) # concat (map (\<lambda>kv. (1, 0, fst kv) # tokens (snd kv)) kvs) @ [(0, 0, [])]"

lemma lex_split: "tri a e b \<Longrightarrow> (a \<or> e \<and> (l \<or> q \<and> r)) = ((a \<or> \<not> b \<and> l) \<or> e \<and> q \<and> r)"
  by (auto simp: tri_def)

lemma tokens_less:
  "exact rnd a \<Longrightarrow> exact rnd b \<Longrightarrow>
     (tokens a @ xs < tokens b @ ys \<longleftrightarrow> doc_less rnd a b \<or> doc_eq rnd a b \<and> xs < ys) \<and>
     (tokens a @ xs = tokens b @ ys \<longleftrightarrow> doc_eq rnd a b \<and> xs = ys)"
  "\<forall>d \<in> set as. exact rnd d \<Longrightarrow> \<forall>d \<in> set bs. exact rnd d \<Longrightarrow>
     (concat (map (\<lambda>d. (1, 0, []) # tokens d) as) @ (0, 0, []) # xs <
       concat (map (\<lambda>d. (1, 0, []) # tokens d) bs) @ (0, 0, []) # ys \<longleftrightarrow>
        docs_less rnd as bs \<or> docs_eq rnd as bs \<and> xs < ys) \<and>
     (concat (map (\<lambda>d. (1, 0, []) # tokens d) as) @ (0, 0, []) # xs =
       concat (map (\<lambda>d. (1, 0, []) # tokens d) bs) @ (0, 0, []) # ys \<longleftrightarrow> docs_eq rnd as bs \<and> xs = ys)"
  "\<forall>kv \<in> set kvs. exact rnd (snd kv) \<Longrightarrow> \<forall>kv \<in> set ls. exact rnd (snd kv) \<Longrightarrow>
     (concat (map (\<lambda>kv. (1, 0, fst kv) # tokens (snd kv)) kvs) @ (0, 0, []) # xs <
       concat (map (\<lambda>kv. (1, 0, fst kv) # tokens (snd kv)) ls) @ (0, 0, []) # ys \<longleftrightarrow>
        members_less rnd kvs ls \<or> members_eq rnd kvs ls \<and> xs < ys) \<and>
     (concat (map (\<lambda>kv. (1, 0, fst kv) # tokens (snd kv)) kvs) @ (0, 0, []) # xs =
       concat (map (\<lambda>kv. (1, 0, fst kv) # tokens (snd kv)) ls) @ (0, 0, []) # ys \<longleftrightarrow> members_eq rnd kvs ls \<and> xs = ys)"

  apply (induction rnd a b and rnd as bs and rnd kvs ls arbitrary: xs ys and xs ys and xs ys
      rule: doc_eq_docs_eq_members_eq.induct)
  apply (simp_all add: json_rank_def)
  subgoal for rnd a as b bs
    using lex_split [OF doc_trichotomy(1) [of rnd a b]] by simp
  subgoal for rnd k a as l b bs
    using lex_split [OF doc_trichotomy(1) [of rnd a b]] by (cases k l rule: linorder_cases) auto
  done
text \<open>So the order is a total order, up to the equality of values.\<close>

corollary doc_order_tokens:
  assumes "exact rnd a" and "exact rnd b"
  shows "doc_less rnd a b \<longleftrightarrow> tokens a < tokens b" and "doc_eq rnd a b \<longleftrightarrow> tokens a = tokens b"
  using tokens_less(1) [OF assms, of "[]" "[]"] by simp_all

end
