(* ===== verification/DocumentText.thy ===== *)
theory DocumentText
  imports Documents
begin

text \<open>
  A text form of documents that is read back exactly, for the examples: the code's own, the JSON
  text of \<open>nlohmann::json\<close>, is a parameter of the models. Numbers are in binary, strings, arrays and
  objects begin with their length.
\<close>

fun put_nat :: "nat \<Rightarrow> string" where
  "put_nat n = (if n = 0 then ''.'' else (if odd n then CHR ''1'' else CHR ''0'') # put_nat (n div 2))"

declare put_nat.simps [simp del]

definition put_int :: "int \<Rightarrow> string" where
  "put_int i = (if i < 0 then ''-'' else ''+'') @ put_nat (nat \<bar>i\<bar>)"

definition put_str :: "string \<Rightarrow> string" where
  "put_str s = put_nat (length s) @ s"

fun put_doc :: "doc \<Rightarrow> string" where
  "put_doc DNull = ''n''"
| "put_doc (DBool b) = (if b then ''t'' else ''f'')"
| "put_doc (DInt i) = CHR ''i'' # put_int i"
| "put_doc (DFloat q) = CHR ''q'' # put_int (fst (quotient_of q)) @ put_int (snd (quotient_of q))"
| "put_doc (DStr s) = CHR ''s'' # put_str s"
| "put_doc (DArr ds) = CHR ''a'' # put_nat (length ds) @ concat (map put_doc ds)"
| "put_doc (DObj kvs) = CHR ''o'' # put_nat (length kvs) @ concat (map (\<lambda>kv. put_str (fst kv) @ put_doc (snd kv)) kvs)"

fun take_nat :: "string \<Rightarrow> (nat \<times> string) option" where
  "take_nat [] = None"
| "take_nat (c # cs) =
     (if c = CHR ''.'' then Some (0, cs)
      else map_option (\<lambda>(n, r). (2 * n + (if c = CHR ''1'' then 1 else 0), r)) (take_nat cs))"

definition take_int :: "string \<Rightarrow> (int \<times> string) option" where
  "take_int s = (case s of [] \<Rightarrow> None
     | c # cs \<Rightarrow> map_option (\<lambda>(n, r). (if c = CHR ''-'' then - int n else int n, r)) (take_nat cs))"

definition take_str :: "string \<Rightarrow> (string \<times> string) option" where
  "take_str s = map_option (\<lambda>(n, r). (take n r, drop n r)) (take_nat s)"

fun repeat :: "(string \<Rightarrow> ('a \<times> string) option) \<Rightarrow> nat \<Rightarrow> string \<Rightarrow> ('a list \<times> string) option" where
  "repeat p 0 s = Some ([], s)"
| "repeat p (Suc n) s = Option.bind (p s) (\<lambda>(x, s'). map_option (\<lambda>(xs, r). (x # xs, r)) (repeat p n s'))"

text \<open>The first argument bounds the depth of the recursion; the length of the text is enough.\<close>

fun take_doc :: "nat \<Rightarrow> string \<Rightarrow> (doc \<times> string) option" where
  "take_doc 0 s = None"
| "take_doc (Suc n) s = (case s of [] \<Rightarrow> None | c # cs \<Rightarrow>
     if c = CHR ''n'' then Some (DNull, cs)
     else if c = CHR ''t'' then Some (DBool True, cs)
     else if c = CHR ''f'' then Some (DBool False, cs)
     else if c = CHR ''i'' then map_option (\<lambda>(i, r). (DInt i, r)) (take_int cs)
     else if c = CHR ''q'' then Option.bind (take_int cs) (\<lambda>(a, r).
       map_option (\<lambda>(b, r'). (DFloat (of_int a / of_int b), r')) (take_int r))
     else if c = CHR ''s'' then map_option (\<lambda>(t, r). (DStr t, r)) (take_str cs)
     else if c = CHR ''a'' then Option.bind (take_nat cs) (\<lambda>(k, r).
       map_option (\<lambda>(ds, r'). (DArr ds, r')) (repeat (take_doc n) k r))
     else Option.bind (take_nat cs) (\<lambda>(k, r).
       map_option (\<lambda>(kvs, r'). (DObj kvs, r'))
         (repeat (\<lambda>s. Option.bind (take_str s) (\<lambda>(key, r). map_option (\<lambda>(v, r'). ((key, v), r')) (take_doc n r))) k r)))"

definition read_doc :: "string \<Rightarrow> doc option" where
  "read_doc s = (case take_doc (length s) s of Some (d, []) \<Rightarrow> Some d | _ \<Rightarrow> None)"

lemma take_put_nat [simp]: "take_nat (put_nat n @ r) = Some (n, r)"
proof (induction n rule: put_nat.induct)
  case (1 n)
  then show ?case by (subst put_nat.simps) (auto elim!: oddE evenE)
qed

lemma take_put_int [simp]: "take_int (put_int i @ r) = Some (i, r)"
  by (simp add: take_int_def put_int_def)

lemma take_put_str [simp]: "take_str (put_str s @ r) = Some (s, r)"
  by (simp add: take_str_def put_str_def)

lemma repeat_map:
  "(\<And>x r. x \<in> set xs \<Longrightarrow> p (f x @ r) = Some (x, r)) \<Longrightarrow> repeat p (length xs) (concat (map f xs) @ r) = Some (xs, r)"
  by (induction xs arbitrary: r) auto

lemma length_concat_map: "x \<in> set xs \<Longrightarrow> length (f x) \<le> length (concat (map f xs))"
  by (induction xs) auto

lemma take_put_doc: "length (put_doc d) \<le> n \<Longrightarrow> take_doc n (put_doc d @ r) = Some (d, r)"
proof (induction d arbitrary: n r)
  case (DFloat q)
  have "of_int (fst (quotient_of q)) / of_int (snd (quotient_of q)) = q"
    by (metis prod.collapse quotient_of_div)
  with DFloat show ?case by (cases n) simp_all
next
  case (DArr ds)
  then obtain m where n: "n = Suc m" by (cases n) auto
  have "repeat (take_doc m) (length ds) (concat (map put_doc ds) @ r) = Some (ds, r)"
  proof (rule repeat_map)
    fix x r assume x: "x \<in> set ds"
    then show "take_doc m (put_doc x @ r) = Some (x, r)"
      using DArr.prems length_concat_map [OF x, of put_doc] n by (intro DArr.IH) simp_all
  qed
  then show ?case by (simp add: n)
next
  case (DObj kvs)
  then obtain m where n: "n = Suc m" by (cases n) auto
  let ?f = "\<lambda>kv. put_str (fst kv) @ put_doc (snd kv)"
  have "repeat (\<lambda>s. Option.bind (take_str s) (\<lambda>(key, r). map_option (\<lambda>(v, r'). ((key, v), r')) (take_doc m r)))
      (length kvs) (concat (map ?f kvs) @ r) = Some (kvs, r)"
  proof (rule repeat_map)
    fix x r assume x: "x \<in> set kvs"
    then have "take_doc m (put_doc (snd x) @ r) = Some (snd x, r)"
      using DObj.prems length_concat_map [OF x, of ?f] n by (intro DObj.IH [OF x snds.intros]) simp_all
    then show "Option.bind (take_str ((put_str (fst x) @ put_doc (snd x)) @ r))
        (\<lambda>(key, r). map_option (\<lambda>(v, r'). ((key, v), r')) (take_doc m r)) = Some (x, r)"
      by simp
  qed
  then show ?case by (simp add: n)
next
  case DNull
  then show ?case by (cases n) simp_all
next
  case (DBool b)
  then show ?case by (cases b; cases n) simp_all
next
  case (DInt i)
  then show ?case by (cases n) simp_all
next
  case (DStr s)
  then show ?case by (cases n) simp_all
qed

lemma read_put_doc: "read_doc (put_doc d) = Some d"
  using take_put_doc [of d "length (put_doc d)" "[]"] by (simp add: read_doc_def)

end
