(* ===== verification/DocumentAccess.thy ===== *)
theory DocumentAccess
  imports Documents
begin

text \<open>
  How the code reads a \<open>nlohmann::json\<close> value: members by \<open>operator[]\<close> and \<open>at\<close>, numbers and text
  by \<open>get\<close>, and the elements of a range-based \<open>for\<close>.
\<close>

text \<open>\<open>operator[]\<close> of a value that may be changed: a missing key is there as null.\<close>

definition json_at :: "doc \<Rightarrow> string \<Rightarrow> doc res" where
  "json_at d k = (case d of
     DObj kvs \<Rightarrow> Inr (case map_of kvs k of None \<Rightarrow> DNull | Some v \<Rightarrow> v)
   | DNull \<Rightarrow> Inr DNull
   | _ \<Rightarrow> Inl doc_type_error)"

definition get_text :: "doc \<Rightarrow> string res" where
  "get_text d = (case d of DStr s \<Rightarrow> Inr s | _ \<Rightarrow> Inl doc_type_error)"

text \<open>\<open>at\<close> requires the key.\<close>

definition member_at :: "doc \<Rightarrow> string \<Rightarrow> doc res" where
  "member_at d k = (case d of
     DObj kvs \<Rightarrow> (case map_of kvs k of None \<Rightarrow> Inl (RuntimeError ''json out_of_range'') | Some v \<Rightarrow> Inr v)
   | _ \<Rightarrow> Inl doc_type_error)"

definition get_bool :: "doc \<Rightarrow> bool res" where
  "get_bool d = (case d of DBool b \<Rightarrow> Inr b | _ \<Rightarrow> Inl doc_type_error)"

text \<open>\<open>get\<close> of a 64-bit integer takes numbers.\<close>

definition get_integer :: "doc \<Rightarrow> int res" where
  "get_integer d = (case d of
     DInt n \<Rightarrow> Inr n
   | DFloat q \<Rightarrow> Inr (if 0 \<le> q then \<lfloor>q\<rfloor> else \<lceil>q\<rceil>)
   | _ \<Rightarrow> Inl doc_type_error)"

text \<open>\<open>get<int>()\<close> and \<open>get<uint8_t>()\<close> take booleans; a range-based \<open>for\<close> over a value that is no container visits it.\<close>

definition get_small :: "doc \<Rightarrow> int res" where
  "get_small d = (case d of DBool b \<Rightarrow> Inr (of_bool b) | _ \<Rightarrow> get_integer d)"

definition elements :: "doc \<Rightarrow> doc list" where
  "elements d = (case d of DArr ds \<Rightarrow> ds | DObj kvs \<Rightarrow> map snd kvs | DNull \<Rightarrow> [] | _ \<Rightarrow> [d])"

lemma get_int_simps: "get_integer (DInt n) = Inr n" "get_small (DInt n) = Inr n"
  by (simp_all add: get_small_def get_integer_def)

end
