(* ===== verification/BlockStore.thy ===== *)
theory BlockStore
  imports HexPairs DocumentText DocumentAccess
begin

text \<open>
  \<open>block_size.{hpp,cpp}\<close>, \<open>checksum.{hpp,cpp}\<close>, \<open>block_metadata.{hpp,cpp}\<close>,
  \<open>disk_block_store.{hpp,cpp}\<close>, \<open>raw_data_block.{hpp,cpp}\<close>, \<open>base_block.hpp\<close>: blocks of bytes in files
  named by their digest, each with a file of metadata. The digest, the text of JSON values and what
  the file system answers are parameters.
\<close>

section \<open>Block sizes\<close>

text \<open>An \<open>enum class\<close> over \<open>uint32_t\<close>: every 32-bit value is one, these have names.\<close>

type_synonym BlockSize = "32 word"

abbreviation (input) Unknown :: BlockSize where "Unknown \<equiv> 0"
abbreviation (input) Message :: BlockSize where "Message \<equiv> 512"
abbreviation (input) Tiny :: BlockSize where "Tiny \<equiv> 1024"
abbreviation (input) Small :: BlockSize where "Small \<equiv> 4096"
abbreviation (input) Medium :: BlockSize where "Medium \<equiv> 1048576"
abbreviation (input) Large :: BlockSize where "Large \<equiv> 67108864"
abbreviation (input) Huge :: BlockSize where "Huge \<equiv> 268435456"

definition VALID_BLOCK_SIZES :: "BlockSize list" where
  "VALID_BLOCK_SIZES = [Message, Tiny, Small, Medium, Large, Huge]"

definition validateBlockSize :: "32 word \<Rightarrow> bool \<Rightarrow> bool" where
  "validateBlockSize len allowNonStandard \<longleftrightarrow>
     list_ex (\<lambda>sz. sz = len) VALID_BLOCK_SIZES \<or> allowNonStandard \<and> 0 < len"

definition lengthToClosestBlockSize :: "32 word \<Rightarrow> BlockSize res" where
  "lengthToClosestBlockSize len =
     (if len = 0 then Inl (InvalidArgument ''Block size len cannot be zero'')
      else if Huge < len then Inr Huge
      else case find (\<lambda>sz. len \<le> sz) VALID_BLOCK_SIZES of
        Some sz \<Rightarrow> Inr sz
      | None \<Rightarrow> Inr Huge)"

definition invalid_length :: cpp_error where
  "invalid_length = InvalidArgument ''Invalid block size len''"

definition lengthToBlockSize :: "32 word \<Rightarrow> bool \<Rightarrow> BlockSize res" where
  "lengthToBlockSize len allowNonStandard =
     (if \<not> validateBlockSize len allowNonStandard then Inl invalid_length
      else case find (\<lambda>sz. sz = len) VALID_BLOCK_SIZES of
        Some sz \<Rightarrow> Inr sz
      | None \<Rightarrow> if allowNonStandard then lengthToClosestBlockSize len else Inl invalid_length)"

definition blockSizeToString :: "BlockSize \<Rightarrow> string" where
  "blockSizeToString s = (if s = Message then ''Message'' else if s = Tiny then ''Tiny'' else if s = Small then ''Small''
     else if s = Medium then ''Medium'' else if s = Large then ''Large'' else if s = Huge then ''Huge'' else ''Unknown'')"

section \<open>Checksums\<close>

type_synonym Checksum = bytes

definition HASH_SIZE :: nat where
  "HASH_SIZE = 64"

text \<open>Each pair of characters goes through \<open>std::stoi\<close> and is cut to a byte.\<close>

definition fromHex :: "string \<Rightarrow> Checksum res" where
  "fromHex hex =
     (if length hex \<noteq> HASH_SIZE * 2 then Inl (InvalidArgument ''Invalid hex string length'')
      else map_res (\<lambda>i. case stoi16 [hex ! (2 * i), hex ! (2 * i + 1)] of
             None \<Rightarrow> Inl (InvalidArgument ''stoi'') | Some n \<Rightarrow> Inr (word_of_int n)) [0..<HASH_SIZE])"

section \<open>Metadata\<close>

text \<open>The creation time counts nanoseconds; JSON has whole seconds.\<close>

record BlockMetadata =
  bm_size :: BlockSize
  bm_created_at :: int
  bm_length_without_padding :: "64 word"

definition to_json :: "BlockMetadata \<Rightarrow> doc" where
  "to_json m = DObj [(''created_at'', DInt (sgn (bm_created_at m) * (\<bar>bm_created_at m\<bar> div 1000000000))),
     (''length_without_padding'', DInt (uint (bm_length_without_padding m))),
     (''size'', DInt (sint (bm_size m)))]"

text \<open>\<open>operator[]\<close> of a constant object requires the key.\<close>

definition const_member :: "doc \<Rightarrow> string \<Rightarrow> doc res" where
  "const_member d k = (case d of
     DObj kvs \<Rightarrow> (case map_of kvs k of None \<Rightarrow> Inl UndefinedBehaviour | Some v \<Rightarrow> Inr v)
   | _ \<Rightarrow> Inl doc_type_error)"

definition from_json :: "doc \<Rightarrow> BlockMetadata res" where
  "from_json j =
     bind_res (const_member j ''size'') (\<lambda>s.
     bind_res (get_small s) (\<lambda>sz.
     bind_res (const_member j ''length_without_padding'') (\<lambda>l.
     bind_res (get_integer l) (\<lambda>len.
     bind_res (const_member j ''created_at'') (\<lambda>t.
     bind_res (get_integer t) (\<lambda>created.
       Inr \<lparr>bm_size = word_of_int sz, bm_created_at = created * 1000000000,
            bm_length_without_padding = word_of_int len\<rparr>))))))"

section \<open>The store\<close>

text \<open>\<open>bs_files\<close>: the files below the store's path. \<open>bs_log\<close> is no part of the code: every content ever put.\<close>

record DiskBlockStore =
  bs_storePath :: string
  bs_blockSize :: BlockSize
  bs_files :: "(string \<times> bytes) list"
  bs_log :: "bytes list"

text \<open>
  \<open>bv_dump\<close> is the indented text of a value; \<open>bv_fails\<close>: an \<open>ifstream\<close> that does not open; \<open>bv_now\<close>: the clock.
\<close>

record block_env =
  bv_hash :: "bytes \<Rightarrow> Checksum"
  bv_dump :: "doc \<Rightarrow> string"
  bv_parse :: "string \<Rightarrow> doc option"

text \<open>
  What can become of a write: the directory cannot be made; the file cannot be created; a write
  fails after some bytes; the buffer that is written when the file is closed, which nobody checks,
  is lost after some bytes; the file of metadata cannot be created; or all is well.
\<close>

datatype put_io = PutOk | BlockDirFails | CreateFails | BlockWriteFails nat | BlockLost nat | MetaFails

definition mkDiskBlockStore :: "string \<Rightarrow> BlockSize \<Rightarrow> (string \<times> bytes) list \<Rightarrow> DiskBlockStore res" where
  "mkDiskBlockStore storePath blockSize files =
     (if storePath = [] then Inl (InvalidArgument ''Store path is required'')
      else if blockSize = Unknown then Inl (InvalidArgument ''Block size is required'')
      else Inr \<lparr>bs_storePath = storePath, bs_blockSize = blockSize, bs_files = files, bs_log = []\<rparr>)"

definition blockDir :: "DiskBlockStore \<Rightarrow> Checksum \<Rightarrow> string res" where
  "blockDir s checksum =
     (let hex = toHex checksum in
      if length hex < 2 then Inl (InvalidArgument ''Checksum too short'')
      else Inr (bs_storePath s @ ''/'' @ blockSizeToString (bs_blockSize s) @ ''/'' @ [hex ! 0] @ ''/'' @ [hex ! 1]))"

definition blockPath :: "DiskBlockStore \<Rightarrow> Checksum \<Rightarrow> string res" where
  "blockPath s checksum = bind_res (blockDir s checksum) (\<lambda>dir. Inr (dir @ ''/'' @ toHex checksum))"

definition metadataPath :: "DiskBlockStore \<Rightarrow> Checksum \<Rightarrow> string res" where
  "metadataPath s checksum = bind_res (blockPath s checksum) (\<lambda>path. Inr (path @ ''.m.json''))"

definition write_file :: "string \<Rightarrow> bytes \<Rightarrow> DiskBlockStore \<Rightarrow> DiskBlockStore" where
  "write_file path content s = s\<lparr>bs_files := AList.update path content (bs_files s)\<rparr>"

definition putMetadata :: "block_env \<Rightarrow> put_io \<Rightarrow> Checksum \<Rightarrow> BlockMetadata \<Rightarrow> DiskBlockStore \<Rightarrow>
    unit res \<times> DiskBlockStore" where
  "putMetadata V io checksum metadata s =
     (case metadataPath s checksum of
        Inl e \<Rightarrow> (Inl e, s)
      | Inr path \<Rightarrow>
          if io = MetaFails then (Inl (RuntimeError ''Failed to create metadata file''), s)
          else (Inr (), write_file path (text_bytes (bv_dump V (to_json metadata))) s))"

definition put :: "block_env \<Rightarrow> put_io \<Rightarrow> bytes \<Rightarrow> BlockMetadata \<Rightarrow> DiskBlockStore \<Rightarrow> Checksum res \<times> DiskBlockStore" where
  "put V io content metadata s =
     (let checksum = bv_hash V content; s0 = s\<lparr>bs_log := content # bs_log s\<rparr> in
      case blockPath s checksum of
        Inl e \<Rightarrow> (Inl e, s0)
      | Inr path \<Rightarrow>
          (case io of
             BlockDirFails \<Rightarrow> (Inl (RuntimeError ''filesystem_error''), s0)
           | CreateFails \<Rightarrow> (Inl (RuntimeError ''Failed to create block file''), s0)
           | BlockWriteFails n \<Rightarrow> (Inl (RuntimeError ''Failed to write block data''), write_file path (take n content) s0)
           | _ \<Rightarrow>
               (let stored = (case io of BlockLost n \<Rightarrow> take n content | _ \<Rightarrow> content);
                    (r, s1) = putMetadata V io checksum metadata (write_file path stored s0)
                in (bind_res r (\<lambda>_. Inr checksum), s1))))"

definition put_data :: "block_env \<Rightarrow> put_io \<Rightarrow> int \<Rightarrow> bytes \<Rightarrow> DiskBlockStore \<Rightarrow> Checksum res \<times> DiskBlockStore" where
  "put_data V io now content s =
     put V io content \<lparr>bm_size = bs_blockSize s, bm_created_at = now, bm_length_without_padding = of_nat (length content)\<rparr> s"

definition get_block :: "bool \<Rightarrow> Checksum \<Rightarrow> DiskBlockStore \<Rightarrow> bytes res" where
  "get_block fails checksum s =
     bind_res (blockPath s checksum) (\<lambda>path.
       case map_of (bs_files s) path of
         None \<Rightarrow> Inl (RuntimeError (''Block not found: '' @ toHex checksum))
       | Some content \<Rightarrow> if fails then Inl (RuntimeError ''Failed to open block file'') else Inr content)"

definition has :: "Checksum \<Rightarrow> DiskBlockStore \<Rightarrow> bool res" where
  "has checksum s = bind_res (blockPath s checksum) (\<lambda>path. Inr (map_of (bs_files s) path \<noteq> None))"

definition remove_block :: "Checksum \<Rightarrow> DiskBlockStore \<Rightarrow> bool res \<times> DiskBlockStore" where
  "remove_block checksum s =
     (case (blockPath s checksum, metadataPath s checksum) of
        (Inr path, Inr metaPath) \<Rightarrow>
          (Inr (map_of (bs_files s) path \<noteq> None), s\<lparr>bs_files := map_del metaPath (map_del path (bs_files s))\<rparr>)
      | (Inl e, _) \<Rightarrow> (Inl e, s)
      | (_, Inl e) \<Rightarrow> (Inl e, s))"

definition getMetadata :: "block_env \<Rightarrow> bool \<Rightarrow> Checksum \<Rightarrow> DiskBlockStore \<Rightarrow> BlockMetadata option res" where
  "getMetadata V fails checksum s =
     bind_res (metadataPath s checksum) (\<lambda>path.
       case map_of (bs_files s) path of
         None \<Rightarrow> Inr None
       | Some content \<Rightarrow>
           if fails then Inr None
           else bind_res (deserializeDocument (bv_parse V) content) (\<lambda>j. bind_res (from_json j) (\<lambda>m. Inr (Some m))))"

definition hasMetadata :: "Checksum \<Rightarrow> DiskBlockStore \<Rightarrow> bool res" where
  "hasMetadata checksum s = bind_res (metadataPath s checksum) (\<lambda>path. Inr (map_of (bs_files s) path \<noteq> None))"

section \<open>Raw data blocks\<close>

record RawDataBlock =
  rb_blockSize :: BlockSize
  rb_data :: bytes
  rb_checksum :: Checksum

definition mkRawDataBlock :: "BlockSize \<Rightarrow> bytes \<Rightarrow> Checksum \<Rightarrow> RawDataBlock res" where
  "mkRawDataBlock blockSize content checksum =
     (if unat blockSize < length content then Inl (InvalidArgument ''Data length exceeds block size'')
      else Inr \<lparr>rb_blockSize = blockSize, rb_data = content, rb_checksum = checksum\<rparr>)"

definition validateSync :: "block_env \<Rightarrow> RawDataBlock \<Rightarrow> unit res" where
  "validateSync V b = (if bv_hash V (rb_data b) \<noteq> rb_checksum b then Inl (RuntimeError ''Checksum mismatch'') else Inr ())"

section \<open>The store's lock\<close>

text \<open>
  \<open>store_lock.{hpp,cpp}\<close>. After 250 attempts the file is removed, whoever holds it, for one more. A
  lock whose file cannot be removed stays held.
\<close>

record StoreLock =
  sl_file :: bool
  sl_held :: bool

definition acquire :: "lock_io \<Rightarrow> StoreLock \<Rightarrow> unit res \<times> StoreLock" where
  "acquire L l =
     (if list_ex (\<lambda>i. \<not> lk_taken L i) [0..<250] then (Inr (), l\<lparr>sl_file := True, sl_held := True\<rparr>)
      else if lk_stale_stuck L then (Inl filesystem_error, l\<lparr>sl_file := True\<rparr>)
      else if \<not> lk_taken L 250 then (Inr (), l\<lparr>sl_file := True, sl_held := True\<rparr>)
      else (Inl (RuntimeError ''RegistryError: Failed to acquire store lock after timeout''), l\<lparr>sl_file := True\<rparr>))"

definition released :: "StoreLock \<Rightarrow> StoreLock" where
  "released l = (if sl_held l then l\<lparr>sl_file := False, sl_held := False\<rparr> else l)"

definition release :: "lock_io \<Rightarrow> StoreLock \<Rightarrow> unit res \<times> StoreLock" where
  "release L l =
     (if sl_held l \<and> lk_remove_fails L then (Inl filesystem_error, l) else (Inr (), released l))"

lemma release_works: "\<not> lk_remove_fails L \<Longrightarrow> release L l = (Inr (), released l)"
  by (simp add: release_def)

section \<open>Sizes\<close>

text \<open>
  The closest size of a length that is not zero is the smallest valid size that holds it, or the
  largest valid size if none does; only then does the data not fit.
\<close>

theorem closest_block_size:
  assumes "len \<noteq> 0"
  shows "\<exists>s. lengthToClosestBlockSize len = Inr s \<and> s \<in> set VALID_BLOCK_SIZES \<and>
    (if len \<le> Huge then len \<le> s \<and> (\<forall>t \<in> set VALID_BLOCK_SIZES. len \<le> t \<longrightarrow> s \<le> t) else s = Huge)"
proof (cases "len \<le> Huge")
  case True
  then show ?thesis using assms
    by (auto simp: lengthToClosestBlockSize_def VALID_BLOCK_SIZES_def not_less [symmetric])
next
  case False
  then show ?thesis using assms by (simp add: lengthToClosestBlockSize_def VALID_BLOCK_SIZES_def not_le leD)
qed

lemma standard_block_size: "s \<in> set VALID_BLOCK_SIZES \<Longrightarrow> lengthToBlockSize s std = Inr s"
  by (auto simp: lengthToBlockSize_def validateBlockSize_def VALID_BLOCK_SIZES_def)

section \<open>Checksums in hexadecimal\<close>

lemma fromHex_toHex:
  assumes "length h = 64"
  shows "fromHex (toHex h) = Inr h"
proof -
  have "map_res (\<lambda>i. case stoi16 [toHex h ! (2 * i), toHex h ! (2 * i + 1)] of
      None \<Rightarrow> Inl (InvalidArgument ''stoi'') | Some n \<Rightarrow> Inr (word_of_int n)) [0..<length h] = Inr h"
    by (rule stoi_pairs_toHex)
  then show ?thesis using assms by (simp add: fromHex_def HASH_SIZE_def length_toHex)
qed

section \<open>Writing and reading blocks\<close>

lemma blockPath_Inr:
  assumes "length c = 64"
  shows "blockPath s c = Inr (bs_storePath s @ ''/'' @ blockSizeToString (bs_blockSize s) @ ''/'' @ [toHex c ! 0] @ ''/'' @
    [toHex c ! 1] @ ''/'' @ toHex c)"
  using assms by (simp add: blockPath_def blockDir_def Let_def length_toHex)

text \<open>Paths tell checksums apart, and blocks from metadata.\<close>

lemma blockPath_inj: "length c = 64 \<Longrightarrow> length d = 64 \<Longrightarrow> blockPath s c = blockPath s d \<longleftrightarrow> c = d"
  by (auto simp: blockPath_Inr toHex_inj)

lemma hex_digit_not: "Codec.hex_digit (n mod 16) \<noteq> CHR ''n''"
proof -
  have "\<forall>c \<in> set ''0123456789abcdef''. c \<noteq> CHR ''n''" by simp
  moreover have "Codec.hex_digit (n mod 16) \<in> set ''0123456789abcdef''"
    unfolding Codec.hex_digit_def by (rule nth_mem) simp
  ultimately show ?thesis by blast
qed

lemma last_toHex: "bs \<noteq> [] \<Longrightarrow> last (toHex bs) \<noteq> CHR ''n''"
proof (induction bs rule: rev_induct)
  case (snoc b bs)
  then show ?case by (simp add: toHex_def hex_byte_def hex_digit_not)
qed simp

lemma block_not_metadata:
  assumes "length c = 64" and "length d = 64" and "blockPath s c = Inr p" and "metadataPath s d = Inr m"
  shows "p \<noteq> m"
proof -
  have "last p = last (toHex c)" "last m = CHR ''n''"
    using assms length_toHex [of c] by (auto simp: blockPath_Inr metadataPath_def last_append)
  then show ?thesis using last_toHex [of c] assms(1) by (cases c) auto
qed

lemma paths_stable [simp]:
  "blockPath (s\<lparr>bs_log := l\<rparr>) c = blockPath s c" "blockPath (write_file p b s) c = blockPath s c"
  "metadataPath (s\<lparr>bs_log := l\<rparr>) c = metadataPath s c" "metadataPath (write_file p b s) c = metadataPath s c"
  by (simp_all add: blockPath_def blockDir_def metadataPath_def write_file_def Let_def)

lemma write_file_fields [simp]:
  "bs_log (write_file p b s) = bs_log s" "bs_storePath (write_file p b s) = bs_storePath s"
  "bs_blockSize (write_file p b s) = bs_blockSize s"
  by (simp_all add: write_file_def)

lemma files_write_file: "map_of (bs_files (write_file p b s)) = (map_of (bs_files s))(p \<mapsto> b)"
  by (simp add: write_file_def update_conv')

lemma get_block_written:
  assumes "length c = 64" and "length d = 64" and "blockPath s d = Inr p"
  shows "get_block fails c (write_file p b s) =
    (if c = d then (if fails then Inl (RuntimeError ''Failed to open block file'') else Inr b) else get_block fails c s)"
  using assms blockPath_inj [OF assms(1,2), of s]
  by (auto simp: get_block_def files_write_file blockPath_Inr)

lemma get_block_metadata:
  assumes "length c = 64" and "length d = 64" and "metadataPath s d = Inr p"
  shows "get_block fails c (write_file p b s) = get_block fails c s"
proof -
  obtain q where q: "blockPath s c = Inr q" using blockPath_Inr [OF assms(1)] by blast
  then show ?thesis using block_not_metadata [OF assms(1,2) q assms(3)]
    by (simp add: get_block_def files_write_file)
qed

lemma get_block_log [simp]: "get_block fails c (s\<lparr>bs_log := l\<rparr>) = get_block fails c s"
  by (simp add: get_block_def)

text \<open>What a write leaves of the block, by what became of it.\<close>

fun written :: "put_io \<Rightarrow> bytes \<Rightarrow> bytes option" where
  "written BlockDirFails b = None"
| "written CreateFails b = None"
| "written (BlockWriteFails n) b = Some (take n b)"
| "written (BlockLost n) b = Some (take n b)"
| "written io b = Some b"

lemma put_cases:
  assumes "\<forall>d. length (bv_hash V d) = 64"
  shows "fst (put V io b md s) = (case io of BlockDirFails \<Rightarrow> Inl (RuntimeError ''filesystem_error'')
      | CreateFails \<Rightarrow> Inl (RuntimeError ''Failed to create block file'')
      | BlockWriteFails n \<Rightarrow> Inl (RuntimeError ''Failed to write block data'')
      | MetaFails \<Rightarrow> Inl (RuntimeError ''Failed to create metadata file'')
      | _ \<Rightarrow> Inr (bv_hash V b))"
    and "length c = 64 \<Longrightarrow> get_block fails c (snd (put V io b md s)) =
      (case written io b of
         Some stored \<Rightarrow> if c = bv_hash V b
           then (if fails then Inl (RuntimeError ''Failed to open block file'') else Inr stored) else get_block fails c s
       | None \<Rightarrow> get_block fails c s)"
    and "bs_log (snd (put V io b md s)) = b # bs_log s"
    and "bs_storePath (snd (put V io b md s)) = bs_storePath s" "bs_blockSize (snd (put V io b md s)) = bs_blockSize s"
proof -
  have l: "length (bv_hash V b) = 64" using assms by blast
  obtain p where p: "blockPath s (bv_hash V b) = Inr p" using blockPath_Inr [OF l] by blast
  then obtain m where m: "metadataPath s (bv_hash V b) = Inr m" by (simp add: metadataPath_def)
  show "fst (put V io b md s) = (case io of BlockDirFails \<Rightarrow> Inl (RuntimeError ''filesystem_error'')
      | CreateFails \<Rightarrow> Inl (RuntimeError ''Failed to create block file'')
      | BlockWriteFails n \<Rightarrow> Inl (RuntimeError ''Failed to write block data'')
      | MetaFails \<Rightarrow> Inl (RuntimeError ''Failed to create metadata file'')
      | _ \<Rightarrow> Inr (bv_hash V b))"
    by (cases io) (simp_all add: put_def Let_def p m putMetadata_def)
  show "bs_log (snd (put V io b md s)) = b # bs_log s" "bs_storePath (snd (put V io b md s)) = bs_storePath s"
    "bs_blockSize (snd (put V io b md s)) = bs_blockSize s"
    by (cases io; simp add: put_def Let_def p m putMetadata_def)+
  assume c: "length c = 64"
  have w: "get_block fails c (write_file p x (s\<lparr>bs_log := b # bs_log s\<rparr>)) = (if c = bv_hash V b
      then (if fails then Inl (RuntimeError ''Failed to open block file'') else Inr x) else get_block fails c s)" for x
    using get_block_written [OF c l, of "s\<lparr>bs_log := b # bs_log s\<rparr>" p] p by simp
  have wm: "get_block fails c (write_file m y (write_file p x s')) = get_block fails c (write_file p x s')"
    if "metadataPath s' (bv_hash V b) = Inr m" for x y s'
    using get_block_metadata [OF c l, of "write_file p x s'" m] that by simp
  show "get_block fails c (snd (put V io b md s)) =
      (case written io b of
         Some stored \<Rightarrow> if c = bv_hash V b
           then (if fails then Inl (RuntimeError ''Failed to open block file'') else Inr stored) else get_block fails c s
       | None \<Rightarrow> get_block fails c s)"
    by (cases io) (simp_all add: put_def Let_def p m putMetadata_def w wm)
qed

lemma metadata_wf: "doc_wf (to_json m)"
  by (simp add: to_json_def map_wf_def)

text \<open>
  C30: a block that was put is read back by its checksum, with its metadata up to whole seconds, and
  no other block changes, whatever became of the write.
\<close>

theorem block_roundtrip:
  assumes "\<forall>d. length (bv_hash V d) = 64" and "\<forall>j. doc_wf j \<longrightarrow> bv_parse V (bv_dump V j) = Some j"
    and "put V PutOk b md s = (r, s')" and "0 \<le> bm_created_at md"
  shows "r = Inr (bv_hash V b) \<and> get_block False (bv_hash V b) s' = Inr b \<and>
    getMetadata V False (bv_hash V b) s' =
      Inr (Some (md\<lparr>bm_created_at := bm_created_at md div 1000000000 * 1000000000\<rparr>)) \<and>
    (\<forall>c io. length c = 64 \<and> c \<noteq> bv_hash V b \<longrightarrow> get_block fails c (snd (put V io b md s)) = get_block fails c s)"
proof -
  have l: "length (bv_hash V b) = 64" using assms(1) by blast
  have parse: "bv_parse V (bv_dump V (to_json m)) = Some (to_json m)" for m using assms(2) metadata_wf by blast
  obtain p where p: "blockPath s (bv_hash V b) = Inr p" using blockPath_Inr [OF l] by blast
  then obtain m where m: "metadataPath s (bv_hash V b) = Inr m" by (simp add: metadataPath_def)
  have s': "s' = write_file m (text_bytes (bv_dump V (to_json md))) (write_file p b (s\<lparr>bs_log := b # bs_log s\<rparr>))"
    using assms(3) by (auto simp: put_def Let_def p m putMetadata_def)
  have "sgn (bm_created_at md) * (\<bar>bm_created_at md\<bar> div 1000000000) = bm_created_at md div 1000000000"
    using assms(4) by (cases "bm_created_at md = 0") simp_all
  then have "getMetadata V False (bv_hash V b) s' =
      Inr (Some (md\<lparr>bm_created_at := bm_created_at md div 1000000000 * 1000000000\<rparr>))"
    by (simp add: getMetadata_def s' m files_write_file deserializeDocument_def bytes_text_trip parse)
      (simp add: to_json_def from_json_def const_member_def get_int_simps)
  moreover have "get_block fails c (snd (put V io b md s)) = get_block fails c s"
    if "length c = 64" "c \<noteq> bv_hash V b" for c io
    using put_cases(2) [OF assms(1) that(1), of fails io b md s] that(2) by (simp split: option.split)
  ultimately show ?thesis
    using put_cases(1) [OF assms(1), of PutOk b md s] put_cases(2) [OF assms(1) l, of False PutOk b md s] assms(3) by auto
qed

text \<open>
  The buffer that is written when the file closes is not checked: a full disk leaves a cut-off
  block behind, and \<open>put\<close> returns its checksum as if all was well.
\<close>

lemma lost_buffer_unnoticed:
  assumes "\<forall>d. length (bv_hash V d) = 64"
  shows "fst (put V (BlockLost n) b md s) = Inr (bv_hash V b) \<and>
    get_block False (bv_hash V b) (snd (put V (BlockLost n) b md s)) = Inr (take n b)"
  using put_cases(1) [OF assms, of "BlockLost n" b md s] put_cases(2) [OF assms, of "bv_hash V b" False "BlockLost n" b md s]
    assms by simp

section \<open>Examples\<close>

text \<open>A digest that cuts and pads to 64 bytes.\<close>

definition pad_env :: block_env where
  "pad_env = \<lparr>bv_hash = (\<lambda>b. take 64 (b @ replicate 64 0)), bv_dump = put_doc, bv_parse = read_doc\<rparr>"

definition empty_store :: DiskBlockStore where
  "empty_store = \<lparr>bs_storePath = ''store'', bs_blockSize = Medium, bs_files = [], bs_log = []\<rparr>"

lemma pad_env_length: "\<forall>d. length (bv_hash pad_env d) = 64"
  by (auto simp: pad_env_def min_def)

lemma pad_env_parse: "\<forall>j. doc_wf j \<longrightarrow> bv_parse pad_env (bv_dump pad_env j) = Some j"
  by (simp add: pad_env_def read_put_doc)

theorem block_roundtrip_witness:
  "let (r, s') = put pad_env PutOk [1, 2, 3] \<lparr>bm_size = Medium, bm_created_at = 5000000001, bm_length_without_padding = 3\<rparr>
       empty_store
   in get_block False (bv_hash pad_env [1, 2, 3]) s' = Inr [1, 2, 3] \<and>
      getMetadata pad_env False (bv_hash pad_env [1, 2, 3]) s' =
        Inr (Some \<lparr>bm_size = Medium, bm_created_at = 5000000000, bm_length_without_padding = 3\<rparr>)"
proof -
  let ?md = "\<lparr>bm_size = Medium, bm_created_at = 5000000001, bm_length_without_padding = 3\<rparr>"
  obtain r s' where p: "put pad_env PutOk [1, 2, 3] ?md empty_store = (r, s')" by (cases "put pad_env PutOk [1, 2, 3] ?md empty_store")
  from block_roundtrip [OF pad_env_length pad_env_parse p] show ?thesis by (simp add: p)
qed

theorem closest_block_size_witness:
  "\<exists>s. lengthToClosestBlockSize 1000 = Inr s \<and> 1000 \<le> s \<and> (\<forall>t \<in> set VALID_BLOCK_SIZES. 1000 \<le> t \<longrightarrow> s \<le> t)"
  using closest_block_size [of 1000] by auto

end
