(* ===== verification/QueryEngine.thy ===== *)
theory QueryEngine
  imports Documents
begin

text \<open>
  \<open>query_engine.{hpp,cpp}\<close>: which documents a filter of comparison, set, existence and logical
  operators matches. Nothing in it throws; loops that return early are bounded quantifiers.
\<close>

section \<open>Comparison\<close>

definition typeRank :: "doc \<Rightarrow> int" where
  "typeRank v = (case v of DNull \<Rightarrow> 0 | DBool _ \<Rightarrow> 1 | DInt _ \<Rightarrow> 2 | DFloat _ \<Rightarrow> 2 | DStr _ \<Rightarrow> 3
     | DArr _ \<Rightarrow> 4 | DObj _ \<Rightarrow> 5)"

text \<open>Of the result of \<open>std::string::compare\<close> only the sign is used.\<close>

definition compareValues :: "(rat \<Rightarrow> rat) \<Rightarrow> doc \<Rightarrow> doc \<Rightarrow> int" where
  "compareValues rnd a b =
     (if typeRank a \<noteq> typeRank b then typeRank a - typeRank b else
      case a of
        DNull \<Rightarrow> 0
      | DBool ba \<Rightarrow> (if b = DBool ba then 0 else if ba then 1 else - 1)
      | DInt _ \<Rightarrow> (let da = to_double rnd a; db = to_double rnd b in if da < db then - 1 else if db < da then 1 else 0)
      | DFloat _ \<Rightarrow> (let da = to_double rnd a; db = to_double rnd b in if da < db then - 1 else if db < da then 1 else 0)
      | DStr sa \<Rightarrow> (case b of DStr sb \<Rightarrow> (if sa < sb then - 1 else if sb < sa then 1 else 0) | _ \<Rightarrow> 0)
      | _ \<Rightarrow> (if doc_eq rnd a b then 0 else if doc_less rnd a b then - 1 else 1))"

section \<open>Fields\<close>

text \<open>
  \<open>std::getline\<close> with a dot as delimiter: the empty path has no segments, and a dot at the end
  does not start one.
\<close>

function segments :: "string \<Rightarrow> string list" where
  "segments path = (if path = [] then [] else
     takeWhile (\<lambda>c. c \<noteq> CHR ''.'') path # segments (drop 1 (dropWhile (\<lambda>c. c \<noteq> CHR ''.'') path)))"
  by auto
termination
proof (relation "measure length")
  fix path :: string
  assume "path \<noteq> []"
  then obtain c cs where "path = c # cs" by (cases path) auto
  then show "(drop 1 (dropWhile (\<lambda>c. c \<noteq> CHR ''.'') path), path) \<in> measure length"
    using length_dropWhile_le [of "\<lambda>c. c \<noteq> CHR ''.''" cs] by (simp add: less_Suc_eq_le le_trans [OF diff_le_self])
qed simp

declare segments.simps [simp del]

fun walk :: "doc \<Rightarrow> string list \<Rightarrow> doc option" where
  "walk current [] = Some current"
| "walk current (segment # rest) =
     (case member current segment of None \<Rightarrow> None | Some d \<Rightarrow> walk d rest)"

definition resolveField :: "doc \<Rightarrow> string \<Rightarrow> doc option" where
  "resolveField d fieldPath = walk d (segments fieldPath)"

section \<open>Filters\<close>

definition matchesOperator :: "(rat \<Rightarrow> rat) \<Rightarrow> doc \<Rightarrow> string \<Rightarrow> doc \<Rightarrow> bool" where
  "matchesOperator rnd v opr operand =
     (if opr = ''$eq'' then compareValues rnd v operand = 0
      else if opr = ''$ne'' then compareValues rnd v operand \<noteq> 0
      else if opr = ''$gt'' then compareValues rnd v operand > 0
      else if opr = ''$gte'' then compareValues rnd v operand \<ge> 0
      else if opr = ''$lt'' then compareValues rnd v operand < 0
      else if opr = ''$lte'' then compareValues rnd v operand \<le> 0
      else if opr = ''$in'' then
        (case operand of DArr items \<Rightarrow> list_ex (\<lambda>i. compareValues rnd v i = 0) items | _ \<Rightarrow> False)
      else if opr = ''$nin'' then
        (case operand of DArr items \<Rightarrow> list_all (\<lambda>i. compareValues rnd v i \<noteq> 0) items | _ \<Rightarrow> True)
      else if opr = ''$exists'' then (case operand of DBool b \<Rightarrow> b | _ \<Rightarrow> True)
      else False)"

definition is_operator :: "string \<Rightarrow> bool" where
  "is_operator k \<longleftrightarrow> k \<noteq> [] \<and> hd k = CHR ''$''"

definition matchesFieldFilter :: "(rat \<Rightarrow> rat) \<Rightarrow> doc \<Rightarrow> doc \<Rightarrow> bool" where
  "matchesFieldFilter rnd v filterValue =
     (case filterValue of
        DObj kvs \<Rightarrow>
          if list_ex (\<lambda>(k, operand). is_operator k) kvs
          then list_all (\<lambda>(k, operand). matchesOperator rnd v k operand) kvs
          else compareValues rnd v filterValue = 0
      | _ \<Rightarrow> compareValues rnd v filterValue = 0)"

text \<open>One entry of a filter that is not a logical operator: \<open>$exists\<close> first, then the others.\<close>

definition matchesField :: "(rat \<Rightarrow> rat) \<Rightarrow> doc \<Rightarrow> string \<Rightarrow> doc \<Rightarrow> bool" where
  "matchesField rnd d key filterValue =
     (case member filterValue ''$exists'' of
        Some e \<Rightarrow>
          (let shouldExist = (case e of DBool b \<Rightarrow> b | _ \<Rightarrow> True) in
           case resolveField d key of
             None \<Rightarrow> \<not> shouldExist
           | Some v \<Rightarrow> shouldExist \<and>
               list_all (\<lambda>(k, operand). k = ''$exists'' \<or> matchesOperator rnd v k operand) (members filterValue))
      | None \<Rightarrow>
          (case resolveField d key of
             None \<Rightarrow> False
           | Some v \<Rightarrow> matchesFieldFilter rnd v filterValue))"

lemma subfilter_size:
  assumes "(k, DArr fs) \<in> set kvs" and "f \<in> set fs"
  shows "size f < Suc (size_list (size_prod (\<lambda>x. 0) size) kvs)"
proof -
  have "size f \<le> size_list size fs" by (rule size_list_estimation' [OF assms(2) order.refl])
  also have "\<dots> < size_prod (\<lambda>x. 0) size (k, DArr fs)" by simp
  also have "\<dots> \<le> size_list (size_prod (\<lambda>x. 0) size) kvs"
    by (rule size_list_estimation' [OF assms(1) order.refl])
  finally show ?thesis by simp
qed

function matchesFilter :: "(rat \<Rightarrow> rat) \<Rightarrow> doc \<Rightarrow> doc \<Rightarrow> bool" where
  "matchesFilter rnd d filt =
     (case filt of
        DNull \<Rightarrow> True
      | DArr fs \<Rightarrow> fs = []
      | DObj kvs \<Rightarrow>
          list_all (\<lambda>(key, v).
            if key = ''$and'' then (case v of DArr fs \<Rightarrow> list_all (matchesFilter rnd d) fs | _ \<Rightarrow> False)
            else if key = ''$or'' then (case v of DArr fs \<Rightarrow> list_ex (matchesFilter rnd d) fs | _ \<Rightarrow> False)
            else matchesField rnd d key v) kvs
      | _ \<Rightarrow> False)"
  by auto
termination
  by (relation "measure (\<lambda>(rnd, d, f). size f)") (auto intro: subfilter_size)

declare matchesFilter.simps [simp del]

section \<open>Comparison is a total order\<close>

text \<open>The order of types first, then that of the tokens.\<close>

definition sort_key :: "doc \<Rightarrow> int \<times> token list" where
  "sort_key d = (typeRank d, tokens d)"

lemma compareValues_key:
  assumes "exact rnd a" and "exact rnd b"
  shows "compareValues rnd a b < 0 \<longleftrightarrow> sort_key a < sort_key b"
    and "compareValues rnd a b = 0 \<longleftrightarrow> sort_key a = sort_key b"
  using assms doc_order_tokens [OF assms]
  by (cases a; cases b; auto simp: compareValues_def sort_key_def typeRank_def to_double_def Let_def)+

lemma matches_entries:
  "matchesFilter rnd d (DObj (kvs @ ls)) \<longleftrightarrow> matchesFilter rnd d (DObj kvs) \<and> matchesFilter rnd d (DObj ls)"
  by (simp add: matchesFilter.simps [of rnd d "DObj _"])

lemma compareValues_pos:
  assumes "exact rnd a" and "exact rnd b"
  shows "compareValues rnd a b > 0 \<longleftrightarrow> sort_key b < sort_key a"
  using compareValues_key [OF assms] by (metis less_linear order_less_asym)

text \<open>
  On values whose integers are exact as doubles the comparison is a total order with null
  before booleans, numbers, strings, arrays and objects, in this order; so every value
  is matched by exactly one of \<open>$lt\<close>, \<open>$eq\<close> and \<open>$gt\<close>, and \<open>$lte\<close>, \<open>$gte\<close>, \<open>$ne\<close> are their negations.
\<close>

theorem comparison_total_order:
  assumes "exact rnd a" and "exact rnd b" and "exact rnd c"
  shows "(compareValues rnd a b < 0 \<longleftrightarrow> compareValues rnd b a > 0) \<and>
    (compareValues rnd a b = 0 \<longleftrightarrow> compareValues rnd b a = 0) \<and>
    (compareValues rnd a b \<le> 0 \<and> compareValues rnd b c \<le> 0 \<longrightarrow> compareValues rnd a c \<le> 0) \<and>
    (typeRank a < typeRank b \<longrightarrow> compareValues rnd a b < 0) \<and>
    matchesOperator rnd a ''$lte'' b = (\<not> matchesOperator rnd a ''$gt'' b) \<and>
    matchesOperator rnd a ''$gte'' b = (\<not> matchesOperator rnd a ''$lt'' b) \<and>
    matchesOperator rnd a ''$ne'' b = (\<not> matchesOperator rnd a ''$eq'' b) \<and>
    (matchesOperator rnd a ''$lt'' b \<longleftrightarrow> matchesOperator rnd b ''$gt'' a)"
proof -
  have le: "compareValues rnd x y \<le> 0 \<longleftrightarrow> sort_key x \<le> sort_key y" if "exact rnd x" "exact rnd y" for x y
    using compareValues_key [OF that] by (auto simp: order.order_iff_strict)
  have "compareValues rnd a b \<le> 0 \<and> compareValues rnd b c \<le> 0 \<longrightarrow> compareValues rnd a c \<le> 0"
    using assms by (auto simp: le)
  moreover have "typeRank a < typeRank b \<longrightarrow> compareValues rnd a b < 0"
    by (simp add: compareValues_def)
  moreover have "compareValues rnd a b < 0 \<longleftrightarrow> compareValues rnd b a > 0"
    "compareValues rnd a b = 0 \<longleftrightarrow> compareValues rnd b a = 0"
    using compareValues_key [OF assms(1,2)] compareValues_key [OF assms(2,1)] compareValues_pos [OF assms(2,1)] by auto
  ultimately show ?thesis by (auto simp: matchesOperator_def)
qed

text \<open>Large integers that round to the same double are equal to the queries.\<close>

lemma rounded_integers_match:
  "rnd (of_int m) = rnd (of_int n) \<Longrightarrow> matchesOperator rnd (DInt m) ''$eq'' (DInt n)"
  by (simp add: matchesOperator_def compareValues_def typeRank_def to_double_def)

theorem comparison_total_order_witness:
  "compareValues id (DStr ''z'') (DArr [DInt 1]) < 0 \<and> matchesOperator id (DInt 2) ''$lte'' (DFloat (5 / 2))"
  using comparison_total_order [of id "DStr ''z''" "DArr [DInt 1]" "DInt 0"]
    comparison_total_order [of id "DInt 2" "DFloat (5 / 2)" "DInt 0"]
  by (simp add: typeRank_def matchesOperator_def compareValues_def to_double_def)

end
