(* ===== verification/UpdateEngine.thy ===== *)
theory UpdateEngine
  imports Documents
begin

text \<open>
  \<open>update_engine.{hpp,cpp}\<close>: the twelve update operators. Each is a loop over the fields it names,
  in the order of their names; field names are keys of the document, dots included. Writing a
  member of a document that is not an object throws. Sums and products of doubles are rounded;
  \<open>now\<close> is the time as text.
\<close>

section \<open>The operators\<close>

definition applySet :: "(string \<times> doc) list \<Rightarrow> doc \<Rightarrow> doc res" where
  "applySet = fold_res (\<lambda>(key, v). put_member key v)"

definition applyUnset :: "(string \<times> doc) list \<Rightarrow> doc \<Rightarrow> doc res" where
  "applyUnset = fold_res (\<lambda>(key, v). erase_member key)"

definition inc_field :: "(rat \<Rightarrow> rat) \<Rightarrow> string \<Rightarrow> doc \<Rightarrow> doc \<Rightarrow> doc res" where
  "inc_field rnd key amount d =
     (if \<not> is_number amount then Inr d
      else case member d key of
        Some v \<Rightarrow> if is_number v then put_member key (DFloat (rnd (to_double rnd v + to_double rnd amount))) d
                  else put_member key amount d
      | None \<Rightarrow> put_member key amount d)"

definition applyInc :: "(rat \<Rightarrow> rat) \<Rightarrow> (string \<times> doc) list \<Rightarrow> doc \<Rightarrow> doc res" where
  "applyInc rnd = fold_res (\<lambda>(key, amount). inc_field rnd key amount)"

definition mul_field :: "(rat \<Rightarrow> rat) \<Rightarrow> string \<Rightarrow> doc \<Rightarrow> doc \<Rightarrow> doc res" where
  "mul_field rnd key factor d =
     (if \<not> is_number factor then Inr d
      else case member d key of
        Some v \<Rightarrow> if is_number v then put_member key (DFloat (rnd (to_double rnd v * to_double rnd factor))) d
                  else put_member key (DInt 0) d
      | None \<Rightarrow> put_member key (DInt 0) d)"

definition applyMul :: "(rat \<Rightarrow> rat) \<Rightarrow> (string \<times> doc) list \<Rightarrow> doc \<Rightarrow> doc res" where
  "applyMul rnd = fold_res (\<lambda>(key, factor). mul_field rnd key factor)"

definition min_field :: "(rat \<Rightarrow> rat) \<Rightarrow> string \<Rightarrow> doc \<Rightarrow> doc \<Rightarrow> doc res" where
  "min_field rnd key v d =
     (case member d key of
        None \<Rightarrow> put_member key v d
      | Some old \<Rightarrow> if doc_less rnd v old then put_member key v d else Inr d)"

definition applyMin :: "(rat \<Rightarrow> rat) \<Rightarrow> (string \<times> doc) list \<Rightarrow> doc \<Rightarrow> doc res" where
  "applyMin rnd = fold_res (\<lambda>(key, v). min_field rnd key v)"

definition max_field :: "(rat \<Rightarrow> rat) \<Rightarrow> string \<Rightarrow> doc \<Rightarrow> doc \<Rightarrow> doc res" where
  "max_field rnd key v d =
     (case member d key of
        None \<Rightarrow> put_member key v d
      | Some old \<Rightarrow> if doc_less rnd old v then put_member key v d else Inr d)"

definition applyMax :: "(rat \<Rightarrow> rat) \<Rightarrow> (string \<times> doc) list \<Rightarrow> doc \<Rightarrow> doc res" where
  "applyMax rnd = fold_res (\<lambda>(key, v). max_field rnd key v)"

text \<open>
  The new member is written before the old one is erased: renaming a field to itself erases it.
\<close>

definition rename_field :: "string \<Rightarrow> doc \<Rightarrow> doc \<Rightarrow> doc res" where
  "rename_field oldName v d =
     (case v of
        DStr newName \<Rightarrow>
          (case member d oldName of
             None \<Rightarrow> Inr d
           | Some old \<Rightarrow> bind_res (put_member newName old d) (erase_member oldName))
      | _ \<Rightarrow> Inr d)"

definition applyRename :: "(string \<times> doc) list \<Rightarrow> doc \<Rightarrow> doc res" where
  "applyRename = fold_res (\<lambda>(oldName, v). rename_field oldName v)"

definition applyCurrentDate :: "string \<Rightarrow> (string \<times> doc) list \<Rightarrow> doc \<Rightarrow> doc res" where
  "applyCurrentDate now = fold_res (\<lambda>(key, v). put_member key (DStr now))"

text \<open>\<open>if (!doc.contains(key)) doc[key] = json::array()\<close>\<close>

definition ensure_array :: "string \<Rightarrow> doc \<Rightarrow> doc res" where
  "ensure_array key d = (if member d key = None then put_member key (DArr []) d else Inr d)"

definition push_field :: "string \<Rightarrow> doc \<Rightarrow> doc \<Rightarrow> doc res" where
  "push_field key v d = bind_res (ensure_array key d) (\<lambda>d'.
     case member d' key of
       Some (DArr ds) \<Rightarrow> put_member key (DArr (ds @ [v])) d'
     | _ \<Rightarrow> Inr d')"

definition applyPush :: "(string \<times> doc) list \<Rightarrow> doc \<Rightarrow> doc res" where
  "applyPush = fold_res (\<lambda>(key, v). push_field key v)"

definition pull_field :: "(rat \<Rightarrow> rat) \<Rightarrow> string \<Rightarrow> doc \<Rightarrow> doc \<Rightarrow> doc res" where
  "pull_field rnd key matchVal d =
     (case member d key of
        Some (DArr ds) \<Rightarrow> put_member key (DArr (filter (\<lambda>elem. \<not> doc_eq rnd elem matchVal) ds)) d
      | _ \<Rightarrow> Inr d)"

definition applyPull :: "(rat \<Rightarrow> rat) \<Rightarrow> (string \<times> doc) list \<Rightarrow> doc \<Rightarrow> doc res" where
  "applyPull rnd = fold_res (\<lambda>(key, matchVal). pull_field rnd key matchVal)"

definition add_field :: "(rat \<Rightarrow> rat) \<Rightarrow> string \<Rightarrow> doc \<Rightarrow> doc \<Rightarrow> doc res" where
  "add_field rnd key v d = bind_res (ensure_array key d) (\<lambda>d'.
     case member d' key of
       Some (DArr ds) \<Rightarrow> if list_ex (\<lambda>elem. doc_eq rnd elem v) ds then Inr d' else put_member key (DArr (ds @ [v])) d'
     | _ \<Rightarrow> Inr d')"

definition applyAddToSet :: "(rat \<Rightarrow> rat) \<Rightarrow> (string \<times> doc) list \<Rightarrow> doc \<Rightarrow> doc res" where
  "applyAddToSet rnd = fold_res (\<lambda>(key, v). add_field rnd key v)"

text \<open>\<open>get<int>()\<close> of a number: a double is cut off towards zero.\<close>

definition to_int :: "doc \<Rightarrow> int" where
  "to_int d = (case d of
     DInt n \<Rightarrow> signed_take_bit 31 n
   | DFloat q \<Rightarrow> (if 0 \<le> q then \<lfloor>q\<rfloor> else \<lceil>q\<rceil>)
   | _ \<Rightarrow> 0)"

definition pop_field :: "string \<Rightarrow> doc \<Rightarrow> doc \<Rightarrow> doc res" where
  "pop_field key direction d =
     (case member d key of
        Some (DArr ds) \<Rightarrow>
          if ds = [] \<or> \<not> is_number direction then Inr d
          else if to_int direction = 1 then put_member key (DArr (butlast ds)) d
          else if to_int direction = - 1 then put_member key (DArr (tl ds)) d
          else Inr d
      | _ \<Rightarrow> Inr d)"

definition applyPop :: "(string \<times> doc) list \<Rightarrow> doc \<Rightarrow> doc res" where
  "applyPop = fold_res (\<lambda>(key, direction). pop_field key direction)"

section \<open>Updates\<close>

definition apply_operator :: "(rat \<Rightarrow> rat) \<Rightarrow> string \<Rightarrow> string \<Rightarrow> (string \<times> doc) list \<Rightarrow> doc \<Rightarrow> doc res" where
  "apply_operator rnd now opr fs d =
     (if opr = ''$set'' then applySet fs d
      else if opr = ''$unset'' then applyUnset fs d
      else if opr = ''$inc'' then applyInc rnd fs d
      else if opr = ''$push'' then applyPush fs d
      else if opr = ''$pull'' then applyPull rnd fs d
      else if opr = ''$addToSet'' then applyAddToSet rnd fs d
      else if opr = ''$min'' then applyMin rnd fs d
      else if opr = ''$max'' then applyMax rnd fs d
      else if opr = ''$rename'' then applyRename fs d
      else if opr = ''$currentDate'' then applyCurrentDate now fs d
      else if opr = ''$mul'' then applyMul rnd fs d
      else if opr = ''$pop'' then applyPop fs d
      else Inr d)"

text \<open>An update that is not an object changes nothing, an operator whose fields are not one is skipped.\<close>

definition applyUpdate :: "(rat \<Rightarrow> rat) \<Rightarrow> string \<Rightarrow> doc \<Rightarrow> doc \<Rightarrow> doc res" where
  "applyUpdate rnd now d update =
     fold_res (\<lambda>(opr, fs) d.
       case fs of DObj kvs \<Rightarrow> apply_operator rnd now opr kvs d | _ \<Rightarrow> Inr d) (members update) d"

section \<open>What an operator does to one field\<close>

text \<open>
  The specification: the value of a field after an operator, from the operator's argument and the
  value before, if there was one. \<open>$rename\<close> is the only operator that is not of this kind.
\<close>

definition on_number :: "(rat \<Rightarrow> rat) \<Rightarrow> (rat \<Rightarrow> rat \<Rightarrow> rat) \<Rightarrow> doc \<Rightarrow> doc \<Rightarrow> doc option \<Rightarrow> doc option" where
  "on_number rnd f missing arg old =
     (if \<not> is_number arg then old
      else case old of
        Some v \<Rightarrow> Some (if is_number v then DFloat (rnd (f (to_double rnd v) (to_double rnd arg))) else missing)
      | None \<Rightarrow> Some missing)"

definition on_array :: "bool \<Rightarrow> (doc list \<Rightarrow> doc list) \<Rightarrow> doc option \<Rightarrow> doc option" where
  "on_array create f old = (case old of
     Some (DArr ds) \<Rightarrow> Some (DArr (f ds))
   | Some v \<Rightarrow> Some v
   | None \<Rightarrow> if create then Some (DArr (f [])) else None)"

definition field_effect :: "(rat \<Rightarrow> rat) \<Rightarrow> string \<Rightarrow> string \<Rightarrow> doc \<Rightarrow> doc option \<Rightarrow> doc option" where
  "field_effect rnd now opr arg old =
     (if opr = ''$set'' then Some arg
      else if opr = ''$unset'' then None
      else if opr = ''$inc'' then on_number rnd (+) arg arg old
      else if opr = ''$mul'' then on_number rnd (*) (DInt 0) arg old
      else if opr = ''$min'' then Some (case old of Some v \<Rightarrow> if doc_less rnd arg v then arg else v | None \<Rightarrow> arg)
      else if opr = ''$max'' then Some (case old of Some v \<Rightarrow> if doc_less rnd v arg then arg else v | None \<Rightarrow> arg)
      else if opr = ''$currentDate'' then Some (DStr now)
      else if opr = ''$push'' then on_array True (\<lambda>ds. ds @ [arg]) old
      else if opr = ''$pull'' then on_array False (filter (\<lambda>e. \<not> doc_eq rnd e arg)) old
      else if opr = ''$addToSet'' then
        on_array True (\<lambda>ds. if list_ex (\<lambda>e. doc_eq rnd e arg) ds then ds else ds @ [arg]) old
      else if opr = ''$pop'' then
        on_array False (\<lambda>ds. if \<not> is_number arg then ds else if to_int arg = 1 then butlast ds
          else if to_int arg = - 1 then tl ds else ds) old
      else old)"

text \<open>\<open>field_step k g f\<close>: on objects \<open>f\<close> does not throw and changes only the field \<open>k\<close>, by \<open>g\<close>.\<close>

definition field_step :: "string \<Rightarrow> (doc option \<Rightarrow> doc option) \<Rightarrow> (doc \<Rightarrow> doc res) \<Rightarrow> bool" where
  "field_step k g f \<longleftrightarrow> (\<forall>kvs. map_wf kvs \<longrightarrow> (\<exists>kvs'. f (DObj kvs) = Inr (DObj kvs') \<and> map_wf kvs' \<and>
     map_of kvs' = (map_of kvs)(k := g (map_of kvs k))))"

lemma put_step: "field_step k (\<lambda>old. Some v) (put_member k v)"
  by (simp add: field_step_def put_member_def container_laws)

lemma erase_step: "field_step k (\<lambda>old. None) (erase_member k)"
  by (simp add: field_step_def erase_member_def container_laws)

lemma member_DObj [simp]: "member (DObj kvs) k = map_of kvs k"
  by (simp add: member_def members_def)

text \<open>An operation that writes the field or leaves the document as it is.\<close>

lemma choose_step:
  assumes "\<And>kvs. map_wf kvs \<Longrightarrow>
      f (DObj kvs) = (case h (map_of kvs k) of Some v \<Rightarrow> put_member k v (DObj kvs) | None \<Rightarrow> Inr (DObj kvs))"
    and "\<And>old. g old = (case h old of Some v \<Rightarrow> Some v | None \<Rightarrow> old)"
  shows "field_step k g f"
  unfolding field_step_def
proof (intro allI impI)
  fix kvs :: "(string \<times> doc) list" assume wf: "map_wf kvs"
  show "\<exists>kvs'. f (DObj kvs) = Inr (DObj kvs') \<and> map_wf kvs' \<and> map_of kvs' = (map_of kvs)(k := g (map_of kvs k))"
    using assms(1) [OF wf] wf
    by (cases "h (map_of kvs k)") (simp_all add: assms(2) put_member_def container_laws fun_upd_idem)
qed

lemma fold_field_steps:
  assumes "\<And>k v. (k, v) \<in> set fs \<Longrightarrow> field_step k (g v) (f (k, v))" and "distinct (map fst fs)" and "map_wf kvs"
  shows "\<exists>kvs'. fold_res f fs (DObj kvs) = Inr (DObj kvs') \<and> map_wf kvs' \<and>
    (\<forall>k. map_of kvs' k = (case map_of fs k of None \<Rightarrow> map_of kvs k | Some v \<Rightarrow> g v (map_of kvs k)))"
  using assms
proof (induction fs arbitrary: kvs)
  case (Cons kv fs)
  obtain k v where kv: "kv = (k, v)" by (cases kv)
  obtain kvs1 where 1: "f (k, v) (DObj kvs) = Inr (DObj kvs1)" "map_wf kvs1"
      "map_of kvs1 = (map_of kvs)(k := g v (map_of kvs k))"
    using Cons.prems(1) [of k v] Cons.prems(3) kv unfolding field_step_def by auto
  have "map_of fs k = None" using Cons.prems(2) kv by (simp add: map_of_eq_None_iff)
  moreover obtain kvs2 where "fold_res f fs (DObj kvs1) = Inr (DObj kvs2)" "map_wf kvs2"
      "\<forall>k. map_of kvs2 k = (case map_of fs k of None \<Rightarrow> map_of kvs1 k | Some v \<Rightarrow> g v (map_of kvs1 k))"
    using Cons.IH [OF _ _ 1(2)] Cons.prems(1,2) by auto
  ultimately show ?case using 1 by (auto simp: kv split: option.splits)
qed simp

lemma inc_step: "field_step k (on_number rnd (+) v v) (inc_field rnd k v)"
  by (rule choose_step [where h = "\<lambda>old. if is_number v then on_number rnd (+) v v old else None"])
    (auto simp: inc_field_def on_number_def split: option.split)

lemma mul_step: "field_step k (on_number rnd (*) (DInt 0) v) (mul_field rnd k v)"
  by (rule choose_step [where h = "\<lambda>old. if is_number v then on_number rnd (*) (DInt 0) v old else None"])
    (auto simp: mul_field_def on_number_def split: option.split)

lemma min_step:
  "field_step k (\<lambda>old. Some (case old of Some w \<Rightarrow> if doc_less rnd v w then v else w | None \<Rightarrow> v)) (min_field rnd k v)"
  by (rule choose_step [where h = "\<lambda>old. case old of None \<Rightarrow> Some v | Some w \<Rightarrow> if doc_less rnd v w then Some v else None"])
    (auto simp: min_field_def split: option.split)

lemma max_step:
  "field_step k (\<lambda>old. Some (case old of Some w \<Rightarrow> if doc_less rnd w v then v else w | None \<Rightarrow> v)) (max_field rnd k v)"
  by (rule choose_step [where h = "\<lambda>old. case old of None \<Rightarrow> Some v | Some w \<Rightarrow> if doc_less rnd w v then Some v else None"])
    (auto simp: max_field_def split: option.split)

lemma pull_step: "field_step k (on_array False (filter (\<lambda>e. \<not> doc_eq rnd e v))) (pull_field rnd k v)"
  by (rule choose_step [where h = "\<lambda>old. case old of Some (DArr ds) \<Rightarrow> Some (DArr (filter (\<lambda>e. \<not> doc_eq rnd e v) ds)) | _ \<Rightarrow> None"])
    (auto simp: pull_field_def on_array_def split: option.split doc.split)

lemma pop_step:
  "field_step k (on_array False (\<lambda>ds. if \<not> is_number v then ds else if to_int v = 1 then butlast ds
          else if to_int v = - 1 then tl ds else ds)) (pop_field k v)"
  by (rule choose_step [where h = "\<lambda>old. case old of Some (DArr ds) \<Rightarrow>
         if ds = [] \<or> \<not> is_number v then None else if to_int v = 1 then Some (DArr (butlast ds))
         else if to_int v = - 1 then Some (DArr (tl ds)) else None | _ \<Rightarrow> None"])
    (auto simp: pop_field_def on_array_def split: option.split doc.split)

lemma ensure_array_member:
  assumes "map_wf kvs"
  shows "\<exists>kvs'. ensure_array k (DObj kvs) = Inr (DObj kvs') \<and> map_wf kvs' \<and>
    map_of kvs' = (map_of kvs)(k \<mapsto> (case map_of kvs k of None \<Rightarrow> DArr [] | Some v \<Rightarrow> v))"
  using assms by (auto simp: ensure_array_def put_member_def container_laws fun_upd_idem split: option.split)

lemma after_ensure:
  assumes "field_step k g f" and "\<And>old. g' old = g (Some (case old of None \<Rightarrow> DArr [] | Some v \<Rightarrow> v))"
  shows "field_step k g' (\<lambda>d. bind_res (ensure_array k d) f)"
  unfolding field_step_def
proof (intro allI impI)
  fix kvs :: "(string \<times> doc) list" assume "map_wf kvs"
  then obtain kvs1 where 1: "ensure_array k (DObj kvs) = Inr (DObj kvs1)" "map_wf kvs1"
    "map_of kvs1 = (map_of kvs)(k \<mapsto> (case map_of kvs k of None \<Rightarrow> DArr [] | Some v \<Rightarrow> v))"
    using ensure_array_member by blast
  then obtain kvs2 where "f (DObj kvs1) = Inr (DObj kvs2)" "map_wf kvs2" "map_of kvs2 = (map_of kvs1)(k := g (map_of kvs1 k))"
    using assms(1) unfolding field_step_def by blast
  then show "\<exists>kvs'. bind_res (ensure_array k (DObj kvs)) f = Inr (DObj kvs') \<and> map_wf kvs' \<and>
      map_of kvs' = (map_of kvs)(k := g' (map_of kvs k))"
    using 1 by (simp add: assms(2))
qed

lemma push_step: "field_step k (on_array True (\<lambda>ds. ds @ [v])) (push_field k v)"
  unfolding push_field_def
proof (rule after_ensure)
  show "field_step k (on_array False (\<lambda>ds. ds @ [v]))
     (\<lambda>d'. case member d' k of Some (DArr ds) \<Rightarrow> put_member k (DArr (ds @ [v])) d' | _ \<Rightarrow> Inr d')"
    by (rule choose_step [where h = "\<lambda>old. case old of Some (DArr ds) \<Rightarrow> Some (DArr (ds @ [v])) | _ \<Rightarrow> None"])
      (auto simp: on_array_def split: option.split doc.split)
qed (simp add: on_array_def split: option.split)

lemma add_step:
  "field_step k (on_array True (\<lambda>ds. if list_ex (\<lambda>e. doc_eq rnd e v) ds then ds else ds @ [v])) (add_field rnd k v)"
  unfolding add_field_def
proof (rule after_ensure)
  let ?f = "\<lambda>ds. if list_ex (\<lambda>e. doc_eq rnd e v) ds then ds else ds @ [v]"
  show "field_step k (on_array False ?f)
     (\<lambda>d'. case member d' k of
         Some (DArr ds) \<Rightarrow> if list_ex (\<lambda>elem. doc_eq rnd elem v) ds then Inr d' else put_member k (DArr (ds @ [v])) d'
       | _ \<Rightarrow> Inr d')"
    by (rule choose_step [where h = "\<lambda>old. case old of Some (DArr ds) \<Rightarrow>
          if list_ex (\<lambda>e. doc_eq rnd e v) ds then None else Some (DArr (ds @ [v])) | _ \<Rightarrow> None"])
      (auto simp: on_array_def split: option.split doc.split)
qed (simp add: on_array_def split: option.split)

lemmas field_steps = put_step erase_step inc_step mul_step min_step max_step pull_step pop_step push_step add_step

lemmas operator_defs = applySet_def applyUnset_def applyInc_def applyMul_def applyMin_def applyMax_def
  applyCurrentDate_def applyPush_def applyPull_def applyAddToSet_def applyPop_def

definition field_operators :: "string list" where
  "field_operators = [''$set'', ''$unset'', ''$inc'', ''$mul'', ''$min'', ''$max'', ''$currentDate'', ''$push'',
     ''$pull'', ''$addToSet'', ''$pop'']"

lemma operator_effect:
  assumes "opr \<in> set field_operators" and "distinct (map fst fs)" and "map_wf kvs"
  shows "\<exists>kvs'. apply_operator rnd now opr fs (DObj kvs) = Inr (DObj kvs') \<and> map_wf kvs' \<and>
    (\<forall>k. map_of kvs' k =
      (case map_of fs k of None \<Rightarrow> map_of kvs k | Some arg \<Rightarrow> field_effect rnd now opr arg (map_of kvs k)))"
proof -
  have main: "\<exists>kvs'. fold_res f fs (DObj kvs) = Inr (DObj kvs') \<and> map_wf kvs' \<and>
      (\<forall>k. map_of kvs' k =
        (case map_of fs k of None \<Rightarrow> map_of kvs k | Some arg \<Rightarrow> field_effect rnd now opr arg (map_of kvs k)))"
    if "\<And>k v. field_step k (field_effect rnd now opr v) (f (k, v))" for f
    by (rule fold_field_steps [where g = "field_effect rnd now opr" and f = f, OF that assms(2,3)])
  have "opr = ''$set'' \<or> opr = ''$unset'' \<or> opr = ''$inc'' \<or> opr = ''$mul'' \<or> opr = ''$min'' \<or> opr = ''$max'' \<or> opr = ''$currentDate'' \<or> opr = ''$push'' \<or> opr = ''$pull'' \<or> opr = ''$addToSet'' \<or> opr = ''$pop''"
    using assms(1) by (simp only: field_operators_def list.set insert_iff empty_iff simp_thms)
  then show ?thesis
  proof (elim disjE, goal_cases)
    case 1
    have "field_step k (field_effect rnd now opr v) ((\<lambda>(key, v). put_member key v) (k, v))" for k v
      by (simp add: 1 field_effect_def [abs_def] field_steps)
    from main [OF this] show ?case by (simp add: 1 apply_operator_def operator_defs)
  next
    case 2
    have "field_step k (field_effect rnd now opr v) ((\<lambda>(key, v). erase_member key) (k, v))" for k v
      by (simp add: 2 field_effect_def [abs_def] field_steps)
    from main [OF this] show ?case by (simp add: 2 apply_operator_def operator_defs)
  next
    case 3
    have "field_step k (field_effect rnd now opr v) ((\<lambda>(key, v). inc_field rnd key v) (k, v))" for k v
      by (simp add: 3 field_effect_def [abs_def] field_steps)
    from main [OF this] show ?case by (simp add: 3 apply_operator_def operator_defs)
  next
    case 4
    have "field_step k (field_effect rnd now opr v) ((\<lambda>(key, v). mul_field rnd key v) (k, v))" for k v
      by (simp add: 4 field_effect_def [abs_def] field_steps)
    from main [OF this] show ?case by (simp add: 4 apply_operator_def operator_defs)
  next
    case 5
    have "field_step k (field_effect rnd now opr v) ((\<lambda>(key, v). min_field rnd key v) (k, v))" for k v
      by (simp add: 5 field_effect_def [abs_def] field_steps)
    from main [OF this] show ?case by (simp add: 5 apply_operator_def operator_defs)
  next
    case 6
    have "field_step k (field_effect rnd now opr v) ((\<lambda>(key, v). max_field rnd key v) (k, v))" for k v
      by (simp add: 6 field_effect_def [abs_def] field_steps)
    from main [OF this] show ?case by (simp add: 6 apply_operator_def operator_defs)
  next
    case 7
    have "field_step k (field_effect rnd now opr v) ((\<lambda>(key, v). put_member key (DStr now)) (k, v))" for k v
      by (simp add: 7 field_effect_def [abs_def] field_steps)
    from main [OF this] show ?case by (simp add: 7 apply_operator_def operator_defs)
  next
    case 8
    have "field_step k (field_effect rnd now opr v) ((\<lambda>(key, v). push_field key v) (k, v))" for k v
      by (simp add: 8 field_effect_def [abs_def] field_steps)
    from main [OF this] show ?case by (simp add: 8 apply_operator_def operator_defs)
  next
    case 9
    have "field_step k (field_effect rnd now opr v) ((\<lambda>(key, v). pull_field rnd key v) (k, v))" for k v
      by (simp add: 9 field_effect_def [abs_def] field_steps)
    from main [OF this] show ?case by (simp add: 9 apply_operator_def operator_defs)
  next
    case 10
    have "field_step k (field_effect rnd now opr v) ((\<lambda>(key, v). add_field rnd key v) (k, v))" for k v
      by (simp add: 10 field_effect_def [abs_def] field_steps)
    from main [OF this] show ?case by (simp add: 10 apply_operator_def operator_defs)
  next
    case 11
    have "field_step k (field_effect rnd now opr v) ((\<lambda>(key, v). pop_field key v) (k, v))" for k v
      by (simp add: 11 field_effect_def [abs_def] field_steps)
    from main [OF this] show ?case by (simp add: 11 apply_operator_def operator_defs)
  qed
qed

lemma other_operator:
  assumes "opr \<notin> set field_operators" and "opr \<noteq> ''$rename''"
  shows "apply_operator rnd now opr fs d = Inr d" and "field_effect rnd now opr arg old = old"
  using assms unfolding apply_operator_def field_effect_def field_operators_def by simp_all

text \<open>
  C28: an update of an object that does not use \<open>$rename\<close>, which makes one field depend on another, never
  throws, and every field ends up with the value its operators give it one after the other, in the order
  of their names, independently of all other fields; fields that no operator names keep their values.
\<close>

theorem update_refines_fields:
  assumes "map_wf kvs" and "list_all (\<lambda>(opr, fs). map_wf (members fs)) us" and "''$rename'' \<notin> fst ` set us"
  shows "\<exists>kvs'. applyUpdate rnd now (DObj kvs) (DObj us) = Inr (DObj kvs') \<and> map_wf kvs' \<and>
    (\<forall>k. map_of kvs' k = fold (\<lambda>(opr, fs) old. case member fs k of None \<Rightarrow> old
       | Some arg \<Rightarrow> field_effect rnd now opr arg old) us (map_of kvs k))"
  using assms unfolding applyUpdate_def members_def doc.case
proof (induction us arbitrary: kvs)
  case (Cons u us)
  obtain opr fs where u: "u = (opr, fs)" by (cases u)
  have "\<exists>kvs1. (case fs of DObj ls \<Rightarrow> apply_operator rnd now opr ls (DObj kvs) | _ \<Rightarrow> Inr (DObj kvs)) = Inr (DObj kvs1) \<and>
      map_wf kvs1 \<and> (\<forall>k. map_of kvs1 k = (case member fs k of None \<Rightarrow> map_of kvs k
        | Some arg \<Rightarrow> field_effect rnd now opr arg (map_of kvs k)))"
  proof (cases "\<exists>ls. fs = DObj ls")
    case True
    then obtain ls where ls: "fs = DObj ls" "map_wf ls" using Cons.prems(2) u by (auto simp: members_def)
    show ?thesis
    proof (cases "opr \<in> set field_operators")
      case True
      then show ?thesis using operator_effect [OF True map_wf_distinct [OF ls(2)] Cons.prems(1)] ls(1) by simp
    next
      case False
      then have "opr \<noteq> ''$rename''" using Cons.prems(3) u by auto
      then show ?thesis using Cons.prems(1) ls(1) other_operator [OF False]
        by (auto split: option.split)
    qed
  next
    case False
    then have "member fs k = None" for k by (cases fs) (auto simp: member_def members_def)
    then show ?thesis using False Cons.prems(1) by (cases fs) auto
  qed
  then obtain kvs1 where 1: "(case fs of DObj ls \<Rightarrow> apply_operator rnd now opr ls (DObj kvs) | _ \<Rightarrow> Inr (DObj kvs)) = Inr (DObj kvs1)"
    "map_wf kvs1" "\<And>k. map_of kvs1 k = (case member fs k of None \<Rightarrow> map_of kvs k
        | Some arg \<Rightarrow> field_effect rnd now opr arg (map_of kvs k))" by blast
  show ?case using Cons.IH [OF 1(2)] Cons.prems(2,3) 1(1) by (auto simp: u 1(3) split: option.splits)
qed simp

text \<open>Renaming a field to itself deletes it.\<close>

lemma rename_to_itself:
  assumes "map_wf kvs" and "map_of kvs k = Some v"
  shows "\<exists>kvs'. applyUpdate rnd now (DObj kvs) (DObj [(''$rename'', DObj [(k, DStr k)])]) = Inr (DObj kvs') \<and>
    map_of kvs' = (map_of kvs)(k := None)"
  using assms
  by (simp add: applyUpdate_def members_def apply_operator_def applyRename_def rename_field_def put_member_def
      erase_member_def container_laws)

theorem update_refines_fields_witness:
  "\<exists>kvs'. applyUpdate id ''now'' (DObj [(''n'', DInt 1), (''s'', DStr ''a'')])
      (DObj [(''$inc'', DObj [(''n'', DInt 2)]), (''$push'', DObj [(''l'', DNull)])]) = Inr (DObj kvs') \<and>
    map_of kvs' ''n'' = Some (DFloat 3) \<and> map_of kvs' ''l'' = Some (DArr [DNull]) \<and> map_of kvs' ''s'' = Some (DStr ''a'')"
proof -
  let ?us = "[(''$inc'', DObj [(''n'', DInt 2)]), (''$push'', DObj [(''l'', DNull)])]"
  have 1: "map_wf [(''n'', DInt 1), (''s'', DStr ''a'')]" by (simp add: map_wf_def)
  have 2: "list_all (\<lambda>(opr, fs). map_wf (members fs)) ?us" by (simp add: map_wf_def members_def)
  from update_refines_fields [OF 1 2, of id "''now''"] show ?thesis
    by (auto simp: field_effect_def on_number_def on_array_def is_number_def to_double_def)
qed

end
