(* ===== verification/DocumentProperties.thy ===== *)
theory DocumentProperties
  imports QueryEngine UpdateEngine
begin

text \<open>
  How the query engine and the update engine fit together: what was set is found, unless its name
  has a dot, which the one reads as a path and the other as a part of the name.
\<close>

lemma doc_eq_same:
  "a = b \<Longrightarrow> doc_eq rnd a b" "as = bs \<Longrightarrow> docs_eq rnd as bs" "kvs = ls \<Longrightarrow> members_eq rnd kvs ls"
  by (induction rnd a b and rnd as bs and rnd kvs ls rule: doc_eq_docs_eq_members_eq.induct) auto

lemma compareValues_same [simp]: "compareValues rnd v v = 0"
  by (cases v) (simp_all add: compareValues_def doc_eq_same doc_eq_same(2,3) [OF refl])

lemma segments_plain:
  assumes "k \<noteq> []" and "CHR ''.'' \<notin> set k"
  shows "segments k = [k]"
proof -
  have w: "takeWhile (\<lambda>c. c \<noteq> CHR ''.'') k = k" "dropWhile (\<lambda>c. c \<noteq> CHR ''.'') k = []"
    using assms(2) by (auto simp: takeWhile_eq_all_conv dropWhile_eq_Nil_conv)
  show ?thesis unfolding segments.simps [of k] w using assms(1) by (simp add: segments.simps [of "[]"])
qed

lemma segments_dotted:
  assumes "CHR ''.'' \<in> set k"
  obtains s rest where "segments k = s # rest" "s \<noteq> k"
proof
  show "segments k = takeWhile (\<lambda>c. c \<noteq> CHR ''.'') k # segments (drop 1 (dropWhile (\<lambda>c. c \<noteq> CHR ''.'') k))"
    using assms by (subst segments.simps) auto
  show "takeWhile (\<lambda>c. c \<noteq> CHR ''.'') k \<noteq> k"
    using assms by (metis (mono_tags, lifting) set_takeWhileD)
qed

definition plain_value :: "doc \<Rightarrow> bool" where
  "plain_value v \<longleftrightarrow> list_all (\<lambda>(k, operand). \<not> is_operator k) (members v)"

lemma plain_value_matches: "plain_value v \<Longrightarrow> matchesFieldFilter rnd v v"
  by (cases v) (auto simp: matchesFieldFilter_def plain_value_def members_def list_all_iff list_ex_iff)

lemma plain_value_exists: "plain_value v \<Longrightarrow> member v ''$exists'' = None"
  by (fastforce simp: plain_value_def list_all_iff member_def is_operator_def dest: map_of_SomeD intro: option.exhaust)

lemma single_filter:
  "k \<noteq> ''$and'' \<Longrightarrow> k \<noteq> ''$or'' \<Longrightarrow> matchesFilter rnd d (DObj [(k, f)]) = matchesField rnd d k f"
  by (simp add: matchesFilter.simps [of rnd d "DObj _"])

text \<open>
  After a field is set to a value that has no operators in it, the filter that asks for this
  value matches the document, when the name of the field has no dot. When it has one, no query
  on that name notices the update.
\<close>

theorem set_is_found:
  assumes "map_wf kvs" and "applyUpdate rnd now (DObj kvs) (DObj [(''$set'', DObj [(k, v)])]) = Inr d"
    and "k \<noteq> []" and "k \<noteq> ''$and''" and "k \<noteq> ''$or''" and "plain_value v"
  shows "if CHR ''.'' \<in> set k then matchesFilter rnd d (DObj [(k, f)]) = matchesFilter rnd (DObj kvs) (DObj [(k, f)])
    else matchesFilter rnd d (DObj [(k, v)])"
proof -
  obtain kvs' where d: "d = DObj kvs'" and m: "map_of kvs' = (map_of kvs)(k \<mapsto> v)"
    using assms(1,2)
    by (auto simp: applyUpdate_def members_def apply_operator_def applySet_def put_member_def container_laws)
  show ?thesis
  proof (cases "CHR ''.'' \<in> set k")
    case True
    then obtain s rest where "segments k = s # rest" "s \<noteq> k" by (rule segments_dotted)
    then have r: "resolveField d k = resolveField (DObj kvs) k" by (simp add: resolveField_def d m)
    have "matchesField rnd d k f = matchesField rnd (DObj kvs) k f" unfolding matchesField_def r ..
    then show ?thesis using True assms(4,5) by (simp add: single_filter)
  next
    case False
    then have "resolveField d k = Some v"
      using assms(3) by (simp add: resolveField_def segments_plain d m)
    then show ?thesis
      using False assms(4-6) by (simp add: single_filter matchesField_def plain_value_exists plain_value_matches)
  qed
qed

theorem set_is_found_witness:
  "matchesFilter id (DObj [(''n'', DInt 2)]) (DObj [(''n'', DInt 2)]) \<and>
   \<not> matchesFilter id (DObj [(''a.b'', DInt 2), (''n'', DInt 1)]) (DObj [(''a.b'', DInt 2)])"
proof -
  have wf: "map_wf [(''n'', DInt 1)]" by (simp add: map_wf_def)
  have "applyUpdate id [] (DObj [(''n'', DInt 1)]) (DObj [(''$set'', DObj [(''n'', DInt 2)])]) = Inr (DObj [(''n'', DInt 2)])"
    "applyUpdate id [] (DObj [(''n'', DInt 1)]) (DObj [(''$set'', DObj [(''a.b'', DInt 2)])]) =
       Inr (DObj [(''a.b'', DInt 2), (''n'', DInt 1)])"
    by (simp_all add: applyUpdate_def members_def apply_operator_def applySet_def put_member_def)
  from set_is_found [OF wf this(1), of "DInt 2"] set_is_found [OF wf this(2), of "DInt 2"]
  show ?thesis
    by (simp add: plain_value_def members_def single_filter matchesField_def resolveField_def segments.simps member_def)
qed

end
