(* ===== verification/Collection.thy ===== *)
theory Collection
  imports BlockStore HeadRegistry DocumentProperties
begin

text \<open>
  \<open>collection.{hpp,cpp}\<close> and \<open>db_errors.hpp\<close>: a collection of documents, each a block of the store;
  one more block, to which the head registry points, maps identifiers to blocks. Operations run in a
  world of the store, the registry, the store's lock and the collection; they return a result or an
  error together with the world they leave. What the system answers is a parameter, numbered by the
  steps taken so far.
\<close>

section \<open>State\<close>

record IndexSpec =
  ix_name :: string
  ix_spec :: doc
  ix_unique :: bool
  ix_sparse :: bool

record Collection =
  co_name :: string
  co_dbName :: string
  co_blockSize :: BlockSize
  co_loaded :: bool
  co_docIndex :: "(string \<times> string) list"
  co_docCache :: "(string \<times> doc) list"
  co_indexes :: "IndexSpec list"

definition mkCollection :: "string \<Rightarrow> string \<Rightarrow> BlockSize \<Rightarrow> Collection" where
  "mkCollection name dbName blockSize = \<lparr>co_name = name, co_dbName = dbName, co_blockSize = blockSize,
     co_loaded = False, co_docIndex = [], co_docCache = [], co_indexes = []\<rparr>"

record 'j world =
  w_store :: DiskBlockStore
  w_registry :: "'j HeadRegistry"
  w_lock :: StoreLock
  w_tick :: nat
  w_col :: Collection

record 'j db_env =
  de_json :: "'j json_api"
  de_blocks :: block_env
  de_dump :: "doc \<Rightarrow> string"
  de_rnd :: "rat \<Rightarrow> rat"
  de_put :: "nat \<Rightarrow> put_io"
  de_unreadable :: "nat \<Rightarrow> bool"
  de_registry_taken :: "nat \<Rightarrow> lock_io"
  de_registry_io :: "nat \<Rightarrow> io_outcome"
  de_lock_taken :: "nat \<Rightarrow> lock_io"
  de_clock :: "nat \<Rightarrow> int"
  de_now :: "nat \<Rightarrow> string"
  de_random :: "nat \<Rightarrow> bytes"
  de_order :: "nat \<Rightarrow> string list \<Rightarrow> string list"

definition duplicate_key :: "string \<Rightarrow> cpp_error" where
  "duplicate_key docId = RuntimeError (''DuplicateKeyError: Duplicate key: _id='' @ docId)"

section \<open>Actions\<close>

type_synonym ('j, 'a) act = "'j world \<Rightarrow> 'a res \<times> 'j world"

definition ret :: "'a \<Rightarrow> ('j, 'a) act" where
  "ret x w = (Inr x, w)"

definition lift :: "'a res \<Rightarrow> ('j, 'a) act" where
  "lift r w = (r, w)"

definition bnd :: "('j, 'a) act \<Rightarrow> ('a \<Rightarrow> ('j, 'b) act) \<Rightarrow> ('j, 'b) act" where
  "bnd m f w = (case m w of (Inl e, w') \<Rightarrow> (Inl e, w') | (Inr x, w') \<Rightarrow> f x w')"

definition modify :: "(Collection \<Rightarrow> Collection) \<Rightarrow> ('j, unit) act" where
  "modify f w = (Inr (), w\<lparr>w_col := f (w_col w)\<rparr>)"

definition reading :: "(Collection \<Rightarrow> 'a) \<Rightarrow> ('j, 'a) act" where
  "reading f w = (Inr (f (w_col w)), w)"

definition asking :: "('j world \<Rightarrow> ('j, 'a) act) \<Rightarrow> ('j, 'a) act" where
  "asking f w = f w w"

text \<open>\<open>store_.put(bytes, BlockMetadata(blockSize_, bytes.size()))\<close> and \<open>store_.get(checksum)\<close>.\<close>

definition store_put :: "'j db_env \<Rightarrow> bytes \<Rightarrow> ('j, Checksum) act" where
  "store_put E b w =
     (let t = w_tick w;
          md = \<lparr>bm_size = co_blockSize (w_col w), bm_created_at = de_clock E t,
                bm_length_without_padding = of_nat (length b)\<rparr>;
          (r, s) = put (de_blocks E) (de_put E t) b md (w_store w)
      in (r, w\<lparr>w_store := s, w_tick := t + 1\<rparr>))"

definition store_get :: "'j db_env \<Rightarrow> Checksum \<Rightarrow> ('j, bytes) act" where
  "store_get E c w = (get_block (de_unreadable E (w_tick w)) c (w_store w), w\<lparr>w_tick := w_tick w + 1\<rparr>)"

definition registry_key :: "Collection \<Rightarrow> string" where
  "registry_key c = co_dbName c @ '':'' @ co_name c"

definition set_head :: "'j db_env \<Rightarrow> string \<Rightarrow> ('j, unit) act" where
  "set_head E blockId w =
     (let t = w_tick w;
          (reg, r) = setHead (de_json E) (de_registry_taken E t) (de_registry_io E t) (de_now E t)
            (registry_key (w_col w)) blockId (w_registry w)
      in (r, w\<lparr>w_registry := reg, w_tick := t + 1\<rparr>))"

definition remove_head :: "'j db_env \<Rightarrow> ('j, unit) act" where
  "remove_head E w =
     (let t = w_tick w;
          (reg, r) = removeHead (de_json E) (de_registry_taken E t) (de_registry_io E t)
            (registry_key (w_col w)) (w_registry w)
      in (r, w\<lparr>w_registry := reg, w_tick := t + 1\<rparr>))"

text \<open>
  \<open>StoreLock::Guard\<close>: the lock is released however the operation ends. The destructor that releases it
  may not throw: an exception there ends the process, with the lock file in place.
\<close>

definition guarded :: "'j db_env \<Rightarrow> ('j, 'a) act \<Rightarrow> ('j, 'a) act" where
  "guarded E m w =
     (let L = de_lock_taken E (w_tick w) in
      case acquire L (w_lock w) of
        (Inl e, l) \<Rightarrow> (Inl e, w\<lparr>w_lock := l, w_tick := w_tick w + 1\<rparr>)
      | (Inr _, l) \<Rightarrow>
          (let (r, w') = m (w\<lparr>w_lock := l, w_tick := w_tick w + 1\<rparr>);
               (unlock, l') = release L (w_lock w')
           in (case unlock of Inl e \<Rightarrow> Inl Terminated | Inr _ \<Rightarrow> r, w'\<lparr>w_lock := l'\<rparr>)))"

text \<open>Iterating an \<open>unordered_map\<close>, in an order the standard leaves open.\<close>

definition entries :: "'j db_env \<Rightarrow> nat \<Rightarrow> (string \<times> 'a) list \<Rightarrow> (string \<times> 'a) list" where
  "entries E t m = map (\<lambda>k. (k, the (map_of m k))) (de_order E t (map fst m))"

definition index_entries :: "'j db_env \<Rightarrow> ('j, (string \<times> string) list) act" where
  "index_entries E w = (Inr (entries E (w_tick w) (co_docIndex (w_col w))), w)"

section \<open>Documents and metadata\<close>

definition serialize :: "'j db_env \<Rightarrow> doc \<Rightarrow> bytes" where
  "serialize E d = serializeDocument (de_dump E) d"

definition deserialize :: "'j db_env \<Rightarrow> bytes \<Rightarrow> doc res" where
  "deserialize E b = deserializeDocument (bv_parse (de_blocks E)) b"

definition computeBlockId :: "'j db_env \<Rightarrow> bytes \<Rightarrow> Checksum" where
  "computeBlockId E b = bv_hash (de_blocks E) b"

definition index_doc :: "IndexSpec \<Rightarrow> doc" where
  "index_doc i = DObj [(''name'', DStr (ix_name i)), (''sparse'', DBool (ix_sparse i)), (''spec'', ix_spec i),
     (''unique'', DBool (ix_unique i))]"

definition mappings_doc :: "(string \<times> string) list \<Rightarrow> doc" where
  "mappings_doc m = DObj (fold (\<lambda>(docId, checksumHex). map_put docId (DStr checksumHex)) m [])"

definition meta_doc :: "(string \<times> string) list \<Rightarrow> IndexSpec list \<Rightarrow> doc" where
  "meta_doc m ixs = DObj [(''indexes'', DArr (map index_doc ixs)), (''mappings'', mappings_doc m)]"

definition persistMeta :: "'j db_env \<Rightarrow> ('j, unit) act" where
  "persistMeta E =
     bnd (reading (\<lambda>c. serialize E (meta_doc (co_docIndex c) (co_indexes c)))) (\<lambda>b.
     bnd (store_put E b) (\<lambda>_. set_head E (toHex (computeBlockId E b))))"

text \<open>Restoring stops at the first value of another type, with what was read before in place.\<close>

fun restore_mappings :: "(string \<times> doc) list \<Rightarrow> ('j, unit) act" where
  "restore_mappings [] = ret ()"
| "restore_mappings ((docId, v) # kvs) =
     (case v of
        DStr checksumHex \<Rightarrow> bnd (modify (\<lambda>c. c\<lparr>co_docIndex := AList.update docId checksumHex (co_docIndex c)\<rparr>))
          (\<lambda>_. restore_mappings kvs)
      | _ \<Rightarrow> lift (Inl doc_type_error))"

text \<open>\<open>idx.value(key, default)\<close> throws on a value that is no object, and on one of another type.\<close>

definition value_or :: "(doc \<Rightarrow> 'a option) \<Rightarrow> doc \<Rightarrow> string \<Rightarrow> 'a \<Rightarrow> 'a res" where
  "value_or as d k dflt =
     (case d of
        DObj kvs \<Rightarrow> (case map_of kvs k of
            None \<Rightarrow> Inr dflt
          | Some v \<Rightarrow> (case as v of None \<Rightarrow> Inl doc_type_error | Some x \<Rightarrow> Inr x))
      | _ \<Rightarrow> Inl doc_type_error)"

definition as_string :: "doc \<Rightarrow> string option" where
  "as_string d = (case d of DStr s \<Rightarrow> Some s | _ \<Rightarrow> None)"

definition as_bool :: "doc \<Rightarrow> bool option" where
  "as_bool d = (case d of DBool b \<Rightarrow> Some b | _ \<Rightarrow> None)"

definition restore_index :: "doc \<Rightarrow> IndexSpec res" where
  "restore_index d =
     bind_res (value_or as_string d ''name'' []) (\<lambda>name.
     bind_res (value_or Some d ''spec'' DNull) (\<lambda>spec.
     bind_res (value_or as_bool d ''unique'' False) (\<lambda>unique.
     bind_res (value_or as_bool d ''sparse'' False) (\<lambda>sparse.
       Inr \<lparr>ix_name = name, ix_spec = spec, ix_unique = unique, ix_sparse = sparse\<rparr>))))"

fun restore_indexes :: "doc list \<Rightarrow> ('j, unit) act" where
  "restore_indexes [] = ret ()"
| "restore_indexes (d # ds) =
     bnd (lift (restore_index d)) (\<lambda>i.
     bnd (modify (\<lambda>c. c\<lparr>co_indexes := co_indexes c @ [i]\<rparr>)) (\<lambda>_. restore_indexes ds))"

text \<open>A collection without a head keeps what it has in memory.\<close>

definition loadFromStore :: "'j db_env \<Rightarrow> ('j, unit) act" where
  "loadFromStore E = asking (\<lambda>w.
     case getHead (registry_key (w_col w)) (w_registry w) of
        None \<Rightarrow> ret ()
      | Some head \<Rightarrow>
          bnd (lift (fromHex (he_blockId head))) (\<lambda>metaChecksum.
          bnd (store_get E metaChecksum) (\<lambda>metaBytes.
          bnd (lift (deserialize E metaBytes)) (\<lambda>metaDoc.
          bnd (modify (\<lambda>c. c\<lparr>co_docIndex := []\<rparr>)) (\<lambda>_.
          bnd (case member metaDoc ''mappings'' of Some (DObj kvs) \<Rightarrow> restore_mappings kvs | _ \<Rightarrow> ret ()) (\<lambda>_.
          bnd (modify (\<lambda>c. c\<lparr>co_indexes := []\<rparr>)) (\<lambda>_.
          bnd (case member metaDoc ''indexes'' of Some (DArr ds) \<Rightarrow> restore_indexes ds | _ \<Rightarrow> ret ()) (\<lambda>_.
            modify (\<lambda>c. c\<lparr>co_docCache := []\<rparr>)))))))))"

definition ensureLoaded :: "'j db_env \<Rightarrow> ('j, unit) act" where
  "ensureLoaded E =
     bnd (reading co_loaded) (\<lambda>loaded.
       if loaded then ret () else bnd (loadFromStore E) (\<lambda>_. modify (\<lambda>c. c\<lparr>co_loaded := True\<rparr>)))"

text \<open>\<open>loaded_ = false; ensureLoaded()\<close>\<close>

definition reload :: "'j db_env \<Rightarrow> ('j, unit) act" where
  "reload E = bnd (modify (\<lambda>c. c\<lparr>co_loaded := False\<rparr>)) (\<lambda>_. ensureLoaded E)"

text \<open>The first cached document whose identifier has the checksum, or the block.\<close>

definition cached :: "'j db_env \<Rightarrow> nat \<Rightarrow> Collection \<Rightarrow> string \<Rightarrow> doc option" where
  "cached E t c checksumHex =
     map_option snd (find (\<lambda>(docId, d). map_of (co_docIndex c) docId = Some checksumHex) (entries E t (co_docCache c)))"

definition loadDocument :: "'j db_env \<Rightarrow> string \<Rightarrow> ('j, doc) act" where
  "loadDocument E checksumHex = asking (\<lambda>w.
     case cached E (w_tick w) (w_col w) checksumHex of
        Some d \<Rightarrow> ret d
      | None \<Rightarrow>
          bnd (lift (fromHex checksumHex)) (\<lambda>checksum.
          bnd (store_get E checksum) (\<lambda>b.
          bnd (lift (deserialize E b)) (\<lambda>d.
          bnd (case member d ''_id'' of
                 Some (DStr docId) \<Rightarrow> modify (\<lambda>c. c\<lparr>co_docCache := AList.update docId d (co_docCache c)\<rparr>)
               | _ \<Rightarrow> ret ()) (\<lambda>_. ret d)))))"

section \<open>Operations\<close>

text \<open>Storing a document: its block, then the index and the cache.\<close>

definition store_doc :: "'j db_env \<Rightarrow> string \<Rightarrow> doc \<Rightarrow> ('j, unit) act" where
  "store_doc E docId d =
     (let b = serialize E d in
      bnd (store_put E b) (\<lambda>_.
      modify (\<lambda>c. c\<lparr>co_docIndex := AList.update docId (toHex (computeBlockId E b)) (co_docIndex c),
                    co_docCache := AList.update docId d (co_docCache c)\<rparr>)))"

definition insert_doc :: "'j db_env \<Rightarrow> doc \<Rightarrow> ('j, string) act" where
  "insert_doc E d = asking (\<lambda>w.
     bnd (lift (ensureDocumentId (de_random E (w_tick w)) d)) (\<lambda>(d', docId).
     bnd (reading (\<lambda>c. map_of (co_docIndex c) docId \<noteq> None)) (\<lambda>present.
       if present then lift (Inl (duplicate_key docId))
       else bnd (store_doc E docId d') (\<lambda>_. ret docId))))"

definition insertOne :: "'j db_env \<Rightarrow> doc \<Rightarrow> ('j, string) act" where
  "insertOne E d = guarded E (
     bnd (reload E) (\<lambda>_.
     bnd (insert_doc E d) (\<lambda>docId.
     bnd (persistMeta E) (\<lambda>_. ret docId))))"

fun insert_docs :: "'j db_env \<Rightarrow> doc list \<Rightarrow> ('j, string list) act" where
  "insert_docs E [] = ret []"
| "insert_docs E (d # ds) =
     bnd (insert_doc E d) (\<lambda>docId. bnd (insert_docs E ds) (\<lambda>ids. ret (docId # ids)))"

definition insertMany :: "'j db_env \<Rightarrow> doc list \<Rightarrow> ('j, string list) act" where
  "insertMany E ds = guarded E (
     bnd (reload E) (\<lambda>_.
     bnd (insert_docs E ds) (\<lambda>ids.
     bnd (persistMeta E) (\<lambda>_. ret ids))))"

text \<open>The first entry of the index whose document matches.\<close>

fun first_match :: "'j db_env \<Rightarrow> doc \<Rightarrow> (string \<times> string) list \<Rightarrow> ('j, (string \<times> doc) option) act" where
  "first_match E filt [] = ret None"
| "first_match E filt ((docId, checksumHex) # rest) =
     bnd (loadDocument E checksumHex) (\<lambda>d.
       if matchesFilter (de_rnd E) d filt then ret (Some (docId, d)) else first_match E filt rest)"

definition findOne :: "'j db_env \<Rightarrow> doc \<Rightarrow> ('j, doc option) act" where
  "findOne E filt =
     bnd (ensureLoaded E) (\<lambda>_.
     bnd (index_entries E) (\<lambda>index.
     bnd (first_match E filt index) (\<lambda>found. ret (map_option snd found))))"

text \<open>The limit is looked at after a document was added.\<close>

fun find_loop :: "'j db_env \<Rightarrow> doc \<Rightarrow> nat option \<Rightarrow> (string \<times> string) list \<Rightarrow> nat \<Rightarrow> doc list \<Rightarrow> ('j, doc list) act" where
  "find_loop E filt limit [] toSkip results = ret results"
| "find_loop E filt limit ((docId, checksumHex) # rest) toSkip results =
     bnd (loadDocument E checksumHex) (\<lambda>d.
       if \<not> matchesFilter (de_rnd E) d filt then find_loop E filt limit rest toSkip results
       else if 0 < toSkip then find_loop E filt limit rest (toSkip - 1) results
       else (let results' = results @ [d] in
             case limit of
               Some n \<Rightarrow> if n \<le> length results' then ret results' else find_loop E filt limit rest toSkip results'
             | None \<Rightarrow> find_loop E filt limit rest toSkip results'))"

definition find_docs :: "'j db_env \<Rightarrow> doc \<Rightarrow> nat option \<Rightarrow> nat option \<Rightarrow> ('j, doc list) act" where
  "find_docs E filt limit skip =
     bnd (ensureLoaded E) (\<lambda>_.
     bnd (index_entries E) (\<lambda>index.
       find_loop E filt limit index (case skip of None \<Rightarrow> 0 | Some n \<Rightarrow> n) []))"

definition update_doc :: "'j db_env \<Rightarrow> doc \<Rightarrow> string \<Rightarrow> doc \<Rightarrow> ('j, unit) act" where
  "update_doc E update docId d = asking (\<lambda>w.
     bnd (lift (applyUpdate (de_rnd E) (de_now E (w_tick w)) d update)) (\<lambda>modified. store_doc E docId modified))"

text \<open>The numbers of matched and modified documents, which are always equal.\<close>

definition updateOne :: "'j db_env \<Rightarrow> doc \<Rightarrow> doc \<Rightarrow> ('j, nat) act" where
  "updateOne E filt update = guarded E (
     bnd (reload E) (\<lambda>_.
     bnd (index_entries E) (\<lambda>index.
     bnd (first_match E filt index) (\<lambda>found.
       case found of
         None \<Rightarrow> ret 0
       | Some (docId, d) \<Rightarrow>
           bnd (update_doc E update docId d) (\<lambda>_.
           bnd (persistMeta E) (\<lambda>_. ret 1))))))"

fun matching_ids :: "'j db_env \<Rightarrow> doc \<Rightarrow> (string \<times> string) list \<Rightarrow> ('j, string list) act" where
  "matching_ids E filt [] = ret []"
| "matching_ids E filt ((docId, checksumHex) # rest) =
     bnd (loadDocument E checksumHex) (\<lambda>d.
     bnd (matching_ids E filt rest) (\<lambda>ids.
       ret (if matchesFilter (de_rnd E) d filt then docId # ids else ids)))"

text \<open>\<open>docIndex_[docId]\<close> of an identifier that was just found.\<close>

fun update_each :: "'j db_env \<Rightarrow> doc \<Rightarrow> string list \<Rightarrow> ('j, unit) act" where
  "update_each E update [] = ret ()"
| "update_each E update (docId # ids) =
     bnd (reading (\<lambda>c. case map_of (co_docIndex c) docId of Some h \<Rightarrow> h | None \<Rightarrow> [])) (\<lambda>checksumHex.
     bnd (loadDocument E checksumHex) (\<lambda>d.
     bnd (update_doc E update docId d) (\<lambda>_. update_each E update ids)))"

definition updateMany :: "'j db_env \<Rightarrow> doc \<Rightarrow> doc \<Rightarrow> ('j, nat) act" where
  "updateMany E filt update = guarded E (
     bnd (reload E) (\<lambda>_.
     bnd (index_entries E) (\<lambda>index.
     bnd (matching_ids E filt index) (\<lambda>ids.
     bnd (update_each E update ids) (\<lambda>_.
     bnd (if ids = [] then ret () else persistMeta E) (\<lambda>_. ret (length ids)))))))"

definition erase_doc :: "string \<Rightarrow> ('j, unit) act" where
  "erase_doc docId = modify (\<lambda>c. c\<lparr>co_docIndex := map_del docId (co_docIndex c),
     co_docCache := map_del docId (co_docCache c)\<rparr>)"

definition deleteOne :: "'j db_env \<Rightarrow> doc \<Rightarrow> ('j, nat) act" where
  "deleteOne E filt = guarded E (
     bnd (reload E) (\<lambda>_.
     bnd (index_entries E) (\<lambda>index.
     bnd (first_match E filt index) (\<lambda>found.
       case found of
         None \<Rightarrow> ret 0
       | Some (docId, d) \<Rightarrow>
           bnd (erase_doc docId) (\<lambda>_.
           bnd (persistMeta E) (\<lambda>_. ret 1))))))"

fun erase_each :: "string list \<Rightarrow> ('j, unit) act" where
  "erase_each [] = ret ()"
| "erase_each (docId # ids) = bnd (erase_doc docId) (\<lambda>_. erase_each ids)"

definition deleteMany :: "'j db_env \<Rightarrow> doc \<Rightarrow> ('j, nat) act" where
  "deleteMany E filt = guarded E (
     bnd (reload E) (\<lambda>_.
     bnd (index_entries E) (\<lambda>index.
     bnd (matching_ids E filt index) (\<lambda>ids.
     bnd (erase_each ids) (\<lambda>_.
     bnd (if ids = [] then ret () else persistMeta E) (\<lambda>_. ret (length ids)))))))"

definition drop_collection :: "'j db_env \<Rightarrow> ('j, unit) act" where
  "drop_collection E = guarded E (
     bnd (remove_head E) (\<lambda>_.
     modify (\<lambda>c. c\<lparr>co_docIndex := [], co_docCache := [], co_indexes := [], co_loaded := False\<rparr>)))"

definition createIndex :: "'j db_env \<Rightarrow> IndexSpec \<Rightarrow> ('j, unit) act" where
  "createIndex E spec = guarded E (
     bnd (reload E) (\<lambda>_.
     bnd (modify (\<lambda>c. c\<lparr>co_indexes := co_indexes c @ [spec]\<rparr>)) (\<lambda>_. persistMeta E)))"

definition dropIndex :: "'j db_env \<Rightarrow> string \<Rightarrow> ('j, unit) act" where
  "dropIndex E indexName = guarded E (
     bnd (reload E) (\<lambda>_.
     bnd (modify (\<lambda>c. c\<lparr>co_indexes := filter (\<lambda>i. ix_name i \<noteq> indexName) (co_indexes c)\<rparr>)) (\<lambda>_. persistMeta E)))"

definition listIndexes :: "Collection \<Rightarrow> IndexSpec list" where
  "listIndexes c = co_indexes c"

end
