(* ===== verification/CollectionFrames.thy ===== *)
theory CollectionFrames
  imports Collection
begin

text \<open>
  What the operations of a collection leave alone. A relation between the worlds before and after that
  is reflexive and transitive and holds of the steps an operation is made of holds of the operation.
  The locale says this once; it is used for the heads on disk, the blocks, and the log of contents.
\<close>

named_theorems act_defs \<open>the actions operations are composed of\<close>

lemmas [act_defs] = ret_def lift_def modify_def reading_def index_entries_def asking_def

lemma bnd_Inr: "m w = (Inr x, w1) \<Longrightarrow> bnd m f w = f x w1"
  by (simp add: bnd_def)

lemma bnd_Inl: "m w = (Inl e, w1) \<Longrightarrow> bnd m f w = (Inl e, w1)"
  by (simp add: bnd_def)

lemma bnd_ret [simp]: "bnd (ret x) f = f x"
  by (simp add: bnd_def ret_def fun_eq_iff)

lemma bnd_lift_Inr [simp]: "bnd (lift (Inr x)) f = f x"
  by (simp add: bnd_def lift_def fun_eq_iff)

lemma bnd_lift_Inl [simp]: "bnd (lift (Inl e)) f = lift (Inl e)"
  by (simp add: bnd_def lift_def fun_eq_iff)

lemma registry_key_updates [simp]:
  "registry_key (c\<lparr>co_docIndex := idx\<rparr>) = registry_key c" "registry_key (c\<lparr>co_docCache := cache\<rparr>) = registry_key c"
  "registry_key (c\<lparr>co_indexes := ixs\<rparr>) = registry_key c" "registry_key (c\<lparr>co_loaded := b\<rparr>) = registry_key c"
  by (simp_all add: registry_key_def)

definition keeps :: "('j world \<Rightarrow> 'j world \<Rightarrow> bool) \<Rightarrow> ('j, 'a) act \<Rightarrow> bool" where
  "keeps P m \<longleftrightarrow> (\<forall>w. P w (snd (m w)))"

text \<open>An action that, when it throws, leaves \<open>P\<close>.\<close>

definition atomic :: "('j world \<Rightarrow> 'j world \<Rightarrow> bool) \<Rightarrow> ('j, 'a) act \<Rightarrow> bool" where
  "atomic P m \<longleftrightarrow> (\<forall>w e w'. m w = (Inl e, w') \<longrightarrow> P w w')"

definition never_throws :: "('j, 'a) act \<Rightarrow> bool" where
  "never_throws m \<longleftrightarrow> (\<forall>w. \<not> isl (fst (m w)))"

text \<open>No lock file resists its removal.\<close>

definition locks_removed :: "'j db_env \<Rightarrow> bool" where
  "locks_removed E \<longleftrightarrow>
     (\<forall>t. \<not> lk_remove_fails (de_lock_taken E t) \<and> \<not> lk_remove_fails (de_registry_taken E t))"

locale kept =
  fixes E :: "'j db_env" and P :: "'j world \<Rightarrow> 'j world \<Rightarrow> bool"
  assumes refl: "P w w"
    and trans: "P u v \<Longrightarrow> P v w \<Longrightarrow> P u w"
    and col: "registry_key c = registry_key (w_col w) \<Longrightarrow> P w (w\<lparr>w_col := c\<rparr>)"
    and lock: "P w (w\<lparr>w_lock := l\<rparr>)"
    and tick: "P w (w\<lparr>w_tick := t\<rparr>)"
    and put: "P w (snd (store_put E b w))"
begin

lemma keeps_ret: "keeps P (ret x)"
  by (simp add: keeps_def ret_def refl)

lemma keeps_lift: "keeps P (lift r)"
  by (simp add: keeps_def lift_def refl)

lemma keeps_reading: "keeps P (reading f)"
  by (simp add: keeps_def reading_def refl)

lemma keeps_entries: "keeps P (index_entries E)"
  by (simp add: keeps_def index_entries_def refl)

lemma keeps_modify: "(\<And>c. registry_key (f c) = registry_key c) \<Longrightarrow> keeps P (modify f)"
  by (simp add: keeps_def modify_def col)

lemma keeps_put: "keeps P (store_put E b)"
  by (simp add: keeps_def put)

lemma keeps_get: "keeps P (store_get E c)"
  by (simp add: keeps_def store_get_def tick)

lemma keeps_bnd:
  assumes "keeps P m" and "\<And>x. keeps P (f x)"
  shows "keeps P (bnd m f)"
  unfolding keeps_def
proof
  fix w
  obtain r w1 where m: "m w = (r, w1)" by (cases "m w")
  then have "P w w1" using assms(1) unfolding keeps_def by (metis snd_conv)
  then show "P w (snd (bnd m f w))"
    using m assms(2) trans unfolding keeps_def bnd_def by (cases r) auto
qed

lemma keeps_asking: "(\<And>w. keeps P (f w)) \<Longrightarrow> keeps P (asking f)"
  by (simp add: keeps_def asking_def)

lemmas keeps_basic = keeps_ret keeps_lift keeps_reading keeps_entries keeps_modify keeps_put keeps_get

lemma keeps_restore_mappings: "keeps P (restore_mappings kvs)"
  by (induction kvs rule: restore_mappings.induct) (auto intro!: keeps_bnd keeps_basic split: doc.split)

lemma keeps_restore_indexes: "keeps P (restore_indexes ds)"
  by (induction ds rule: restore_indexes.induct) (auto intro!: keeps_bnd keeps_basic)

lemma keeps_load: "keeps P (loadFromStore E)"
  unfolding loadFromStore_def
  by (auto intro!: keeps_asking keeps_bnd keeps_basic keeps_restore_mappings keeps_restore_indexes
      split: option.split doc.split)

lemma keeps_ensureLoaded: "keeps P (ensureLoaded E)"
  unfolding ensureLoaded_def by (auto intro!: keeps_bnd keeps_load keeps_basic)

lemma keeps_reload: "keeps P (reload E)"
  unfolding reload_def by (intro keeps_bnd keeps_ensureLoaded keeps_basic) simp

lemma keeps_loadDocument: "keeps P (loadDocument E h)"
  unfolding loadDocument_def by (auto intro!: keeps_asking keeps_bnd keeps_basic split: option.split doc.split)

lemma keeps_store_doc: "keeps P (store_doc E docId d)"
  unfolding store_doc_def Let_def by (intro keeps_bnd keeps_basic) simp

lemma keeps_insert_doc: "keeps P (insert_doc E d)"
  unfolding insert_doc_def by (auto intro!: keeps_asking keeps_bnd keeps_basic keeps_store_doc)

lemma keeps_insert_docs: "keeps P (insert_docs E ds)"
  by (induction ds) (auto intro!: keeps_bnd keeps_basic keeps_insert_doc)

lemma keeps_first_match: "keeps P (first_match E filt es)"
  by (induction es) (auto intro!: keeps_bnd keeps_basic keeps_loadDocument)

lemma keeps_find_loop: "keeps P (find_loop E filt limit es toSkip results)"
  by (induction es arbitrary: toSkip results)
    (auto intro!: keeps_bnd keeps_basic keeps_loadDocument simp: Let_def split: option.split)

lemma keeps_matching_ids: "keeps P (matching_ids E filt es)"
  by (induction es) (auto intro!: keeps_bnd keeps_basic keeps_loadDocument)

lemma keeps_update_doc: "keeps P (update_doc E update docId d)"
  unfolding update_doc_def by (intro keeps_asking keeps_bnd keeps_basic keeps_store_doc)

lemma keeps_update_each: "keeps P (update_each E update ids)"
  by (induction ids) (auto intro!: keeps_bnd keeps_basic keeps_loadDocument keeps_update_doc)

lemma keeps_erase_each: "keeps P (erase_each ids)"
  by (induction ids) (auto intro!: keeps_bnd keeps_basic simp: erase_doc_def)

lemma keeps_guarded:
  assumes "keeps P m"
  shows "keeps P (guarded E m)"
proof -
  have "P w (snd (guarded E m w))" for w
  proof (cases "acquire (de_lock_taken E (w_tick w)) (w_lock w)")
    case (Pair r l)
    let ?v = "w\<lparr>w_lock := l, w_tick := w_tick w + 1\<rparr>"
    have v: "P w ?v" using trans [OF lock [of w l] tick [of "w\<lparr>w_lock := l\<rparr>"]] by simp
    have "P ?v (snd (m ?v))" using assms unfolding keeps_def by blast
    then have "P w (snd (m ?v))" using v trans by blast
    then have "P w ((snd (m ?v))\<lparr>w_lock := l'\<rparr>)" for l' using lock trans by blast
    then show ?thesis using v by (cases r) (simp_all add: guarded_def Pair Let_def case_prod_beta)
  qed
  then show ?thesis unfolding keeps_def by blast
qed

lemmas keeps_parts = keeps_basic keeps_reload keeps_insert_docs keeps_first_match keeps_find_loop keeps_matching_ids
  keeps_update_doc keeps_update_each keeps_erase_each keeps_insert_doc keeps_ensureLoaded keeps_load

text \<open>Throwing early is harmless, and so is throwing before the last step that can throw.\<close>

lemma atomic_keeps: "keeps P m \<Longrightarrow> atomic P m"
  unfolding keeps_def atomic_def by (metis snd_conv)

lemma atomic_bnd:
  assumes "keeps P m" and "\<And>x. atomic P (f x)"
  shows "atomic P (bnd m f)"
  unfolding atomic_def
proof (intro allI impI)
  fix w e w'
  assume b: "bnd m f w = (Inl e, w')"
  obtain r w1 where m: "m w = (r, w1)" by (cases "m w")
  then have 1: "P w w1" using assms(1) unfolding keeps_def by (metis snd_conv)
  show "P w w'"
  proof (cases r)
    case (Inr x)
    then have "P w1 w'" using b m assms(2) unfolding atomic_def by (simp add: bnd_def)
    with 1 show ?thesis by (rule trans)
  qed (use b m 1 in \<open>simp add: bnd_def\<close>)
qed

lemma atomic_last:
  assumes "atomic P m" and "\<And>x. never_throws (f x)"
  shows "atomic P (bnd m f)"
  unfolding atomic_def
proof (intro allI impI)
  fix w e w'
  assume b: "bnd m f w = (Inl e, w')"
  obtain r w1 where m: "m w = (r, w1)" by (cases "m w")
  then show "P w w'"
    using b assms(1) assms(2) [of "projr r"] by (cases r) (auto simp: bnd_def atomic_def never_throws_def dest: spec [of _ w1])
qed

lemma atomic_ret: "atomic P m \<Longrightarrow> atomic P (bnd m (\<lambda>_. ret x))"
  by (rule atomic_last) (simp_all add: never_throws_def ret_def)

lemma atomic_guarded:
  assumes "locks_removed E" and "atomic P m"
  shows "atomic P (guarded E m)"
  unfolding atomic_def
proof (intro allI impI)
  fix w e w'
  assume g: "guarded E m w = (Inl e, w')"
  obtain r l where a: "acquire (de_lock_taken E (w_tick w)) (w_lock w) = (r, l)"
    by (cases "acquire (de_lock_taken E (w_tick w)) (w_lock w)")
  let ?v = "w\<lparr>w_lock := l, w_tick := w_tick w + 1\<rparr>"
  have v: "P w ?v" using trans [OF lock [of w l] tick [of "w\<lparr>w_lock := l\<rparr>"]] by simp
  show "P w w'"
  proof (cases r)
    case (Inr u)
    obtain r1 w1 where m: "m ?v = (r1, w1)" by (cases "m ?v")
    then have "r1 = Inl e" and w': "w' = w1\<lparr>w_lock := released (w_lock w1)\<rparr>"
      using g assms(1) by (simp_all add: guarded_def a Inr release_works locks_removed_def)
    then have "P ?v w1" using assms(2) m unfolding atomic_def by blast
    then show ?thesis unfolding w' using v lock trans by blast
  qed (use g v in \<open>simp add: guarded_def a\<close>)
qed

end

text \<open>Relations that the registry's updates keep as well hold of persisting.\<close>

locale kept_by_all = kept +
  assumes head: "P w (snd (set_head E blockId w))"
    and headless: "P w (snd (remove_head E w))"
begin

lemma keeps_persist: "keeps P (persistMeta E)"
  unfolding persistMeta_def by (intro keeps_bnd keeps_basic) (simp add: keeps_def head)

lemma keeps_persist_then: "(\<And>x. keeps P (f x)) \<Longrightarrow> keeps P (bnd (persistMeta E) f)"
  by (rule keeps_bnd [OF keeps_persist])

end

section \<open>What a call that throws leaves on disk\<close>

text \<open>Every block's content has the block's name as digest and was put; no two contents put have the same.\<close>

definition good_store :: "'j db_env \<Rightarrow> DiskBlockStore \<Rightarrow> bool" where
  "good_store E s \<longleftrightarrow> (\<forall>c b. length c = 64 \<longrightarrow> get_block False c s = Inr b \<longrightarrow>
     b \<in> set (bs_log s) \<and> bv_hash (de_blocks E) b = c)"

definition no_collision :: "'j db_env \<Rightarrow> DiskBlockStore \<Rightarrow> bool" where
  "no_collision E s \<longleftrightarrow> inj_on (bv_hash (de_blocks E)) (set (bs_log s))"

definition blocks_stay :: "DiskBlockStore \<Rightarrow> DiskBlockStore \<Rightarrow> bool" where
  "blocks_stay s s' \<longleftrightarrow>
     (\<forall>c b. length c = 64 \<longrightarrow> get_block False c s = Inr b \<longrightarrow> get_block False c s' = Inr b)"

definition store_keeps :: "'j db_env \<Rightarrow> DiskBlockStore \<Rightarrow> DiskBlockStore \<Rightarrow> bool" where
  "store_keeps E s s' \<longleftrightarrow> (no_collision E s' \<longrightarrow> no_collision E s) \<and>
     (good_store E s \<and> no_collision E s' \<longrightarrow> good_store E s' \<and> blocks_stay s s')"

text \<open>No write cuts a block off.\<close>

definition whole_writes :: "'j db_env \<Rightarrow> bool" where
  "whole_writes E \<longleftrightarrow> (\<forall>d. length (bv_hash (de_blocks E) d) = 64) \<and>
     (\<forall>t. de_put E t \<in> {PutOk, BlockDirFails, CreateFails, MetaFails})"

lemma store_keeps_refl: "store_keeps E s s"
  by (simp add: store_keeps_def blocks_stay_def)

lemma store_keeps_trans: "store_keeps E s t \<Longrightarrow> store_keeps E t u \<Longrightarrow> store_keeps E s u"
  unfolding store_keeps_def blocks_stay_def by blast

lemma put_store_keeps:
  assumes "\<forall>d. length (bv_hash (de_blocks E) d) = 64" and "io \<in> {PutOk, BlockDirFails, CreateFails, MetaFails}"
  shows "store_keeps E s (snd (put (de_blocks E) io b md s))"
proof -
  let ?V = "de_blocks E" and ?s' = "snd (put (de_blocks E) io b md s)"
  have log: "bs_log ?s' = b # bs_log s" by (rule put_cases(3) [OF assms(1)])
  have get: "get_block False c ?s' = (if c = bv_hash ?V b \<and> io \<in> {PutOk, MetaFails} then Inr b else get_block False c s)"
    if "length c = 64" for c
    using put_cases(2) [OF assms(1) that, of False io b md s] assms(2) by (cases io) auto
  have "blocks_stay s ?s'" "good_store E ?s'" if good: "good_store E s" and nc: "no_collision E ?s'"
  proof -
    have same: "x = b" if g: "get_block False (bv_hash ?V b) s = Inr x" for x
    proof (rule inj_onD [OF nc [unfolded no_collision_def log]])
      have "x \<in> set (bs_log s) \<and> bv_hash ?V x = bv_hash ?V b"
        using good g assms(1) unfolding good_store_def by blast
      then show "bv_hash ?V x = bv_hash ?V b" "x \<in> set (b # bs_log s)" "b \<in> set (b # bs_log s)" by simp_all
    qed
    show "blocks_stay s ?s'"
      unfolding blocks_stay_def using get same by auto
    show "good_store E ?s'"
      using good unfolding good_store_def by (auto simp: get log split: if_splits)
  qed
  then show ?thesis
    unfolding store_keeps_def by (auto simp: no_collision_def log intro: inj_on_subset)
qed

definition disk_kept :: "'j db_env \<Rightarrow> 'j world \<Rightarrow> 'j world \<Rightarrow> bool" where
  "disk_kept E w w' \<longleftrightarrow> rd_file (hr_disk (w_registry w')) = rd_file (hr_disk (w_registry w)) \<and>
     store_keeps E (w_store w) (w_store w')"

lemma store_put_world:
  "snd (store_put E b w) = w\<lparr>w_tick := w_tick w + 1, w_store := snd (put (de_blocks E) (de_put E (w_tick w)) b
     \<lparr>bm_size = co_blockSize (w_col w), bm_created_at = de_clock E (w_tick w),
      bm_length_without_padding = of_nat (length b)\<rparr> (w_store w))\<rparr>"
  by (simp add: store_put_def Let_def case_prod_beta)

lemma disk_kept_kept: "whole_writes E \<Longrightarrow> kept E (disk_kept E)"
proof (unfold_locales, goal_cases)
  case (6 w b)
  then have "store_keeps E (w_store w) (w_store (snd (store_put E b w)))"
    unfolding store_put_world by (simp add: put_store_keeps whole_writes_def)
  moreover have "w_registry (snd (store_put E b w)) = w_registry w" by (simp add: store_put_world)
  ultimately show ?case by (simp add: disk_kept_def)
qed (auto simp: disk_kept_def store_keeps_refl intro: store_keeps_trans)

lemma set_head_atomic:
  assumes "locks_removed E"
  shows "atomic (disk_kept E) (set_head E blockId)"
  unfolding atomic_def
proof (intro allI impI)
  fix w e w'
  assume h: "set_head E blockId w = (Inl e, w')"
  let ?t = "w_tick w"
  obtain reg r where l: "locked_update (de_json E) (de_registry_taken E ?t) (de_registry_io E ?t)
      (AList.update (registry_key (w_col w)) \<lparr>he_blockId = blockId, he_timestamp = de_now E ?t\<rparr>) (w_registry w) = (reg, r)"
    by (meson surj_pair)
  with h have "r = Inl e" and w': "w' = w\<lparr>w_registry := reg, w_tick := ?t + 1\<rparr>"
    by (simp_all add: set_head_def setHead_def)
  from locked_update_cases [OF l] this(1) assms have "rd_file (hr_disk reg) = rd_file (hr_disk (w_registry w))"
    by (auto simp: locks_removed_def)
  then show "disk_kept E w w'" by (simp add: w' disk_kept_def store_keeps_refl)
qed

lemma remove_head_atomic:
  assumes "locks_removed E"
  shows "atomic (disk_kept E) (remove_head E)"
  unfolding atomic_def
proof (intro allI impI)
  fix w e w'
  assume h: "remove_head E w = (Inl e, w')"
  let ?t = "w_tick w"
  obtain reg r where l: "locked_update (de_json E) (de_registry_taken E ?t) (de_registry_io E ?t)
      (map_del (registry_key (w_col w))) (w_registry w) = (reg, r)"
    by (meson surj_pair)
  with h have "r = Inl e" and w': "w' = w\<lparr>w_registry := reg, w_tick := ?t + 1\<rparr>"
    by (simp_all add: remove_head_def removeHead_def)
  from locked_update_cases [OF l] this(1) assms have "rd_file (hr_disk reg) = rd_file (hr_disk (w_registry w))"
    by (auto simp: locks_removed_def)
  then show "disk_kept E w w'" by (simp add: w' disk_kept_def store_keeps_refl)
qed

text \<open>The calls that write.\<close>

datatype write_call = InsertOne doc | InsertMany "doc list" | UpdateOne doc doc | UpdateMany doc doc
  | DeleteOne doc | DeleteMany doc | Drop | CreateIndex IndexSpec | DropIndex string

definition ignore :: "('j, 'a) act \<Rightarrow> ('j, unit) act" where
  "ignore m = bnd m (\<lambda>_. ret ())"

fun run_call :: "'j db_env \<Rightarrow> write_call \<Rightarrow> ('j, unit) act" where
  "run_call E (InsertOne d) = ignore (insertOne E d)"
| "run_call E (InsertMany ds) = ignore (insertMany E ds)"
| "run_call E (UpdateOne filt update) = ignore (updateOne E filt update)"
| "run_call E (UpdateMany filt update) = ignore (updateMany E filt update)"
| "run_call E (DeleteOne filt) = ignore (deleteOne E filt)"
| "run_call E (DeleteMany filt) = ignore (deleteMany E filt)"
| "run_call E Drop = drop_collection E"
| "run_call E (CreateIndex spec) = createIndex E spec"
| "run_call E (DropIndex indexName) = dropIndex E indexName"

lemma run_call_atomic:
  assumes "whole_writes E" and "locks_removed E"
  shows "atomic (disk_kept E) (run_call E c)"
proof -
  note k = disk_kept_kept [OF assms(1)]
  note tail = kept.atomic_ret [OF k] and parts = kept.keeps_parts [OF k]
  note first = parts [THEN kept.atomic_bnd [OF k]] and stop = parts(1) [THEN kept.atomic_keeps [OF k]]
  have persist: "atomic (disk_kept E) (persistMeta E)"
    unfolding persistMeta_def by (intro first set_head_atomic [OF assms(2)])
  note whole = kept.atomic_guarded [OF k assms(2)] first persist tail [OF persist] stop
  have erase: "atomic (disk_kept E) (bnd (erase_doc i) f)" if "\<And>x. atomic (disk_kept E) (f x)" for i f
    unfolding erase_doc_def by (intro first(5) that) simp
  show ?thesis
  proof (cases c)
    case (InsertOne d)
    then show ?thesis by (simp add: ignore_def insertOne_def) (intro tail whole)
  next
    case (InsertMany ds)
    then show ?thesis by (simp add: ignore_def insertMany_def) (intro tail whole)
  next
    case (UpdateOne filt update)
    have "atomic (disk_kept E) (updateOne E filt update)"
      unfolding updateOne_def by (intro whole) (auto intro!: whole split: option.split)
    then show ?thesis by (simp add: UpdateOne ignore_def tail)
  next
    case (UpdateMany filt update)
    have "atomic (disk_kept E) (updateMany E filt update)"
      unfolding updateMany_def by (intro whole tail) (auto intro!: whole)
    then show ?thesis by (simp add: UpdateMany ignore_def tail)
  next
    case (DeleteOne filt)
    have "atomic (disk_kept E) (deleteOne E filt)"
      unfolding deleteOne_def by (intro whole) (auto intro!: whole erase split: option.split)
    then show ?thesis by (simp add: DeleteOne ignore_def tail)
  next
    case (DeleteMany filt)
    have "atomic (disk_kept E) (deleteMany E filt)"
      unfolding deleteMany_def by (intro whole tail) (auto intro!: whole)
    then show ?thesis by (simp add: DeleteMany ignore_def tail)
  next
    case Drop
    show ?thesis unfolding Drop run_call.simps drop_collection_def
      by (intro kept.atomic_guarded [OF k assms(2)] kept.atomic_last [OF k] remove_head_atomic [OF assms(2)])
        (simp add: never_throws_def modify_def)
  next
    case (CreateIndex spec)
    show ?thesis unfolding CreateIndex run_call.simps createIndex_def by (intro whole) simp
  next
    case (DropIndex indexName)
    show ?thesis unfolding DropIndex run_call.simps dropIndex_def by (intro whole) simp
  qed
qed

context kept_by_all
begin

lemma keeps_run_call: "keeps P (run_call E c)"
proof -
  have erase: "keeps P (erase_doc i)" for i unfolding erase_doc_def by (intro keeps_modify) simp
  have remove: "keeps P (remove_head E)" by (simp add: keeps_def headless)
  show ?thesis
    by (cases c)
      (auto simp: ignore_def insertOne_def insertMany_def updateOne_def updateMany_def deleteOne_def deleteMany_def
        drop_collection_def createIndex_def dropIndex_def
        intro!: keeps_guarded keeps_bnd keeps_parts keeps_persist erase remove split: option.split)
qed

end

text \<open>No operation renames a collection.\<close>

definition same_key :: "'j world \<Rightarrow> 'j world \<Rightarrow> bool" where
  "same_key w w' \<longleftrightarrow> registry_key (w_col w') = registry_key (w_col w)"

interpretation names: kept_by_all E same_key for E :: "'j db_env"
  by unfold_locales (auto simp: same_key_def store_put_world set_head_def remove_head_def Let_def case_prod_beta)

lemma run_call_key: "registry_key (w_col (snd (run_call E c w))) = registry_key (w_col w)"
  using names.keeps_run_call [of E c] unfolding keeps_def same_key_def by blast

end
