(* ===== verification/CollectionViews.thy ===== *)
theory CollectionViews
  imports CollectionFrames
begin

text \<open>
  What a collection means: a map from identifiers to documents, read off the heads and the blocks. The
  operations refine insertion, search, update and deletion in this map when the system answers
  without failures; when one throws, every document that could be read still can, unless the failure cut
  a block off or left a lock behind.
\<close>

section \<open>The documents of a collection\<close>

text \<open>The document a checksum leads to, and those an index leads to.\<close>

definition content :: "'j db_env \<Rightarrow> DiskBlockStore \<Rightarrow> string \<Rightarrow> doc option" where
  "content E s h =
     (case bind_res (fromHex h) (\<lambda>c. bind_res (get_block False c s) (deserialize E)) of Inr d \<Rightarrow> Some d | Inl _ \<Rightarrow> None)"

definition docs_of :: "'j db_env \<Rightarrow> DiskBlockStore \<Rightarrow> (string \<times> string) list \<Rightarrow> string \<Rightarrow> doc option" where
  "docs_of E s idx docId = Option.bind (map_of idx docId) (content E s)"

text \<open>The index in a block of metadata.\<close>

definition mappings_of :: "doc \<Rightarrow> (string \<times> string) list" where
  "mappings_of metaDoc = (case member metaDoc ''mappings'' of
     Some (DObj kvs) \<Rightarrow> map (\<lambda>(k, v). (k, case v of DStr h \<Rightarrow> h | _ \<Rightarrow> [])) kvs
   | _ \<Rightarrow> [])"

definition head_docs :: "'j db_env \<Rightarrow> DiskBlockStore \<Rightarrow> HeadEntry option \<Rightarrow> string \<Rightarrow> doc option" where
  "head_docs E s head docId = (case head of
     None \<Rightarrow> None
   | Some e \<Rightarrow> Option.bind (content E s (he_blockId e)) (\<lambda>metaDoc. docs_of E s (mappings_of metaDoc) docId))"

definition key :: "'j world \<Rightarrow> string" where
  "key w = registry_key (w_col w)"

definition view :: "'j db_env \<Rightarrow> 'j world \<Rightarrow> string \<Rightarrow> doc option" where
  "view E w = head_docs E (w_store w) (getHead (key w) (w_registry w))"

text \<open>What a process that loads the heads from disk sees.\<close>

definition durable :: "'j db_env \<Rightarrow> string \<Rightarrow> 'j world \<Rightarrow> string \<Rightarrow> doc option" where
  "durable E k w = head_docs E (w_store w) (getHead k (fst (load (de_json E) (w_registry w))))"

lemma content_stays: "blocks_stay s s' \<Longrightarrow> content E s h = Some d \<Longrightarrow> content E s' h = Some d"
proof -
  assume b: "blocks_stay s s'" and c: "content E s h = Some d"
  obtain x bs where x: "fromHex h = Inr x" and bs: "get_block False x s = Inr bs" "deserialize E bs = Inr d"
    using c by (auto simp: content_def bind_res_def split: sum.splits)
  have "length x = 64"
  proof -
    have l: "map_res f xs = Inr ys \<Longrightarrow> length ys = length xs" for f :: "nat \<Rightarrow> byte res" and xs ys
      by (induction xs arbitrary: ys) (auto simp: bind_res_Inr_iff)
    from x show ?thesis by (auto simp: fromHex_def HASH_SIZE_def dest: l split: if_splits)
  qed
  then have "get_block False x s' = Inr bs" using b bs unfolding blocks_stay_def by blast
  then show ?thesis by (simp add: content_def x bs)
qed

lemma docs_of_stay: "blocks_stay s s' \<Longrightarrow> docs_of E s idx docId = Some d \<Longrightarrow> docs_of E s' idx docId = Some d"
  unfolding docs_of_def by (cases "map_of idx docId") (simp_all add: content_stays)

lemma head_docs_stay: "blocks_stay s s' \<Longrightarrow> head_docs E s head docId = Some d \<Longrightarrow> head_docs E s' head docId = Some d"
  unfolding head_docs_def
  by (auto simp: bind_eq_Some_conv content_stays docs_of_stay split: option.splits)

lemma load_file: "rd_file (hr_disk r) = rd_file (hr_disk r') \<Longrightarrow> getHead k (fst (load J r)) = getHead k (fst (load J r'))"
  by (simp add: load_def getHead_def Let_def case_prod_beta split: file_content.split option.split)

text \<open>
  C10: a call that throws at any other step than two changes no head on disk and loses no document: a
  process that loads the heads afterwards reads every document of every collection it could read
  before. The two steps are those where the claim is false: a write of a block that fails after its file
  was opened leaves the file cut off, and with it the document if a block of that checksum was there
  (\<open>whole_writes\<close> excludes it); and a lock file that cannot be removed makes the call fail after it has
  done its work (\<open>locks_removed\<close>). Blocks with different contents have different checksums.
\<close>

theorem failed_call_keeps_documents:
  assumes "whole_writes E" and "locks_removed E" and "good_store E (w_store w)"
    and "run_call E c w = (Inl e, w')" and "no_collision E (w_store w')"
  shows "rd_file (hr_disk (w_registry w')) = rd_file (hr_disk (w_registry w)) \<and> good_store E (w_store w') \<and>
    (\<forall>k docId d. durable E k w docId = Some d \<longrightarrow> durable E k w' docId = Some d)"
proof -
  have k: "disk_kept E w w'" using run_call_atomic [OF assms(1,2), of c] assms(4) unfolding atomic_def by blast
  then have f: "rd_file (hr_disk (w_registry w')) = rd_file (hr_disk (w_registry w))"
    and s: "good_store E (w_store w')" "blocks_stay (w_store w) (w_store w')"
    using assms(3,5) by (auto simp: disk_kept_def store_keeps_def)
  have "durable E k w' docId = Some d" if "durable E k w docId = Some d" for k docId d
    using that head_docs_stay [OF s(2)] load_file [OF f] unfolding durable_def by metis
  with f s show ?thesis by blast
qed

section \<open>When the system answers\<close>

text \<open>
  The hypothesis of the claims about what a call does when nothing fails: every block is written and
  read, every update of the registry's file succeeds, no lock is taken by another process and every
  lock file can be removed, whenever it is asked; the text of a document parses back to it.
\<close>

definition env_ok :: "'j db_env \<Rightarrow> bool" where
  "env_ok E \<longleftrightarrow> (\<forall>d. length (bv_hash (de_blocks E) d) = 64) \<and>
     (\<forall>d. doc_wf d \<longrightarrow> bv_parse (de_blocks E) (de_dump E d) = Some d) \<and>
     (\<forall>t. de_put E t = PutOk \<and> \<not> de_unreadable E t \<and> de_registry_io E t = IoOk \<and>
       \<not> lk_taken (de_registry_taken E t) 0 \<and> \<not> lk_taken (de_lock_taken E t) 0) \<and> locks_removed E \<and>
     (\<forall>t ks. distinct ks \<longrightarrow> distinct (de_order E t ks) \<and> set (de_order E t ks) = set ks)"

text \<open>An index whose checksums lead to documents with the identifiers they are filed under.\<close>

definition good_index :: "'j db_env \<Rightarrow> DiskBlockStore \<Rightarrow> (string \<times> string) list \<Rightarrow> bool" where
  "good_index E s idx \<longleftrightarrow> umap_wf idx \<and> (\<forall>docId h. map_of idx docId = Some h \<longrightarrow>
     (\<exists>d. content E s h = Some d \<and> doc_wf d \<and> member d ''_id'' = Some (DStr docId)))"

definition good_memory :: "'j db_env \<Rightarrow> 'j world \<Rightarrow> bool" where
  "good_memory E w \<longleftrightarrow> good_store E (w_store w) \<and> good_index E (w_store w) (co_docIndex (w_col w)) \<and>
     umap_wf (co_docCache (w_col w)) \<and> list_all (\<lambda>i. doc_wf (ix_spec i)) (co_indexes (w_col w)) \<and>
     (\<forall>docId d h. map_of (co_docCache (w_col w)) docId = Some d \<longrightarrow> map_of (co_docIndex (w_col w)) docId = Some h \<longrightarrow>
       content E (w_store w) h = Some d)"

definition memory_docs :: "'j db_env \<Rightarrow> 'j world \<Rightarrow> string \<Rightarrow> doc option" where
  "memory_docs E w = docs_of E (w_store w) (co_docIndex (w_col w))"

text \<open>Reading changes the cache only.\<close>

definition reads :: "'j world \<Rightarrow> 'j world \<Rightarrow> bool" where
  "reads w w' \<longleftrightarrow> w_store w' = w_store w \<and> w_registry w' = w_registry w \<and>
     (\<exists>cache. w_col w' = (w_col w)\<lparr>co_docCache := cache\<rparr>)"

lemma reads_refl: "reads w w"
  unfolding reads_def by (intro conjI exI [of _ "co_docCache (w_col w)"]) simp_all

lemma reads_trans: "reads u v \<Longrightarrow> reads v w \<Longrightarrow> reads u w"
  unfolding reads_def by (elim conjE exE, intro conjI) (simp_all, blast)

lemma reads_same:
  assumes "reads w w'"
  shows "co_docIndex (w_col w') = co_docIndex (w_col w)" "memory_docs E w' = memory_docs E w" "w_store w' = w_store w"
  using assms by (auto simp: reads_def memory_docs_def)

lemma entries_ok:
  assumes "env_ok E" and "umap_wf m"
  shows "(k, v) \<in> set (entries E t m) \<longleftrightarrow> map_of m k = Some v" and "distinct (map fst (entries E t m))"
proof -
  have o: "distinct (de_order E t (map fst m))" "set (de_order E t (map fst m)) = fst ` set m"
    using assms unfolding env_ok_def umap_wf_def by auto
  then show "distinct (map fst (entries E t m))" by (simp add: entries_def comp_def)
  show "(k, v) \<in> set (entries E t m) \<longleftrightarrow> map_of m k = Some v"
  proof -
    have "(k, v) \<in> set (entries E t m) \<longleftrightarrow> k \<in> dom (map_of m) \<and> v = the (map_of m k)"
      unfolding entries_def set_map o(2) dom_map_of_conv_image_fst by blast
    then show ?thesis by (auto simp: domIff)
  qed
qed

lemma loadDocument_ok:
  assumes "env_ok E" and "good_memory E w" and "map_of (co_docIndex (w_col w)) docId = Some h"
  shows "\<exists>d w'. loadDocument E h w = (Inr d, w') \<and> content E (w_store w) h = Some d \<and> reads w w' \<and> good_memory E w'"
proof -
  let ?c = "w_col w"
  obtain d where d: "content E (w_store w) h = Some d" "member d ''_id'' = Some (DStr docId)"
    using assms(2,3) unfolding good_memory_def good_index_def by blast
  show ?thesis
  proof (cases "cached E (w_tick w) ?c h")
    case (Some x)
    let ?P = "\<lambda>(docId, d). map_of (co_docIndex ?c) docId = Some h" and ?es = "entries E (w_tick w) (co_docCache ?c)"
    obtain p where p: "find ?P ?es = Some p" "snd p = x" using Some by (auto simp: cached_def)
    have "p \<in> set ?es \<and> ?P p" using p(1) by (metis (no_types, lifting) find_Some_iff nth_mem)
    then obtain i where i: "(i, x) \<in> set ?es" "map_of (co_docIndex ?c) i = Some h" using p(2) by (cases p) auto
    moreover have "umap_wf (co_docCache ?c)" using assms(2) by (simp add: good_memory_def)
    ultimately have "content E (w_store w) h = Some x"
      using assms(2) entries_ok(1) [OF assms(1), of "co_docCache ?c"] unfolding good_memory_def by blast
    moreover have "loadDocument E h w = (Inr x, w)" by (simp add: loadDocument_def act_defs Some)
    ultimately show ?thesis using reads_refl assms(2) by blast
  next
    case None
    obtain x bs where x: "fromHex h = Inr x" "get_block False x (w_store w) = Inr bs" "deserialize E bs = Inr d"
      using d(1) by (auto simp: content_def bind_res_def split: sum.splits)
    let ?w' = "w\<lparr>w_tick := w_tick w + 1, w_col := ?c\<lparr>co_docCache := AList.update docId d (co_docCache ?c)\<rparr>\<rparr>"
    have "\<not> de_unreadable E (w_tick w)" using assms(1) by (simp add: env_ok_def)
    then have "loadDocument E h w = (Inr d, ?w')"
      by (simp add: loadDocument_def asking_def None x d(2)) (simp add: bnd_def store_get_def x d(2) act_defs)
    moreover have "good_memory E ?w'"
      using assms(2,3) d(1) by (auto simp: good_memory_def update_conv' std_umap.inv_put)
    moreover have "reads w ?w'" unfolding reads_def by auto
    ultimately show ?thesis using d(1) by blast
  qed
qed

text \<open>The documents at the entries of an index, and what the loops over them return.\<close>

definition at_entries :: "'j db_env \<Rightarrow> 'j world \<Rightarrow> (string \<times> string) list \<Rightarrow> (string \<times> doc) list" where
  "at_entries E w es = map (\<lambda>(docId, h). (docId, the (content E (w_store w) h))) es"

definition indexed :: "'j world \<Rightarrow> (string \<times> string) list \<Rightarrow> bool" where
  "indexed w es \<longleftrightarrow> (\<forall>(docId, h) \<in> set es. map_of (co_docIndex (w_col w)) docId = Some h)"

lemma reads_entries:
  assumes "reads w w'"
  shows "at_entries E w' es = at_entries E w es" "indexed w' es = indexed w es"
  using assms by (auto simp: at_entries_def indexed_def reads_same [OF assms])

lemma first_match_ok:
  assumes "env_ok E" and "good_memory E w" and "indexed w es"
  shows "\<exists>w'. first_match E filt es w = (Inr (find (\<lambda>(docId, d). matchesFilter (de_rnd E) d filt) (at_entries E w es)), w') \<and>
    reads w w' \<and> good_memory E w'"
  using assms(2,3)
proof (induction es arbitrary: w)
  case Nil
  then show ?case using reads_refl by (auto simp: act_defs at_entries_def)
next
  case (Cons e es)
  obtain i h where e: "e = (i, h)" by (cases e)
  have i: "map_of (co_docIndex (w_col w)) i = Some h" and es: "indexed w es"
    using Cons.prems(2) by (auto simp: indexed_def e)
  obtain d w1 where 1: "loadDocument E h w = (Inr d, w1)" "content E (w_store w) h = Some d" "reads w w1" "good_memory E w1"
    using loadDocument_ok [OF assms(1) Cons.prems(1) i] by blast
  show ?case
  proof (cases "matchesFilter (de_rnd E) d filt")
    case True
    then show ?thesis using 1 by (auto simp: e bnd_Inr [of "loadDocument E h" w, OF 1(1)] act_defs at_entries_def)
  next
    case False
    obtain w2 where "first_match E filt es w1 =
        (Inr (find (\<lambda>(docId, d). matchesFilter (de_rnd E) d filt) (at_entries E w es)), w2)" "reads w1 w2" "good_memory E w2"
      using Cons.IH [OF 1(4)] es by (auto simp: reads_entries [OF 1(3)])
    then show ?thesis using False 1 reads_trans [OF 1(3)] by (auto simp: e bnd_Inr [of "loadDocument E h" w, OF 1(1)] at_entries_def)
  qed
qed

lemma matching_ids_ok:
  assumes "env_ok E" and "good_memory E w" and "indexed w es"
  shows "\<exists>w'. matching_ids E filt es w =
      (Inr (map fst (filter (\<lambda>(docId, d). matchesFilter (de_rnd E) d filt) (at_entries E w es))), w') \<and>
    reads w w' \<and> good_memory E w'"
  using assms(2,3)
proof (induction es arbitrary: w)
  case Nil
  then show ?case using reads_refl by (auto simp: act_defs at_entries_def)
next
  case (Cons e es)
  obtain i h where e: "e = (i, h)" by (cases e)
  have i: "map_of (co_docIndex (w_col w)) i = Some h" and es: "indexed w es"
    using Cons.prems(2) by (auto simp: indexed_def e)
  obtain d w1 where 1: "loadDocument E h w = (Inr d, w1)" "content E (w_store w) h = Some d" "reads w w1" "good_memory E w1"
    using loadDocument_ok [OF assms(1) Cons.prems(1) i] by blast
  obtain w2 where 2: "matching_ids E filt es w1 =
      (Inr (map fst (filter (\<lambda>(docId, d). matchesFilter (de_rnd E) d filt) (at_entries E w es))), w2)"
      "reads w1 w2" "good_memory E w2"
    using Cons.IH [OF 1(4)] es by (auto simp: reads_entries [OF 1(3)])
  then show ?case using 1 reads_trans [OF 1(3) 2(2)]
    by (auto simp: e bnd_Inr [of "loadDocument E h" w, OF 1(1)] bnd_Inr [of "matching_ids E filt es" w1, OF 2(1)] act_defs at_entries_def)
qed

text \<open>The limit cuts after at least one document.\<close>

definition limited :: "nat option \<Rightarrow> nat \<Rightarrow> 'a list \<Rightarrow> 'a list" where
  "limited limit have xs = (case limit of None \<Rightarrow> xs | Some n \<Rightarrow> take (max 1 (n - have)) xs)"

lemma find_loop_ok:
  assumes "env_ok E" and "good_memory E w" and "indexed w es"
  shows "\<exists>w'. find_loop E filt limit es toSkip results w = (Inr (results @ limited limit (length results) (drop toSkip
      (filter (\<lambda>d. matchesFilter (de_rnd E) d filt) (map snd (at_entries E w es))))), w') \<and>
    reads w w' \<and> good_memory E w'"
  using assms(2,3)
proof (induction es arbitrary: w toSkip results)
  case Nil
  then show ?case using reads_refl by (auto simp: act_defs at_entries_def limited_def split: option.split)
next
  case (Cons e es)
  obtain i h where e: "e = (i, h)" by (cases e)
  have i: "map_of (co_docIndex (w_col w)) i = Some h" and es: "indexed w es"
    using Cons.prems(2) by (auto simp: indexed_def e)
  obtain d w1 where 1: "loadDocument E h w = (Inr d, w1)" "content E (w_store w) h = Some d" "reads w w1" "good_memory E w1"
    using loadDocument_ok [OF assms(1) Cons.prems(1) i] by blast
  let ?ds = "filter (\<lambda>d. matchesFilter (de_rnd E) d filt) (map snd (at_entries E w es))"
  have IH: "\<exists>w'. find_loop E filt limit es k rs w1 = (Inr (rs @ limited limit (length rs) (drop k ?ds)), w') \<and>
      reads w w' \<and> good_memory E w'" for k rs
    using Cons.IH [OF 1(4), of k rs] es reads_trans [OF 1(3)] by (fastforce simp: reads_entries [OF 1(3)])
  have step: "find_loop E filt limit (e # es) toSkip results w =
      (if \<not> matchesFilter (de_rnd E) d filt then find_loop E filt limit es toSkip results w1
       else if 0 < toSkip then find_loop E filt limit es (toSkip - 1) results w1
       else if (\<exists>n. limit = Some n \<and> n \<le> length results + 1) then (Inr (results @ [d]), w1)
       else find_loop E filt limit es toSkip (results @ [d]) w1)"
    by (simp add: e bnd_Inr [of "loadDocument E h" w, OF 1(1)] Let_def act_defs split: option.split)
  have ds: "filter (\<lambda>d. matchesFilter (de_rnd E) d filt) (map snd (at_entries E w (e # es))) =
      (if matchesFilter (de_rnd E) d filt then d # ?ds else ?ds)"
    by (simp add: at_entries_def e 1(2))
  consider "\<not> matchesFilter (de_rnd E) d filt" | "matchesFilter (de_rnd E) d filt" "0 < toSkip"
    | n where "matchesFilter (de_rnd E) d filt" "toSkip = 0" "limit = Some n" "n \<le> length results + 1"
    | "matchesFilter (de_rnd E) d filt" "toSkip = 0" "\<nexists>n. limit = Some n \<and> n \<le> length results + 1"
    by (cases limit) force+
  then show ?case
  proof cases
    case 2
    then obtain k where "toSkip = Suc k" by (cases toSkip) auto
    with 2 IH [of k results] show ?thesis unfolding step ds by simp
  next
    case (3 n)
    then have "max 1 (n - length results) = 1" by simp
    with 3 show ?thesis using 1(3,4) unfolding step ds by (simp add: limited_def)
  next
    case 4
    have "d # limited limit (Suc (length results)) ?ds = limited limit (length results) (d # ?ds)"
    proof (cases limit)
      case (Some n)
      with 4(3) have "n - length results = Suc (n - Suc (length results))" "1 \<le> n - Suc (length results)" by auto
      then show ?thesis by (simp add: limited_def Some max_def)
    qed (simp add: limited_def)
    with 4 IH [of 0 "results @ [d]"] show ?thesis unfolding step ds by auto
  qed (use IH [of toSkip results] in \<open>simp add: step ds\<close>)
qed

end
