(* ===== verification/CollectionLoading.thy ===== *)
theory CollectionLoading
  imports CollectionViews
begin

text \<open>
  The block of metadata of a collection, what loading it gives, and what persisting it writes: a
  collection that is loaded again has the documents its head leads to.
\<close>

section \<open>The metadata block\<close>

definition sorted_index :: "(string \<times> string) list \<Rightarrow> (string \<times> string) list" where
  "sorted_index m = fold (\<lambda>(k, h). map_put k h) m []"

lemma map_put_apsnd: "map_put k (f v) (map (apsnd f) m) = map (apsnd f) (map_put k v m)"
  by (induction k v m rule: map_put.induct) auto

lemma mappings_doc_sorted: "mappings_doc m = DObj (map (apsnd DStr) (sorted_index m))"
proof -
  have "fold (\<lambda>(k, h). map_put k (DStr h)) m (map (apsnd DStr) acc) =
      map (apsnd DStr) (fold (\<lambda>(k, h). map_put k h) m acc)" for acc
  proof (induction m arbitrary: acc)
    case (Cons kv m)
    then show ?case by (cases kv) (simp add: map_put_apsnd)
  qed simp
  from this [of "[]"] show ?thesis by (simp add: mappings_doc_def sorted_index_def)
qed

lemma sorted_index:
  assumes "umap_wf m"
  shows "map_wf (sorted_index m)" and "map_of (sorted_index m) = map_of m"
proof -
  have "map_wf (fold (\<lambda>(k, h). map_put k h) m acc) \<and> map_of (fold (\<lambda>(k, h). map_put k h) m acc) = map_of acc ++ map_of m"
    if "map_wf acc" "distinct (map fst m)" for acc :: "(string \<times> string) list"
    using that
  proof (induction m arbitrary: acc)
    case (Cons kv m)
    obtain k h where kv: "kv = (k, h)" by (cases kv)
    have "map_of m k = None" using Cons.prems(2) by (simp add: kv map_of_eq_None_iff)
    then show ?case using Cons by (auto simp: kv container_laws map_add_def fun_eq_iff split: option.split)
  qed simp
  from this [of "[]"] assms show "map_wf (sorted_index m)" "map_of (sorted_index m) = map_of m"
    by (simp_all add: sorted_index_def umap_wf_def)
qed

lemma meta_doc_wf:
  assumes "umap_wf m" and "list_all (\<lambda>i. doc_wf (ix_spec i)) ixs"
  shows "doc_wf (meta_doc m ixs)"
proof -
  have "map fst (map (apsnd DStr) (sorted_index m)) = map fst (sorted_index m)" by simp
  then have "doc_wf (mappings_doc m)"
    using sorted_index(1) [OF assms(1)] by (simp add: mappings_doc_sorted map_wf_def list_all_iff)
  moreover have "list_all doc_wf (map index_doc ixs)"
    using assms(2) by (induction ixs) (simp_all add: index_doc_def map_wf_def)
  ultimately show ?thesis by (simp add: meta_doc_def map_wf_def)
qed

lemma mappings_of_meta: "mappings_of (meta_doc m ixs) = sorted_index m"
  by (simp add: mappings_of_def meta_doc_def mappings_doc_sorted comp_def case_prod_beta)

lemma restore_index_doc: "restore_index (index_doc i) = Inr i"
  by (simp add: restore_index_def index_doc_def value_or_def as_string_def as_bool_def)

lemma restore_mappings_run:
  "restore_mappings (map (apsnd DStr) ks) w =
     (Inr (), w\<lparr>w_col := (w_col w)\<lparr>co_docIndex := fold (\<lambda>(k, h). AList.update k h) ks (co_docIndex (w_col w))\<rparr>\<rparr>)"
proof (induction ks arbitrary: w)
  case (Cons kh ks)
  then show ?case by (cases kh) (simp add: bnd_def act_defs)
qed (simp add: act_defs)

lemma restore_indexes_run:
  "restore_indexes (map index_doc ixs) w = (Inr (), w\<lparr>w_col := (w_col w)\<lparr>co_indexes := co_indexes (w_col w) @ ixs\<rparr>\<rparr>)"
  by (induction ixs arbitrary: w) (simp_all add: act_defs restore_index_doc bnd_def)

lemma fold_update_map_of:
  "distinct (map fst ks) \<Longrightarrow> map_of (fold (\<lambda>(k, h). AList.update k h) ks m) = map_of m ++ map_of ks"
proof (induction ks arbitrary: m)
  case (Cons kh ks)
  obtain k h where "kh = (k, h)" by (cases kh)
  moreover have "map_of ks k = None" using Cons.prems \<open>kh = (k, h)\<close> by (simp add: map_of_eq_None_iff)
  ultimately show ?case using Cons by (auto simp: update_conv' map_add_def fun_eq_iff split: option.split)
qed simp

section \<open>Worlds in order\<close>

text \<open>
  The store is sound, and memory says what the head's block says, unless it will be loaded first. A
  collection without a head is empty.
\<close>

definition db_ok :: "'j db_env \<Rightarrow> 'j world \<Rightarrow> bool" where
  "db_ok E w \<longleftrightarrow> good_store E (w_store w) \<and> rd_dir (hr_disk (w_registry w)) \<and>
     umap_wf (co_docCache (w_col w)) \<and> list_all (\<lambda>i. doc_wf (ix_spec i)) (co_indexes (w_col w)) \<and>
     (case getHead (key w) (w_registry w) of
        None \<Rightarrow> co_docIndex (w_col w) = []
      | Some e \<Rightarrow> \<exists>m ixs. content E (w_store w) (he_blockId e) = Some (meta_doc m ixs) \<and>
          good_index E (w_store w) m \<and> list_all (\<lambda>i. doc_wf (ix_spec i)) ixs \<and>
          (co_loaded (w_col w) \<longrightarrow> map_of (co_docIndex (w_col w)) = map_of m \<and> good_memory E w))"

lemma docs_of_cong: "map_of m = map_of m' \<Longrightarrow> docs_of E s m = docs_of E s m'"
  by (simp add: docs_of_def fun_eq_iff)

lemma world_updates [simp]:
  "db_ok E (w\<lparr>w_lock := l\<rparr>) = db_ok E w" "db_ok E (w\<lparr>w_tick := t\<rparr>) = db_ok E w"
  "view E (w\<lparr>w_lock := l\<rparr>) = view E w" "view E (w\<lparr>w_tick := t\<rparr>) = view E w"
  "good_memory E (w\<lparr>w_lock := l\<rparr>) = good_memory E w" "good_memory E (w\<lparr>w_tick := t\<rparr>) = good_memory E w"
  "memory_docs E (w\<lparr>w_lock := l\<rparr>) = memory_docs E w" "memory_docs E (w\<lparr>w_tick := t\<rparr>) = memory_docs E w"
  "key (w\<lparr>w_lock := l\<rparr>) = key w" "key (w\<lparr>w_tick := t\<rparr>) = key w"
  by (simp_all add: db_ok_def view_def good_memory_def memory_docs_def key_def cong: option.case_cong)

text \<open>Changing the memory of a collection, but not its name.\<close>

definition works :: "'j world \<Rightarrow> 'j world \<Rightarrow> bool" where
  "works w w' \<longleftrightarrow> w_registry w' = w_registry w \<and> key w' = key w \<and> co_loaded (w_col w') = co_loaded (w_col w)"

lemma works_refl: "works w w"
  by (simp add: works_def)

lemma works_trans: "works u v \<Longrightarrow> works v w \<Longrightarrow> works u w"
  by (simp add: works_def)

lemma reads_works: "reads w w' \<Longrightarrow> works w w'"
  by (auto simp: reads_def works_def key_def registry_key_def)

lemma load_run:
  assumes "env_ok E" and "getHead (key w) (w_registry w) = Some e"
    and "content E (w_store w) (he_blockId e) = Some (meta_doc m ixs)"
  shows "loadFromStore E w = (Inr (), w\<lparr>w_tick := w_tick w + 1, w_col := (w_col w)\<lparr>
    co_docIndex := fold (\<lambda>(k, h). AList.update k h) (sorted_index m) [], co_indexes := ixs, co_docCache := []\<rparr>\<rparr>)"
proof -
  obtain x bs where x: "fromHex (he_blockId e) = Inr x" "get_block False x (w_store w) = Inr bs"
      "deserialize E bs = Inr (meta_doc m ixs)"
    using assms(3) by (auto simp: content_def bind_res_def split: sum.splits)
  have "\<not> de_unreadable E (w_tick w)" using assms(1) by (simp add: env_ok_def)
  moreover have "member (meta_doc m ixs) ''mappings'' = Some (DObj (map (apsnd DStr) (sorted_index m)))"
    "member (meta_doc m ixs) ''indexes'' = Some (DArr (map index_doc ixs))"
    by (simp_all add: meta_doc_def mappings_doc_sorted)
  ultimately show ?thesis
    using assms(2) x
    by (simp add: loadFromStore_def asking_def key_def)
      (simp add: bnd_def store_get_def lift_def modify_def restore_mappings_run restore_indexes_run)
qed

lemma reload_ok:
  assumes "env_ok E" and "db_ok E w"
  shows "\<exists>w'. reload E w = (Inr (), w') \<and> good_memory E w' \<and> memory_docs E w' = view E w \<and> co_loaded (w_col w') \<and>
    db_ok E w' \<and> w_store w' = w_store w \<and> w_registry w' = w_registry w \<and> key w' = key w"
proof (cases "getHead (key w) (w_registry w)")
  case None
  let ?w' = "w\<lparr>w_col := (w_col w)\<lparr>co_loaded := True\<rparr>\<rparr>"
  have "reload E w = (Inr (), ?w')"
    using None by (simp add: reload_def ensureLoaded_def loadFromStore_def bnd_def act_defs key_def registry_key_def)
  moreover have "co_docIndex (w_col w) = []" using assms(2) None by (simp add: db_ok_def)
  ultimately show ?thesis using assms(2) None
    by (auto simp: good_memory_def good_index_def db_ok_def memory_docs_def view_def head_docs_def docs_of_def fun_eq_iff
        key_def registry_key_def split: option.splits)
next
  case (Some e)
  obtain m ixs where m: "content E (w_store w) (he_blockId e) = Some (meta_doc m ixs)" "good_index E (w_store w) m"
      "list_all (\<lambda>i. doc_wf (ix_spec i)) ixs"
    using assms(2) Some unfolding db_ok_def by auto
  let ?idx = "fold (\<lambda>(k, h). AList.update k h) (sorted_index m) []"
  let ?u = "w\<lparr>w_col := (w_col w)\<lparr>co_loaded := False\<rparr>\<rparr>"
  have sorted: "map_wf (sorted_index m)" "map_of (sorted_index m) = map_of m"
    using m(2) sorted_index [of m] by (simp_all add: good_index_def)
  then have idx: "map_of ?idx = map_of m" "umap_wf ?idx"
    using fold_update_map_of [of "sorted_index m" "[]"] map_wf_distinct [OF sorted(1)]
      std_umap.inv_fold_put [of "[]" "sorted_index m"] by simp_all
  have "loadFromStore E ?u = (Inr (), ?u\<lparr>w_tick := w_tick ?u + 1, w_col := (w_col ?u)\<lparr>
      co_docIndex := ?idx, co_indexes := ixs, co_docCache := []\<rparr>\<rparr>)"
    using load_run [OF assms(1), of ?u e m ixs] Some m(1) by (simp add: key_def registry_key_def)
  then have "reload E w = (Inr (), w\<lparr>w_tick := w_tick w + 1, w_col := (w_col w)\<lparr>co_loaded := True,
      co_docIndex := ?idx, co_indexes := ixs, co_docCache := []\<rparr>\<rparr>)"
    by (simp add: reload_def ensureLoaded_def bnd_def act_defs)
  moreover have "good_store E (w_store w)" "rd_dir (hr_disk (w_registry w))" using assms(2) by (simp_all add: db_ok_def)
  ultimately show ?thesis using m idx Some sorted(2)
    by (auto simp: good_memory_def good_index_def memory_docs_def view_def head_docs_def mappings_of_meta fun_eq_iff docs_of_def
        key_def registry_key_def db_ok_def)
qed

section \<open>Writing\<close>

lemma stored_run:
  assumes "env_ok E"
  shows "store_put E b w = (Inr (bv_hash (de_blocks E) b), snd (store_put E b w))"
proof -
  have "de_put E (w_tick w) = PutOk" and l: "\<forall>d. length (bv_hash (de_blocks E) d) = 64"
    using assms by (auto simp: env_ok_def)
  then show ?thesis using put_cases(1) [OF l, of "de_put E (w_tick w)"]
    by (simp add: store_put_def Let_def case_prod_beta)
qed

lemma env_whole: "env_ok E \<Longrightarrow> whole_writes E"
  by (simp add: env_ok_def whole_writes_def)

lemma stored_keeps: "env_ok E \<Longrightarrow> store_keeps E (w_store w) (w_store (snd (store_put E b w)))"
  unfolding store_put_world using put_store_keeps [of E] env_whole [of E] by (simp add: whole_writes_def)

lemma stored_content:
  assumes "env_ok E" and "doc_wf d"
  shows "content E (w_store (snd (store_put E (serialize E d) w))) (toHex (bv_hash (de_blocks E) (serialize E d))) = Some d"
proof -
  have l: "\<forall>d. length (bv_hash (de_blocks E) d) = 64" and p: "de_put E (w_tick w) = PutOk"
    and t: "bv_parse (de_blocks E) (de_dump E d) = Some d"
    using assms by (auto simp: env_ok_def)
  let ?b = "serialize E d" and ?c = "bv_hash (de_blocks E) (serialize E d)"
  have "get_block False ?c (w_store (snd (store_put E ?b w))) = Inr ?b"
    unfolding store_put_world using put_cases(2) [OF l, of ?c False "de_put E (w_tick w)" ?b] l by (simp add: p)
  then show ?thesis using l t by (simp add: content_def fromHex_toHex deserialize_def serialize_def document_trip)
qed

lemma good_index_stay: "blocks_stay s s' \<Longrightarrow> good_index E s m \<Longrightarrow> good_index E s' m"
  unfolding good_index_def using content_stays by blast

text \<open>The log of contents only grows, so what happens later tells that nothing collided before.\<close>

definition earlier_clean :: "'j db_env \<Rightarrow> 'j world \<Rightarrow> 'j world \<Rightarrow> bool" where
  "earlier_clean E w w' \<longleftrightarrow> (no_collision E (w_store w') \<longrightarrow> no_collision E (w_store w))"

lemma clean_kept:
  assumes "env_ok E"
  shows "kept_by_all E (earlier_clean E)"
proof (intro kept_by_all.intro kept.intro kept_by_all_axioms.intro)
  show "earlier_clean E w (snd (store_put E b w))" for w b
    using stored_keeps [OF assms, of w b] by (simp add: earlier_clean_def store_keeps_def)
qed (auto simp: earlier_clean_def set_head_def remove_head_def Let_def case_prod_beta)

lemma clean_before:
  assumes "env_ok E" and "keeps (earlier_clean E) m" and "m w = (r, w')" and "no_collision E (w_store w')"
  shows "no_collision E (w_store w)"
  using assms(2-4) unfolding keeps_def earlier_clean_def by (metis snd_conv)

lemma set_head_ok:
  assumes "env_ok E" and "rd_dir (hr_disk (w_registry w))"
  shows "\<exists>reg. set_head E blockId w = (Inr (), w\<lparr>w_registry := reg, w_tick := w_tick w + 1\<rparr>) \<and> rd_dir (hr_disk reg) \<and>
    (\<forall>k. getHead k reg = (if k = key w then Some \<lparr>he_blockId = blockId, he_timestamp = de_now E (w_tick w)\<rparr>
      else getHead k (w_registry w)))"
proof -
  let ?t = "w_tick w"
  let ?f = "AList.update (key w) \<lparr>he_blockId = blockId, he_timestamp = de_now E ?t\<rparr>"
  obtain reg r where l: "locked_update (de_json E) (de_registry_taken E ?t) (de_registry_io E ?t) ?f (w_registry w) = (reg, r)"
    by (meson surj_pair)
  have free: "lock_opens (de_registry_taken E ?t) (hr_disk (w_registry w)) 0" and io: "de_registry_io E ?t = IoOk"
    and removed: "\<not> lk_remove_fails (de_registry_taken E ?t)"
    using assms by (auto simp: env_ok_def lock_opens_def locks_removed_def)
  have got: "obtains_lock (de_registry_taken E ?t) (hr_disk (w_registry w))"
    using free unfolding obtains_lock_def by (intro disjI1 exI [of _ 0]) simp
  from locked_update_cases [OF l] have r: "r = Inr ()" "hr_heads reg = ?f (hr_heads (w_registry w))"
    using got io removed by auto
  have "rd_dir (hr_disk reg)"
    using l r(1) io by (auto simp: locked_update_def persist_def releaseLock_def Let_def case_prod_beta split: sum.splits)
  moreover have "set_head E blockId w = (Inr (), w\<lparr>w_registry := reg, w_tick := ?t + 1\<rparr>)"
    using l r(1) by (simp add: set_head_def setHead_def key_def)
  ultimately show ?thesis using r(2) by (auto simp: getHead_def update_conv')
qed

lemma good_memory_stay:
  assumes "good_memory E w" and "blocks_stay (w_store w) (w_store w')" and "good_store E (w_store w')"
    and "w_col w' = w_col w"
  shows "good_memory E w'" and "memory_docs E w' = memory_docs E w"
proof -
  have c: "content E (w_store w') h = Some d" if "content E (w_store w) h = Some d" for h d
    using content_stays [OF assms(2) that] .
  show "good_memory E w'"
    using assms(1) unfolding good_memory_def assms(4) using assms(3) good_index_stay [OF assms(2)] c by blast
  have g: "good_index E (w_store w) (co_docIndex (w_col w))" using assms(1) by (simp add: good_memory_def)
  have "memory_docs E w' docId = memory_docs E w docId" for docId
  proof (cases "map_of (co_docIndex (w_col w)) docId")
    case (Some h)
    then obtain d where "content E (w_store w) h = Some d" using g unfolding good_index_def by blast
    then show ?thesis using Some c by (simp add: memory_docs_def docs_of_def assms(4))
  qed (simp add: memory_docs_def docs_of_def assms(4))
  then show "memory_docs E w' = memory_docs E w" by blast
qed

text \<open>After memory was persisted, the collection is what memory says.\<close>

lemma persist_ok:
  assumes "env_ok E" and "good_memory E w" and "rd_dir (hr_disk (w_registry w))"
    and "no_collision E (w_store (snd (persistMeta E w)))"
  shows "\<exists>w'. persistMeta E w = (Inr (), w') \<and> db_ok E w' \<and> view E w' = memory_docs E w"
proof -
  let ?c = "w_col w"
  let ?meta = "meta_doc (co_docIndex ?c) (co_indexes ?c)"
  let ?b = "serialize E ?meta"
  have g: "good_store E (w_store w)" "good_index E (w_store w) (co_docIndex ?c)" "umap_wf (co_docIndex ?c)"
      "list_all (\<lambda>i. doc_wf (ix_spec i)) (co_indexes ?c)" "umap_wf (co_docCache ?c)"
    using assms(2) by (simp_all add: good_memory_def good_index_def)
  have wf: "doc_wf ?meta" using g by (intro meta_doc_wf)
  define w1 where "w1 = snd (store_put E ?b w)"
  have 1: "store_put E ?b w = (Inr (bv_hash (de_blocks E) ?b), w1)" unfolding w1_def by (rule stored_run [OF assms(1)])
  have w1: "w_registry w1 = w_registry w" "w_col w1 = ?c" "key w1 = key w" by (simp_all add: w1_def store_put_world key_def)
  obtain reg where 2: "set_head E (toHex (computeBlockId E ?b)) w1 = (Inr (), w1\<lparr>w_registry := reg, w_tick := w_tick w1 + 1\<rparr>)"
      "rd_dir (hr_disk reg)" "getHead (key w) reg = Some \<lparr>he_blockId = toHex (computeBlockId E ?b), he_timestamp = de_now E (w_tick w1)\<rparr>"
    using set_head_ok [OF assms(1), of w1] assms(3) w1 by fastforce
  let ?w' = "w1\<lparr>w_registry := reg, w_tick := w_tick w1 + 1\<rparr>"
  have run: "persistMeta E w = (Inr (), ?w')"
    by (simp add: persistMeta_def bnd_def reading_def 1 2(1))
  then have "good_store E (w_store w1)" "blocks_stay (w_store w) (w_store w1)"
    using assms(4) stored_keeps [OF assms(1), of w ?b] g(1) by (simp_all add: store_keeps_def w1_def)
  then have stay: "good_store E (w_store ?w')" "blocks_stay (w_store w) (w_store ?w')" by simp_all
  have mem: "good_memory E ?w'" "memory_docs E ?w' = memory_docs E w"
    using good_memory_stay [OF assms(2) stay(2,1)] w1(2) by simp_all
  have head: "content E (w_store w1) (toHex (computeBlockId E ?b)) = Some ?meta"
    using stored_content [OF assms(1) wf, of w] by (simp add: w1_def computeBlockId_def)
  have key: "key ?w' = key w" using w1(3) by (simp add: key_def)
  have "db_ok E ?w'"
    unfolding db_ok_def key
    using stay g mem(1) head w1(2) good_index_stay [OF stay(2) g(2)] by (auto simp: 2)
  moreover have "view E ?w' = memory_docs E w"
    using mem(2) head sorted_index(2) [OF g(3)] w1(2) unfolding view_def key
    by (auto simp: 2 head_docs_def mappings_of_meta memory_docs_def docs_of_def fun_eq_iff)
  ultimately show ?thesis using run by blast
qed

text \<open>After a document was stored, memory has it under its identifier.\<close>

lemma store_doc_ok:
  assumes "env_ok E" and "good_memory E w" and "doc_wf d" and "member d ''_id'' = Some (DStr docId)"
    and "no_collision E (w_store (snd (store_doc E docId d w)))"
  shows "\<exists>w'. store_doc E docId d w = (Inr (), w') \<and> good_memory E w' \<and>
    memory_docs E w' = (memory_docs E w)(docId \<mapsto> d) \<and> works w w'"
proof -
  let ?b = "serialize E d" and ?c = "w_col w"
  let ?h = "toHex (bv_hash (de_blocks E) ?b)"
  define w1 where "w1 = snd (store_put E ?b w)"
  have 1: "store_put E ?b w = (Inr (bv_hash (de_blocks E) ?b), w1)" unfolding w1_def by (rule stored_run [OF assms(1)])
  have w1: "w_registry w1 = w_registry w" "w_col w1 = ?c" by (simp_all add: w1_def store_put_world)
  let ?w' = "w1\<lparr>w_col := ?c\<lparr>co_docIndex := AList.update docId ?h (co_docIndex ?c),
      co_docCache := AList.update docId d (co_docCache ?c)\<rparr>\<rparr>"
  have run: "store_doc E docId d w = (Inr (), ?w')"
    by (simp add: store_doc_def Let_def bnd_def 1 modify_def w1 computeBlockId_def)
  have g: "good_store E (w_store w)" using assms(2) by (simp add: good_memory_def)
  then have stay: "good_store E (w_store w1)" "blocks_stay (w_store w) (w_store w1)"
    using assms(5) stored_keeps [OF assms(1), of w ?b] by (simp_all add: run store_keeps_def w1_def)
  have mem: "good_memory E w1" "memory_docs E w1 = memory_docs E w"
    using good_memory_stay [OF assms(2) stay(2,1) w1(2)] by simp_all
  have d: "content E (w_store w1) ?h = Some d" unfolding w1_def by (rule stored_content [OF assms(1,3)])
  have "good_memory E ?w'"
    using mem(1) d assms(3,4) w1(2) unfolding good_memory_def good_index_def
    by (auto simp: update_conv' std_umap.inv_put)
  moreover have "memory_docs E ?w' = (memory_docs E w)(docId \<mapsto> d)"
    using mem(2) d w1(2) by (auto simp: memory_docs_def docs_of_def update_conv' fun_eq_iff)
  moreover have "works w ?w'" by (simp add: works_def key_def registry_key_def w1)
  ultimately show ?thesis using run by blast
qed

end
