(* ===== verification/CollectionProperties.thy ===== *)
theory CollectionProperties
  imports CollectionLoading
begin

text \<open>
  The operations of a collection refine insertion, search, update and deletion in the map of its
  documents, when the system answers and no two contents collide.
\<close>

section \<open>Opening\<close>

lemma loaded_ok:
  assumes "db_ok E w" and "co_loaded (w_col w)"
  shows "good_memory E w \<and> memory_docs E w = view E w"
proof (cases "getHead (key w) (w_registry w)")
  case None
  then show ?thesis using assms
    by (auto simp: db_ok_def good_memory_def good_index_def memory_docs_def docs_of_def view_def head_docs_def fun_eq_iff)
next
  case (Some e)
  then obtain m ixs where m: "content E (w_store w) (he_blockId e) = Some (meta_doc m ixs)" "good_index E (w_store w) m"
      "map_of (co_docIndex (w_col w)) = map_of m" "good_memory E w"
    using assms by (auto simp: db_ok_def)
  then have "map_of (sorted_index m) = map_of m" by (intro sorted_index(2)) (simp add: good_index_def)
  then show ?thesis using m Some
    by (auto simp: memory_docs_def view_def head_docs_def mappings_of_meta docs_of_def fun_eq_iff)
qed

lemma ensureLoaded_ok:
  assumes "env_ok E" and "db_ok E w"
  shows "\<exists>w'. ensureLoaded E w = (Inr (), w') \<and> good_memory E w' \<and> memory_docs E w' = view E w \<and> co_loaded (w_col w') \<and>
    db_ok E w' \<and> w_store w' = w_store w \<and> w_registry w' = w_registry w \<and> key w' = key w"
proof (cases "co_loaded (w_col w)")
  case True
  then show ?thesis using loaded_ok [OF assms(2) True] assms(2) by (simp add: ensureLoaded_def act_defs bnd_def)
next
  case False
  then have "w\<lparr>w_col := (w_col w)\<lparr>co_loaded := False\<rparr>\<rparr> = w" by simp
  then have "ensureLoaded E w = reload E w" by (simp add: reload_def bnd_def modify_def)
  then show ?thesis using reload_ok [OF assms] by simp
qed

text \<open>A world that was only read is as good as before.\<close>

lemma db_ok_reads:
  assumes "db_ok E w" and "reads w w'" and "good_memory E w'"
  shows "db_ok E w'" and "view E w' = view E w"
proof -
  obtain c where c: "w_store w' = w_store w" "w_registry w' = w_registry w" "w_col w' = (w_col w)\<lparr>co_docCache := c\<rparr>"
    using assms(2) by (auto simp: reads_def)
  then have k: "key w' = key w" by (simp add: key_def registry_key_def)
  then show "view E w' = view E w" by (simp add: view_def c)
  show "db_ok E w'" using assms(1,3) unfolding db_ok_def k
    by (auto simp: c good_memory_def split: option.splits)
qed

text \<open>Every write first takes the lock and loads.\<close>

definition unlocked :: "'a \<times> 'j world \<Rightarrow> 'a \<times> 'j world" where
  "unlocked rw = (fst rw, (snd rw)\<lparr>w_lock := released (w_lock (snd rw))\<rparr>)"

lemma guarded_reload:
  assumes "env_ok E" and "db_ok E w"
  shows "\<exists>w1. guarded E (bnd (reload E) f) w = unlocked (f () w1) \<and> good_memory E w1 \<and> memory_docs E w1 = view E w \<and>
    co_loaded (w_col w1) \<and> db_ok E w1 \<and> w_store w1 = w_store w \<and> w_registry w1 = w_registry w \<and> key w1 = key w"
proof -
  have "\<not> lk_taken (de_lock_taken E (w_tick w)) 0" and removed: "\<not> lk_remove_fails (de_lock_taken E (w_tick w))"
    using assms(1) by (simp_all add: env_ok_def locks_removed_def)
  then have "list_ex (\<lambda>i. \<not> lk_taken (de_lock_taken E (w_tick w)) i) [0..<250]" by (auto simp: list_ex_iff intro!: bexI [of _ 0])
  then obtain l where l: "acquire (de_lock_taken E (w_tick w)) (w_lock w) = (Inr (), l)" by (simp add: acquire_def)
  let ?v = "w\<lparr>w_lock := l, w_tick := w_tick w + 1\<rparr>"
  have "db_ok E ?v" "view E ?v = view E w" "key ?v = key w"
    using assms(2) by (simp_all only: world_updates)
  then obtain w1 where 1: "reload E ?v = (Inr (), w1)" "good_memory E w1" "memory_docs E w1 = view E w"
      "co_loaded (w_col w1)" "db_ok E w1" "w_store w1 = w_store w" "w_registry w1 = w_registry w" "key w1 = key w"
    using reload_ok [OF assms(1), of ?v] by auto
  have "guarded E (bnd (reload E) f) w = unlocked (f () w1)"
    unfolding guarded_def l Let_def prod.case sum.case bnd_Inr [of "reload E" ?v, OF 1(1)] unlocked_def
    by (simp add: case_prod_beta release_works [OF removed])
  with 1 show ?thesis by blast
qed

lemma unlocked_simps [simp]:
  "fst (unlocked rw) = fst rw" "db_ok E (snd (unlocked rw)) = db_ok E (snd rw)"
  "view E (snd (unlocked rw)) = view E (snd rw)" "w_store (snd (unlocked rw)) = w_store (snd rw)"
  by (simp_all add: unlocked_def)

lemma entries_indexed:
  assumes "env_ok E" and "good_memory E w"
  shows "index_entries E w = (Inr (entries E (w_tick w) (co_docIndex (w_col w))), w)"
    and "indexed w (entries E t (co_docIndex (w_col w)))"
    and "(docId, d) \<in> set (at_entries E w (entries E t (co_docIndex (w_col w)))) \<longleftrightarrow> memory_docs E w docId = Some d"
    and "distinct (map fst (at_entries E w (entries E t (co_docIndex (w_col w)))))"
proof -
  let ?idx = "co_docIndex (w_col w)"
  have g: "umap_wf ?idx" "good_index E (w_store w) ?idx" using assms(2) by (simp_all add: good_memory_def good_index_def)
  note e = entries_ok [OF assms(1) g(1)]
  show "index_entries E w = (Inr (entries E (w_tick w) ?idx), w)" by (simp add: index_entries_def)
  show "indexed w (entries E t ?idx)" unfolding indexed_def using e(1) by blast
  show "(docId, d) \<in> set (at_entries E w (entries E t ?idx)) \<longleftrightarrow> memory_docs E w docId = Some d"
  proof -
    have "(docId, d) \<in> set (at_entries E w (entries E t ?idx)) \<longleftrightarrow>
        (\<exists>h. map_of ?idx docId = Some h \<and> d = the (content E (w_store w) h))"
      by (auto simp: at_entries_def e(1) image_iff split: prod.split)
    then show ?thesis using g(2) unfolding good_index_def memory_docs_def docs_of_def
      by (cases "map_of ?idx docId") fastforce+
  qed
  show "distinct (map fst (at_entries E w (entries E t ?idx)))"
    using e(2) [of t] by (simp add: at_entries_def comp_def case_prod_beta)
qed

section \<open>Finding\<close>


section \<open>Inserting\<close>

lemma put_member_wf: "doc_wf v \<Longrightarrow> doc_wf d \<Longrightarrow> put_member k v d = Inr d' \<Longrightarrow> doc_wf d' \<and> member d' k = Some v"
proof -
  assume v: "doc_wf v" and d: "doc_wf d" and p: "put_member k v d = Inr d'"
  have "list_all (\<lambda>kv. doc_wf (snd kv)) (map_put k v kvs)" if "list_all (\<lambda>kv. doc_wf (snd kv)) kvs" for kvs
    using that v set_map_put [of k v kvs] unfolding list_all_iff by fastforce
  then show ?thesis using v d p
    by (cases d) (auto simp: put_member_def container_laws members_def map_wf_def [of "[(k, v)]"])
qed

lemma ensured:
  assumes "ensureDocumentId r d = Inr (d', docId)" and "doc_wf d"
  shows "doc_wf d' \<and> member d' ''_id'' = Some (DStr docId)"
proof -
  obtain d1 where 1: "(if member d ''_id'' = None then put_member ''_id'' (DStr (generateDocumentId r)) d else Inr d) = Inr d1"
      "(case member d1 ''_id'' of Some (DStr docId) \<Rightarrow> Inr (d1, docId) | _ \<Rightarrow> Inl doc_type_error) = Inr (d', docId)"
    using assms(1) by (auto simp: ensureDocumentId_def bind_res_Inr_iff)
  have "doc_wf d1"
    using 1(1) assms(2) put_member_wf [of "DStr (generateDocumentId r)" d "''_id''" d1] by (simp split: if_splits)
  moreover have "d' = d1 \<and> member d1 ''_id'' = Some (DStr docId)" using 1(2) by (simp split: option.splits doc.splits)
  ultimately show ?thesis by simp
qed

lemma memory_index: "good_memory E w \<Longrightarrow> map_of (co_docIndex (w_col w)) docId \<noteq> None \<longleftrightarrow> memory_docs E w docId \<noteq> None"
  unfolding good_memory_def good_index_def memory_docs_def docs_of_def
  by (cases "map_of (co_docIndex (w_col w)) docId") fastforce+

text \<open>The documents stored for those given, with their identifiers.\<close>

definition identified :: "doc list \<Rightarrow> (string \<times> doc) list \<Rightarrow> bool" where
  "identified = list_all2 (\<lambda>d (docId, d'). \<exists>random. ensureDocumentId random d = Inr (d', docId))"

text \<open>Why a document cannot be inserted into \<open>M\<close>.\<close>

definition rejected :: "(string \<Rightarrow> doc option) \<Rightarrow> doc \<Rightarrow> cpp_error \<Rightarrow> bool" where
  "rejected M d e \<longleftrightarrow> (\<exists>random. ensureDocumentId random d = Inl e) \<or>
     (\<exists>random d' docId. ensureDocumentId random d = Inr (d', docId) \<and> M docId \<noteq> None \<and> e = duplicate_key docId)"

lemma rejected_dom: "dom M = dom M' \<Longrightarrow> rejected M d e = rejected M' d e"
  unfolding rejected_def dom_def by (simp add: set_eq_iff)

lemma insert_doc_ok:
  assumes "env_ok E" and "good_memory E w" and "doc_wf d" and "insert_doc E d w = (r, w')"
    and "no_collision E (w_store w')"
  shows "(case r of
      Inl e \<Rightarrow> rejected (memory_docs E w) d e \<and> w' = w
    | Inr docId \<Rightarrow> good_memory E w' \<and> works w w' \<and> memory_docs E w docId = None \<and>
        (\<exists>d' random. ensureDocumentId random d = Inr (d', docId) \<and> memory_docs E w' = (memory_docs E w)(docId \<mapsto> d')))"
proof (cases "ensureDocumentId (de_random E (w_tick w)) d")
  case (Inl e)
  then show ?thesis using assms(4) by (auto simp: insert_doc_def asking_def lift_def rejected_def)
next
  case (Inr p)
  obtain d' docId where p: "p = (d', docId)" by (cases p)
  note ens = Inr [unfolded p]
  show ?thesis
  proof (cases "memory_docs E w docId")
    case None
    then have i: "map_of (co_docIndex (w_col w)) docId = None" using memory_index [OF assms(2)] by blast
    have run: "insert_doc E d w = bnd (store_doc E docId d') (\<lambda>_. ret docId) w"
      by (simp add: insert_doc_def asking_def ens) (simp add: bnd_def reading_def i)
    have w': "w' = snd (store_doc E docId d' w)"
      using assms(4) unfolding run by (auto simp: bnd_def ret_def split: prod.splits sum.splits)
    have "doc_wf d'" "member d' ''_id'' = Some (DStr docId)" using ensured [OF ens assms(3)] by simp_all
    from store_doc_ok [OF assms(1,2) this] assms(5) obtain w1 where
      1: "store_doc E docId d' w = (Inr (), w1)" "good_memory E w1" "memory_docs E w1 = (memory_docs E w)(docId \<mapsto> d')" "works w w1"
      unfolding w' by blast
    have "r = Inr docId" "w' = w1"
      using assms(4) unfolding run by (simp_all add: bnd_Inr [of "store_doc E docId d'" w, OF 1(1)] ret_def)
    then show ?thesis using 1 None ens by auto
  next
    case (Some x)
    then have i: "map_of (co_docIndex (w_col w)) docId \<noteq> None" using memory_index [OF assms(2)] by blast
    have "insert_doc E d w = (Inl (duplicate_key docId), w)"
      by (simp add: insert_doc_def asking_def ens) (simp add: bnd_def reading_def i lift_def)
    moreover have "rejected (memory_docs E w) d (duplicate_key docId)" unfolding rejected_def using ens Some by blast
    ultimately show ?thesis using assms(4) by auto
  qed
qed

lemma insert_docs_ok:
  assumes "env_ok E" and "good_memory E w" and "list_all doc_wf ds" and "insert_docs E ds w = (r, w')"
    and "no_collision E (w_store w')"
  shows "case r of
      Inl e \<Rightarrow> \<exists>pre d post docs. ds = pre @ d # post \<and> identified pre docs \<and> rejected (memory_docs E w ++ map_of docs) d e
    | Inr ids \<Rightarrow> good_memory E w' \<and> works w w' \<and> (\<exists>docs. identified ds docs \<and> ids = map fst docs \<and> distinct ids \<and>
        (\<forall>docId \<in> set ids. memory_docs E w docId = None) \<and> memory_docs E w' = memory_docs E w ++ map_of docs)"
  using assms(2-5)
proof (induction ds arbitrary: w r)
  case Nil
  then show ?case by (auto simp: ret_def identified_def works_refl)
next
  case (Cons d ds)
  note clean = kept.keeps_insert_docs [OF kept_by_all.axioms(1) [OF clean_kept [OF assms(1)]]]
  obtain r1 w1 where 1: "insert_doc E d w = (r1, w1)" by (cases "insert_doc E d w")
  show ?case
  proof (cases r1)
    case (Inl e)
    then have "r = Inl e" "w' = w1" using Cons.prems(3) 1 by (simp_all add: bnd_def)
    moreover have "rejected (memory_docs E w) d e"
      using insert_doc_ok [OF assms(1) Cons.prems(1) _ 1] Cons.prems(2,4) Inl \<open>w' = w1\<close> by simp
    moreover have "identified [] []" by (simp add: identified_def)
    ultimately show ?thesis by (auto intro!: exI [of _ "[]"])
  next
    case (Inr docId)
    obtain r2 w2 where 2: "insert_docs E ds w1 = (r2, w2)" by (cases "insert_docs E ds w1")
    have r: "w' = w2" "r = (case r2 of Inl e \<Rightarrow> Inl e | Inr ids \<Rightarrow> Inr (docId # ids))"
      using Cons.prems(3) 1 2 Inr by (auto simp: bnd_def ret_def split: sum.splits)
    have nc: "no_collision E (w_store w1)"
      using clean_before [OF assms(1) clean 2] Cons.prems(4) r(1) by simp
    obtain d' random where m: "good_memory E w1" "works w w1" "memory_docs E w docId = None"
        "ensureDocumentId random d = Inr (d', docId)" "memory_docs E w1 = (memory_docs E w)(docId \<mapsto> d')"
      using insert_doc_ok [OF assms(1) Cons.prems(1) _ 1 nc] Cons.prems(2) Inr by auto
    have IH: "case r2 of
        Inl e \<Rightarrow> \<exists>pre d post docs. ds = pre @ d # post \<and> identified pre docs \<and> rejected (memory_docs E w1 ++ map_of docs) d e
      | Inr ids \<Rightarrow> good_memory E w' \<and> works w1 w' \<and> (\<exists>docs. identified ds docs \<and> ids = map fst docs \<and> distinct ids \<and>
          (\<forall>docId \<in> set ids. memory_docs E w1 docId = None) \<and> memory_docs E w' = memory_docs E w1 ++ map_of docs)"
      using Cons.IH [OF m(1) _ 2 [folded r(1)] Cons.prems(4)] Cons.prems(2) by simp
    show ?thesis
    proof (cases r2)
      case (Inl e)
      then obtain pre x post docs where e: "ds = pre @ x # post" "identified pre docs"
          "rejected (memory_docs E w1 ++ map_of docs) x e"
        using IH by auto
      have "identified (d # pre) ((docId, d') # docs)" using e(2) m(4) by (auto simp: identified_def)
      moreover have "dom (memory_docs E w1 ++ map_of docs) = dom (memory_docs E w ++ map_of ((docId, d') # docs))"
        unfolding m(5) by auto
      then have "rejected (memory_docs E w ++ map_of ((docId, d') # docs)) x e" using e(3) rejected_dom by blast
      moreover have "d # ds = (d # pre) @ x # post" using e(1) by simp
      ultimately have "\<exists>pre x post docs. d # ds = pre @ x # post \<and> identified pre docs \<and>
          rejected (memory_docs E w ++ map_of docs) x e" by blast
      then show ?thesis using r(2) Inl by simp
    next
      case (Inr ids)
      then obtain docs where i: "identified ds docs" "ids = map fst docs" "distinct ids" "good_memory E w'" "works w1 w'"
          "\<forall>docId \<in> set ids. memory_docs E w1 docId = None" "memory_docs E w' = memory_docs E w1 ++ map_of docs"
        using IH by auto
      have "docId \<notin> set ids" using i(6) m(5) by auto
      then have "map_of docs docId = None" using i(2) by (simp add: map_of_eq_None_iff)
      then have "memory_docs E w' = memory_docs E w ++ map_of ((docId, d') # docs)"
        unfolding i(7) m(5) by (auto simp: map_add_def fun_eq_iff split: option.split)
      moreover have "identified (d # ds) ((docId, d') # docs)" using i(1) m(4) by (auto simp: identified_def)
      ultimately show ?thesis
        using r(2) Inr i m \<open>docId \<notin> set ids\<close> works_trans [OF m(2) i(5)] by (auto split: if_splits)
    qed
  qed
qed

text \<open>What follows once memory has changed: the change is persisted.\<close>

lemma persist_then:
  assumes "env_ok E" and "good_memory E w" and "rd_dir (hr_disk (w_registry w))"
    and "unlocked (bnd (persistMeta E) (\<lambda>_. ret x) w) = (r, w')" and "no_collision E (w_store w')"
  shows "r = Inr x \<and> db_ok E w' \<and> view E w' = memory_docs E w"
proof -
  obtain r1 w1 where 1: "persistMeta E w = (r1, w1)" by (cases "persistMeta E w")
  then have "w_store w' = w_store w1"
    using assms(4) by (cases r1) (auto simp: bnd_def ret_def unlocked_def)
  with persist_ok [OF assms(1-3)] assms(5) 1 have p: "r1 = Inr ()" "db_ok E w1" "view E w1 = memory_docs E w" by auto
  then show ?thesis using assms(4) 1 by (auto simp: bnd_def ret_def unlocked_def)
qed

lemma clean_persist:
  assumes "env_ok E" and "unlocked (bnd (persistMeta E) (\<lambda>_. ret x) w) = (r, w')" and "no_collision E (w_store w')"
  shows "no_collision E (w_store w)"
proof -
  note kept = clean_kept [OF assms(1)]
  obtain r1 w1 where 1: "bnd (persistMeta E) (\<lambda>_. ret x) w = (r1, w1)" by (cases "bnd (persistMeta E) (\<lambda>_. ret x) w")
  then have "w_store w' = w_store w1" using assms(2) by (auto simp: unlocked_def)
  then show ?thesis
    using clean_before [OF assms(1) kept_by_all.keeps_persist_then [OF kept kept.keeps_ret [OF kept_by_all.axioms(1) [OF kept]]] 1] assms(3) by simp
qed

lemma inserted_documents:
  assumes "env_ok E" and "db_ok E w" and "list_all doc_wf ds"
    and "insertMany E ds w = (r, w')" and "no_collision E (w_store w')"
  shows "case r of
      Inr ids \<Rightarrow> db_ok E w' \<and> (\<exists>docs. identified ds docs \<and> ids = map fst docs \<and> distinct ids \<and>
        (\<forall>docId \<in> set ids. view E w docId = None) \<and> view E w' = view E w ++ map_of docs)
    | Inl e \<Rightarrow> \<exists>pre d post docs. ds = pre @ d # post \<and> identified pre docs \<and> rejected (view E w ++ map_of docs) d e"
proof -
  let ?f = "\<lambda>_. bnd (insert_docs E ds) (\<lambda>ids. bnd (persistMeta E) (\<lambda>_. ret ids))"
  obtain w1 where 1: "insertMany E ds w = unlocked (?f () w1)" "good_memory E w1" "memory_docs E w1 = view E w"
      "w_registry w1 = w_registry w"
    using guarded_reload [OF assms(1,2), of ?f] unfolding insertMany_def by blast
  obtain r2 w2 where 2: "insert_docs E ds w1 = (r2, w2)" by (cases "insert_docs E ds w1")
  show ?thesis
  proof (cases r2)
    case (Inl e)
    then have run: "?f () w1 = (Inl e, w2)" by (simp add: bnd_Inl [of "insert_docs E ds", OF 2 [unfolded Inl]])
    then have "r = Inl e" "no_collision E (w_store w2)" using assms(4,5) 1(1) by (auto simp: unlocked_def)
    then show ?thesis using insert_docs_ok [OF assms(1) 1(2) assms(3) 2] Inl 1(3) by simp
  next
    case (Inr ids)
    then have run: "?f () w1 = bnd (persistMeta E) (\<lambda>_. ret ids) w2" by (simp add: bnd_Inr [of "insert_docs E ds", OF 2 [unfolded Inr]])
    note w' = assms(4) [unfolded 1(1) run]
    have "no_collision E (w_store w2)" by (rule clean_persist [OF assms(1) w' assms(5)])
    from insert_docs_ok [OF assms(1) 1(2) assms(3) 2 this] Inr have m: "good_memory E w2" "works w1 w2"
        "\<exists>docs. identified ds docs \<and> ids = map fst docs \<and> distinct ids \<and>
          (\<forall>docId \<in> set ids. view E w docId = None) \<and> memory_docs E w2 = view E w ++ map_of docs"
      using 1(3) by auto
    have "rd_dir (hr_disk (w_registry w2))" using m(2) 1(4) assms(2) by (simp add: works_def db_ok_def)
    from persist_then [OF assms(1) m(1) this w' assms(5)] m(3) show ?thesis by simp
  qed
qed


section \<open>Updating and deleting\<close>

text \<open>An update that keeps documents in order and leaves identifiers alone.\<close>

definition keeps_ids :: "'j db_env \<Rightarrow> doc \<Rightarrow> bool" where
  "keeps_ids E update \<longleftrightarrow> (\<forall>now d d'. doc_wf d \<longrightarrow> applyUpdate (de_rnd E) now d update = Inr d' \<longrightarrow>
     doc_wf d' \<and> member d' ''_id'' = member d ''_id'')"

lemma update_each_ok:
  assumes "env_ok E" and "keeps_ids E update" and "good_memory E w" and "distinct ids"
    and "\<forall>docId \<in> set ids. memory_docs E w docId \<noteq> None" and "update_each E update ids w = (r, w')"
    and "no_collision E (w_store w')"
  shows "case r of
      Inl e \<Rightarrow> \<exists>docId \<in> set ids. \<exists>now. applyUpdate (de_rnd E) now (the (memory_docs E w docId)) update = Inl e
    | Inr _ \<Rightarrow> good_memory E w' \<and> works w w' \<and> (\<forall>docId. docId \<notin> set ids \<longrightarrow> memory_docs E w' docId = memory_docs E w docId) \<and>
        (\<forall>docId \<in> set ids. \<exists>now d'. applyUpdate (de_rnd E) now (the (memory_docs E w docId)) update = Inr d' \<and>
          memory_docs E w' docId = Some d')"
  using assms(3-7)
proof (induction ids arbitrary: w)
  case Nil
  then show ?case by (auto simp: ret_def works_refl)
next
  case (Cons docId ids)
  note clean = kept.keeps_update_each [OF kept_by_all.axioms(1) [OF clean_kept [OF assms(1)]]]
  obtain h where h: "map_of (co_docIndex (w_col w)) docId = Some h" using memory_index [OF Cons.prems(1)] Cons.prems(3) by auto
  obtain d w1 where 1: "loadDocument E h w = (Inr d, w1)" "content E (w_store w) h = Some d" "reads w w1" "good_memory E w1"
    using loadDocument_ok [OF assms(1) Cons.prems(1) h] by blast
  have d: "memory_docs E w docId = Some d" "memory_docs E w1 = memory_docs E w"
    using h 1(2) reads_same [OF 1(3)] by (simp_all add: memory_docs_def docs_of_def)
  have "good_index E (w_store w) (co_docIndex (w_col w))" using Cons.prems(1) by (simp add: good_memory_def)
  then have wf: "doc_wf d" "member d ''_id'' = Some (DStr docId)" using h 1(2) unfolding good_index_def by fastforce+
  let ?u = "applyUpdate (de_rnd E) (de_now E (w_tick w1)) d update"
  have run: "update_each E update (docId # ids) w = bnd (update_doc E update docId d) (\<lambda>_. update_each E update ids) w1"
    by (simp add: bnd_def reading_def h 1(1))
  show ?case
  proof (cases ?u)
    case (Inl e)
    then have "r = Inl e" using Cons.prems(4) unfolding run by (simp add: update_doc_def asking_def bnd_def lift_def)
    then show ?thesis using Inl d(1) by auto
  next
    case (Inr d')
    have step: "update_each E update (docId # ids) w = bnd (store_doc E docId d') (\<lambda>_. update_each E update ids) w1"
      unfolding run by (simp add: update_doc_def asking_def bnd_def lift_def Inr)
    have "doc_wf d' \<and> member d' ''_id'' = member d ''_id''" using assms(2) wf(1) Inr unfolding keeps_ids_def by blast
    with wf(2) have d': "doc_wf d'" "member d' ''_id'' = Some (DStr docId)" by simp_all
    obtain x where "store_put E (serialize E d') w1 = (Inr (bv_hash (de_blocks E) (serialize E d')), x)"
      using stored_run [OF assms(1), of "serialize E d'" w1] by blast
    then obtain w2 where 2: "store_doc E docId d' w1 = (Inr (), w2)"
      by (simp add: store_doc_def Let_def bnd_def modify_def)
    have rest: "update_each E update ids w2 = (r, w')" using Cons.prems(4) unfolding step bnd_Inr [of "store_doc E docId d'" w1, OF 2] .
    have "no_collision E (w_store (snd (store_doc E docId d' w1)))"
      using clean_before [OF assms(1) clean rest Cons.prems(5)] 2 by simp
    with store_doc_ok [OF assms(1) 1(4) d'] 2 have m: "good_memory E w2" "memory_docs E w2 = (memory_docs E w)(docId \<mapsto> d')" "works w1 w2"
      using d(2) by auto
    have new: "memory_docs E w2 i = memory_docs E w i" if "i \<in> set ids" for i using that Cons.prems(2) m(2) by auto
    have IH: "case r of
      Inl e \<Rightarrow> \<exists>docId \<in> set ids. \<exists>now. applyUpdate (de_rnd E) now (the (memory_docs E w docId)) update = Inl e
    | Inr _ \<Rightarrow> good_memory E w' \<and> works w2 w' \<and> (\<forall>docId. docId \<notin> set ids \<longrightarrow> memory_docs E w' docId = memory_docs E w2 docId) \<and>
        (\<forall>docId \<in> set ids. \<exists>now d'. applyUpdate (de_rnd E) now (the (memory_docs E w docId)) update = Inr d' \<and>
          memory_docs E w' docId = Some d')"
      using Cons.IH [OF m(1) _ _ rest Cons.prems(5)] Cons.prems(2,3) new by (auto split: sum.splits)
    show ?thesis
    proof (cases r)
      case (Inl e)
      then show ?thesis using IH by auto
    next
      case (Inr u)
      have "works w2 w'" using IH Inr by auto
      then have "works w w'" using works_trans [OF works_trans [OF reads_works [OF 1(3)] m(3)]] by blast
      moreover have "memory_docs E w' docId = Some d'" using IH Inr Cons.prems(2) m(2) by auto
      ultimately show ?thesis using IH Inr \<open>?u = Inr d'\<close> d(1) m(2) by (auto simp: fun_upd_def)
    qed
  qed
qed

text \<open>The identifiers of the documents that match.\<close>

definition matches :: "'j db_env \<Rightarrow> doc \<Rightarrow> (string \<Rightarrow> doc option) \<Rightarrow> string set" where
  "matches E filt M = {docId. \<exists>d. M docId = Some d \<and> matchesFilter (de_rnd E) d filt}"

text \<open>A write over all matching documents: load, collect their identifiers, go on.\<close>

lemma collecting:
  assumes "env_ok E" and "db_ok E w"
  shows "\<exists>ids w2. guarded E (bnd (reload E) (\<lambda>_. bnd (index_entries E) (\<lambda>index. bnd (matching_ids E filt index) f))) w =
      unlocked (f ids w2) \<and> good_memory E w2 \<and> memory_docs E w2 = view E w \<and> db_ok E w2 \<and> view E w2 = view E w \<and>
      w_store w2 = w_store w \<and> distinct ids \<and> set ids = matches E filt (view E w)"
proof -
  let ?f = "\<lambda>_. bnd (index_entries E) (\<lambda>index. bnd (matching_ids E filt index) f)"
  obtain w1 where 1: "guarded E (bnd (reload E) ?f) w = unlocked (?f () w1)" "good_memory E w1" "memory_docs E w1 = view E w"
      "db_ok E w1" "w_store w1 = w_store w" "w_registry w1 = w_registry w" "key w1 = key w"
    using guarded_reload [OF assms, of ?f] by blast
  let ?es = "entries E (w_tick w1) (co_docIndex (w_col w1))"
  note e = entries_indexed [OF assms(1) 1(2)]
  define ids where "ids = map fst (filter (\<lambda>(docId, d). matchesFilter (de_rnd E) d filt) (at_entries E w1 ?es))"
  obtain w2 where 2: "matching_ids E filt ?es w1 = (Inr ids, w2)" "reads w1 w2" "good_memory E w2"
    using matching_ids_ok [OF assms(1) 1(2) e(2), of filt] unfolding ids_def by blast
  have "guarded E (bnd (reload E) ?f) w = unlocked (f ids w2)"
    unfolding 1(1) by (simp add: bnd_Inr [of "index_entries E" w1, OF e(1)] bnd_Inr [of "matching_ids E filt ?es" w1, OF 2(1)])
  moreover have "view E w1 = view E w" using 1 by (simp add: view_def)
  moreover have "distinct ids" unfolding ids_def by (rule distinct_map_filter [OF e(4)])
  moreover have "set ids = matches E filt (view E w)"
    using e(3) [of _ _ "w_tick w1"] 1(3) by (force simp: ids_def matches_def)
  ultimately show ?thesis using db_ok_reads [OF 1(4) 2(2,3)] 2(3) 1(3,5) reads_same(2,3) [OF 2(2)]
    by (intro exI [of _ ids] exI [of _ w2] conjI) simp_all
qed

lemma persist_if:
  assumes "env_ok E" and "good_memory E w" and "rd_dir (hr_disk (w_registry w))"
    and "unlocked (bnd (if b then ret () else persistMeta E) (\<lambda>_. ret x) w) = (r, w')" and "no_collision E (w_store w')"
    and "b \<Longrightarrow> db_ok E w \<and> view E w = memory_docs E w"
  shows "r = Inr x \<and> db_ok E w' \<and> view E w' = memory_docs E w"
proof (cases b)
  case True
  then have "r = Inr x" "w' = snd (unlocked (r, w))" using assms(4) by (auto simp: unlocked_def ret_def)
  then show ?thesis using assms(6) True by simp
next
  case False
  then show ?thesis using persist_then [OF assms(1-3) _ assms(5), of x r] assms(4) by simp
qed

lemma clean_persist_if:
  assumes "env_ok E" and "unlocked (bnd (if b then ret () else persistMeta E) (\<lambda>_. ret x) w) = (r, w')"
    and "no_collision E (w_store w')"
  shows "no_collision E (w_store w)"
  using assms clean_persist [OF assms(1), of x w r w'] by (cases b) (auto simp: unlocked_def ret_def)


lemma erase_each_run:
  "\<exists>w'. erase_each ids w = (Inr (), w') \<and> w_store w' = w_store w \<and> works w w' \<and>
    co_docIndex (w_col w') = fold map_del ids (co_docIndex (w_col w)) \<and>
    co_docCache (w_col w') = fold map_del ids (co_docCache (w_col w)) \<and> co_indexes (w_col w') = co_indexes (w_col w)"
proof (induction ids arbitrary: w)
  case (Cons docId ids)
  let ?w1 = "w\<lparr>w_col := (w_col w)\<lparr>co_docIndex := map_del docId (co_docIndex (w_col w)),
      co_docCache := map_del docId (co_docCache (w_col w))\<rparr>\<rparr>"
  have "erase_each (docId # ids) w = erase_each ids ?w1" by (simp add: erase_doc_def bnd_def modify_def)
  moreover have "works w ?w1" by (simp add: works_def key_def registry_key_def)
  ultimately show ?case using Cons.IH [of ?w1] works_trans by fastforce
qed (simp add: ret_def works_refl)

lemma erased_memory:
  assumes "good_memory E w" and "w_store w' = w_store w" and "co_indexes (w_col w') = co_indexes (w_col w)"
    and "co_docIndex (w_col w') = fold map_del ids (co_docIndex (w_col w))"
    and "co_docCache (w_col w') = fold map_del ids (co_docCache (w_col w))"
  shows "good_memory E w'" and "memory_docs E w' = (\<lambda>docId. if docId \<in> set ids then None else memory_docs E w docId)"
proof -
  have wf: "umap_wf (co_docIndex (w_col w))" "umap_wf (co_docCache (w_col w))"
    using assms(1) by (simp_all add: good_memory_def good_index_def)
  note get = std_umap.get_fold_del [OF wf(1)] std_umap.get_fold_del [OF wf(2)]
    and inv = std_umap.inv_fold_del [OF wf(1)] std_umap.inv_fold_del [OF wf(2)]
  show "good_memory E w'" using assms inv by (auto simp: good_memory_def good_index_def get)
  show "memory_docs E w' = (\<lambda>docId. if docId \<in> set ids then None else memory_docs E w docId)"
    using assms by (auto simp: memory_docs_def docs_of_def get fun_eq_iff)
qed


end
