(* ===== verification/CollectionExamples.thy ===== *)
theory CollectionExamples
  imports CollectionProperties
begin

text \<open>
  A collection in which a document is inserted, found, updated and deleted, for the properties of the
  collections. The digest tells the few contents it meets apart; the logs of contents are computed
  by rewriting.
\<close>

section \<open>What is put\<close>

lemma put_log:
  assumes "env_ok E"
  shows "bs_log (w_store (snd (store_put E b w))) = b # bs_log (w_store w)"
proof -
  have l: "\<forall>d. length (bv_hash (de_blocks E) d) = 64" using assms by (simp add: env_ok_def)
  show ?thesis unfolding store_put_world by (simp add: put_cases(3) [OF l])
qed

lemma store_doc_log:
  assumes "env_ok E" and "store_doc E docId d w = (r, w')"
  shows "r = Inr ()" and "bs_log (w_store w') = serialize E d # bs_log (w_store w)"
    and "w_col w' = (w_col w)\<lparr>co_docIndex := AList.update docId (toHex (bv_hash (de_blocks E) (serialize E d))) (co_docIndex (w_col w)),
      co_docCache := AList.update docId d (co_docCache (w_col w))\<rparr>"
proof -
  obtain x where x: "store_put E (serialize E d) w = (Inr (bv_hash (de_blocks E) (serialize E d)), x)"
    using stored_run [OF assms(1)] by blast
  then have "bs_log (w_store x) = serialize E d # bs_log (w_store w)" "w_col x = w_col w"
    using put_log [OF assms(1), of "serialize E d" w] store_put_world [of E "serialize E d" w] by simp_all
  then show "r = Inr ()" "bs_log (w_store w') = serialize E d # bs_log (w_store w)"
    "w_col w' = (w_col w)\<lparr>co_docIndex := AList.update docId (toHex (bv_hash (de_blocks E) (serialize E d))) (co_docIndex (w_col w)),
      co_docCache := AList.update docId d (co_docCache (w_col w))\<rparr>"
    using assms(2) x by (auto simp: store_doc_def Let_def bnd_def modify_def computeBlockId_def)
qed

lemma persist_log:
  assumes "env_ok E"
  shows "bs_log (w_store (snd (bnd (persistMeta E) (\<lambda>_. ret x) w))) =
    serialize E (meta_doc (co_docIndex (w_col w)) (co_indexes (w_col w))) # bs_log (w_store w)"
proof -
  let ?b = "serialize E (meta_doc (co_docIndex (w_col w)) (co_indexes (w_col w)))"
  obtain w1 where w1: "store_put E ?b w = (Inr (bv_hash (de_blocks E) ?b), w1)" using stored_run [OF assms] by blast
  then have "bs_log (w_store w1) = ?b # bs_log (w_store w)" using put_log [OF assms, of ?b w] by simp
  then show ?thesis
    by (auto simp: persistMeta_def bnd_def reading_def w1 set_head_def ret_def Let_def case_prod_beta split: sum.split)
qed

text \<open>The first document of a collection.\<close>

lemma open_headless:
  assumes "\<not> lk_taken (de_lock_taken E (w_tick w)) 0" and "\<not> lk_remove_fails (de_lock_taken E (w_tick w))"
    and "getHead (key w) (w_registry w) = None"
  shows "\<exists>v. guarded E (bnd (reload E) f) w = unlocked (f () v) \<and> w_store v = w_store w \<and> w_registry v = w_registry w \<and>
    w_col v = (w_col w)\<lparr>co_loaded := True\<rparr>"
proof -
  have "list_ex (\<lambda>i. \<not> lk_taken (de_lock_taken E (w_tick w)) i) [0..<250]" using assms(1) by (auto simp: list_ex_iff intro!: bexI [of _ 0])
  then obtain l where l: "acquire (de_lock_taken E (w_tick w)) (w_lock w) = (Inr (), l)" by (simp add: acquire_def)
  let ?v = "w\<lparr>w_lock := l, w_tick := w_tick w + 1\<rparr>"
  let ?v1 = "?v\<lparr>w_col := (w_col ?v)\<lparr>co_loaded := True\<rparr>\<rparr>"
  have reload: "reload E ?v = (Inr (), ?v1)"
    using assms(3) by (simp add: reload_def ensureLoaded_def loadFromStore_def bnd_def act_defs key_def registry_key_def)
  have "guarded E (bnd (reload E) f) w = unlocked (f () ?v1)"
    unfolding guarded_def l Let_def prod.case sum.case bnd_Inr [of "reload E" ?v, OF reload] unlocked_def
    by (simp add: case_prod_beta release_works [OF assms(2)])
  then show ?thesis by (intro exI [of _ ?v1] conjI) simp_all
qed

lemma insert_new_doc:
  assumes "co_docIndex (w_col w) = []" and "member d ''_id'' = Some (DStr docId)"
  shows "insert_doc E d w = bnd (store_doc E docId d) (\<lambda>_. ret docId) w"
proof -
  have "ensureDocumentId x d = Inr (d, docId)" for x using assms(2) by (simp add: ensureDocumentId_def)
  then show ?thesis by (simp add: insert_doc_def asking_def) (simp add: bnd_def reading_def assms(1))
qed

lemma first_insert:
  assumes "env_ok E" and "db_ok E w" and "getHead (key w) (w_registry w) = None" and "member d ''_id'' = Some (DStr docId)"
  shows "bs_log (w_store (snd (insertMany E [d] w))) =
    serialize E (meta_doc [(docId, toHex (bv_hash (de_blocks E) (serialize E d)))] (co_indexes (w_col w))) #
    serialize E d # bs_log (w_store w)"
proof -
  let ?f = "\<lambda>_. bnd (insert_docs E [d]) (\<lambda>ids. bnd (persistMeta E) (\<lambda>_. ret ids))"
  have "\<not> lk_taken (de_lock_taken E (w_tick w)) 0" "\<not> lk_remove_fails (de_lock_taken E (w_tick w))"
    using assms(1) by (simp_all add: env_ok_def locks_removed_def)
  then obtain v where v: "insertMany E [d] w = unlocked (?f () v)" "w_store v = w_store w"
      "w_col v = (w_col w)\<lparr>co_loaded := True\<rparr>"
    using open_headless [OF _ _ assms(3), of E ?f] unfolding insertMany_def by blast
  have idx: "co_docIndex (w_col v) = []" using assms(2,3) v(3) by (simp add: db_ok_def)
  obtain r2 w2 where s: "store_doc E docId d v = (r2, w2)" by (cases "store_doc E docId d v")
  note s' = store_doc_log [OF assms(1) s]
  have "insert_doc E d v = (Inr docId, w2)"
    using s s'(1) by (simp add: insert_new_doc [OF idx assms(4)] bnd_def ret_def)
  then have ins: "insert_docs E [d] v = (Inr [docId], w2)" by (simp add: bnd_def ret_def)
  have "insertMany E [d] w = unlocked (bnd (persistMeta E) (\<lambda>_. ret [docId]) w2)"
    unfolding v(1) bnd_Inr [of "insert_docs E [d]" v, OF ins] ..
  then show ?thesis using s'(2,3) idx v(2,3) by (simp add: persist_log [OF assms(1)])
qed

text \<open>Deleting everything, and updating the only document.\<close>

lemma delete_all_log:
  assumes "env_ok E" and "db_ok E w" and "\<And>docId d. view E w docId = Some d \<Longrightarrow> matchesFilter (de_rnd E) d filt"
    and "view E w docId \<noteq> None"
  shows "\<exists>ixs. bs_log (w_store (snd (deleteMany E filt w))) = serialize E (meta_doc [] ixs) # bs_log (w_store w)"
proof -
  let ?tail = "\<lambda>ids. bnd (if ids = [] then ret () else persistMeta E) (\<lambda>_. ret (length ids))"
  let ?f = "\<lambda>ids. bnd (erase_each ids) (\<lambda>_. ?tail ids)"
  obtain ids w2 where 2: "deleteMany E filt w = unlocked (?f ids w2)" "good_memory E w2" "memory_docs E w2 = view E w"
      "w_store w2 = w_store w" "set ids = matches E filt (view E w)"
    using collecting [OF assms(1,2), of filt ?f] unfolding deleteMany_def by blast
  obtain w3 where 3: "erase_each ids w2 = (Inr (), w3)" "w_store w3 = w_store w2"
      "co_docIndex (w_col w3) = fold map_del ids (co_docIndex (w_col w2))"
      "co_docCache (w_col w3) = fold map_del ids (co_docCache (w_col w2))" "co_indexes (w_col w3) = co_indexes (w_col w2)"
    using erase_each_run [of ids w2] by blast
  note m = erased_memory [OF 2(2) 3(2,5,3,4)]
  have "memory_docs E w3 i = None" for i
    using assms(3) by (auto simp: m(2) 2(3,5) matches_def)
  then have "co_docIndex (w_col w3) = []"
    using memory_index [OF m(1), of "fst (hd (co_docIndex (w_col w3)))"] by (cases "co_docIndex (w_col w3)") auto
  moreover have "ids \<noteq> []" using assms(3,4) 2(5) by (auto simp: matches_def)
  then have "deleteMany E filt w = unlocked (bnd (persistMeta E) (\<lambda>_. ret (length ids)) w3)"
    unfolding 2(1) by (simp add: bnd_Inr [of "erase_each ids", OF 3(1)])
  ultimately show ?thesis using persist_log [OF assms(1), of _ w3] 3(2) 2(4)
    by (auto intro!: exI [of _ "co_indexes (w_col w3)"])
qed

lemma update_only_log:
  assumes "env_ok E" and "db_ok E w" and "view E w = [docId \<mapsto> d]" and "matchesFilter (de_rnd E) d filt"
    and "\<And>now. applyUpdate (de_rnd E) now d update = Inr d'"
  shows "\<exists>ixs. bs_log (w_store (snd (updateMany E filt update w))) =
    serialize E (meta_doc [(docId, toHex (bv_hash (de_blocks E) (serialize E d')))] ixs) # serialize E d' # bs_log (w_store w)"
proof -
  let ?tail = "\<lambda>ids. bnd (if ids = [] then ret () else persistMeta E) (\<lambda>_. ret (length ids))"
  let ?f = "\<lambda>ids. bnd (update_each E update ids) (\<lambda>_. ?tail ids)"
  obtain ids w2 where 2: "updateMany E filt update w = unlocked (?f ids w2)" "good_memory E w2" "memory_docs E w2 = view E w"
      "w_store w2 = w_store w" "distinct ids" "set ids = matches E filt (view E w)"
    using collecting [OF assms(1,2), of filt ?f] unfolding updateMany_def by blast
  have "set ids = {docId}" using assms(3,4) 2(6) by (auto simp: matches_def split: if_splits)
  with 2(5) have ids: "ids = [docId]" by (cases ids) (auto simp: subset_singleton_iff)
  have index: "map_of (co_docIndex (w_col w2)) i \<noteq> None \<longleftrightarrow> i = docId" for i
    using memory_index [OF 2(2)] 2(3) assms(3) by (auto split: if_splits)
  then obtain h where h: "map_of (co_docIndex (w_col w2)) docId = Some h" by blast
  have only: "co_docIndex (w_col w2) = [(docId, h)]"
  proof -
    have "fst ` set (co_docIndex (w_col w2)) = {docId}" using index by (auto simp: dom_map_of_conv_image_fst [symmetric] domIff)
    moreover have "distinct (map fst (co_docIndex (w_col w2)))" using 2(2) by (simp add: good_memory_def good_index_def umap_wf_def)
    ultimately show ?thesis using h
      by (cases "co_docIndex (w_col w2)"; cases "tl (co_docIndex (w_col w2))") (auto split: if_splits)
  qed
  obtain d0 w3 where 3: "loadDocument E h w2 = (Inr d0, w3)" "content E (w_store w2) h = Some d0" "reads w2 w3"
    using loadDocument_ok [OF assms(1) 2(2) h] by blast
  have "d0 = d" using 3(2) h 2(3) assms(3) by (auto simp: memory_docs_def docs_of_def dest: fun_cong [of _ _ docId])
  obtain r4 w4 where 4: "store_doc E docId d' w3 = (r4, w4)" by (cases "store_doc E docId d' w3")
  note s = store_doc_log [OF assms(1) 4]
  have u: "update_each E update [docId] w2 = (Inr (), w4)"
    using 4 s(1) by (simp add: bnd_def reading_def h 3(1) \<open>d0 = d\<close> update_doc_def asking_def lift_def assms(5) ret_def)
  have "updateMany E filt update w = unlocked (bnd (persistMeta E) (\<lambda>_. ret 1) w4)"
    unfolding 2(1) ids bnd_Inr [of "update_each E update [docId]" w2, OF u] by simp
  moreover have "co_docIndex (w_col w4) = [(docId, toHex (bv_hash (de_blocks E) (serialize E d')))]"
    using s(3) only reads_same(1) [OF 3(3)] by simp
  ultimately show ?thesis using persist_log [OF assms(1), of _ w4] s(2) reads_same(3) [OF 3(3)] 2(4)
    by (auto intro!: exI [of _ "co_indexes (w_col w4)"])
qed

section \<open>A collection\<close>

text \<open>A digest that reads the document: the number in it, or the checksum of the first document of an index.\<close>

definition summary :: "doc \<Rightarrow> bytes" where
  "summary d = (case member d ''n'' of
     Some (DInt n) \<Rightarrow> [1, word_of_int n]
   | _ \<Rightarrow> (case member d ''mappings'' of
       Some (DObj ((k, DStr h) # kvs)) \<Rightarrow> 2 # text_bytes (take 60 h)
     | _ \<Rightarrow> [3]))"

definition sample_digest :: "bytes \<Rightarrow> Checksum" where
  "sample_digest b =
     take 64 ((case read_doc (bytes_text b) of Some d \<Rightarrow> summary d | None \<Rightarrow> []) @ replicate 64 0)"

definition sample_env :: "put_io \<Rightarrow> json_value db_env" where
  "sample_env io = \<lparr>de_json = json_values, de_blocks = pad_env\<lparr>bv_hash := sample_digest\<rparr>, de_dump = put_doc,
     de_rnd = (\<lambda>q. q), de_put = (\<lambda>t. io),
     de_unreadable = (\<lambda>t. False), de_registry_taken = (\<lambda>t. never_taken), de_registry_io = (\<lambda>t. IoOk),
     de_lock_taken = (\<lambda>t. never_taken), de_clock = (\<lambda>t. 0), de_now = (\<lambda>t. ''now''), de_random = (\<lambda>t. replicate 16 7),
     de_order = (\<lambda>t ks. ks)\<rparr>"

definition sample_world :: "json_value world" where
  "sample_world = \<lparr>w_store = empty_store, w_registry = sample_registry, w_lock = \<lparr>sl_file = False, sl_held = False\<rparr>,
     w_tick = 0, w_col = mkCollection ''c'' ''d'' Medium\<rparr>"

definition sample_doc :: "int \<Rightarrow> doc" where
  "sample_doc n = DObj [(''_id'', DStr ''a''), (''n'', DInt n)]"

definition sample_update :: doc where
  "sample_update = DObj [(''$set'', DObj [(''n'', DInt 2)])]"

lemma sample_digest_length: "length (sample_digest b) = 64"
  by (auto simp: sample_digest_def min_def)

lemma sample_env_ok: "env_ok (sample_env PutOk)"
  using pad_env_parse
  by (simp add: env_ok_def locks_removed_def sample_env_def never_taken_def sample_digest_length pad_env_def)

lemma sample_world_ok: "db_ok E sample_world" "good_store E (w_store sample_world)" "view E sample_world = Map.empty"
    "getHead (key sample_world) (w_registry sample_world) = None"
  by (simp_all add: db_ok_def good_store_def sample_world_def empty_store_def sample_registry_def mkCollection_def key_def
      registry_key_def getHead_def get_block_def blockPath_Inr view_def head_docs_def fun_eq_iff)

lemma sample_doc_ok: "doc_wf (sample_doc n)" "member (sample_doc n) ''_id'' = Some (DStr ''a'')"
  by (simp_all add: sample_doc_def map_wf_def)

lemma digest_serialized: "bv_hash (de_blocks (sample_env io)) (serialize (sample_env io) d) = take 64 (summary d @ replicate 64 0)"
  by (simp add: sample_env_def serialize_def serializeDocument_def sample_digest_def bytes_text_trip read_put_doc)

lemma summary_doc: "summary (sample_doc n) = [1, word_of_int n]"
  by (simp add: summary_def sample_doc_def)

lemma summary_meta:
  "summary (meta_doc [] ixs) = [3]" "summary (meta_doc [(k, h)] ixs) = 2 # text_bytes (take 60 h)"
  by (simp_all add: summary_def meta_doc_def mappings_doc_def)

lemmas digests = digest_serialized summary_doc summary_meta

definition inserted_world :: "json_value world" where
  "inserted_world = snd (insertMany (sample_env PutOk) [sample_doc 1] sample_world)"

lemma inserted_log:
  "bs_log (w_store inserted_world) = [serialize (sample_env PutOk) (meta_doc [(''a'', toHex (1 # 1 # replicate 62 0))] []),
     serialize (sample_env PutOk) (sample_doc 1)]"
proof -
  have "take 64 (summary (sample_doc 1) @ replicate 64 0) = 1 # 1 # replicate 62 0" by (simp add: summary_doc)
  then show ?thesis
    using first_insert [OF sample_env_ok sample_world_ok(1,4) sample_doc_ok(2) [of 1]]
    by (simp add: inserted_world_def digest_serialized) (simp add: sample_world_def empty_store_def mkCollection_def)
qed

lemma inserted_no_collision: "no_collision (sample_env PutOk) (w_store inserted_world)"
  by (simp add: no_collision_def inserted_log digests inj_on_def)

lemma inserted_ok:
  "db_ok (sample_env PutOk) inserted_world" "view (sample_env PutOk) inserted_world = [''a'' \<mapsto> sample_doc 1]"
    "fst (insertMany (sample_env PutOk) [sample_doc 1] sample_world) = Inr [''a'']"
proof -
  let ?E = "sample_env PutOk"
  obtain r where i: "insertMany ?E [sample_doc 1] sample_world = (r, inserted_world)"
    unfolding inserted_world_def by (metis prod.collapse)
  have e: "ensureDocumentId x (sample_doc 1) = Inr (sample_doc 1, ''a'')" for x
    by (simp add: ensureDocumentId_def sample_doc_ok)
  have "case r of
      Inr ids \<Rightarrow> db_ok ?E inserted_world \<and> (\<exists>docs. identified [sample_doc 1] docs \<and> ids = map fst docs \<and> distinct ids \<and>
        (\<forall>docId \<in> set ids. view ?E sample_world docId = None) \<and> view ?E inserted_world = view ?E sample_world ++ map_of docs)
    | Inl e \<Rightarrow> \<exists>pre d post docs. [sample_doc 1] = pre @ d # post \<and> identified pre docs \<and> rejected (view ?E sample_world ++ map_of docs) d e"
    by (rule inserted_documents [OF sample_env_ok sample_world_ok(1) _ i inserted_no_collision]) (simp add: sample_doc_ok)
  then show "db_ok ?E inserted_world" "view ?E inserted_world = [''a'' \<mapsto> sample_doc 1]"
    "fst (insertMany ?E [sample_doc 1] sample_world) = Inr [''a'']"
    by (auto simp: identified_def rejected_def e i sample_world_ok(3) list_all2_Cons1 Cons_eq_append_conv split: sum.splits)
qed

lemma sample_matches: "matchesFilter (de_rnd (sample_env io)) d (DObj [])"
  by (simp add: matchesFilter.simps)

lemma sample_update_run: "applyUpdate rnd now (sample_doc n) sample_update = Inr (sample_doc 2)"
  by (simp add: applyUpdate_def sample_update_def sample_doc_def apply_operator_def applySet_def members_def put_member_def)

lemma sample_update_keeps: "keeps_ids E sample_update"
  unfolding keeps_ids_def
proof (intro allI impI)
  fix now d d'
  assume d: "doc_wf d" and u: "applyUpdate (de_rnd E) now d sample_update = Inr d'"
  then have p: "put_member ''n'' (DInt 2) d = Inr d'"
    by (simp add: applyUpdate_def sample_update_def apply_operator_def applySet_def members_def bind_res_Inr_iff)
  then have "member d' ''_id'' = member d ''_id''" using d
    by (cases d) (auto simp: put_member_def members_def member_def container_laws)
  then show "doc_wf d' \<and> member d' ''_id'' = member d ''_id''" using put_member_wf [OF _ d p] by simp
qed

section \<open>Witnesses\<close>





theorem failed_call_keeps_documents_witness:
  "\<exists>e w'. run_call (sample_env CreateFails) (InsertOne (sample_doc 1)) sample_world = (Inl e, w') \<and>
     rd_file (hr_disk (w_registry w')) = Missing"
proof -
  let ?E = "sample_env CreateFails" and ?d = "sample_doc 1"
  let ?f = "\<lambda>_. bnd (insert_doc ?E ?d) (\<lambda>docId. bnd (persistMeta ?E) (\<lambda>_. ret docId))"
  have "\<not> lk_taken (de_lock_taken ?E (w_tick sample_world)) 0" "\<not> lk_remove_fails (de_lock_taken ?E (w_tick sample_world))"
    and locks: "locks_removed ?E" by (simp_all add: sample_env_def never_taken_def locks_removed_def)
  then obtain v where v: "insertOne ?E ?d sample_world = unlocked (?f () v)" "w_store v = empty_store"
      "w_col v = (w_col sample_world)\<lparr>co_loaded := True\<rparr>"
    using open_headless [OF _ _ sample_world_ok(4), of ?E ?f] unfolding insertOne_def by (auto simp: sample_world_def)
  have l: "\<forall>d. length (bv_hash (de_blocks ?E) d) = 64" by (simp add: sample_env_def sample_digest_length)
  obtain x where x: "store_put ?E (serialize ?E ?d) v = (Inl (RuntimeError ''Failed to create block file''), x)"
      "bs_log (w_store x) = [serialize ?E ?d]"
    using put_cases(1,3) [OF l, of CreateFails "serialize ?E ?d" _ empty_store] v(2)
    by (auto simp: store_put_def Let_def case_prod_beta sample_env_def empty_store_def)
  have idx: "co_docIndex (w_col v) = []" using v(3) by (simp add: sample_world_def mkCollection_def)
  have "insert_doc ?E ?d v = (Inl (RuntimeError ''Failed to create block file''), x)"
    using x(1) by (simp add: insert_new_doc [OF idx sample_doc_ok(2)] store_doc_def Let_def bnd_def)
  then have run: "run_call ?E (InsertOne ?d) sample_world =
      (Inl (RuntimeError ''Failed to create block file''), snd (unlocked (r, x)))" for r :: "string res"
    using v(1) by (simp add: ignore_def bnd_def unlocked_def)
  have "whole_writes ?E" using l by (simp add: whole_writes_def sample_env_def)
  from failed_call_keeps_documents [OF this locks sample_world_ok(2) run] x(2) show ?thesis
    using run by (auto simp: no_collision_def unlocked_def sample_world_def sample_registry_def)
qed

end
