(* ===== verification/Database.thy ===== *)
theory Database
  imports CollectionExamples
begin

text \<open>
  \<open>brightchain_db.{hpp,cpp}\<close>: a database is a registry of heads, a lock and the collections that were
  asked for; they share the store. An operation of a collection runs in the world made of the
  collection and what it shares. The registry's directory is the options' \<open>dataDir\<close>, so databases of
  other names may have their heads in the same file.
\<close>

section \<open>State and operations\<close>

record 'j BrightChainDb =
  bd_name :: string
  bd_blockSize :: BlockSize
  bd_store :: DiskBlockStore
  bd_headRegistry :: "'j HeadRegistry"
  bd_storeLock :: StoreLock
  bd_tick :: nat
  bd_collections :: "(string \<times> Collection) list"
  bd_connected :: bool

definition mkBrightChainDb :: "string \<Rightarrow> BlockSize \<Rightarrow> DiskBlockStore \<Rightarrow> 'j registry_disk \<Rightarrow> StoreLock \<Rightarrow> 'j BrightChainDb" where
  "mkBrightChainDb name blockSize store disk lock = \<lparr>bd_name = name, bd_blockSize = blockSize, bd_store = store,
     bd_headRegistry = \<lparr>hr_heads = [], hr_disk = disk\<rparr>, bd_storeLock = lock, bd_tick = 0, bd_collections = [], bd_connected = False\<rparr>"

text \<open>An exception of the registry's \<open>load\<close> leaves the database unconnected.\<close>

definition connect :: "'j db_env \<Rightarrow> 'j BrightChainDb \<Rightarrow> unit res \<times> 'j BrightChainDb" where
  "connect E db =
     (let (reg, r) = load (de_json E) (bd_headRegistry db)
      in (r, db\<lparr>bd_headRegistry := reg, bd_connected := (if isl r then bd_connected db else True)\<rparr>))"

definition disconnect :: "'j BrightChainDb \<Rightarrow> 'j BrightChainDb" where
  "disconnect db = db\<lparr>bd_connected := False\<rparr>"

definition collection :: "string \<Rightarrow> 'j BrightChainDb \<Rightarrow> Collection \<times> 'j BrightChainDb" where
  "collection name db =
     (case map_of (bd_collections db) name of
        Some c \<Rightarrow> (c, db)
      | None \<Rightarrow>
          (let c = mkCollection name (bd_name db) (bd_blockSize db)
           in (c, db\<lparr>bd_collections := AList.update name c (bd_collections db)\<rparr>)))"

definition listCollections :: "'j BrightChainDb \<Rightarrow> string list" where
  "listCollections db = map fst (bd_collections db)"

text \<open>Running an operation of a collection that was asked for.\<close>

definition world_of :: "'j BrightChainDb \<Rightarrow> Collection \<Rightarrow> 'j world" where
  "world_of db c = \<lparr>w_store = bd_store db, w_registry = bd_headRegistry db, w_lock = bd_storeLock db,
     w_tick = bd_tick db, w_col = c\<rparr>"

definition share :: "'j world \<Rightarrow> 'j BrightChainDb \<Rightarrow> 'j BrightChainDb" where
  "share w db = db\<lparr>bd_store := w_store w, bd_headRegistry := w_registry w, bd_storeLock := w_lock w, bd_tick := w_tick w\<rparr>"

definition on_collection :: "string \<Rightarrow> ('j, 'a) act \<Rightarrow> 'j BrightChainDb \<Rightarrow> 'a res \<times> 'j BrightChainDb" where
  "on_collection name m db =
     (let (c, db1) = collection name db;
          (r, w) = m (world_of db1 c)
      in (r, (share w db1)\<lparr>bd_collections := AList.update name (w_col w) (bd_collections db1)\<rparr>))"

text \<open>A collection whose \<open>drop\<close> throws stays; one that was never asked for is not dropped at all.\<close>

definition dropCollection :: "'j db_env \<Rightarrow> string \<Rightarrow> 'j BrightChainDb \<Rightarrow> unit res \<times> 'j BrightChainDb" where
  "dropCollection E name db =
     (case map_of (bd_collections db) name of
        None \<Rightarrow> (Inr (), db)
      | Some c \<Rightarrow>
          (let (r, db1) = on_collection name (drop_collection E) db
           in (r, if isl r then db1 else db1\<lparr>bd_collections := map_del name (bd_collections db1)\<rparr>)))"

fun drop_each :: "'j db_env \<Rightarrow> string list \<Rightarrow> 'j BrightChainDb \<Rightarrow> unit res \<times> 'j BrightChainDb" where
  "drop_each E [] db = (Inr (), db)"
| "drop_each E (name # names) db =
     (case on_collection name (drop_collection E) db of
        (Inl e, db') \<Rightarrow> (Inl e, db')
      | (Inr _, db') \<Rightarrow> drop_each E names db')"

definition dropDatabase :: "'j db_env \<Rightarrow> 'j BrightChainDb \<Rightarrow> unit res \<times> 'j BrightChainDb" where
  "dropDatabase E db =
     (case drop_each E (de_order E (bd_tick db) (listCollections db)) db of
        (Inl e, db1) \<Rightarrow> (Inl e, db1)
      | (Inr _, db1) \<Rightarrow>
          (let t = bd_tick db1;
               (reg, r) = clear (de_json E) (de_registry_taken E t) (de_registry_io E t) (bd_headRegistry db1)
           in (r, db1\<lparr>bd_collections := [], bd_headRegistry := reg, bd_tick := t + 1\<rparr>)))"

section \<open>Collections are isolated\<close>

text \<open>What an operation of one collection means for the heads of the others and for the blocks.\<close>

definition others_stay :: "'j db_env \<Rightarrow> 'j world \<Rightarrow> 'j world \<Rightarrow> bool" where
  "others_stay E w w' \<longleftrightarrow> key w' = key w \<and>
     (\<forall>k. k \<noteq> key w \<longrightarrow> getHead k (w_registry w') = getHead k (w_registry w)) \<and> store_keeps E (w_store w) (w_store w')"

lemma set_head_others: "others_stay E w (snd (set_head E blockId w))"
proof -
  let ?t = "w_tick w"
  let ?f = "AList.update (registry_key (w_col w)) \<lparr>he_blockId = blockId, he_timestamp = de_now E ?t\<rparr>"
  show ?thesis
    using locked_update_heads [of "de_json E" "de_registry_taken E ?t" "de_registry_io E ?t" ?f "w_registry w"]
    by (auto simp: others_stay_def set_head_def setHead_def key_def getHead_def Let_def case_prod_beta update_conv'
        store_keeps_refl)
qed

lemma remove_head_others: "others_stay E w (snd (remove_head E w))"
proof -
  let ?t = "w_tick w"
  show ?thesis
    using locked_update_heads [of "de_json E" "de_registry_taken E ?t" "de_registry_io E ?t"
        "map_del (registry_key (w_col w))" "w_registry w"]
    by (auto simp: others_stay_def remove_head_def removeHead_def key_def getHead_def Let_def case_prod_beta
        map_of_map_del store_keeps_refl)
qed

lemma others_kept:
  assumes "whole_writes E"
  shows "kept_by_all E (others_stay E)"
proof (intro kept_by_all.intro kept.intro kept_by_all_axioms.intro)
  show "others_stay E w (snd (store_put E b w))" for w b
    unfolding store_put_world using assms by (simp add: others_stay_def key_def put_store_keeps whole_writes_def)
  show "others_stay E u v \<Longrightarrow> others_stay E v w \<Longrightarrow> others_stay E u w" for u v w
    unfolding others_stay_def using store_keeps_trans by metis
  show "others_stay E w (snd (set_head E blockId w))" for w blockId by (rule set_head_others)
  show "others_stay E w (snd (remove_head E w))" for w by (rule remove_head_others)
qed (simp_all add: others_stay_def key_def store_keeps_refl)

text \<open>The documents of a collection of the database, by its name.\<close>

definition db_view :: "'j db_env \<Rightarrow> 'j BrightChainDb \<Rightarrow> string \<Rightarrow> string \<Rightarrow> doc option" where
  "db_view E db name = head_docs E (bd_store db) (getHead (bd_name db @ '':'' @ name) (bd_headRegistry db))"

definition named :: "'j BrightChainDb \<Rightarrow> bool" where
  "named db \<longleftrightarrow> (\<forall>(name, c) \<in> set (bd_collections db). co_name c = name \<and> co_dbName c = bd_name db)"

text \<open>
  C29: a call on one collection, whether it succeeds or throws, loses no document of another collection
  of the database, as long as no failing write cuts a block off (\<open>whole_writes\<close>: the collections share
  the blocks, and a write that fails after opening the file of a block that is there destroys it) and
  different contents have different checksums.
\<close>

theorem collections_isolated:
  assumes "whole_writes E" and "named db" and "good_store E (bd_store db)"
    and "on_collection name (run_call E c) db = (r, db')" and "no_collision E (bd_store db')"
    and "other \<noteq> name" and "db_view E db other docId = Some d"
  shows "db_view E db' other docId = Some d"
proof -
  obtain col db1 where c: "collection name db = (col, db1)" by (cases "collection name db")
  have col: "co_name col = name" "co_dbName col = bd_name db"
    using c assms(2) unfolding named_def collection_def
    by (auto simp: Let_def mkCollection_def split: option.splits dest!: map_of_SomeD)
  have db1: "bd_store db1 = bd_store db" "bd_headRegistry db1 = bd_headRegistry db" "bd_name db1 = bd_name db"
    using c by (auto simp: collection_def Let_def split: option.splits)
  obtain w' where m: "run_call E c (world_of db1 col) = (r, w')" and
    db': "bd_store db' = w_store w'" "bd_headRegistry db' = w_registry w'" "bd_name db' = bd_name db"
    using assms(4) db1 by (auto simp: on_collection_def c share_def split: prod.splits)
  have "keeps (others_stay E) (run_call E c)" by (rule kept_by_all.keeps_run_call [OF others_kept [OF assms(1)]])
  then have o: "others_stay E (world_of db1 col) w'" using m unfolding keeps_def by (metis snd_conv)
  have "key (world_of db1 col) = bd_name db @ '':'' @ name" by (simp add: key_def registry_key_def world_of_def col)
  then have head: "getHead (bd_name db @ '':'' @ other) (w_registry w') = getHead (bd_name db @ '':'' @ other) (bd_headRegistry db)"
    using o assms(6) by (simp add: others_stay_def world_of_def db1)
  have "blocks_stay (bd_store db) (w_store w')"
    using o assms(3,5) by (simp add: others_stay_def store_keeps_def world_of_def db1 db')
  then show ?thesis using assms(7) head_docs_stay unfolding db_view_def db' head by blast
qed

lemma drop_store: "w_store (snd (drop_collection E w)) = w_store w"
  by (auto simp: drop_collection_def guarded_def bnd_def remove_head_def modify_def Let_def case_prod_beta
      split: sum.split prod.split)

definition sample_db :: "json_value BrightChainDb" where
  "sample_db = \<lparr>bd_name = ''d'', bd_blockSize = Medium, bd_store = w_store inserted_world,
     bd_headRegistry = w_registry inserted_world, bd_storeLock = w_lock inserted_world, bd_tick = w_tick inserted_world,
     bd_collections = [], bd_connected = True\<rparr>"

lemma sample_db_view: "db_view (sample_env PutOk) sample_db ''c'' = [''a'' \<mapsto> sample_doc 1]"
proof -
  let ?E = "sample_env PutOk"
  have "key (snd (run_call ?E (InsertMany [sample_doc 1]) sample_world)) = key sample_world"
    by (simp only: key_def run_call_key)
  moreover have "snd (run_call ?E (InsertMany [sample_doc 1]) sample_world) = inserted_world"
    by (auto simp: ignore_def bnd_def inserted_world_def ret_def split: prod.split sum.split)
  ultimately have "key inserted_world = ''d:c''"
    by (simp add: key_def registry_key_def sample_world_def mkCollection_def)
  then show ?thesis using inserted_ok(2) by (simp add: view_def db_view_def sample_db_def)
qed

theorem collections_isolated_witness:
  "db_view (sample_env PutOk) (snd (on_collection ''x'' (run_call (sample_env PutOk) Drop) sample_db)) ''c'' ''a'' = Some (sample_doc 1)"
proof -
  let ?E = "sample_env PutOk"
  obtain r db' where d: "on_collection ''x'' (run_call ?E Drop) sample_db = (r, db')" by (meson surj_pair)
  have "bd_store db' = w_store inserted_world"
    using d drop_store [of ?E "world_of (snd (collection ''x'' sample_db)) (fst (collection ''x'' sample_db))"]
    by (auto simp: on_collection_def Let_def case_prod_beta share_def world_of_def collection_def sample_db_def)
  then have nc: "no_collision ?E (bd_store db')" using inserted_no_collision by simp
  have good: "named sample_db" "good_store ?E (bd_store sample_db)"
    using inserted_ok(1) by (simp_all add: named_def sample_db_def db_ok_def)
  show ?thesis
    using collections_isolated [OF env_whole [OF sample_env_ok] good d nc, of "''c''" "''a''" "sample_doc 1"]
    unfolding d snd_conv by (simp add: sample_db_view)
qed

text \<open>Dropping a database clears the heads of every database in the same directory.\<close>

lemma drop_database_clears_all:
  assumes "dropDatabase E db = (Inr (), db')"
  shows "getHead k (bd_headRegistry db') = None \<and> bd_collections db' = []"
proof -
  obtain db1 where d: "drop_each E (de_order E (bd_tick db) (listCollections db)) db = (Inr (), db1)"
    using assms by (auto simp: dropDatabase_def split: prod.splits sum.splits)
  let ?t = "bd_tick db1"
  obtain reg r where c: "clear (de_json E) (de_registry_taken E ?t) (de_registry_io E ?t) (bd_headRegistry db1) = (reg, r)"
    by (meson surj_pair)
  have "r = Inr ()" "bd_headRegistry db' = reg" "bd_collections db' = []"
    using assms by (auto simp: dropDatabase_def d c Let_def)
  moreover have "hr_heads reg = []"
    using c [unfolded clear_def] calculation(1) by (cases rule: locked_update_cases) auto
  ultimately show ?thesis by (simp add: getHead_def)
qed

text \<open>A collection that was not asked for since the program started is not dropped.\<close>

lemma unopened_stays: "map_of (bd_collections db) name = None \<Longrightarrow> dropCollection E name db = (Inr (), db)"
  by (simp add: dropCollection_def)

end
