(* ===== verification/Discovery.thy ===== *)
theory Discovery
  imports PeerManager BloomFilter BlockStore
begin

text \<open>
  \<open>discovery_protocol.{hpp,cpp}\<close>: finding the peers that hold a block, with a cache of what was found,
  the Bloom filter of a node's own blocks, and the search in the indexes of peers. What peers answer
  comes from tables that tests fill; the code asks no peer over the network. Times are in
  nanoseconds; \<open>srt\<close> is \<open>std::sort\<close>, the number of bits of a filter is a function of the items expected.
\<close>

section \<open>State\<close>

record DiscoveryConfig =
  dc_queryTimeoutMs :: int
  dc_maxConcurrentQueries :: int
  dc_cacheTtlMs :: int
  dc_bloomFilterHashCount :: int

record LocationRecord =
  lr_nodeId :: string
  lr_latencyMs :: rat

record DiscoveryResult =
  dr_blockId :: string
  dr_found :: bool
  dr_locations :: "LocationRecord list"
  dr_queriedPeers :: int
  dr_durationMs :: int
  dr_poolId :: "string option"

record CacheEntry =
  ce_locations :: "LocationRecord list"
  ce_expiresAt :: int

record CblSearchResult =
  cs_hits :: "CblIndexEntry list"
  cs_queriedPeers :: int
  cs_durationMs :: int

record DiscoveryProtocol =
  dp_config :: DiscoveryConfig
  dp_cache :: "(string \<times> CacheEntry) list"
  dp_peerBloomFilters :: "(string \<times> BloomFilter) list"
  dp_peerQueryResponses :: "(string \<times> (string \<times> bool) list) list"
  dp_peerCblEntries :: "(string \<times> CblIndexEntry list) list"

definition mkDiscoveryProtocol :: "DiscoveryConfig \<Rightarrow> DiscoveryProtocol" where
  "mkDiscoveryProtocol config = \<lparr>dp_config = config, dp_cache = [], dp_peerBloomFilters = [], dp_peerQueryResponses = [],
     dp_peerCblEntries = []\<rparr>"

text \<open>The clock when a call starts, looks at the cache, writes it, and ends.\<close>

record clock_reads =
  ck_start :: int
  ck_check :: int
  ck_cache :: int
  ck_end :: int

definition elapsed_ms :: "clock_reads \<Rightarrow> int" where
  "elapsed_ms k = signed_take_bit 31 ((ck_end k - ck_start k) div 1000000)"

section \<open>The cache\<close>

definition isCacheValid :: "int \<Rightarrow> CacheEntry \<Rightarrow> bool" where
  "isCacheValid now e \<longleftrightarrow> now < ce_expiresAt e"

definition getCachedLocations :: "int \<Rightarrow> string \<Rightarrow> DiscoveryProtocol \<Rightarrow> LocationRecord list option" where
  "getCachedLocations now blockId d =
     (case map_of (dp_cache d) blockId of
        None \<Rightarrow> None
      | Some e \<Rightarrow> if \<not> isCacheValid now e then None else Some (ce_locations e))"

definition clearCache :: "string \<Rightarrow> DiscoveryProtocol \<Rightarrow> DiscoveryProtocol" where
  "clearCache blockId d = d\<lparr>dp_cache := map_del blockId (dp_cache d)\<rparr>"

definition clearAllCache :: "DiscoveryProtocol \<Rightarrow> DiscoveryProtocol" where
  "clearAllCache d = d\<lparr>dp_cache := []\<rparr>"

definition getCacheSize :: "DiscoveryProtocol \<Rightarrow> nat" where
  "getCacheSize d = length (dp_cache d)"

definition cacheLocations :: "int \<Rightarrow> string \<Rightarrow> LocationRecord list \<Rightarrow> DiscoveryProtocol \<Rightarrow> DiscoveryProtocol" where
  "cacheLocations now blockId locations d = d\<lparr>dp_cache := AList.update blockId
     \<lparr>ce_locations = locations, ce_expiresAt = now + dc_cacheTtlMs (dp_config d) * 1000000\<rparr> (dp_cache d)\<rparr>"

section \<open>Discovery\<close>

text \<open>Peers without a filter are asked as well; asking a filter of no bits is undefined.\<close>

fun candidate_peers :: "digest_fn \<Rightarrow> (string \<times> BloomFilter) list \<Rightarrow> string \<Rightarrow> PeerInfo list \<Rightarrow> PeerInfo list res" where
  "candidate_peers sha3 filters blockId [] = Inr []"
| "candidate_peers sha3 filters blockId (peer # peers) =
     bind_res (case map_of filters (pi_nodeId peer) of
         Some bf \<Rightarrow> mightContain sha3 (text_bytes blockId) bf
       | None \<Rightarrow> Inr True) (\<lambda>might.
     bind_res (candidate_peers sha3 filters blockId peers) (\<lambda>ps. Inr (if might then peer # ps else ps)))"

definition peer_has :: "DiscoveryProtocol \<Rightarrow> string \<Rightarrow> PeerInfo \<Rightarrow> bool" where
  "peer_has d blockId peer =
     (case map_of (dp_peerQueryResponses d) (pi_nodeId peer) of
        None \<Rightarrow> False
      | Some blocks \<Rightarrow> (case map_of blocks blockId of None \<Rightarrow> False | Some present \<Rightarrow> present))"

definition query_limit :: "DiscoveryProtocol \<Rightarrow> PeerInfo list \<Rightarrow> int" where
  "query_limit d peers = min (int (length peers)) (dc_maxConcurrentQueries (dp_config d))"

definition location :: "PeerInfo \<Rightarrow> LocationRecord" where
  "location peer = \<lparr>lr_nodeId = pi_nodeId peer, lr_latencyMs = pi_latencyMs peer\<rparr>"

definition discoverBlock :: "digest_fn \<Rightarrow> (LocationRecord list \<Rightarrow> LocationRecord list) \<Rightarrow> clock_reads \<Rightarrow> PeerManager \<Rightarrow>
    string \<Rightarrow> string option \<Rightarrow> DiscoveryProtocol \<Rightarrow> DiscoveryResult res \<times> DiscoveryProtocol" where
  "discoverBlock sha3 srt k pm blockId poolId d =
     (case getCachedLocations (ck_check k) blockId d of
        Some cached \<Rightarrow>
          (Inr \<lparr>dr_blockId = blockId, dr_found = cached \<noteq> [], dr_locations = cached, dr_queriedPeers = 0,
             dr_durationMs = elapsed_ms k, dr_poolId = poolId\<rparr>, d)
      | None \<Rightarrow>
          (case candidate_peers sha3 (dp_peerBloomFilters d) blockId (getConnectedPeers pm) of
             Inl e \<Rightarrow> (Inl e, d)
           | Inr candidatePeers \<Rightarrow>
               (let queried = take (nat (query_limit d candidatePeers)) candidatePeers;
                    locations = srt (map location (filter (peer_has d blockId) queried))
                in (Inr \<lparr>dr_blockId = blockId, dr_found = locations \<noteq> [], dr_locations = locations,
                      dr_queriedPeers = int (length queried), dr_durationMs = elapsed_ms k, dr_poolId = poolId\<rparr>,
                    cacheLocations (ck_cache k) blockId locations d))))"

section \<open>The filter of a node's own blocks\<close>

text \<open>\<open>filename\<close> of a path, and \<open>has_extension\<close> of a file name: a dot that is not its first character.\<close>

definition filename :: "string \<Rightarrow> string" where
  "filename path = rev (takeWhile (\<lambda>c. c \<noteq> CHR ''/'') (rev path))"

definition has_extension :: "string \<Rightarrow> bool" where
  "has_extension f \<longleftrightarrow> f \<noteq> ''..'' \<and> CHR ''.'' \<in> set (tl f)"

definition block_names :: "DiskBlockStore \<Rightarrow> string list" where
  "block_names s = filter (\<lambda>f. \<not> has_extension f) (map (filename \<circ> fst) (bs_files s))"

definition getLocalBloomFilter :: "digest_fn \<Rightarrow> (nat \<Rightarrow> nat) \<Rightarrow> DiskBlockStore \<Rightarrow> DiscoveryProtocol \<Rightarrow> BloomFilter res" where
  "getLocalBloomFilter sha3 bits_for s d =
     (let estimatedItems = length (block_names s) in
      bind_res (mkBloomFilter (bits_for (if estimatedItems = 0 then 1 else estimatedItems))
          (dc_bloomFilterHashCount (dp_config d))) (\<lambda>bf.
        fold_res (\<lambda>name. BloomFilter.add sha3 (text_bytes name)) (block_names s) bf))"

section \<open>Search in the indexes\<close>

text \<open>\<open>haystack.find(needle) != npos\<close>\<close>

definition occurs_in :: "string \<Rightarrow> string \<Rightarrow> bool" where
  "occurs_in needle haystack \<longleftrightarrow>
     list_ex (\<lambda>i. take (length needle) (drop i haystack) = needle) [0..<length haystack + 1]"

text \<open>The MIME type is looked for in the first block identifier and tags in the second.\<close>

definition entry_matches :: "string \<Rightarrow> string \<Rightarrow> string list \<Rightarrow> CblIndexEntry \<Rightarrow> bool" where
  "entry_matches fileName mimeType tags e \<longleftrightarrow>
     (fileName \<noteq> [] \<longrightarrow> occurs_in fileName (ci_magnetUrl e)) \<and>
     (mimeType \<noteq> [] \<longrightarrow> ci_blockId1 e = mimeType) \<and>
     (tags \<noteq> [] \<longrightarrow> list_ex (\<lambda>tag. occurs_in tag (ci_blockId2 e)) tags)"

definition searchCblMetadata :: "clock_reads \<Rightarrow> PeerManager \<Rightarrow> string \<Rightarrow> string \<Rightarrow> string list \<Rightarrow> string option \<Rightarrow>
    DiscoveryProtocol \<Rightarrow> CblSearchResult" where
  "searchCblMetadata k pm fileName mimeType tags poolId d =
     (let connectedPeers = getConnectedPeers pm;
          queried = take (nat (query_limit d connectedPeers)) connectedPeers
      in \<lparr>cs_hits = concat (map (\<lambda>peer. filter (entry_matches fileName mimeType tags)
              (case map_of (dp_peerCblEntries d) (pi_nodeId peer) of None \<Rightarrow> [] | Some es \<Rightarrow> es)) queried),
          cs_queriedPeers = int (length queried), cs_durationMs = elapsed_ms k\<rparr>)"

section \<open>Tables for tests\<close>

definition setPeerBloomFilter :: "string \<Rightarrow> BloomFilter \<Rightarrow> DiscoveryProtocol \<Rightarrow> DiscoveryProtocol" where
  "setPeerBloomFilter nodeId bf d = d\<lparr>dp_peerBloomFilters := AList.update nodeId bf (dp_peerBloomFilters d)\<rparr>"

definition setPeerQueryResponse :: "string \<Rightarrow> string \<Rightarrow> bool \<Rightarrow> DiscoveryProtocol \<Rightarrow> DiscoveryProtocol" where
  "setPeerQueryResponse nodeId blockId present d =
     (let blocks = (case map_of (dp_peerQueryResponses d) nodeId of None \<Rightarrow> [] | Some bs \<Rightarrow> bs)
      in d\<lparr>dp_peerQueryResponses := AList.update nodeId (AList.update blockId present blocks) (dp_peerQueryResponses d)\<rparr>)"

definition setPeerCblEntries :: "string \<Rightarrow> CblIndexEntry list \<Rightarrow> DiscoveryProtocol \<Rightarrow> DiscoveryProtocol" where
  "setPeerCblEntries nodeId es d = d\<lparr>dp_peerCblEntries := AList.update nodeId es (dp_peerCblEntries d)\<rparr>"

section \<open>Properties\<close>

text \<open>The peers whose filter does not exclude the block.\<close>

definition not_excluded :: "digest_fn \<Rightarrow> DiscoveryProtocol \<Rightarrow> string \<Rightarrow> PeerInfo \<Rightarrow> bool" where
  "not_excluded sha3 d blockId peer \<longleftrightarrow>
     (case map_of (dp_peerBloomFilters d) (pi_nodeId peer) of
        None \<Rightarrow> True | Some bf \<Rightarrow> mightContain sha3 (text_bytes blockId) bf = Inr True)"

lemma candidate_peers_filter:
  assumes "\<forall>bf \<in> snd ` set (dp_peerBloomFilters d). bloom_ok bf"
  shows "candidate_peers sha3 (dp_peerBloomFilters d) blockId peers = Inr (filter (not_excluded sha3 d blockId) peers)"
proof (induction peers)
  case (Cons peer peers)
  show ?case
  proof (cases "map_of (dp_peerBloomFilters d) (pi_nodeId peer)")
    case None
    then show ?thesis using Cons by (simp add: not_excluded_def)
  next
    case (Some bf)
    then have "bloom_ok bf" using assms by (force dest: map_of_SomeD)
    then obtain b where "mightContain sha3 (text_bytes blockId) bf = Inr b" using mightContain_iff by blast
    then show ?thesis using Cons Some by (simp add: not_excluded_def)
  qed
qed simp

text \<open>
  C37: a discovery that is not answered from the cache asks at most as many connected peers as the
  configuration says, only ones whose filter does not exclude the block; it returns exactly those that
  have it, nearest first, and gives the same answer from the cache until the entry expires.
\<close>

theorem discovery_finds_nearest:
  assumes "std_sort (\<lambda>a b. lr_latencyMs a < lr_latencyMs b) srt"
    and "\<forall>bf \<in> snd ` set (dp_peerBloomFilters d). bloom_ok bf"
    and "getCachedLocations (ck_check k) blockId d = None"
    and "discoverBlock sha3 srt k pm blockId poolId d = (r, d')"
  shows "\<exists>res asked. r = Inr res \<and>
    asked = take (nat (dc_maxConcurrentQueries (dp_config d))) (filter (not_excluded sha3 d blockId) (getConnectedPeers pm)) \<and>
    dr_queriedPeers res = int (length asked) \<and>
    mset (dr_locations res) = mset (map location (filter (peer_has d blockId) asked)) \<and>
    sorted_wrt (\<lambda>a b. lr_latencyMs a \<le> lr_latencyMs b) (dr_locations res) \<and>
    dr_found res = (\<exists>p \<in> set asked. peer_has d blockId p) \<and>
    (\<forall>k' poolId'. ck_check k' < ck_cache k + dc_cacheTtlMs (dp_config d) * 1000000 \<longrightarrow>
      discoverBlock sha3 srt k' pm blockId poolId' d' =
        (Inr (res\<lparr>dr_queriedPeers := 0, dr_durationMs := elapsed_ms k', dr_poolId := poolId'\<rparr>), d'))"
proof -
  let ?cands = "filter (not_excluded sha3 d blockId) (getConnectedPeers pm)"
  define asked where "asked = take (nat (query_limit d ?cands)) ?cands"
  define locs where "locs = srt (map location (filter (peer_has d blockId) asked))"
  have take: "asked = take (nat (dc_maxConcurrentQueries (dp_config d))) ?cands"
    by (auto simp: asked_def query_limit_def min_def)
  have run: "r = Inr \<lparr>dr_blockId = blockId, dr_found = locs \<noteq> [], dr_locations = locs,
        dr_queriedPeers = int (length asked), dr_durationMs = elapsed_ms k, dr_poolId = poolId\<rparr>"
      "d' = cacheLocations (ck_cache k) blockId locs d"
    using assms(4) by (simp_all add: discoverBlock_def assms(3) candidate_peers_filter [OF assms(2)] asked_def locs_def Let_def)
  have m: "mset locs = mset (map location (filter (peer_has d blockId) asked))"
    unfolding locs_def by (rule std_sort.mset_srt [OF assms(1)])
  have "sorted_wrt (\<lambda>a b. lr_latencyMs a \<le> lr_latencyMs b) locs"
    using std_sort.sorted_srt [OF assms(1)] by (simp add: locs_def not_less)
  moreover have "locs \<noteq> [] \<longleftrightarrow> (\<exists>p \<in> set asked. peer_has d blockId p)"
  proof -
    have "set locs = location ` {p \<in> set asked. peer_has d blockId p}"
      using std_sort.set_srt [OF assms(1)] by (simp add: locs_def)
    then show ?thesis by (metis (mono_tags, lifting) empty_Collect_eq image_is_empty set_empty)
  qed
  moreover have "discoverBlock sha3 srt k' pm blockId poolId' d' =
      (Inr (\<lparr>dr_blockId = blockId, dr_found = locs \<noteq> [], dr_locations = locs,
        dr_queriedPeers = 0, dr_durationMs = elapsed_ms k', dr_poolId = poolId'\<rparr>), d')"
    if "ck_check k' < ck_cache k + dc_cacheTtlMs (dp_config d) * 1000000" for k' poolId'
    using that by (simp add: discoverBlock_def run(2) cacheLocations_def getCachedLocations_def isCacheValid_def update_conv')
  ultimately show ?thesis using take m by (simp add: run(1))
qed

text \<open>A block's file has the checksum's digits as its name, and no extension.\<close>

lemma hex_digit_plain: "Codec.hex_digit (n mod 16) \<notin> {CHR ''.'', CHR ''/''}"
proof -
  have "\<forall>c \<in> set ''0123456789abcdef''. c \<notin> {CHR ''.'', CHR ''/''}" by simp
  moreover have "Codec.hex_digit (n mod 16) \<in> set ''0123456789abcdef''"
    unfolding Codec.hex_digit_def by (rule nth_mem) simp
  ultimately show ?thesis by blast
qed

lemma toHex_plain: "c \<in> set (toHex bs) \<Longrightarrow> c \<notin> {CHR ''.'', CHR ''/''}"
proof (induction bs)
  case (Cons b bs)
  have "Codec.hex_digit (unat b div 16) \<notin> {CHR ''.'', CHR ''/''}"
    using hex_digit_plain [of "unat b div 16"] unat_byte_bound [of b] by simp
  then show ?case using Cons hex_digit_plain [of "unat b"] by (auto simp: hex_byte_def)
qed simp

lemma block_filename:
  assumes "length c = 64" and "blockPath s c = Inr p"
  shows "filename p = toHex c" and "\<not> has_extension (filename p)"
proof -
  obtain pre where "p = pre @ ''/'' @ toHex c" using assms(2) by (auto simp: blockPath_Inr [OF assms(1)])
  moreover have "\<forall>x \<in> set (rev (toHex c)). x \<noteq> CHR ''/''" using toHex_plain by fastforce
  moreover have "takeWhile (\<lambda>x. x \<noteq> CHR ''/'') (rev (toHex c) @ CHR ''/'' # rev pre) = rev (toHex c)"
    using calculation(2) by (subst takeWhile_append2) simp_all
  ultimately show name: "filename p = toHex c" by (simp add: filename_def)
  have "length (toHex c) = 128" using assms(1) by (simp add: length_toHex)
  then show "\<not> has_extension (filename p)"
    using toHex_plain [of _ c] by (cases "toHex c") (auto simp: name has_extension_def)
qed

text \<open>
  C38: the filter a node makes of its own blocks recognises every block in its store, whatever other
  files are there: no peer that holds a block is passed over because of its filter.
\<close>

theorem local_filter_complete:
  assumes "length c = 64" and "get_block False c s = Inr b"
    and "1 \<le> dc_bloomFilterHashCount (dp_config d)" and "\<And>n. 0 < n \<Longrightarrow> 0 < bits_for n"
  shows "\<exists>bf. getLocalBloomFilter sha3 bits_for s d = Inr bf \<and> mightContain sha3 (text_bytes (toHex c)) bf = Inr True"
proof -
  obtain p where p: "blockPath s c = Inr p" using blockPath_Inr [OF assms(1)] by blast
  with assms(2) have "(p, b) \<in> set (bs_files s)" by (auto simp: get_block_def dest: map_of_SomeD split: option.splits)
  then have "toHex c \<in> set (block_names s)"
    using block_filename [OF assms(1) p] by (force simp: block_names_def)
  then have item: "text_bytes (toHex c) \<in> set (map text_bytes (block_names s))" by simp
  let ?n = "bits_for (if length (block_names s) = 0 then 1 else length (block_names s))"
  obtain bf0 where bf0: "mkBloomFilter ?n (dc_bloomFilterHashCount (dp_config d)) = Inr bf0"
    using assms(3) by (simp add: mkBloomFilter_def)
  have "0 < ?n" using assms(4) by simp
  then have "bloom_ok bf0" using bf0 by (auto simp: mkBloomFilter_def bloom_ok_def split: if_splits)
  from added_recognised [OF this item] obtain bf where
    "add_all sha3 (map text_bytes (block_names s)) bf0 = Inr bf" "mightContain sha3 (text_bytes (toHex c)) bf = Inr True" by blast
  then show ?thesis using bf0
    by (auto simp: getLocalBloomFilter_def Let_def add_all_map)
qed

section \<open>Examples\<close>

definition sample_manager :: PeerManager where
  "sample_manager = \<lparr>pm_sessions = map (\<lambda>(n, l). (n, \<lparr>ps_info = mkPeerInfo\<lparr>pi_nodeId := n, pi_connected := True,
       pi_latencyMs := l\<rparr>, ps_ws = True, ps_lastPongReceived = 0, ps_reconnectAttempts = 0\<rparr>)) [(''p'', 20), (''q'', 10)],
     pm_poolCache = [], pm_bootstrapAddresses = [], pm_sentMessages = [], pm_wire = [], pm_heartbeatTimer = False,
     pm_waiting = False, pm_heartbeatTimeoutMs = 0, pm_heartbeatIntervalMs = 0, pm_running = True, pm_reconnects = []\<rparr>"

definition sample_discovery :: DiscoveryProtocol where
  "sample_discovery = setPeerQueryResponse ''q'' ''b'' True (setPeerQueryResponse ''p'' ''b'' True
     (mkDiscoveryProtocol \<lparr>dc_queryTimeoutMs = 5000, dc_maxConcurrentQueries = 10, dc_cacheTtlMs = 60000,
        dc_bloomFilterHashCount = 7\<rparr>))"

definition sample_clock :: clock_reads where
  "sample_clock = \<lparr>ck_start = 0, ck_check = 1, ck_cache = 2, ck_end = 3\<rparr>"

definition sample_discover :: "DiscoveryResult res \<times> DiscoveryProtocol" where
  "sample_discover = discoverBlock BloomFilter.sample_digest (ins_sort (\<lambda>a b. lr_latencyMs a < lr_latencyMs b)) sample_clock
     sample_manager ''b'' None sample_discovery"

theorem discovery_finds_nearest_witness:
  "\<exists>res. fst sample_discover = Inr res \<and> dr_queriedPeers res = 2 \<and>
     mset (dr_locations res) = {#\<lparr>lr_nodeId = ''p'', lr_latencyMs = 20\<rparr>, \<lparr>lr_nodeId = ''q'', lr_latencyMs = 10\<rparr>#}"
proof -
  let ?d = sample_discovery
  have "getCachedLocations (ck_check sample_clock) ''b'' ?d = None" "\<forall>bf \<in> snd ` set (dp_peerBloomFilters ?d). bloom_ok bf"
    by (simp_all add: getCachedLocations_def sample_discovery_def setPeerQueryResponse_def mkDiscoveryProtocol_def)
  from discovery_finds_nearest [OF std_sort_ins_sort this(2,1) surjective_pairing, of BloomFilter.sample_digest sample_manager None]
  show ?thesis
    by (auto simp: sample_discover_def not_excluded_def sample_discovery_def setPeerQueryResponse_def mkDiscoveryProtocol_def
        getConnectedPeers_def sample_manager_def mkPeerInfo_def peer_has_def location_def)
qed

theorem local_filter_complete_witness:
  "let s = snd (put pad_env PutOk [1] \<lparr>bm_size = Medium, bm_created_at = 0, bm_length_without_padding = 1\<rparr> empty_store) in
   \<exists>bf. getLocalBloomFilter BloomFilter.sample_digest (\<lambda>n. 10 * n) s sample_discovery = Inr bf \<and>
     mightContain BloomFilter.sample_digest (text_bytes (toHex (bv_hash pad_env [1]))) bf = Inr True"
proof -
  have "length (bv_hash pad_env [1]) = 64" using pad_env_length by blast
  moreover have "get_block False (bv_hash pad_env [1])
      (snd (put pad_env PutOk [1] \<lparr>bm_size = Medium, bm_created_at = 0, bm_length_without_padding = 1\<rparr> empty_store)) = Inr [1]"
    using put_cases(2) [OF pad_env_length calculation, of False PutOk "[1]" _ empty_store] by simp
  moreover have "1 \<le> dc_bloomFilterHashCount (dp_config sample_discovery)"
    by (simp add: sample_discovery_def setPeerQueryResponse_def mkDiscoveryProtocol_def)
  ultimately show ?thesis unfolding Let_def by (intro local_filter_complete) auto
qed

end
