(* ===== verification/BlockLists.thy ===== *)
theory BlockLists
  imports BlockStore
begin

text \<open>
  \<open>cbl.{hpp,cpp}\<close>, \<open>super_cbl.{hpp,cpp}\<close>, \<open>extended_cbl.{hpp,cpp}\<close>, \<open>constants.hpp\<close>: lists of blocks, lists of
  such lists, and lists with a file name and a MIME type. Each block is a header of fixed size and
  the checksums of its children; a locale has what the two kinds of header share.
\<close>

section \<open>The check byte\<close>

definition crc_shift :: "byte \<Rightarrow> byte" where
  "crc_shift crc = (if crc AND 0x80 \<noteq> 0 then push_bit 1 crc XOR 0x07 else push_bit 1 crc)"

definition crc_byte :: "byte \<Rightarrow> byte \<Rightarrow> byte" where
  "crc_byte b crc = (crc_shift ^^ 8) (crc XOR b)"

definition calculateCRC8 :: "bytes \<Rightarrow> byte" where
  "calculateCRC8 bs = fold crc_byte bs 0"

section \<open>Headers\<close>

definition MAGIC_PREFIX :: byte where "MAGIC_PREFIX = 0xBC"
definition VERSION :: byte where "VERSION = 0x01"
definition EXTENDED_TYPE :: byte where "EXTENDED_TYPE = 0x04"
definition MAX_FILE_NAME_LENGTH :: nat where "MAX_FILE_NAME_LENGTH = 255"
definition MAX_MIME_TYPE_LENGTH :: nat where "MAX_MIME_TYPE_LENGTH = 127"

record CBLHeader =
  ch_magic :: byte
  ch_type :: byte
  ch_version :: byte
  ch_crc8 :: byte
  ch_creatorId :: bytes
  ch_dateCreated :: "64 word"
  ch_addressCount :: "32 word"
  ch_tupleSize :: byte
  ch_originalDataLength :: "64 word"
  ch_originalDataChecksum :: Checksum
  ch_isExtended :: byte
  ch_signature :: bytes

definition CBL_SIZE :: nat where "CBL_SIZE = 170"

text \<open>
  The bytes after the prefix. The length the check byte is computed over leaves out the signature twice:
  it ends after the first byte of the checksum of the data.
\<close>

definition cbl_body :: "CBLHeader \<Rightarrow> bytes" where
  "cbl_body h = ch_creatorId h @ be_bytes 8 (ch_dateCreated h) @ be_bytes 4 (ch_addressCount h) @ [ch_tupleSize h] @
     be_bytes 8 (ch_originalDataLength h) @ ch_originalDataChecksum h @ [ch_isExtended h] @ ch_signature h"

definition cbl_serialize :: "CBLHeader \<Rightarrow> bytes" where
  "cbl_serialize h = [ch_magic h, ch_type h, ch_version h, calculateCRC8 (take (106 - 4 - 64) (cbl_body h))] @ cbl_body h"

definition cbl_deserialize :: "bytes \<Rightarrow> CBLHeader res" where
  "cbl_deserialize bs =
     (if length bs < CBL_SIZE then Inl (InvalidArgument ''Insufficient data for CBL header'')
      else Inr \<lparr>ch_magic = bs ! 0, ch_type = bs ! 1, ch_version = bs ! 2, ch_crc8 = bs ! 3,
        ch_creatorId = field_at 4 16 bs, ch_dateCreated = be_word (field_at 20 8 bs),
        ch_addressCount = be_word (field_at 28 4 bs), ch_tupleSize = bs ! 32,
        ch_originalDataLength = be_word (field_at 33 8 bs), ch_originalDataChecksum = field_at 41 64 bs,
        ch_isExtended = bs ! 105, ch_signature = field_at 106 64 bs\<rparr>)"

record SuperCBLHeader =
  sh_magic :: byte
  sh_type :: byte
  sh_version :: byte
  sh_crc8 :: byte
  sh_creatorId :: bytes
  sh_dateCreated :: "64 word"
  sh_subCblCount :: "32 word"
  sh_totalBlockCount :: "32 word"
  sh_depth :: "16 word"
  sh_originalDataLength :: "64 word"
  sh_originalDataChecksum :: Checksum
  sh_signature :: bytes

text \<open>The fields take 174 bytes; the last byte of the header stays zero.\<close>

definition SUPER_SIZE :: nat where "SUPER_SIZE = 175"

definition super_body :: "SuperCBLHeader \<Rightarrow> bytes" where
  "super_body h = sh_creatorId h @ be_bytes 8 (sh_dateCreated h) @ be_bytes 4 (sh_subCblCount h) @
     be_bytes 4 (sh_totalBlockCount h) @ be_bytes 2 (sh_depth h) @ be_bytes 8 (sh_originalDataLength h) @
     sh_originalDataChecksum h @ sh_signature h @ [0]"

definition super_serialize :: "SuperCBLHeader \<Rightarrow> bytes" where
  "super_serialize h =
     [sh_magic h, sh_type h, sh_version h, calculateCRC8 (take (110 - 4 - 64) (super_body h))] @ super_body h"

definition super_deserialize :: "bytes \<Rightarrow> SuperCBLHeader res" where
  "super_deserialize bs =
     (if length bs < SUPER_SIZE then Inl (InvalidArgument ''Insufficient data for SuperCBL header'')
      else Inr \<lparr>sh_magic = bs ! 0, sh_type = bs ! 1, sh_version = bs ! 2, sh_crc8 = bs ! 3,
        sh_creatorId = field_at 4 16 bs, sh_dateCreated = be_word (field_at 20 8 bs),
        sh_subCblCount = be_word (field_at 28 4 bs), sh_totalBlockCount = be_word (field_at 32 4 bs),
        sh_depth = be_word (field_at 36 2 bs), sh_originalDataLength = be_word (field_at 38 8 bs),
        sh_originalDataChecksum = field_at 46 64 bs, sh_signature = field_at 110 64 bs\<rparr>)"

section \<open>Blocks\<close>

record 'h list_block =
  lb_blockSize :: BlockSize
  lb_checksum :: Checksum
  lb_data :: bytes
  lb_header :: 'h

definition invalid_magic :: cpp_error where
  "invalid_magic = InvalidArgument ''Invalid magic prefix''"

definition mkConstituentBlockListBlock :: "BlockSize \<Rightarrow> bytes \<Rightarrow> Checksum \<Rightarrow> CBLHeader list_block res" where
  "mkConstituentBlockListBlock blockSize content checksum =
     bind_res (cbl_deserialize content) (\<lambda>h.
       if ch_magic h \<noteq> MAGIC_PREFIX then Inl invalid_magic
       else Inr \<lparr>lb_blockSize = blockSize, lb_checksum = checksum, lb_data = content, lb_header = h\<rparr>)"

definition mkSuperCBL :: "BlockSize \<Rightarrow> bytes \<Rightarrow> Checksum \<Rightarrow> SuperCBLHeader list_block res" where
  "mkSuperCBL blockSize content checksum =
     bind_res (super_deserialize content) (\<lambda>h.
       if sh_magic h \<noteq> MAGIC_PREFIX then Inl invalid_magic
       else Inr \<lparr>lb_blockSize = blockSize, lb_checksum = checksum, lb_data = content, lb_header = h\<rparr>)"

definition list_validateSync :: "block_env \<Rightarrow> 'h list_block \<Rightarrow> unit res" where
  "list_validateSync V b =
     (if bv_hash V (lb_data b) \<noteq> lb_checksum b then Inl (RuntimeError ''Checksum mismatch'') else Inr ())"

definition cbl_layerHeaderData :: "CBLHeader list_block \<Rightarrow> bytes" where
  "cbl_layerHeaderData b = cbl_serialize (lb_header b)"

definition super_layerHeaderData :: "SuperCBLHeader list_block \<Rightarrow> bytes" where
  "super_layerHeaderData b = super_serialize (lb_header b)"

definition cbl_layerPayload :: "CBLHeader list_block \<Rightarrow> bytes" where
  "cbl_layerPayload b = (if length (lb_data b) \<le> CBL_SIZE then [] else drop CBL_SIZE (lb_data b))"

definition super_layerPayload :: "SuperCBLHeader list_block \<Rightarrow> bytes" where
  "super_layerPayload b = (if length (lb_data b) \<le> SUPER_SIZE then [] else drop SUPER_SIZE (lb_data b))"

text \<open>The checksums after the header, as many as the header says and the data has.\<close>

definition checksums_at :: "nat \<Rightarrow> nat \<Rightarrow> bytes \<Rightarrow> Checksum list" where
  "checksums_at dataStart cnt bs =
     map (\<lambda>i. field_at (dataStart + i * HASH_SIZE) HASH_SIZE bs)
       (takeWhile (\<lambda>i. \<not> length bs < dataStart + i * HASH_SIZE + HASH_SIZE) [0..<cnt])"

definition addresses :: "CBLHeader list_block \<Rightarrow> Checksum list" where
  "addresses b = checksums_at CBL_SIZE (unat (ch_addressCount (lb_header b))) (lb_data b)"

definition subCblChecksums :: "SuperCBLHeader list_block \<Rightarrow> Checksum list" where
  "subCblChecksums b = checksums_at SUPER_SIZE (unat (sh_subCblCount (lb_header b))) (lb_data b)"

text \<open>Both kinds accept every signature.\<close>

definition cbl_validateSignature :: "bytes \<Rightarrow> CBLHeader list_block \<Rightarrow> bool" where
  "cbl_validateSignature publicKey b = True"

definition super_validateSignature :: "bytes \<Rightarrow> SuperCBLHeader list_block \<Rightarrow> bool" where
  "super_validateSignature publicKey b = True"

section \<open>File names and MIME types\<close>

record ExtendedCBLMetadata =
  em_fileName :: string
  em_mimeType :: string

definition metadata_serialize :: "ExtendedCBLMetadata \<Rightarrow> bytes res" where
  "metadata_serialize m =
     (if MAX_FILE_NAME_LENGTH < length (em_fileName m) then Inl (InvalidArgument ''File name too long'')
      else if MAX_MIME_TYPE_LENGTH < length (em_mimeType m) then Inl (InvalidArgument ''MIME type too long'')
      else Inr (be_bytes 2 (of_nat (length (em_fileName m)) :: 16 word) @ text_bytes (em_fileName m) @
        [of_nat (length (em_mimeType m))] @ text_bytes (em_mimeType m)))"

definition metadata_deserialize :: "bytes \<Rightarrow> nat \<Rightarrow> ExtendedCBLMetadata res" where
  "metadata_deserialize bs offset =
     (if length bs \<le> offset + 1 then Inl (InvalidArgument ''Invalid offset for metadata'')
      else let fileNameLen = unat (be_word (field_at offset 2 bs) :: 16 word); o1 = offset + 2 in
      if length bs < o1 + fileNameLen then Inl (InvalidArgument ''Invalid file name length'')
      else let o2 = o1 + fileNameLen in
      if length bs \<le> o2 then Inl (InvalidArgument ''Missing MIME type'')
      else let mimeTypeLen = unat (bs ! o2); o3 = o2 + 1 in
      if length bs < o3 + mimeTypeLen then Inl (InvalidArgument ''Invalid MIME type length'')
      else Inr \<lparr>em_fileName = bytes_text (field_at o1 fileNameLen bs), em_mimeType = bytes_text (field_at o3 mimeTypeLen bs)\<rparr>)"

definition metadata_size :: "ExtendedCBLMetadata \<Rightarrow> nat" where
  "metadata_size m = 3 + length (em_fileName m) + length (em_mimeType m)"

text \<open>A list block and the metadata read from where its header has the signature.\<close>

record ExtendedCBL =
  ec_block :: "CBLHeader list_block"
  ec_metadata :: ExtendedCBLMetadata

definition mkExtendedCBL :: "BlockSize \<Rightarrow> bytes \<Rightarrow> Checksum \<Rightarrow> ExtendedCBL res" where
  "mkExtendedCBL blockSize content checksum =
     bind_res (mkConstituentBlockListBlock blockSize content checksum) (\<lambda>b.
       if ch_type (lb_header b) \<noteq> EXTENDED_TYPE then Inl (InvalidArgument ''Not an ExtendedCBL block'')
       else bind_res (metadata_deserialize content 106) (\<lambda>m. Inr \<lparr>ec_block = b, ec_metadata = m\<rparr>))"

text \<open>The regular expression: two names around the only slash, each a letter or digit and more of a set.\<close>

definition alnum :: "char \<Rightarrow> bool" where
  "alnum c \<longleftrightarrow> (CHR ''a'' \<le> c \<and> c \<le> CHR ''z'') \<or> (CHR ''A'' \<le> c \<and> c \<le> CHR ''Z'') \<or> (CHR ''0'' \<le> c \<and> c \<le> CHR ''9'')"

definition mime_name :: "string \<Rightarrow> bool" where
  "mime_name s \<longleftrightarrow> s \<noteq> [] \<and> alnum (hd s) \<and> list_all (\<lambda>c. alnum c \<or> c \<in> set ''!#$&-^_+.'') (tl s)"

definition mime_type_ok :: "string \<Rightarrow> bool" where
  "mime_type_ok s \<longleftrightarrow> (let t = takeWhile (\<lambda>c. c \<noteq> CHR ''/'') s in
     length t < length s \<and> mime_name t \<and> mime_name (drop (length t + 1) s))"

definition extended_validateSync :: "block_env \<Rightarrow> ExtendedCBL \<Rightarrow> unit res" where
  "extended_validateSync V e =
     bind_res (list_validateSync V (ec_block e)) (\<lambda>_.
       if MAX_FILE_NAME_LENGTH < length (em_fileName (ec_metadata e)) then Inl (RuntimeError ''File name too long'')
       else if MAX_MIME_TYPE_LENGTH < length (em_mimeType (ec_metadata e)) then Inl (RuntimeError ''MIME type too long'')
       else if \<not> mime_type_ok (em_mimeType (ec_metadata e)) then Inl (RuntimeError ''Invalid MIME type format'')
       else Inr ())"

definition extended_layerHeaderData :: "ExtendedCBL \<Rightarrow> bytes res" where
  "extended_layerHeaderData e =
     bind_res (metadata_serialize (ec_metadata e)) (\<lambda>m. Inr (cbl_layerHeaderData (ec_block e) @ m))"

definition extended_layerOverheadSize :: "ExtendedCBL \<Rightarrow> nat" where
  "extended_layerOverheadSize e = CBL_SIZE + metadata_size (ec_metadata e)"

section \<open>What the headers keep\<close>

definition cbl_wf :: "CBLHeader \<Rightarrow> bool" where
  "cbl_wf h \<longleftrightarrow> length (ch_creatorId h) = 16 \<and> length (ch_originalDataChecksum h) = 64 \<and> length (ch_signature h) = 64"

definition cbl_sealed :: "CBLHeader \<Rightarrow> CBLHeader" where
  "cbl_sealed h = h\<lparr>ch_crc8 := calculateCRC8 (take 38 (cbl_body h))\<rparr>"

definition super_wf :: "SuperCBLHeader \<Rightarrow> bool" where
  "super_wf h \<longleftrightarrow> length (sh_creatorId h) = 16 \<and> length (sh_originalDataChecksum h) = 64 \<and> length (sh_signature h) = 64"

definition super_sealed :: "SuperCBLHeader \<Rightarrow> SuperCBLHeader" where
  "super_sealed h = h\<lparr>sh_crc8 := calculateCRC8 (take 42 (super_body h))\<rparr>"

lemma length_cbl_serialize: "cbl_wf h \<Longrightarrow> length (cbl_serialize h) = CBL_SIZE"
  by (simp add: cbl_wf_def cbl_serialize_def cbl_body_def CBL_SIZE_def)

lemma length_super_serialize: "super_wf h \<Longrightarrow> length (super_serialize h) = SUPER_SIZE"
  by (simp add: super_wf_def super_serialize_def super_body_def SUPER_SIZE_def)

lemma cbl_trip:
  assumes "cbl_wf h"
  shows "cbl_deserialize (cbl_serialize h @ rest) = Inr (cbl_sealed h)"
proof -
  define c where "c = calculateCRC8 (take 38 (cbl_body h))"
  have "cbl_serialize h = [ch_magic h, ch_type h, ch_version h, c] @ cbl_body h"
    by (simp add: cbl_serialize_def c_def)
  moreover have "\<not> length (cbl_serialize h @ rest) < CBL_SIZE"
    using assms by (simp add: length_cbl_serialize)
  moreover have "cbl_sealed h = h\<lparr>ch_crc8 := c\<rparr>" by (simp add: cbl_sealed_def c_def)
  ultimately show ?thesis
    using assms by (simp add: cbl_deserialize_def cbl_wf_def cbl_body_def field_at_simps codec_simps)
qed

lemma super_trip:
  assumes "super_wf h"
  shows "super_deserialize (super_serialize h @ rest) = Inr (super_sealed h)"
proof -
  define c where "c = calculateCRC8 (take 42 (super_body h))"
  have "super_serialize h = [sh_magic h, sh_type h, sh_version h, c] @ super_body h"
    by (simp add: super_serialize_def c_def)
  moreover have "\<not> length (super_serialize h @ rest) < SUPER_SIZE"
    using assms by (simp add: length_super_serialize)
  moreover have "super_sealed h = h\<lparr>sh_crc8 := c\<rparr>" by (simp add: super_sealed_def c_def)
  ultimately show ?thesis
    using assms by (simp add: super_deserialize_def super_wf_def super_body_def field_at_simps codec_simps)
qed

text \<open>
  What the two kinds of header share: a written header has the size of its kind, what is read back
  from its start is the header with the check byte, and nothing shorter is read.
\<close>

locale header_codec =
  fixes ser :: "'h \<Rightarrow> bytes" and des :: "bytes \<Rightarrow> 'h res" and width :: nat
    and wf :: "'h \<Rightarrow> bool" and sealed :: "'h \<Rightarrow> 'h"
  assumes ser_width: "wf h \<Longrightarrow> length (ser h) = width"
    and des_ser: "wf h \<Longrightarrow> des (ser h @ rest) = Inr (sealed h)"
    and des_short: "length bs < width \<Longrightarrow> \<exists>e. des bs = Inl e"

lemma takeWhile_all: "(\<And>x. x \<in> set xs \<Longrightarrow> P x) \<Longrightarrow> takeWhile P xs = xs"
  by (simp add: takeWhile_eq_all_conv)

lemma checksums_at_concat:
  assumes "length pre = n" "\<And>c. c \<in> set cs \<Longrightarrow> length c = HASH_SIZE"
  shows "checksums_at n (length cs) (pre @ concat cs @ pad) = cs"
proof -
  have len: "length (concat cs) = length cs * HASH_SIZE"
    using assms(2) by (induction cs) (auto simp: algebra_simps)
  have fit: "n + i * HASH_SIZE + HASH_SIZE \<le> length (pre @ concat cs @ pad)" if "i < length cs" for i
    using that mult_le_mono1 [of "Suc i" "length cs" HASH_SIZE] by (simp add: len assms(1))
  have at: "field_at (n + i * HASH_SIZE) HASH_SIZE (pre @ concat cs @ pad) = cs ! i" if "i < length cs" for i
    using that assms
  proof (induction i arbitrary: cs pre n)
    case 0
    then obtain c cs' where "cs = c # cs'" by (cases cs) auto
    with 0 show ?case by (simp add: field_at_def)
  next
    case (Suc i)
    then obtain c cs' where cs: "cs = c # cs'" by (cases cs) auto
    with Suc.prems Suc.IH [of cs' "pre @ c" "n + HASH_SIZE"] show ?case
      by (simp add: add.assoc)
  qed
  have "checksums_at n (length cs) (pre @ concat cs @ pad) = map (\<lambda>i. cs ! i) [0..<length cs]"
    unfolding checksums_at_def using fit at by (subst takeWhile_all) (auto simp: not_less)
  then show ?thesis by (simp add: map_nth)
qed

context header_codec
begin

lemma children:
  assumes "wf h" "\<And>c. c \<in> set cs \<Longrightarrow> length c = HASH_SIZE"
  shows "checksums_at width (length cs) (ser h @ concat cs @ pad) = cs"
  using assms by (intro checksums_at_concat) (simp_all add: ser_width)

lemma payload: "wf h \<Longrightarrow> drop width (ser h @ rest) = rest"
  by (simp add: ser_width)

lemma read_enough: "des bs = Inr h \<Longrightarrow> width \<le> length bs"
  using des_short [of bs] by force

end

lemma cbl_short: "length bs < CBL_SIZE \<Longrightarrow> \<exists>e. cbl_deserialize bs = Inl e"
  by (simp add: cbl_deserialize_def)

lemma super_short: "length bs < SUPER_SIZE \<Longrightarrow> \<exists>e. super_deserialize bs = Inl e"
  by (simp add: super_deserialize_def)

interpretation cbl: header_codec cbl_serialize cbl_deserialize CBL_SIZE cbl_wf cbl_sealed
  by unfold_locales (simp_all add: length_cbl_serialize cbl_trip cbl_short)

interpretation super: header_codec super_serialize super_deserialize SUPER_SIZE super_wf super_sealed
  by unfold_locales (simp_all add: length_super_serialize super_trip super_short)

lemma sealed_simps [simp]:
  "ch_magic (cbl_sealed h) = ch_magic h" "ch_addressCount (cbl_sealed h) = ch_addressCount h"
  "sh_magic (super_sealed sh) = sh_magic sh" "sh_subCblCount (super_sealed sh) = sh_subCblCount sh"
  by (simp_all add: cbl_sealed_def super_sealed_def)

definition list_bytes :: "CBLHeader \<Rightarrow> Checksum list \<Rightarrow> bytes \<Rightarrow> bytes" where
  "list_bytes h cs pad = cbl_serialize h @ concat cs @ pad"

definition super_bytes :: "SuperCBLHeader \<Rightarrow> Checksum list \<Rightarrow> bytes \<Rightarrow> bytes" where
  "super_bytes h cs pad = super_serialize h @ concat cs @ pad"

lemma list_built:
  assumes "cbl_wf h" "ch_magic h = MAGIC_PREFIX"
  shows "mkConstituentBlockListBlock sz (list_bytes h cs pad) c =
    Inr \<lparr>lb_blockSize = sz, lb_checksum = c, lb_data = list_bytes h cs pad, lb_header = cbl_sealed h\<rparr>"
  using assms by (simp add: mkConstituentBlockListBlock_def list_bytes_def cbl.des_ser)

lemma super_built:
  assumes "super_wf h" "sh_magic h = MAGIC_PREFIX"
  shows "mkSuperCBL sz (super_bytes h cs pad) c =
    Inr \<lparr>lb_blockSize = sz, lb_checksum = c, lb_data = super_bytes h cs pad, lb_header = super_sealed h\<rparr>"
  using assms by (simp add: mkSuperCBL_def super_bytes_def super.des_ser)

lemma serialize_cbl_sealed [simp]:
  "cbl_serialize (cbl_sealed h) = cbl_serialize h" "super_serialize (super_sealed sh) = super_serialize sh"
  by (simp_all add: cbl_sealed_def super_sealed_def cbl_serialize_def super_serialize_def cbl_body_def super_body_def)

lemma list_children:
  assumes "cbl_wf h" "unat (ch_addressCount h) = length cs" "\<forall>c\<in>set cs. length c = HASH_SIZE"
    and "lb_data b = list_bytes h cs pad" "lb_header b = cbl_sealed h"
  shows "addresses b = cs" "cbl_layerHeaderData b @ cbl_layerPayload b = list_bytes h cs pad"
  using assms cbl.children [of h cs pad] cbl.ser_width [of h]
  by (auto simp: addresses_def cbl_layerHeaderData_def cbl_layerPayload_def list_bytes_def)

lemma super_children:
  assumes "super_wf h" "unat (sh_subCblCount h) = length cs" "\<forall>c\<in>set cs. length c = HASH_SIZE"
    and "lb_data b = super_bytes h cs pad" "lb_header b = super_sealed h"
  shows "subCblChecksums b = cs" "super_layerHeaderData b @ super_layerPayload b = super_bytes h cs pad"
  using assms super.children [of h cs pad] super.ser_width [of h]
  by (auto simp: subCblChecksums_def super_layerHeaderData_def super_layerPayload_def super_bytes_def)

text \<open>
  C39: A list of blocks keeps its children: written after a header that counts them, they are read back
  in order, by both kinds of list and whatever padding follows, with the header that was written, its
  check byte computed, and the children are the payload.
\<close>

theorem block_list_roundtrip:
  assumes children: "\<forall>c\<in>set cs. length c = HASH_SIZE"
    and list: "cbl_wf h" "ch_magic h = MAGIC_PREFIX" "unat (ch_addressCount h) = length cs"
    and super: "super_wf sh" "sh_magic sh = MAGIC_PREFIX" "unat (sh_subCblCount sh) = length cs"
  shows "(\<exists>b. mkConstituentBlockListBlock sz (list_bytes h cs pad) c = Inr b \<and> lb_header b = cbl_sealed h \<and>
      addresses b = cs \<and> cbl_layerHeaderData b @ cbl_layerPayload b = list_bytes h cs pad) \<and>
    (\<exists>b. mkSuperCBL sz (super_bytes sh cs pad) c = Inr b \<and> lb_header b = super_sealed sh \<and>
      subCblChecksums b = cs \<and> super_layerHeaderData b @ super_layerPayload b = super_bytes sh cs pad)"
  using children list super by (simp add: list_built super_built list_children super_children)

definition sample_header :: CBLHeader where
  "sample_header = \<lparr>ch_magic = MAGIC_PREFIX, ch_type = 2, ch_version = VERSION, ch_crc8 = 0, ch_creatorId = replicate 16 7,
     ch_dateCreated = 1700000000, ch_addressCount = 2, ch_tupleSize = 3, ch_originalDataLength = 1000,
     ch_originalDataChecksum = replicate 64 9, ch_isExtended = 0, ch_signature = replicate 64 5\<rparr>"

definition sample_super :: SuperCBLHeader where
  "sample_super = \<lparr>sh_magic = MAGIC_PREFIX, sh_type = 3, sh_version = VERSION, sh_crc8 = 0, sh_creatorId = replicate 16 7,
     sh_dateCreated = 1700000000, sh_subCblCount = 2, sh_totalBlockCount = 9, sh_depth = 1, sh_originalDataLength = 1000,
     sh_originalDataChecksum = replicate 64 9, sh_signature = replicate 64 5\<rparr>"

theorem block_list_roundtrip_witness:
  "(\<exists>b. mkConstituentBlockListBlock Small (list_bytes sample_header [replicate 64 1, replicate 64 2] [0, 0]) [] = Inr b \<and>
      lb_header b = cbl_sealed sample_header \<and> addresses b = [replicate 64 1, replicate 64 2] \<and>
      cbl_layerHeaderData b @ cbl_layerPayload b = list_bytes sample_header [replicate 64 1, replicate 64 2] [0, 0]) \<and>
   (\<exists>b. mkSuperCBL Small (super_bytes sample_super [replicate 64 1, replicate 64 2] [0, 0]) [] = Inr b \<and>
      lb_header b = super_sealed sample_super \<and> subCblChecksums b = [replicate 64 1, replicate 64 2] \<and>
      super_layerHeaderData b @ super_layerPayload b = super_bytes sample_super [replicate 64 1, replicate 64 2] [0, 0])"
  by (rule block_list_roundtrip)
    (simp_all add: HASH_SIZE_def cbl_wf_def super_wf_def sample_header_def sample_super_def)

section \<open>Reading stays inside the block\<close>

lemma takeWhile_less: "takeWhile (\<lambda>i. i < m) [0..<n] = [0..<min m n]"
proof (cases "n \<le> m")
  case True
  then show ?thesis by (simp add: takeWhile_all)
next
  case False
  then obtain k where k: "n = m + Suc k" by (metis add_Suc_right less_imp_Suc_add not_le)
  have "[0..<n] = [0..<m] @ m # [Suc m..<n]"
    using upt_add_eq_append [of 0 m "Suc k"] upt_conv_Cons [of m n] by (simp only: k)
  moreover have "min m n = m" using False by simp
  ultimately show ?thesis by (simp only:) (subst takeWhile_append2, auto)
qed

lemma checksums_at_fit:
  "checksums_at start cnt bs =
     map (\<lambda>i. field_at (start + i * HASH_SIZE) HASH_SIZE bs) [0..<min ((length bs - start) div HASH_SIZE) cnt]"
proof -
  have "(\<not> length bs < start + i * HASH_SIZE + HASH_SIZE) = (i < (length bs - start) div HASH_SIZE)" for i
  proof -
    have "(i < (length bs - start) div HASH_SIZE) = (Suc i * HASH_SIZE \<le> length bs - start)"
      by (simp add: Suc_le_eq [symmetric] less_eq_div_iff_mult_less_eq HASH_SIZE_def)
    also have "\<dots> = (\<not> length bs < start + i * HASH_SIZE + HASH_SIZE)" by (auto simp: HASH_SIZE_def)
    finally show ?thesis by simp
  qed
  then show ?thesis by (simp add: checksums_at_def takeWhile_less)
qed

text \<open>
  C40: However many children a header claims, the checksums read are as many as it claims or as many as
  fit behind the header, whichever is less, and each is a full one of 64 bytes: reading never leaves
  the block.
\<close>

theorem addresses_in_bounds:
  "length (addresses b) = min ((length (lb_data b) - CBL_SIZE) div HASH_SIZE) (unat (ch_addressCount (lb_header b))) \<and>
   length (subCblChecksums s) = min ((length (lb_data s) - SUPER_SIZE) div HASH_SIZE) (unat (sh_subCblCount (lb_header s))) \<and>
   {c \<in> set (addresses b) \<union> set (subCblChecksums s). length c \<noteq> HASH_SIZE} = {}"
proof -
  have "length c = HASH_SIZE" if "c \<in> set (checksums_at start cnt bs)" for start cnt bs and c :: Checksum
  proof -
    from that obtain i where i: "i < (length bs - start) div HASH_SIZE"
      and c: "c = field_at (start + i * HASH_SIZE) HASH_SIZE bs" by (auto simp: checksums_at_fit)
    from i have "Suc i * HASH_SIZE \<le> length bs - start"
      by (simp add: Suc_le_eq [symmetric] less_eq_div_iff_mult_less_eq HASH_SIZE_def)
    then have "start + i * HASH_SIZE + HASH_SIZE \<le> length bs" by (simp add: HASH_SIZE_def)
    with c show ?thesis by (simp add: length_field_at)
  qed
  then have "{c \<in> set (addresses b) \<union> set (subCblChecksums s). length c \<noteq> HASH_SIZE} = {}"
    unfolding addresses_def subCblChecksums_def by blast
  moreover have "length (checksums_at start cnt bs) = min ((length bs - start) div HASH_SIZE) cnt" for start cnt bs
    by (simp add: checksums_at_fit)
  ultimately show ?thesis by (simp add: addresses_def subCblChecksums_def)
qed

section \<open>What the check byte covers\<close>

lemma bit_crc_shift:
  assumes "k < 8"
  shows "bit (crc_shift a) k = ((bit a 7 \<and> bit (7::byte) k) \<noteq> (0 < k \<and> bit a (k - 1)))"
proof -
  have msb: "(a AND 0x80 \<noteq> 0) = bit a 7"
    using and_exp_eq_0_iff_not_bit [of a 7] by simp
  have "bit (push_bit 1 a) k = (0 < k \<and> bit a (k - 1))"
    using assms by (simp only: bit_push_bit_iff) (auto simp: Suc_le_eq dest: bit_imp_le_length)
  then show ?thesis
    by (simp only: crc_shift_def msb bit_xor_iff if_distrib [of "\<lambda>w. bit w k"] split: if_split) blast
qed

lemma crc_shift_inj: "crc_shift a = crc_shift b \<longleftrightarrow> a = b"
proof
  assume eq: "crc_shift a = crc_shift b"
  have top: "bit a 7 = bit b 7"
    using bit_crc_shift [of 0 a] bit_crc_shift [of 0 b] eq by simp
  have "bit a k = bit b k" if "k < 7" for k
    using bit_crc_shift [of "Suc k" a] bit_crc_shift [of "Suc k" b] eq top that by auto
  with top have "bit a k = bit b k" if "k < 8" for k using that by (cases "k = 7") auto
  then show "a = b" by (intro bit_word_eqI) simp
qed simp

lemma crc_byte_inj: "crc_byte c a = crc_byte c b \<longleftrightarrow> a = b" "crc_byte c a = crc_byte d a \<longleftrightarrow> c = d"
proof -
  have pow: "(crc_shift ^^ n) x = (crc_shift ^^ n) y \<longleftrightarrow> x = y" for n x y
    by (induction n) (simp_all add: crc_shift_inj)
  show "crc_byte c a = crc_byte c b \<longleftrightarrow> a = b" "crc_byte c a = crc_byte d a \<longleftrightarrow> c = d"
    unfolding crc_byte_def pow by (metis xor.commute xor.left_commute xor_self_eq xor.right_neutral)+
qed

lemma crc_fold_inj: "fold crc_byte bs a = fold crc_byte bs b \<longleftrightarrow> a = b"
  by (induction bs arbitrary: a b) (simp_all add: crc_byte_inj)

lemma crc_update:
  assumes "i < length bs"
  shows "calculateCRC8 (bs[i := b]) = calculateCRC8 bs \<longleftrightarrow> bs ! i = b"
proof -
  have crc: "calculateCRC8 (take i bs @ c # drop (Suc i) bs) =
      fold crc_byte (drop (Suc i) bs) (crc_byte c (calculateCRC8 (take i bs)))" for c
    by (simp add: calculateCRC8_def)
  have "bs[i := b] = take i bs @ b # drop (Suc i) bs" "bs = take i bs @ bs ! i # drop (Suc i) bs"
    using assms by (simp_all add: upd_conv_take_nth_drop id_take_nth_drop)
  then show ?thesis by (metis crc crc_fold_inj crc_byte_inj(2))
qed

text \<open>
  Changing one byte of what follows the prefix of a header changes the check byte exactly if the byte
  is one of the first 38, in a list, or 42, in a list of lists: the first byte of the checksum of the
  data, or none of it, and never the signature.
\<close>

lemma check_byte_covers:
  assumes "i < length bs" "b \<noteq> bs ! i"
  shows "calculateCRC8 (take n (bs[i := b])) = calculateCRC8 (take n bs) \<longleftrightarrow> n \<le> i"
proof (cases "n \<le> i")
  case False
  with assms show ?thesis using crc_update [of i "take n bs" b] by (simp add: take_update_swap)
qed simp

lemma changed_list_header:
  assumes "i < length (cbl_body h)" "b \<noteq> cbl_body h ! i" "cbl_body k = (cbl_body h)[i := b]"
  shows "cbl_serialize k ! 3 = cbl_serialize h ! 3 \<longleftrightarrow> 38 \<le> i"
  using check_byte_covers [OF assms(1,2), of 38] assms(3) by (simp add: cbl_serialize_def)

lemma changed_super_header:
  assumes "i < length (super_body h)" "b \<noteq> super_body h ! i" "super_body k = (super_body h)[i := b]"
  shows "super_serialize k ! 3 = super_serialize h ! 3 \<longleftrightarrow> 42 \<le> i"
  using check_byte_covers [OF assms(1,2), of 42] assms(3) by (simp add: super_serialize_def)

section \<open>Metadata\<close>

lemma metadata_trip:
  assumes "metadata_serialize m = Inr bs" "length pre = offset"
  shows "metadata_deserialize (pre @ bs @ rest) offset = Inr m" "length bs = metadata_size m"
proof -
  let ?f = "em_fileName m" and ?t = "em_mimeType m"
  have f: "length ?f \<le> 255" and t: "length ?t \<le> 127"
    and bs: "bs = be_bytes 2 (of_nat (length ?f) :: 16 word) @ text_bytes ?f @ [of_nat (length ?t)] @ text_bytes ?t"
    using assms(1) by (auto simp: metadata_serialize_def MAX_FILE_NAME_LENGTH_def MAX_MIME_TYPE_LENGTH_def split: if_splits)
  have len: "unat (of_nat (length ?f) :: 16 word) = length ?f" "unat (of_nat (length ?t) :: byte) = length ?t"
    using f t by (simp_all add: unat_of_nat take_bit_nat_eq_self)
  have tb: "length (text_bytes s) = length s" for s by (simp add: text_bytes_def)
  show "length bs = metadata_size m" by (simp add: bs metadata_size_def tb)
  show "metadata_deserialize (pre @ bs @ rest) offset = Inr m"
    using assms(2) by (simp add: metadata_deserialize_def Let_def bs field_at_simps codec_simps len tb bytes_text_trip)
qed

end
