(* ===== verification/VotingKeys.thy ===== *)
theory VotingKeys
  imports Paillier HexPairs DocumentAccess
begin

text \<open>
  The rest of \<open>paillier.{hpp,cpp}\<close>, and \<open>hmac_drbg.{hpp,cpp}\<close>: the texts of keys, the random factor,
  and the derivation of a member's voting keys from its key pair, from the shared secret over the
  generator of pseudorandom bytes to the two primes. HMAC, HKDF, the curve and the modular inverse are
  parameters, JSON text as in \<open>Documents\<close>.
\<close>

section \<open>Keys as text\<close>

definition hex_member :: "doc \<Rightarrow> string \<Rightarrow> bytes res" where
  "hex_member j k = bind_res (json_at j k) (\<lambda>v. bind_res (get_text v) (\<lambda>s. Inr (hex_to_bytes s)))"

definition parse_json :: "(string \<Rightarrow> doc option) \<Rightarrow> string \<Rightarrow> doc res" where
  "parse_json parse s = (case parse s of None \<Rightarrow> Inl (RuntimeError ''json parse_error'') | Some j \<Rightarrow> Inr j)"

definition bigintToHex :: "bytes \<Rightarrow> string" where
  "bigintToHex bigint = toHex bigint"

definition nHex :: "PaillierPublicKey \<Rightarrow> string" where "nHex pk = bigintToHex (pk_n pk)"
definition gHex :: "PaillierPublicKey \<Rightarrow> string" where "gHex pk = bigintToHex (pk_g pk)"
definition lambdaHex :: "PaillierPrivateKey \<Rightarrow> string" where "lambdaHex sk = bigintToHex (sk_lambda sk)"
definition muHex :: "PaillierPrivateKey \<Rightarrow> string" where "muHex sk = bigintToHex (sk_mu sk)"

definition public_toJson :: "(doc \<Rightarrow> string) \<Rightarrow> PaillierPublicKey \<Rightarrow> string" where
  "public_toJson dump pk = dump (DObj [(''g'', DStr (toHex (pk_g pk))), (''n'', DStr (toHex (pk_n pk)))])"

definition public_fromJson :: "(string \<Rightarrow> doc option) \<Rightarrow> string \<Rightarrow> PaillierPublicKey res" where
  "public_fromJson parse s =
     bind_res (parse_json parse s) (\<lambda>j.
     bind_res (hex_member j ''n'') (\<lambda>n.
     bind_res (hex_member j ''g'') (\<lambda>g. Inr (mkPublicKey n g))))"

definition private_toJson :: "(doc \<Rightarrow> string) \<Rightarrow> PaillierPrivateKey \<Rightarrow> string" where
  "private_toJson dump sk =
     dump (DObj [(''lambda'', DStr (toHex (sk_lambda sk))), (''mu'', DStr (toHex (sk_mu sk)))])"

text \<open>Reading a private key always throws.\<close>

definition private_fromJson :: "(string \<Rightarrow> doc option) \<Rightarrow> string \<Rightarrow> PaillierPrivateKey res" where
  "private_fromJson parse s =
     bind_res (parse_json parse s) (\<lambda>j.
     bind_res (hex_member j ''lambda'') (\<lambda>lambda.
     bind_res (hex_member j ''mu'') (\<lambda>mu.
       Inl (RuntimeError ''PaillierPrivateKey::fromJson requires public key - use full key pair loading''))))"

section \<open>Bits of a modulus, and the random factor\<close>

fun num_bits :: "nat \<Rightarrow> nat" where
  "num_bits n = (if n = 0 then 0 else Suc (num_bits (n div 2)))"

declare num_bits.simps [simp del]

definition bitLength :: "PaillierPublicKey \<Rightarrow> nat" where
  "bitLength pk = num_bits (bytes_to_bn (pk_n pk))"

definition hasPrimes :: "PaillierPrivateKey \<Rightarrow> bool" where
  "hasPrimes sk \<longleftrightarrow> sk_p sk \<noteq> [] \<and> sk_q sk \<noteq> []"

definition getRandomFactor :: "(nat \<Rightarrow> nat \<Rightarrow> nat) \<Rightarrow> bytes \<Rightarrow> PaillierPrivateKey \<Rightarrow> bytes res" where
  "getRandomFactor mod_inverse ciphertext sk =
     (let n = bytes_to_bn (pk_n (sk_public sk)); g = bytes_to_bn (pk_g (sk_public sk)) in
      if g \<noteq> n + 1 then Inl (RuntimeError ''Cannot recover random factor if g != n + 1'')
      else if \<not> hasPrimes sk then Inl (RuntimeError ''Cannot get random factor without p and q'')
      else let c = bytes_to_bn ciphertext; lambda = bytes_to_bn (sk_lambda sk);
               n2 = bytes_to_bn (pk_n2 (sk_public sk)); mu = bytes_to_bn (sk_mu sk);
               r = (c ^ lambda mod n2 - 1) div n;
               mu_inv = mod_inverse mu n
           in Inr (bn_to_bytes (r * mu_inv mod n)))"

section \<open>The generator of pseudorandom bytes\<close>

record HMAC_DRBG =
  hd_v :: bytes
  hd_k :: bytes

text \<open>HMAC-SHA512 of a key and data, into a vector of 64 bytes.\<close>

type_synonym hmac_fn = "bytes \<Rightarrow> bytes \<Rightarrow> bytes"

definition hmac :: "hmac_fn \<Rightarrow> bytes \<Rightarrow> bytes \<Rightarrow> bytes" where
  "hmac H key content = take 64 (H key content @ replicate 64 0)"

definition drbg_mix :: "hmac_fn \<Rightarrow> byte \<Rightarrow> bytes \<Rightarrow> HMAC_DRBG \<Rightarrow> HMAC_DRBG" where
  "drbg_mix H b content d =
     (let k = hmac H (hd_k d) (hd_v d @ [b] @ content); v = hmac H k (hd_v d) in \<lparr>hd_v = v, hd_k = k\<rparr>)"

definition drbg_update :: "hmac_fn \<Rightarrow> bytes \<Rightarrow> HMAC_DRBG \<Rightarrow> HMAC_DRBG" where
  "drbg_update H content d =
     (let d1 = drbg_mix H 0x00 content d in if content \<noteq> [] then drbg_mix H 0x01 content d1 else d1)"

definition mkHMAC_DRBG :: "hmac_fn \<Rightarrow> bytes \<Rightarrow> HMAC_DRBG" where
  "mkHMAC_DRBG H seed = drbg_update H seed \<lparr>hd_v = replicate 64 0x01, hd_k = replicate 64 0x00\<rparr>"

lemma length_hmac [simp]: "length (hmac H key content) = 64"
  by (simp add: hmac_def min_def)

function drbg_fill :: "hmac_fn \<Rightarrow> nat \<Rightarrow> HMAC_DRBG \<Rightarrow> bytes \<Rightarrow> bytes \<times> HMAC_DRBG" where
  "drbg_fill H num_bytes d result =
     (if length result < num_bytes
      then let v = hmac H (hd_k d) (hd_v d) in drbg_fill H num_bytes (d\<lparr>hd_v := v\<rparr>) (result @ v)
      else (result, d))"
  by pat_completeness auto
termination by (relation "measure (\<lambda>(H, num_bytes, d, result). num_bytes - length result)") auto

declare drbg_fill.simps [simp del]

definition drbg_generate :: "hmac_fn \<Rightarrow> nat \<Rightarrow> HMAC_DRBG \<Rightarrow> bytes \<times> HMAC_DRBG" where
  "drbg_generate H num_bytes d =
     (let (result, d1) = drbg_fill H num_bytes d [] in (take num_bytes result, drbg_update H [] d1))"

section \<open>Deterministic primes\<close>

definition SMALL_PRIMES :: "nat list" where
  "SMALL_PRIMES = [2, 3, 5, 7, 11, 13, 17, 19, 23, 29, 31, 37, 41, 43, 47, 53]"

definition small_factor :: "nat \<Rightarrow> bool" where
  "small_factor candidate \<longleftrightarrow> list_ex (\<lambda>prime. candidate mod prime = 0 \<and> candidate \<noteq> prime) SMALL_PRIMES"

text \<open>A candidate: its highest bit and its lowest are set.\<close>

definition candidate_bytes :: "nat \<Rightarrow> bytes \<Rightarrow> bytes" where
  "candidate_bytes bits bs =
     (let bs1 = bs[0 := bs ! 0 OR push_bit ((bits - 1) mod 8) 1]
      in bs1[length bs1 - 1 := bs1 ! (length bs1 - 1) OR 1])"

text \<open>The attempts that are left; \<open>None\<close> stands for a loop that does not end.\<close>

fun prime_attempts :: "hmac_fn \<Rightarrow> nat \<Rightarrow> nat \<Rightarrow> nat \<Rightarrow> HMAC_DRBG \<Rightarrow> (nat \<times> HMAC_DRBG) res option" where
  "prime_attempts H bits iterations 0 d = Some (Inl (RuntimeError ''Failed to generate prime after 10000 attempts''))"
| "prime_attempts H bits iterations (Suc n) d =
     (let (bs, d1) = drbg_generate H ((bits + 7) div 8) d; candidate = bytes_to_bn (candidate_bytes bits bs) in
      if small_factor candidate then prime_attempts H bits iterations n d1
      else case miller_rabin_test candidate iterations of
        None \<Rightarrow> None
      | Some True \<Rightarrow> Some (Inr (candidate, d1))
      | Some False \<Rightarrow> prime_attempts H bits iterations n d1)"

definition generate_deterministic_prime ::
  "hmac_fn \<Rightarrow> nat \<Rightarrow> nat \<Rightarrow> HMAC_DRBG \<Rightarrow> (nat \<times> HMAC_DRBG) res option" where
  "generate_deterministic_prime H bits iterations d =
     (if bits = 0 then Some (Inl UndefinedBehaviour) else prime_attempts H bits iterations 10000 d)"

text \<open>
  The whole derivation. \<open>ke_mul\<close> is the uncompressed point of a public key times a private one; the
  results of these calls are not checked.
\<close>

record key_env =
  ke_mul :: "bytes \<Rightarrow> bytes \<Rightarrow> bytes"
  ke_hkdf :: "bytes \<Rightarrow> string \<Rightarrow> bytes"
  ke_hmac :: hmac_fn
  ke_inverse :: "nat \<Rightarrow> nat \<Rightarrow> nat"

definition deriveVotingKeysFromECDH :: "key_env \<Rightarrow> bytes \<Rightarrow> bytes \<Rightarrow> nat \<Rightarrow> nat \<Rightarrow>
    (PaillierPublicKey \<times> PaillierPrivateKey) res option" where
  "deriveVotingKeysFromECDH E ecdhPrivateKey ecdhPublicKey keypairBitLength primeTestIterations =
     (let shared_secret = ke_mul E ecdhPrivateKey ecdhPublicKey;
          seed = ke_hkdf E shared_secret ''PaillierPrimeGen'';
          drbg = mkHMAC_DRBG (ke_hmac E) seed;
          primeBits = keypairBitLength div 2
      in case generate_deterministic_prime (ke_hmac E) primeBits primeTestIterations drbg of
           None \<Rightarrow> None
         | Some (Inl e) \<Rightarrow> Some (Inl e)
         | Some (Inr (p, drbg1)) \<Rightarrow>
             (case generate_deterministic_prime (ke_hmac E) primeBits primeTestIterations drbg1 of
                None \<Rightarrow> None
              | Some (Inl e) \<Rightarrow> Some (Inl e)
              | Some (Inr (q, drbg2)) \<Rightarrow> Some (Inr (derive_keys (ke_inverse E) p q))))"

section \<open>Texts and the random factor\<close>

lemma public_trip:
  assumes "\<And>d. parse (dump d) = Some d"
  shows "public_fromJson parse (public_toJson dump pk) = Inr (mkPublicKey (pk_n pk) (pk_g pk))"
  by (simp add: public_fromJson_def public_toJson_def parse_json_def assms hex_member_def json_at_def get_text_def codec_simps)

lemma private_never_read: "\<exists>e. private_fromJson parse s = Inl e"
  by (auto simp: private_fromJson_def bind_res_def split: sum.split)

text \<open>
  What is returned for the random factor depends on the plaintext alone: the random number of the
  encryption has no part in it.
\<close>

lemma factor_ignores_randomness:
  assumes "key_ok sk" "hides (bytes_to_bn (pk_n (sk_public sk))) (bytes_to_bn c) m"
    and "hides (bytes_to_bn (pk_n (sk_public sk))) (bytes_to_bn c') m"
  shows "getRandomFactor minv c sk = getRandomFactor minv c' sk"
proof -
  define n where "n = bytes_to_bn (pk_n (sk_public sk))"
  define l where "l = bytes_to_bn (sk_lambda sk)"
  have n: "1 < n" "bytes_to_bn (pk_n2 (sk_public sk)) = n * n" and car: "\<And>r. coprime r n \<Longrightarrow> r ^ l mod n = 1"
    using assms(1) by (auto simp: key_ok_def Let_def n_def l_def)
  have "x ^ l mod (n * n) = 1 + (l * m mod n) * n" if "hides n x m" for x
    using that n(1) car by (rule hides_power)
  with assms(2,3) show ?thesis by (simp add: getRandomFactor_def Let_def n(2) flip: n_def l_def)
qed

section \<open>The candidates\<close>

lemma length_drbg_fill: "num_bytes \<le> length (fst (drbg_fill H num_bytes d result))"
proof (induction H num_bytes d result rule: drbg_fill.induct)
  case (1 H num_bytes d result)
  then show ?case by (subst drbg_fill.simps) (simp add: Let_def)
qed

lemma length_drbg_generate: "length (fst (drbg_generate H num_bytes d)) = num_bytes"
  using length_drbg_fill [of num_bytes H d "[]"] by (simp add: drbg_generate_def case_prod_beta)

lemma bytes_to_bn_Cons: "bytes_to_bn (b # bs) = unat b * 256 ^ length bs + bytes_to_bn bs"
proof (induction bs rule: rev_induct)
  case (snoc x xs)
  have "bytes_to_bn ((b # xs) @ [x]) = bytes_to_bn (b # xs) * 256 + unat x" by (rule bytes_to_bn_snoc)
  with snoc show ?case by (simp add: algebra_simps)
qed (simp add: bytes_to_bn_def)

lemma bytes_to_bn_less: "bytes_to_bn bs < 256 ^ length bs"
proof (induction bs)
  case (Cons b bs)
  have "unat b * 256 ^ length bs + bytes_to_bn bs < (unat b + 1) * 256 ^ length bs" using Cons by simp
  also have "\<dots> \<le> 256 * 256 ^ length bs" using unat_byte_bound [of b] by (intro mult_le_mono1) simp
  finally show ?case by (simp add: bytes_to_bn_Cons)
qed simp

lemma bit_le_unat: "bit (w :: byte) k \<Longrightarrow> 2 ^ k \<le> unat w"
proof -
  assume "bit w k"
  then have "bit (unat w) k" by (simp add: bit_unsigned_iff)
  then have "odd (unat w div 2 ^ k)" by (simp add: bit_iff_odd)
  then have "unat w div 2 ^ k \<noteq> 0" by (metis even_zero)
  then show ?thesis by (simp add: div_eq_0_iff not_less)
qed

lemma odd_unat: "bit (w :: byte) 0 \<Longrightarrow> odd (unat w)"
proof -
  assume "bit w 0"
  then have "bit (unat w) 0" by (simp add: bit_unsigned_iff del: bit_0)
  then have "odd (unat w div 2 ^ 0)" unfolding bit_iff_odd .
  then show ?thesis by (simp only: power_0 div_by_1 simp_thms)
qed

lemma candidate_bounds:
  assumes "0 < bits" "length bs = (bits + 7) div 8"
  defines "c \<equiv> bytes_to_bn (candidate_bytes bits bs)"
  shows "odd c" "2 ^ (bits - 1) \<le> c" "c < 256 ^ ((bits + 7) div 8)"
proof -
  define m :: byte where "m = push_bit ((bits - 1) mod 8) 1"
  define bs1 where "bs1 = bs[0 := bs ! 0 OR m]"
  define cs where "cs = bs1[length bs1 - 1 := bs1 ! (length bs1 - 1) OR 1]"
  have c: "c = bytes_to_bn cs" by (simp only: c_def candidate_bytes_def Let_def cs_def bs1_def m_def)
  obtain k where k: "bits = Suc k" using assms(1) by (cases bits) auto
  have "(bits + 7) div 8 = k div 8 + 1" by (simp add: k)
  then have len: "length cs = (bits + 7) div 8" "0 < length cs" "length cs = (bits - 1) div 8 + 1"
    using assms(2) by (simp_all add: cs_def bs1_def k)
  have len1: "length bs1 = length cs" by (simp add: cs_def)
  show "c < 256 ^ ((bits + 7) div 8)" using bytes_to_bn_less [of cs] len(1) by (simp add: c)
  have "bit (push_bit j 1 :: byte) j" if "j < 8" for j using that by (simp only: bit_push_bit_iff) simp
  then have "bit m ((bits - 1) mod 8)" by (simp only: m_def)
  moreover have ne: "bs1 \<noteq> []" "bs \<noteq> []" using len(2) len1 by (auto simp: bs1_def)
  moreover have "bs1 ! 0 = bs ! 0 OR m" using ne(2) by (simp add: bs1_def)
  ultimately have "bit (bs1 ! 0) ((bits - 1) mod 8)" by (simp only: bit_or_iff simp_thms)
  moreover have "cs ! 0 = (if length bs1 = 1 then bs1 ! 0 OR 1 else bs1 ! 0)"
    using ne(1) by (cases bs1) (auto simp: cs_def split: nat.split)
  ultimately have top: "bit (cs ! 0) ((bits - 1) mod 8)" by (simp only: bit_or_iff simp_thms split: if_split)
  have "cs ! (length cs - 1) = bs1 ! (length cs - 1) OR 1" using ne len1 by (simp add: cs_def)
  then have low: "bit (cs ! (length cs - 1)) 0" by (simp only: bit_or_iff) simp
  have cs: "cs \<noteq> []" using len by auto
  then have "c = bytes_to_bn (butlast cs @ [last cs])" by (simp add: c)
  moreover have "odd (unat (last cs))" using low cs by (simp add: last_conv_nth odd_unat)
  ultimately show "odd c" by simp
  obtain b r where br: "cs = b # r" using cs by (cases cs) auto
  have "(2 :: nat) ^ (bits - 1) = 2 ^ ((bits - 1) mod 8 + 8 * ((bits - 1) div 8))" by simp
  also have "\<dots> = 2 ^ ((bits - 1) mod 8) * (2 ^ 8) ^ ((bits - 1) div 8)" by (simp only: power_add power_mult)
  also have "\<dots> = 2 ^ ((bits - 1) mod 8) * 256 ^ ((bits - 1) div 8)" by simp
  also have "\<dots> \<le> unat b * 256 ^ length r"
    using bit_le_unat [OF top] len(3) br by (simp add: mult_le_mono1)
  also have "\<dots> \<le> c" by (simp add: c br bytes_to_bn_Cons)
  finally show "2 ^ (bits - 1) \<le> c" .
qed

lemma miller_rabin_ends: "2 \<le> n \<Longrightarrow> miller_rabin_test n iterations \<noteq> None"
  using strip_twos_spec [of "n - 1" 0] by (auto simp: miller_rabin_test_def)

text \<open>What a number has passed that is taken for a prime.\<close>

definition taken_for_prime :: "nat \<Rightarrow> nat \<Rightarrow> nat \<Rightarrow> bool" where
  "taken_for_prime bits iterations p \<longleftrightarrow> odd p \<and> 2 ^ (bits - 1) \<le> p \<and> p < 256 ^ ((bits + 7) div 8) \<and>
     \<not> small_factor p \<and> miller_rabin_test p iterations = Some True"

lemma prime_attempts_result:
  assumes "2 \<le> bits"
  shows "prime_attempts H bits iterations n d = Some (Inl (RuntimeError ''Failed to generate prime after 10000 attempts'')) \<or>
    (\<exists>p d'. prime_attempts H bits iterations n d = Some (Inr (p, d')) \<and> taken_for_prime bits iterations p)"
proof (induction n arbitrary: d)
  case (Suc n)
  obtain bs d1 where gen: "drbg_generate H ((bits + 7) div 8) d = (bs, d1)" by fastforce
  define c where "c = bytes_to_bn (candidate_bytes bits bs)"
  have "length bs = (bits + 7) div 8" using length_drbg_generate [of H "(bits + 7) div 8" d] by (simp add: gen)
  then have c: "odd c" "2 ^ (bits - 1) \<le> c" "c < 256 ^ ((bits + 7) div 8)"
    using candidate_bounds [of bits bs] assms by (simp_all add: c_def)
  have "2 ^ 1 \<le> (2 :: nat) ^ (bits - 1)" using assms by (intro power_increasing) auto
  with c(2) have "miller_rabin_test c iterations \<noteq> None" by (intro miller_rabin_ends) simp
  then obtain ok where mr: "miller_rabin_test c iterations = Some ok" by auto
  show ?case
  proof (cases "small_factor c \<or> \<not> ok")
    case True
    then have "prime_attempts H bits iterations (Suc n) d = prime_attempts H bits iterations n d1"
      by (auto simp: gen mr Let_def simp flip: c_def)
    with Suc.IH [of d1] show ?thesis by simp
  next
    case False
    then have "prime_attempts H bits iterations (Suc n) d = Some (Inr (c, d1))"
      by (simp add: gen mr Let_def flip: c_def)
    with False c mr show ?thesis by (auto simp: taken_for_prime_def)
  qed
qed simp

text \<open>
  C35: For keys of four bits and more, the derivation of voting keys always ends: it fails after 10000
  attempts at a prime, or it makes the keys of two odd numbers of at least half as many bits that have
  no small factor and pass the primality test; the keys decrypt what they encrypt if these are
  different primes to which the order of the group is coprime.
\<close>

theorem derivation_ends:
  assumes "4 \<le> keypairBitLength"
  shows "\<exists>r. deriveVotingKeysFromECDH E secret public keypairBitLength iterations = Some r \<and>
    (case r of
       Inl e \<Rightarrow> e = RuntimeError ''Failed to generate prime after 10000 attempts''
     | Inr (pk, sk) \<Rightarrow> \<exists>p q. (pk, sk) = derive_keys (ke_inverse E) p q \<and>
         taken_for_prime (keypairBitLength div 2) iterations p \<and> taken_for_prime (keypairBitLength div 2) iterations q \<and>
         (is_prime p \<and> is_prime q \<and> p \<noteq> q \<and> coprime (p * q) ((p - 1) * (q - 1)) \<and> mod_inverse_law (ke_inverse E) \<longrightarrow> key_ok sk))"
proof -
  let ?bits = "keypairBitLength div 2"
  have bits: "2 \<le> ?bits" using assms by simp
  have gen: "generate_deterministic_prime (ke_hmac E) ?bits iterations d =
      Some (Inl (RuntimeError ''Failed to generate prime after 10000 attempts'')) \<or>
    (\<exists>p d'. generate_deterministic_prime (ke_hmac E) ?bits iterations d = Some (Inr (p, d')) \<and> taken_for_prime ?bits iterations p)" for d
    using prime_attempts_result [OF bits, of "ke_hmac E" iterations 10000 d] bits
    unfolding generate_deterministic_prime_def by auto
  let ?d = "mkHMAC_DRBG (ke_hmac E) (ke_hkdf E (ke_mul E secret public) ''PaillierPrimeGen'')"
  from gen [of ?d] show ?thesis
  proof (elim disjE exE conjE)
    assume "generate_deterministic_prime (ke_hmac E) ?bits iterations ?d =
      Some (Inl (RuntimeError ''Failed to generate prime after 10000 attempts''))"
    then show ?thesis by (simp add: deriveVotingKeysFromECDH_def)
  next
    fix p d1
    assume p: "generate_deterministic_prime (ke_hmac E) ?bits iterations ?d = Some (Inr (p, d1))" "taken_for_prime ?bits iterations p"
    from gen [of d1] show ?thesis
    proof (elim disjE exE conjE)
      assume "generate_deterministic_prime (ke_hmac E) ?bits iterations d1 =
        Some (Inl (RuntimeError ''Failed to generate prime after 10000 attempts''))"
      with p(1) show ?thesis by (simp add: deriveVotingKeysFromECDH_def)
    next
      fix q d2
      assume q: "generate_deterministic_prime (ke_hmac E) ?bits iterations d1 = Some (Inr (q, d2))" "taken_for_prime ?bits iterations q"
      have "deriveVotingKeysFromECDH E secret public keypairBitLength iterations = Some (Inr (derive_keys (ke_inverse E) p q))"
        using p(1) q(1) by (simp add: deriveVotingKeysFromECDH_def)
      moreover obtain pk sk where "derive_keys (ke_inverse E) p q = (pk, sk)" by fastforce
      moreover have "is_prime p \<and> is_prime q \<and> p \<noteq> q \<and> coprime (p * q) ((p - 1) * (q - 1)) \<and>
          mod_inverse_law (ke_inverse E) \<longrightarrow> key_ok sk"
        using derive_keys_ok [of p q "ke_inverse E"] calculation(2) by auto
      ultimately show ?thesis using p(2) q(2) by (intro exI [of _ "Inr (pk, sk)"]) (simp del: One_nat_def, metis)
    qed
  qed
qed

lemma derived_from_numbers:
  "deriveVotingKeysFromECDH E secret public bits iterations = Some (Inr ks) \<Longrightarrow> \<exists>p q. ks = derive_keys (ke_inverse E) p q"
  unfolding deriveVotingKeysFromECDH_def Let_def by (fastforce split: option.splits sum.splits)

text \<open>An example: the keystream is constant, the inverse is looked for.\<close>

definition key_sample :: key_env where
  "key_sample = \<lparr>ke_mul = (\<lambda>a b. a @ b), ke_hkdf = (\<lambda>secret info. secret), ke_hmac = (\<lambda>k v. replicate 64 0),
     ke_inverse = (\<lambda>a n. case find (\<lambda>x. a * x mod n = 1) [0..<n] of None \<Rightarrow> 0 | Some x \<Rightarrow> x)\<rparr>"

theorem derivation_ends_witness:
  "\<exists>r. deriveVotingKeysFromECDH key_sample [1] [2] 16 5 = Some r \<and>
    (case r of
       Inl e \<Rightarrow> e = RuntimeError ''Failed to generate prime after 10000 attempts''
     | Inr (pk, sk) \<Rightarrow> \<exists>p q. (pk, sk) = derive_keys (ke_inverse key_sample) p q \<and>
         taken_for_prime (16 div 2) 5 p \<and> taken_for_prime (16 div 2) 5 q \<and>
         (is_prime p \<and> is_prime q \<and> p \<noteq> q \<and> coprime (p * q) ((p - 1) * (q - 1)) \<and>
           mod_inverse_law (ke_inverse key_sample) \<longrightarrow> key_ok sk))"
  by (rule derivation_ends) simp

end
