(* ===== verification/Ecies.thy ===== *)
theory Ecies
  imports HexPairs
begin

text \<open>
  \<open>aes_gcm.{hpp,cpp}\<close>, \<open>ec_key_pair.{hpp,cpp}\<close>, \<open>ecies.{hpp,cpp}\<close>: encryption to one or several public
  keys. The curve, the key derivation and the cipher of OpenSSL are parameters, with their documented
  laws; so are the random bytes and which calls of OpenSSL fail. Data is shorter than an \<open>int\<close> holds.
\<close>

section \<open>OpenSSL\<close>

text \<open>
  The public key of a private key, which bytes are a point or a private key of the curve, the secret
  that a private and a public key share, HKDF, the cipher, and signatures.
\<close>

record crypto =
  cr_public :: "bytes \<Rightarrow> bytes"
  cr_scalar :: "bytes \<Rightarrow> bool"
  cr_point :: "bytes \<Rightarrow> bool"
  cr_ecdh :: "bytes \<Rightarrow> bytes \<Rightarrow> bytes option"
  cr_hkdf :: "bytes \<Rightarrow> string \<Rightarrow> bytes"
  cr_seal :: "bytes \<Rightarrow> bytes \<Rightarrow> bytes \<Rightarrow> bytes \<Rightarrow> bytes \<times> bytes"
  cr_open :: "bytes \<Rightarrow> bytes \<Rightarrow> bytes \<Rightarrow> bytes \<Rightarrow> bytes \<Rightarrow> bytes option"
  cr_sign :: "bytes \<Rightarrow> bytes \<Rightarrow> bytes option"
  cr_verify :: "bytes \<Rightarrow> bytes \<Rightarrow> bytes \<Rightarrow> bool"

datatype ssl_call =
    EcNew | EcGenerate | EcSetPrivate | EcPoint | EcMul | HkdfSetup | HkdfDerive | Rand
  | CipherNew | CipherInit | CipherIvLength | CipherKey | CipherAad | CipherUpdate | CipherFinal | CipherTag

text \<open>Which calls of an operation succeed.\<close>

type_synonym ssl = "ssl_call \<Rightarrow> bool"

definition ssl_failed :: "string \<Rightarrow> cpp_error + 'a" where
  "ssl_failed what = Inl (RuntimeError what)"

section \<open>AES-256-GCM\<close>

definition KEY_SIZE :: nat where "KEY_SIZE = 32"
definition IV_SIZE :: nat where "IV_SIZE = 12"
definition TAG_SIZE :: nat where "TAG_SIZE = 16"

definition generateKey :: "ssl \<Rightarrow> bytes \<Rightarrow> bytes res" where
  "generateKey ok random = (if \<not> ok Rand then ssl_failed ''Failed to generate random key'' else Inr random)"

definition generateIV :: "ssl \<Rightarrow> bytes \<Rightarrow> bytes res" where
  "generateIV ok random = (if \<not> ok Rand then ssl_failed ''Failed to generate random IV'' else Inr random)"

text \<open>The ciphertext and its tag.\<close>

definition gcm_encrypt :: "crypto \<Rightarrow> ssl \<Rightarrow> bytes \<Rightarrow> bytes \<Rightarrow> bytes \<Rightarrow> bytes \<Rightarrow> (bytes \<times> bytes) res" where
  "gcm_encrypt C ok plaintext key iv aad =
     (if \<not> ok CipherNew then ssl_failed ''Failed to create cipher context''
      else if \<not> ok CipherInit then ssl_failed ''Failed to initialize encryption''
      else if \<not> ok CipherIvLength then ssl_failed ''Failed to set IV length''
      else if \<not> ok CipherKey then ssl_failed ''Failed to set key and IV''
      else if aad \<noteq> [] \<and> \<not> ok CipherAad then ssl_failed ''Failed to process AAD''
      else if \<not> ok CipherUpdate then ssl_failed ''Failed to encrypt data''
      else if \<not> ok CipherFinal then ssl_failed ''Failed to finalize encryption''
      else if \<not> ok CipherTag then ssl_failed ''Failed to get authentication tag''
      else Inr (cr_seal C key iv aad plaintext))"

definition gcm_decrypt :: "crypto \<Rightarrow> ssl \<Rightarrow> bytes \<Rightarrow> bytes \<Rightarrow> bytes \<Rightarrow> bytes \<Rightarrow> bytes \<Rightarrow> bytes res" where
  "gcm_decrypt C ok ciphertext key iv tag aad =
     (if \<not> ok CipherNew then ssl_failed ''Failed to create cipher context''
      else if \<not> ok CipherInit then ssl_failed ''Failed to initialize decryption''
      else if \<not> ok CipherIvLength then ssl_failed ''Failed to set IV length''
      else if \<not> ok CipherKey then ssl_failed ''Failed to set key and IV''
      else if aad \<noteq> [] \<and> \<not> ok CipherAad then ssl_failed ''Failed to process AAD''
      else if \<not> ok CipherUpdate then ssl_failed ''Failed to decrypt data''
      else if \<not> ok CipherTag then ssl_failed ''Failed to set authentication tag''
      else case cr_open C key iv aad ciphertext tag of
        None \<Rightarrow> ssl_failed ''Authentication failed - data may be corrupted''
      | Some plaintext \<Rightarrow> Inr plaintext)"

section \<open>Key pairs\<close>

record EcKeyPair =
  ek_private :: bytes
  ek_public :: bytes

definition ec_generate :: "crypto \<Rightarrow> ssl \<Rightarrow> bytes \<Rightarrow> EcKeyPair res" where
  "ec_generate C ok secret =
     (if \<not> ok EcNew then ssl_failed ''Failed to create EC key''
      else if \<not> ok EcGenerate then ssl_failed ''Failed to generate EC key''
      else Inr \<lparr>ek_private = secret, ek_public = cr_public C secret\<rparr>)"

definition fromPrivateKey :: "crypto \<Rightarrow> ssl \<Rightarrow> bytes \<Rightarrow> EcKeyPair res" where
  "fromPrivateKey C ok privateKey =
     (if length privateKey \<noteq> 32 then Inl (InvalidArgument ''Private key must be 32 bytes'')
      else if \<not> ok EcNew then ssl_failed ''Failed to create EC key''
      else if \<not> (ok EcSetPrivate \<and> cr_scalar C privateKey) then ssl_failed ''Failed to set private key''
      else if \<not> ok EcMul then ssl_failed ''Failed to compute public key''
      else Inr \<lparr>ek_private = privateKey, ek_public = cr_public C privateKey\<rparr>)"

definition fromPrivateKeyHex :: "crypto \<Rightarrow> ssl \<Rightarrow> string \<Rightarrow> EcKeyPair res" where
  "fromPrivateKeyHex C ok hex =
     (if length hex \<noteq> 64 then Inl (InvalidArgument ''Private key hex must be 64 characters'')
      else bind_res (map_res (\<lambda>i. case stoi16 [hex ! (2 * i), hex ! (2 * i + 1)] of
             None \<Rightarrow> Inl (InvalidArgument ''stoi'') | Some n \<Rightarrow> Inr (word_of_int n)) [0..<32])
        (fromPrivateKey C ok))"

definition publicKeyHex :: "EcKeyPair \<Rightarrow> string" where
  "publicKeyHex k = toHex (ek_public k)"

definition privateKeyHex :: "EcKeyPair \<Rightarrow> string" where
  "privateKeyHex k = toHex (ek_private k)"

definition ec_sign :: "crypto \<Rightarrow> bytes \<Rightarrow> EcKeyPair \<Rightarrow> bytes res" where
  "ec_sign C msg k = (case cr_sign C (ek_private k) msg of None \<Rightarrow> ssl_failed ''Failed to sign data'' | Some sig \<Rightarrow> Inr sig)"

definition ec_verify :: "crypto \<Rightarrow> ssl \<Rightarrow> bytes \<Rightarrow> bytes \<Rightarrow> bytes \<Rightarrow> bool" where
  "ec_verify C ok msg sig publicKey \<longleftrightarrow> ok EcNew \<and> (ok EcPoint \<and> cr_point C publicKey) \<and> cr_verify C publicKey msg sig"

lemma hex_key_trip: "length (ek_private k) = 32 \<Longrightarrow> fromPrivateKeyHex C ok (privateKeyHex k) = fromPrivateKey C ok (ek_private k)"
  using stoi_pairs_toHex [where bs = "ek_private k" and e = "InvalidArgument ''stoi''"]
  by (simp add: fromPrivateKeyHex_def privateKeyHex_def length_toHex)

section \<open>Encryption\<close>

text \<open>The kind is any byte; these have names.\<close>

abbreviation (input) Basic :: byte where "Basic \<equiv> 33"
abbreviation (input) WithLength :: byte where "WithLength \<equiv> 66"
abbreviation (input) Multiple :: byte where "Multiple \<equiv> 99"

definition ECIES_VERSION :: byte where "ECIES_VERSION = 1"
definition CIPHER_SUITE :: byte where "CIPHER_SUITE = 1"
definition EPHEMERAL_KEY_SIZE :: nat where "EPHEMERAL_KEY_SIZE = 33"
definition HEADER_SIZE :: nat where "HEADER_SIZE = 3"

text \<open>The steps the four operations repeat; \<open>who\<close> and \<open>what\<close> are the words of their messages.\<close>

definition shared_secret :: "crypto \<Rightarrow> ssl \<Rightarrow> string \<Rightarrow> bytes \<Rightarrow> bytes \<Rightarrow> bytes res" where
  "shared_secret C ok who privateKey publicKey =
     (if \<not> ok EcNew then ssl_failed (''Failed to create '' @ who @ '' EC key'')
      else if \<not> (ok EcPoint \<and> cr_point C publicKey) then ssl_failed (''Invalid '' @ who @ '' public key'')
      else case cr_ecdh C privateKey publicKey of
        None \<Rightarrow> ssl_failed ''Failed to compute shared secret''
      | Some secret \<Rightarrow> Inr secret)"

definition derive_key :: "crypto \<Rightarrow> ssl \<Rightarrow> string \<Rightarrow> string \<Rightarrow> string \<Rightarrow> bytes \<Rightarrow> bytes res" where
  "derive_key C ok info purpose what secret =
     (if \<not> ok HkdfSetup then ssl_failed (''Failed to setup HKDF'' @ purpose)
      else if \<not> ok HkdfDerive then ssl_failed (''Failed to derive '' @ what)
      else Inr (cr_hkdf C secret info))"

definition header_bytes :: "byte \<Rightarrow> bytes \<Rightarrow> bytes" where
  "header_bytes ty ephemeralPublicKey = [ECIES_VERSION, CIPHER_SUITE, ty] @ ephemeralPublicKey"

text \<open>The random bytes of an encryption.\<close>

record ecies_random =
  er_secret :: bytes
  er_key :: bytes
  er_iv :: bytes

definition encryptInternal :: "crypto \<Rightarrow> ssl \<Rightarrow> ecies_random \<Rightarrow> bytes \<Rightarrow> bytes \<Rightarrow> byte \<Rightarrow> bytes res" where
  "encryptInternal C ok rnd plaintext recipientPublicKey ty =
     bind_res (ec_generate C ok (er_secret rnd)) (\<lambda>eph.
     bind_res (shared_secret C ok ''recipient'' (ek_private eph) recipientPublicKey) (\<lambda>secret.
     bind_res (derive_key C ok ''ecies-v2-key-derivation'' [] ''AES key'' secret) (\<lambda>aesKey.
     bind_res (generateIV ok (er_iv rnd)) (\<lambda>iv.
     bind_res (gcm_encrypt C ok plaintext aesKey iv (header_bytes ty (ek_public eph))) (\<lambda>(ciphertext, tag).
       Inr (header_bytes ty (ek_public eph) @ iv @ tag @
         (if ty = WithLength then be_bytes 8 (of_nat (length ciphertext) :: 64 word) else []) @ ciphertext))))))"

definition encryptBasic :: "crypto \<Rightarrow> ssl \<Rightarrow> ecies_random \<Rightarrow> bytes \<Rightarrow> bytes \<Rightarrow> bytes res" where
  "encryptBasic C ok rnd plaintext recipientPublicKey = encryptInternal C ok rnd plaintext recipientPublicKey Basic"

definition encryptWithLength :: "crypto \<Rightarrow> ssl \<Rightarrow> ecies_random \<Rightarrow> bytes \<Rightarrow> bytes \<Rightarrow> bytes res" where
  "encryptWithLength C ok rnd plaintext recipientPublicKey = encryptInternal C ok rnd plaintext recipientPublicKey WithLength"

definition encryptSymmetricKey :: "crypto \<Rightarrow> ssl \<Rightarrow> bytes \<Rightarrow> bytes \<Rightarrow> EcKeyPair \<Rightarrow> bytes \<Rightarrow> bytes res" where
  "encryptSymmetricKey C ok symmetricKey recipientPublicKey eph iv =
     bind_res (shared_secret C ok ''recipient'' (ek_private eph) recipientPublicKey) (\<lambda>secret.
     bind_res (derive_key C ok ''ecies-v2-key-encryption'' '' for key encryption'' ''key encryption key'' secret) (\<lambda>encKey.
     bind_res (gcm_encrypt C ok symmetricKey encKey iv (ek_public eph @ iv)) (\<lambda>(encryptedKey, keyTag).
       Inr (encryptedKey @ keyTag))))"

text \<open>
  Reading the next bytes of a message from what is left of it. The reads of the code are unchecked: one
  that leaves the message is undefined behaviour, and only the comparisons the code makes prevent it.
\<close>

definition fetch :: "nat \<Rightarrow> bytes \<Rightarrow> (bytes \<times> bytes) res" where
  "fetch n rest = (if n \<le> length rest then Inr (take n rest, drop n rest) else Inl UndefinedBehaviour)"

lemma fetch_append [codec_simps]: "length xs = n \<Longrightarrow> fetch n (xs @ ys) = Inr (xs, ys)"
  by (auto simp: fetch_def)

lemma fetch_all [codec_simps]: "length xs = n \<Longrightarrow> fetch n xs = Inr (xs, [])"
  by (auto simp: fetch_def)

text \<open>The key is in front of its tag: \<open>end() - TAG_SIZE\<close> of a shorter vector is before its begin.\<close>

definition decryptSymmetricKey :: "crypto \<Rightarrow> ssl \<Rightarrow> bytes \<Rightarrow> bytes \<Rightarrow> bytes \<Rightarrow> bytes \<Rightarrow> bytes res" where
  "decryptSymmetricKey C ok encryptedSymmetricKey ephemeralPublicKey privateKey iv =
     bind_res (shared_secret C ok ''ephemeral'' privateKey ephemeralPublicKey) (\<lambda>secret.
     bind_res (derive_key C ok ''ecies-v2-key-encryption'' '' for key decryption'' ''key decryption key'' secret) (\<lambda>decKey.
       if length encryptedSymmetricKey < TAG_SIZE then ssl_failed ''Encrypted key too short''
       else bind_res (fetch (length encryptedSymmetricKey - TAG_SIZE) encryptedSymmetricKey) (\<lambda>(encrypted, rest).
         bind_res (fetch TAG_SIZE rest) (\<lambda>(tag, end).
         bind_res (gcm_decrypt C ok encrypted decKey iv tag (ephemeralPublicKey @ iv)) (\<lambda>key.
           if length key \<noteq> KEY_SIZE then ssl_failed ''Decrypted key has incorrect size'' else Inr key)))))"

text \<open>Which calls succeed for the data, and for the key of each recipient.\<close>

definition entry_bytes :: "nat \<times> bytes \<Rightarrow> bytes" where
  "entry_bytes = (\<lambda>(index, encryptedKey). be_bytes 4 (of_nat index :: 32 word) @
     be_bytes 2 (of_nat (length encryptedKey) :: 16 word) @ encryptedKey)"

definition encryptMultiple :: "crypto \<Rightarrow> ssl \<Rightarrow> (nat \<Rightarrow> ssl) \<Rightarrow> ecies_random \<Rightarrow> bytes \<Rightarrow> bytes list \<Rightarrow> bytes res" where
  "encryptMultiple C ok oks rnd plaintext recipientPublicKeys =
     (if recipientPublicKeys = [] then ssl_failed ''Must have at least one recipient''
      else if 0xFFFFFFFF < length recipientPublicKeys then ssl_failed ''Too many recipients''
      else bind_res (ec_generate C ok (er_secret rnd)) (\<lambda>eph.
        bind_res (generateKey ok (er_key rnd)) (\<lambda>symmetricKey.
        bind_res (generateIV ok (er_iv rnd)) (\<lambda>iv.
        bind_res (gcm_encrypt C ok plaintext symmetricKey iv (header_bytes Multiple (ek_public eph))) (\<lambda>(ciphertext, tag).
        bind_res (map_res (\<lambda>i. bind_res (encryptSymmetricKey C (oks i) symmetricKey (recipientPublicKeys ! i) eph iv)
            (\<lambda>encryptedKey. Inr (i, encryptedKey))) [0..<length recipientPublicKeys]) (\<lambda>encryptedKeys.
          Inr (header_bytes Multiple (ek_public eph) @ iv @ be_bytes 4 (of_nat (length recipientPublicKeys) :: 32 word) @
            concat (map entry_bytes encryptedKeys) @ tag @ ciphertext)))))))"

section \<open>Decryption\<close>

text \<open>
  A key is tried only while none is found; what it throws is caught, but undefined behaviour is not an
  exception.
\<close>

definition try_key :: "crypto \<Rightarrow> ssl \<Rightarrow> bytes \<Rightarrow> bytes \<Rightarrow> bytes \<Rightarrow> bytes \<Rightarrow> bytes option \<Rightarrow> bytes option res" where
  "try_key C ok encryptedKey eph privateKey iv found = (case found of
     Some key \<Rightarrow> Inr (Some key)
   | None \<Rightarrow> (case decryptSymmetricKey C ok encryptedKey eph privateKey iv of
       Inr key \<Rightarrow> Inr (Some key)
     | Inl e \<Rightarrow> if e = UndefinedBehaviour then Inl UndefinedBehaviour else Inr None))"

text \<open>The entries of the recipients: every one is parsed, and the first key that opens is kept.\<close>

fun find_key :: "crypto \<Rightarrow> (nat \<Rightarrow> ssl) \<Rightarrow> bytes \<Rightarrow> bytes \<Rightarrow> bytes \<Rightarrow> nat \<Rightarrow> nat \<Rightarrow> bytes \<Rightarrow> bytes option \<Rightarrow>
    (bytes option \<times> bytes) res" where
  "find_key C oks eph privateKey iv i 0 rest found = Inr (found, rest)"
| "find_key C oks eph privateKey iv i (Suc n) rest found =
     (if length rest < 6 then ssl_failed ''Truncated recipient entry''
      else bind_res (fetch 4 rest) (\<lambda>(recipientIndex, rest1).
        bind_res (fetch 2 rest1) (\<lambda>(len, rest2).
          let encryptedKeyLen = unat (be_word len :: 16 word) in
          if length rest2 < encryptedKeyLen then ssl_failed ''Truncated encrypted key''
          else bind_res (fetch encryptedKeyLen rest2) (\<lambda>(encryptedKey, rest3).
            bind_res (try_key C (oks i) encryptedKey eph privateKey iv found) (\<lambda>found'.
              find_key C oks eph privateKey iv (i + 1) n rest3 found')))))"

text \<open>A length prefix is not compared with what is left: one that says more takes the vector out of the message.\<close>

definition decrypt_single :: "crypto \<Rightarrow> ssl \<Rightarrow> byte \<Rightarrow> bytes \<Rightarrow> bytes \<Rightarrow> bytes \<Rightarrow> bytes \<Rightarrow> bytes res" where
  "decrypt_single C ok ty eph iv rest privateKey =
     bind_res (fetch TAG_SIZE rest) (\<lambda>(tag, rest1).
     bind_res (if ty = WithLength then
           (if length rest1 < 8 then ssl_failed ''Missing length prefix''
            else bind_res (fetch 8 rest1) (\<lambda>(len, rest2).
              bind_res (fetch (unat (be_word len :: 64 word)) rest2) (\<lambda>(encrypted, end). Inr encrypted)))
         else Inr rest1) (\<lambda>encrypted.
     bind_res (shared_secret C ok ''ephemeral'' privateKey eph) (\<lambda>secret.
     bind_res (derive_key C ok ''ecies-v2-key-derivation'' [] ''AES key'' secret) (\<lambda>aesKey.
       gcm_decrypt C ok encrypted aesKey iv tag (header_bytes ty eph)))))"

definition decrypt_multiple :: "crypto \<Rightarrow> ssl \<Rightarrow> (nat \<Rightarrow> ssl) \<Rightarrow> bytes \<Rightarrow> bytes \<Rightarrow> bytes \<Rightarrow> bytes \<Rightarrow> bytes res" where
  "decrypt_multiple C ok oks eph iv rest privateKey =
     (if length rest < 4 + TAG_SIZE then ssl_failed ''Multiple recipient ciphertext too short''
      else bind_res (fetch 4 rest) (\<lambda>(count, entries).
        bind_res (find_key C oks eph privateKey iv 0 (unat (be_word count :: 32 word)) entries None) (\<lambda>(found, rest1).
          case found of
            None \<Rightarrow> ssl_failed ''Could not decrypt symmetric key with provided key pair''
          | Some symmetricKey \<Rightarrow>
              if length rest1 < TAG_SIZE then ssl_failed ''Missing auth tag''
              else bind_res (fetch TAG_SIZE rest1) (\<lambda>(tag, encrypted).
                gcm_decrypt C ok encrypted symmetricKey iv tag (header_bytes Multiple eph)))))"

definition ecies_decrypt :: "crypto \<Rightarrow> ssl \<Rightarrow> (nat \<Rightarrow> ssl) \<Rightarrow> bytes \<Rightarrow> EcKeyPair \<Rightarrow> bytes res" where
  "ecies_decrypt C ok oks ciphertext keyPair =
     (if length ciphertext < HEADER_SIZE + EPHEMERAL_KEY_SIZE + IV_SIZE + TAG_SIZE then ssl_failed ''Ciphertext too short''
      else bind_res (vec_get ciphertext 0) (\<lambda>version.
        if version \<noteq> ECIES_VERSION then ssl_failed ''Invalid version''
        else bind_res (vec_get ciphertext 1) (\<lambda>cipherSuite.
        if cipherSuite \<noteq> CIPHER_SUITE then ssl_failed ''Invalid cipher suite''
        else bind_res (vec_get ciphertext 2) (\<lambda>ty.
        bind_res (fetch HEADER_SIZE ciphertext) (\<lambda>(header, rest).
        bind_res (fetch EPHEMERAL_KEY_SIZE rest) (\<lambda>(eph, rest1).
        bind_res (fetch IV_SIZE rest1) (\<lambda>(iv, rest2).
          if ty = Multiple then decrypt_multiple C ok oks eph iv rest2 (ek_private keyPair)
          else if ty \<noteq> Basic \<and> ty \<noteq> WithLength then ssl_failed ''Invalid or unsupported encryption type''
          else decrypt_single C ok ty eph iv rest2 (ek_private keyPair))))))))"

section \<open>What OpenSSL promises\<close>

text \<open>
  What was sealed opens to the data, under the same key, initialization vector and additional data; two
  key pairs share one secret; the sizes are those of the curve, the cipher and the derivation.
\<close>

definition gcm_law :: "crypto \<Rightarrow> bool" where
  "gcm_law C \<longleftrightarrow> (\<forall>key iv aad p. length key = KEY_SIZE \<longrightarrow> length iv = IV_SIZE \<longrightarrow>
     (case cr_seal C key iv aad p of (c, t) \<Rightarrow>
        length c = length p \<and> length t = TAG_SIZE \<and> cr_open C key iv aad c t = Some p))"

definition curve_law :: "crypto \<Rightarrow> bool" where
  "curve_law C \<longleftrightarrow> (\<forall>a b. cr_scalar C a \<longrightarrow> cr_scalar C b \<longrightarrow>
     cr_point C (cr_public C a) \<and> length (cr_public C a) = EPHEMERAL_KEY_SIZE \<and>
     (\<exists>secret. cr_ecdh C a (cr_public C b) = Some secret \<and> cr_ecdh C b (cr_public C a) = Some secret))"

definition openssl_laws :: "crypto \<Rightarrow> bool" where
  "openssl_laws C \<longleftrightarrow> gcm_law C \<and> curve_law C \<and> (\<forall>secret info. length (cr_hkdf C secret info) = KEY_SIZE)"

definition key_pair :: "crypto \<Rightarrow> EcKeyPair \<Rightarrow> bool" where
  "key_pair C k \<longleftrightarrow> cr_scalar C (ek_private k) \<and> ek_public k = cr_public C (ek_private k)"

definition random_ok :: "crypto \<Rightarrow> ecies_random \<Rightarrow> bool" where
  "random_ok C rnd \<longleftrightarrow> cr_scalar C (er_secret rnd) \<and> length (er_key rnd) = KEY_SIZE \<and> length (er_iv rnd) = IV_SIZE"

abbreviation all_succeed :: ssl where "all_succeed \<equiv> \<lambda>_. True"

lemma gcm_seal:
  assumes "openssl_laws C" "length key = KEY_SIZE" "length iv = IV_SIZE"
  obtains c t where "cr_seal C key iv aad p = (c, t)" "length c = length p" "length t = TAG_SIZE"
    "cr_open C key iv aad c t = Some p"
proof -
  obtain c t where ct: "cr_seal C key iv aad p = (c, t)" by fastforce
  have "gcm_law C" using assms(1) by (simp add: openssl_laws_def)
  from this [unfolded gcm_law_def, rule_format, OF assms(2,3), of p aad] ct that show thesis by simp
qed

lemma hkdf_length [simp]: "openssl_laws C \<Longrightarrow> length (cr_hkdf C secret info) = KEY_SIZE"
  by (simp add: openssl_laws_def)

lemma public_facts:
  assumes "openssl_laws C" "cr_scalar C a"
  shows "cr_point C (cr_public C a)" "length (cr_public C a) = EPHEMERAL_KEY_SIZE"
  using assms unfolding openssl_laws_def curve_law_def by blast+

lemma shared:
  assumes "openssl_laws C" "cr_scalar C a" "cr_scalar C b"
  obtains secret where "cr_ecdh C a (cr_public C b) = Some secret" "cr_ecdh C b (cr_public C a) = Some secret"
  using assms unfolding openssl_laws_def curve_law_def by blast

lemma ssl_failed_neq [simp]: "ssl_failed what \<noteq> Inl UndefinedBehaviour" "ssl_failed what \<noteq> Inr x"
  by (simp_all add: ssl_failed_def)

lemma defined_steps:
  "gcm_decrypt C ok ct key iv tag aad \<noteq> Inl UndefinedBehaviour"
  "shared_secret C ok who a b \<noteq> Inl UndefinedBehaviour"
  "derive_key C ok info purpose what secret \<noteq> Inl UndefinedBehaviour"
  by (auto simp: gcm_decrypt_def shared_secret_def derive_key_def split: option.splits)

lemma bind_res_UB: "bind_res r f = Inl UndefinedBehaviour \<longleftrightarrow> r = Inl UndefinedBehaviour \<or> (\<exists>x. r = Inr x \<and> f x = Inl UndefinedBehaviour)"
  by (cases r) auto

lemma decryptSymmetricKey_defined: "decryptSymmetricKey C ok ek eph a iv \<noteq> Inl UndefinedBehaviour"
  by (auto simp: decryptSymmetricKey_def bind_res_UB fetch_def defined_steps split: if_splits)

lemma try_key_tries:
  "try_key C ok ek eph priv iv found = Inr (case found of Some k \<Rightarrow> Some k
    | None \<Rightarrow> (case decryptSymmetricKey C ok ek eph priv iv of Inl e \<Rightarrow> None | Inr k \<Rightarrow> Some k))"
  using decryptSymmetricKey_defined [of C ok ek eph priv iv] by (auto simp: try_key_def split: option.splits sum.splits)

text \<open>Reading the parts of an encrypted message back.\<close>

lemma parts_of_message:
  assumes "length eph = EPHEMERAL_KEY_SIZE" "length iv = IV_SIZE" "TAG_SIZE \<le> length rest"
  shows "ecies_decrypt C ok oks (header_bytes ty eph @ iv @ rest) k =
    (if ty = Multiple then decrypt_multiple C ok oks eph iv rest (ek_private k)
     else if ty \<noteq> Basic \<and> ty \<noteq> WithLength then ssl_failed ''Invalid or unsupported encryption type''
     else decrypt_single C ok ty eph iv rest (ek_private k))"
proof -
  let ?m = "header_bytes ty eph @ iv @ rest"
  have sizes: "length eph = 33" "length iv = 12" "16 \<le> length rest"
    using assms by (simp_all add: EPHEMERAL_KEY_SIZE_def IV_SIZE_def TAG_SIZE_def)
  have "\<not> length ?m < HEADER_SIZE + EPHEMERAL_KEY_SIZE + IV_SIZE + TAG_SIZE"
    using sizes by (simp add: header_bytes_def HEADER_SIZE_def EPHEMERAL_KEY_SIZE_def IV_SIZE_def TAG_SIZE_def)
  moreover have "vec_get ?m 0 = Inr ECIES_VERSION" "vec_get ?m 1 = Inr CIPHER_SUITE" "vec_get ?m 2 = Inr ty"
    by (simp_all add: header_bytes_def vec_get_def)
  moreover have "fetch HEADER_SIZE ?m = Inr ([ECIES_VERSION, CIPHER_SUITE, ty], eph @ iv @ rest)"
    by (simp add: fetch_def header_bytes_def HEADER_SIZE_def)
  ultimately show ?thesis using assms(1,2) by (simp add: ecies_decrypt_def codec_simps)
qed

text \<open>
  C32: What is encrypted for the public key of a key pair, with or without the length in front, is
  decrypted by the private key, whatever the random bytes and the data.
\<close>

theorem ecies_roundtrip:
  assumes "openssl_laws C" "random_ok C rnd" "key_pair C k" "ty = Basic \<or> ty = WithLength" "length plaintext < 2 ^ 64"
  shows "\<exists>m. encryptInternal C all_succeed rnd plaintext (ek_public k) ty = Inr m \<and>
    ecies_decrypt C all_succeed oks m k = Inr plaintext"
proof -
  have rnd: "cr_scalar C (er_secret rnd)" "length (er_iv rnd) = IV_SIZE" using assms(2) by (simp_all add: random_ok_def)
  have k: "cr_scalar C (ek_private k)" "ek_public k = cr_public C (ek_private k)" using assms(3) by (simp_all add: key_pair_def)
  obtain secret where sec: "cr_ecdh C (er_secret rnd) (cr_public C (ek_private k)) = Some secret"
      "cr_ecdh C (ek_private k) (cr_public C (er_secret rnd)) = Some secret" using shared [OF assms(1) rnd(1) k(1)] .
  define eph where "eph = cr_public C (er_secret rnd)"
  define key where "key = cr_hkdf C secret ''ecies-v2-key-derivation''"
  obtain c t where seal: "cr_seal C key (er_iv rnd) (header_bytes ty eph) plaintext = (c, t)" "length c = length plaintext"
      "length t = TAG_SIZE" "cr_open C key (er_iv rnd) (header_bytes ty eph) c t = Some plaintext"
    using gcm_seal [OF assms(1) _ rnd(2), of key "header_bytes ty eph" plaintext] assms(1) by (auto simp: key_def)
  define l where "l = (if ty = WithLength then be_bytes 8 (of_nat (length c) :: 64 word) else [])"
  have enc: "encryptInternal C all_succeed rnd plaintext (ek_public k) ty = Inr (header_bytes ty eph @ er_iv rnd @ t @ l @ c)"
    using seal(1) public_facts [OF assms(1) k(1)] sec
    by (simp add: encryptInternal_def ec_generate_def shared_secret_def derive_key_def generateIV_def gcm_encrypt_def
        k(2) l_def flip: eph_def key_def)
  have len: "unat (of_nat (length plaintext) :: 64 word) = length plaintext"
    using assms(5) by (simp add: unat_of_nat take_bit_nat_eq_self)
  have "decrypt_single C all_succeed ty eph (er_iv rnd) (t @ l @ c) (ek_private k) = Inr plaintext"
    using seal sec public_facts [OF assms(1) rnd(1)]
    by (cases "ty = WithLength") (simp_all add: decrypt_single_def l_def codec_simps len shared_secret_def derive_key_def
        gcm_decrypt_def flip: eph_def key_def)
  then have "ecies_decrypt C all_succeed oks (header_bytes ty eph @ er_iv rnd @ t @ l @ c) k = Inr plaintext"
    using assms(4) seal(3) public_facts [OF assms(1) rnd(1)] rnd(2)
    by (subst parts_of_message) (auto simp: eph_def)
  with enc show ?thesis by blast
qed

section \<open>Several recipients\<close>

definition wrapping_key :: "crypto \<Rightarrow> ecies_random \<Rightarrow> bytes \<Rightarrow> bytes" where
  "wrapping_key C rnd pub =
     (case cr_ecdh C (er_secret rnd) pub of None \<Rightarrow> [] | Some secret \<Rightarrow> cr_hkdf C secret ''ecies-v2-key-encryption'')"

definition wrapped :: "crypto \<Rightarrow> ecies_random \<Rightarrow> bytes \<Rightarrow> bytes \<times> bytes" where
  "wrapped C rnd pub = cr_seal C (wrapping_key C rnd pub) (er_iv rnd) (cr_public C (er_secret rnd) @ er_iv rnd) (er_key rnd)"

text \<open>The key wrapped for another recipient does not authenticate under the key of this one.\<close>

definition authenticates :: "crypto \<Rightarrow> ecies_random \<Rightarrow> bytes list \<Rightarrow> bytes \<Rightarrow> bool" where
  "authenticates C rnd pubs mine \<longleftrightarrow> (\<forall>pub \<in> set pubs. wrapping_key C rnd pub \<noteq> wrapping_key C rnd mine \<longrightarrow>
     (case wrapped C rnd pub of (c, t) \<Rightarrow>
        cr_open C (wrapping_key C rnd mine) (er_iv rnd) (cr_public C (er_secret rnd) @ er_iv rnd) c t = None))"

lemma entry_parsed:
  assumes "length ek < 65536"
  shows "find_key C oks eph priv iv k (Suc n) (entry_bytes (i, ek) @ rest) found =
    bind_res (try_key C (oks k) ek eph priv iv found) (find_key C oks eph priv iv (k + 1) n rest)"
proof -
  have "unat (of_nat (length ek) :: 16 word) = length ek" using assms by (simp add: unat_of_nat take_bit_nat_eq_self)
  then show ?thesis by (simp add: entry_bytes_def codec_simps Let_def)
qed

lemma find_key_entries:
  assumes "\<forall>e \<in> set es. length (snd e) < 65536 \<and>
      (\<forall>k. decryptSymmetricKey C all_succeed (snd e) eph priv iv = Inr k \<longrightarrow> k = key)"
    and "found = None \<or> found = Some key"
  shows "find_key C (\<lambda>_. all_succeed) eph priv iv i (length es) (concat (map entry_bytes es) @ rest) found =
    Inr (if found \<noteq> None \<or> (\<exists>e \<in> set es. \<exists>k. decryptSymmetricKey C all_succeed (snd e) eph priv iv = Inr k)
         then Some key else None, rest)"
  using assms
proof (induction es arbitrary: i found)
  case (Cons e es)
  obtain j ek where e: "e = (j, ek)" by fastforce
  let ?rest = "concat (map entry_bytes es) @ rest"
  let ?found = "case found of Some k \<Rightarrow> Some k
    | None \<Rightarrow> (case decryptSymmetricKey C all_succeed ek eph priv iv of Inl _ \<Rightarrow> None | Inr k \<Rightarrow> Some k)"
  have "length ek < 65536" using Cons.prems(1) e by simp
  then have "find_key C (\<lambda>_. all_succeed) eph priv iv i (length (e # es)) (concat (map entry_bytes (e # es)) @ rest) found =
      find_key C (\<lambda>_. all_succeed) eph priv iv (i + 1) (length es) ?rest ?found"
    by (simp add: e entry_parsed try_key_tries del: find_key.simps)
  moreover have "?found = None \<or> ?found = Some key"
    using Cons.prems e by (auto split: option.splits sum.splits)
  ultimately show ?case
    using Cons.IH [of ?found "i + 1"] Cons.prems e by (auto split: option.splits sum.splits)
qed auto

lemma wrapped_key:
  assumes "openssl_laws C" "random_ok C rnd" "cr_scalar C b"
  shows "length (wrapping_key C rnd (cr_public C b)) = KEY_SIZE"
    "encryptSymmetricKey C all_succeed (er_key rnd) (cr_public C b)
       \<lparr>ek_private = er_secret rnd, ek_public = cr_public C (er_secret rnd)\<rparr> (er_iv rnd) =
     Inr (fst (wrapped C rnd (cr_public C b)) @ snd (wrapped C rnd (cr_public C b)))"
    "length (fst (wrapped C rnd (cr_public C b))) = KEY_SIZE" "length (snd (wrapped C rnd (cr_public C b))) = TAG_SIZE"
proof -
  have rnd: "cr_scalar C (er_secret rnd)" "length (er_iv rnd) = IV_SIZE" "length (er_key rnd) = KEY_SIZE"
    using assms(2) by (simp_all add: random_ok_def)
  obtain secret where sec: "cr_ecdh C (er_secret rnd) (cr_public C b) = Some secret"
    using shared [OF assms(1) rnd(1) assms(3)] by metis
  show key: "length (wrapping_key C rnd (cr_public C b)) = KEY_SIZE" using assms(1) by (simp add: wrapping_key_def sec)
  obtain c t where "wrapped C rnd (cr_public C b) = (c, t)" "length c = KEY_SIZE" "length t = TAG_SIZE"
    using gcm_seal [OF assms(1) key rnd(2)] rnd(3) unfolding wrapped_def by metis
  then show "length (fst (wrapped C rnd (cr_public C b))) = KEY_SIZE" "length (snd (wrapped C rnd (cr_public C b))) = TAG_SIZE"
    by simp_all
  show "encryptSymmetricKey C all_succeed (er_key rnd) (cr_public C b)
       \<lparr>ek_private = er_secret rnd, ek_public = cr_public C (er_secret rnd)\<rparr> (er_iv rnd) =
     Inr (fst (wrapped C rnd (cr_public C b)) @ snd (wrapped C rnd (cr_public C b)))"
    using public_facts [OF assms(1,3)]
    by (simp add: encryptSymmetricKey_def shared_secret_def sec derive_key_def gcm_encrypt_def wrapped_def wrapping_key_def
        case_prod_beta)
qed

lemma unwrapping:
  assumes "openssl_laws C" "random_ok C rnd" "cr_scalar C a" "cr_scalar C b"
  shows "decryptSymmetricKey C all_succeed (fst (wrapped C rnd (cr_public C b)) @ snd (wrapped C rnd (cr_public C b)))
      (cr_public C (er_secret rnd)) a (er_iv rnd) =
    (case cr_open C (wrapping_key C rnd (cr_public C a)) (er_iv rnd) (cr_public C (er_secret rnd) @ er_iv rnd)
        (fst (wrapped C rnd (cr_public C b))) (snd (wrapped C rnd (cr_public C b))) of
       None \<Rightarrow> ssl_failed ''Authentication failed - data may be corrupted''
     | Some key \<Rightarrow> if length key \<noteq> KEY_SIZE then ssl_failed ''Decrypted key has incorrect size'' else Inr key)"
proof -
  have rnd: "cr_scalar C (er_secret rnd)" using assms(2) by (simp add: random_ok_def)
  obtain secret where "cr_ecdh C (er_secret rnd) (cr_public C a) = Some secret" "cr_ecdh C a (cr_public C (er_secret rnd)) = Some secret"
    using shared [OF assms(1) rnd assms(3)] .
  then show ?thesis
    using public_facts [OF assms(1) rnd] wrapped_key(3,4) [OF assms(1,2,4)]
    by (simp add: decryptSymmetricKey_def shared_secret_def derive_key_def wrapping_key_def gcm_decrypt_def ssl_failed_def
        codec_simps case_prod_beta split: option.split)
qed

text \<open>This recipient opens its own key, and nothing else of the others'.\<close>

lemma wrapped_opens:
  assumes "openssl_laws C" "random_ok C rnd" "cr_scalar C a" "cr_scalar C b"
  defines "ek \<equiv> fst (wrapped C rnd (cr_public C b)) @ snd (wrapped C rnd (cr_public C b))"
  shows "length ek < 65536"
    and "wrapping_key C rnd (cr_public C b) = wrapping_key C rnd (cr_public C a) \<Longrightarrow>
      decryptSymmetricKey C all_succeed ek (cr_public C (er_secret rnd)) a (er_iv rnd) = Inr (er_key rnd)"
    and "authenticates C rnd pubs (cr_public C a) \<Longrightarrow> cr_public C b \<in> set pubs \<Longrightarrow>
      decryptSymmetricKey C all_succeed ek (cr_public C (er_secret rnd)) a (er_iv rnd) = Inr key \<Longrightarrow> key = er_key rnd"
proof -
  have rnd: "length (er_iv rnd) = IV_SIZE" "length (er_key rnd) = KEY_SIZE" using assms(2) by (simp_all add: random_ok_def)
  show "length ek < 65536" using wrapped_key(3,4) [OF assms(1,2,4)] by (simp add: ek_def KEY_SIZE_def TAG_SIZE_def)
  have own: "decryptSymmetricKey C all_succeed ek (cr_public C (er_secret rnd)) a (er_iv rnd) = Inr (er_key rnd)"
    if "wrapping_key C rnd (cr_public C b) = wrapping_key C rnd (cr_public C a)"
  proof -
    obtain c t where "wrapped C rnd (cr_public C b) = (c, t)"
        "cr_open C (wrapping_key C rnd (cr_public C b)) (er_iv rnd) (cr_public C (er_secret rnd) @ er_iv rnd) c t = Some (er_key rnd)"
      using gcm_seal [OF assms(1) wrapped_key(1) [OF assms(1,2,4)] rnd(1)] unfolding wrapped_def by metis
    with rnd(2) that unwrapping [OF assms(1-4)] show ?thesis by (simp add: ek_def)
  qed
  then show "wrapping_key C rnd (cr_public C b) = wrapping_key C rnd (cr_public C a) \<Longrightarrow>
      decryptSymmetricKey C all_succeed ek (cr_public C (er_secret rnd)) a (er_iv rnd) = Inr (er_key rnd)" .
  assume auth: "authenticates C rnd pubs (cr_public C a)" "cr_public C b \<in> set pubs"
    and key: "decryptSymmetricKey C all_succeed ek (cr_public C (er_secret rnd)) a (er_iv rnd) = Inr key"
  show "key = er_key rnd"
  proof (cases "wrapping_key C rnd (cr_public C b) = wrapping_key C rnd (cr_public C a)")
    case True
    with own key show ?thesis by simp
  next
    case False
    with auth have "cr_open C (wrapping_key C rnd (cr_public C a)) (er_iv rnd) (cr_public C (er_secret rnd) @ er_iv rnd)
        (fst (wrapped C rnd (cr_public C b))) (snd (wrapped C rnd (cr_public C b))) = None"
      by (auto simp: authenticates_def case_prod_beta)
    with key unwrapping [OF assms(1-4)] show ?thesis by (simp add: ek_def ssl_failed_def)
  qed
qed

text \<open>
  C33: What is encrypted for several key pairs is decrypted by the private key of each, wherever it
  stands among them and whoever the others are, if the key wrapped for another does not authenticate
  under its own.
\<close>

theorem every_recipient_decrypts:
  assumes "openssl_laws C" "random_ok C rnd" "\<forall>k \<in> set ks. key_pair C k" "k \<in> set ks" "length ks \<le> 0xFFFFFFFF"
    and "authenticates C rnd (map ek_public ks) (ek_public k)"
  shows "\<exists>m. encryptMultiple C all_succeed (\<lambda>_. all_succeed) rnd plaintext (map ek_public ks) = Inr m \<and>
    ecies_decrypt C all_succeed (\<lambda>_. all_succeed) m k = Inr plaintext"
proof -
  have rnd: "cr_scalar C (er_secret rnd)" "length (er_iv rnd) = IV_SIZE" "length (er_key rnd) = KEY_SIZE"
    using assms(2) by (simp_all add: random_ok_def)
  have pair: "cr_scalar C (ek_private j)" "ek_public j = cr_public C (ek_private j)" if "j \<in> set ks" for j
    using assms(3) that by (simp_all add: key_pair_def)
  define eph where "eph = cr_public C (er_secret rnd)"
  define wrap where "wrap = (\<lambda>pub. fst (wrapped C rnd pub) @ snd (wrapped C rnd pub))"
  define es where "es = map (\<lambda>i. (i, wrap (map ek_public ks ! i))) [0..<length ks]"
  obtain c t where seal: "cr_seal C (er_key rnd) (er_iv rnd) (header_bytes Multiple eph) plaintext = (c, t)"
      "length t = TAG_SIZE" "cr_open C (er_key rnd) (er_iv rnd) (header_bytes Multiple eph) c t = Some plaintext"
    using gcm_seal [OF assms(1) rnd(3,2)] by metis
  let ?m = "header_bytes Multiple eph @ er_iv rnd @ be_bytes 4 (of_nat (length ks) :: 32 word) @ concat (map entry_bytes es) @ t @ c"
  have "map_res (\<lambda>i. bind_res (encryptSymmetricKey C all_succeed (er_key rnd) (map ek_public ks ! i)
        \<lparr>ek_private = er_secret rnd, ek_public = eph\<rparr> (er_iv rnd)) (\<lambda>ek. Inr (i, ek))) [0..<length ks] = Inr es"
    unfolding es_def using wrapped_key(2) [OF assms(1,2)] pair by (intro map_res_Inr) (simp add: eph_def wrap_def)
  then have "encryptMultiple C all_succeed (\<lambda>_. all_succeed) rnd plaintext (map ek_public ks) = Inr ?m"
    using assms(4,5) seal(1) by (auto simp: encryptMultiple_def ec_generate_def generateKey_def generateIV_def gcm_encrypt_def eph_def)
  moreover have "ecies_decrypt C all_succeed (\<lambda>_. all_succeed) ?m k = Inr plaintext"
  proof -
    let ?D = "\<lambda>ek. decryptSymmetricKey C all_succeed ek eph (ek_private k) (er_iv rnd)"
    note opens = wrapped_opens [OF assms(1,2) pair(1) [OF assms(4)] pair(1)]
    have wrap: "wrap (ek_public j) = fst (wrapped C rnd (cr_public C (ek_private j))) @
        snd (wrapped C rnd (cr_public C (ek_private j)))" if "j \<in> set ks" for j
      using pair(2) [OF that] by (simp add: wrap_def)
    have auth: "authenticates C rnd (map ek_public ks) (cr_public C (ek_private k))"
      using assms(6) pair(2) [OF assms(4)] by simp
    have entry_ok: "length (wrap (ek_public j)) < 65536 \<and> (\<forall>key. ?D (wrap (ek_public j)) = Inr key \<longrightarrow> key = er_key rnd)"
      if "j \<in> set ks" for j
    proof -
      have "cr_public C (ek_private j) \<in> set (map ek_public ks)" using pair(2) [OF that] that by force
      with opens(1) [OF that] opens(3) [OF that auth] show ?thesis unfolding wrap [OF that] eph_def by blast
    qed
    have "\<forall>e \<in> set es. length (snd e) < 65536 \<and> (\<forall>key. ?D (snd e) = Inr key \<longrightarrow> key = er_key rnd)"
    proof
      fix e assume "e \<in> set es"
      then obtain x where "x < length ks" "e = (x, wrap (ek_public (ks ! x)))" by (auto simp: es_def)
      with entry_ok [OF nth_mem] show "length (snd e) < 65536 \<and> (\<forall>key. ?D (snd e) = Inr key \<longrightarrow> key = er_key rnd)" by simp
    qed
    moreover have "\<exists>e \<in> set es. \<exists>key. ?D (snd e) = Inr key"
    proof -
      obtain i where i: "i < length ks" "ks ! i = k" using assms(4) by (auto simp: in_set_conv_nth)
      have "?D (wrap (ek_public k)) = Inr (er_key rnd)"
        using opens(2) [OF assms(4) refl] wrap [OF assms(4)] by (simp add: eph_def)
      moreover have "(i, wrap (ek_public k)) \<in> set es" using i by (force simp: es_def)
      ultimately show ?thesis by force
    qed
    ultimately have "find_key C (\<lambda>_. all_succeed) eph (ek_private k) (er_iv rnd) 0 (length ks)
        (concat (map entry_bytes es) @ t @ c) None = Inr (Some (er_key rnd), t @ c)"
      using find_key_entries [where C = C and es = es and eph = eph and priv = "ek_private k" and iv = "er_iv rnd"
          and key = "er_key rnd" and found = None and i = 0 and rest = "t @ c"] by (simp add: es_def)
    moreover have "unat (of_nat (length ks) :: 32 word) = length ks"
      using assms(5) by (simp add: unat_of_nat take_bit_nat_eq_self)
    ultimately have "decrypt_multiple C all_succeed (\<lambda>_. all_succeed) eph (er_iv rnd)
        (be_bytes 4 (of_nat (length ks) :: 32 word) @ concat (map entry_bytes es) @ t @ c) (ek_private k) = Inr plaintext"
      using seal by (simp add: decrypt_multiple_def codec_simps gcm_decrypt_def)
    then show ?thesis
      using seal(2) rnd(2) public_facts [OF assms(1) rnd(1)] by (subst parts_of_message) (simp_all add: eph_def)
  qed
  ultimately show ?thesis by blast
qed

section \<open>Arbitrary input\<close>

text \<open>Behind every comparison, the read it protects stays in the message.\<close>

lemma find_key_defined: "find_key C oks eph a iv i n rest found \<noteq> Inl UndefinedBehaviour"
proof (induction n arbitrary: i rest found)
  case (Suc n)
  then show ?case by (auto simp: bind_res_UB fetch_def try_key_tries Let_def split: if_splits)
qed simp

lemma decrypt_multiple_defined: "decrypt_multiple C ok oks eph iv rest a \<noteq> Inl UndefinedBehaviour"
  by (auto simp: decrypt_multiple_def bind_res_UB find_key_defined defined_steps fetch_def split: option.splits if_splits)

lemma decrypt_single_undefined:
  assumes "TAG_SIZE \<le> length rest"
  shows "decrypt_single C ok ty eph iv rest a = Inl UndefinedBehaviour \<longleftrightarrow>
     ty = WithLength \<and> TAG_SIZE + 8 \<le> length rest \<and>
     length rest - (TAG_SIZE + 8) < unat (be_word (take 8 (drop TAG_SIZE rest)) :: 64 word)"
  using assms by (auto simp: decrypt_single_def bind_res_UB defined_steps fetch_def split: if_splits)

text \<open>
  C34: Whatever bytes a peer sends, decrypting them returns data or throws, with one exception: a length
  prefix that says more bytes than follow it reads past the end of the message. No other input, no
  count of recipients and no length of a wrapped key leaves the message.
\<close>

theorem decrypt_in_bounds:
  "ecies_decrypt C ok oks m k = Inl UndefinedBehaviour \<longleftrightarrow>
     72 \<le> length m \<and> m ! 0 = ECIES_VERSION \<and> m ! 1 = CIPHER_SUITE \<and> m ! 2 = WithLength \<and>
     length m - 72 < unat (be_word (field_at 64 8 m) :: 64 word)"
proof (cases "64 \<le> length m")
  case True
  then have "vec_get m 0 = Inr (m ! 0)" "vec_get m 1 = Inr (m ! 1)" "vec_get m 2 = Inr (m ! 2)"
    by (auto simp: vec_get_def)
  with True show ?thesis
    by (auto simp: ecies_decrypt_def fetch_def decrypt_multiple_defined decrypt_single_undefined HEADER_SIZE_def
        EPHEMERAL_KEY_SIZE_def IV_SIZE_def TAG_SIZE_def field_at_def)
qed (simp add: ecies_decrypt_def HEADER_SIZE_def EPHEMERAL_KEY_SIZE_def IV_SIZE_def TAG_SIZE_def)

lemma decrypt_no_junk:
  assumes "ecies_decrypt C ok oks m k = Inr p"
  shows "64 \<le> length m" "m ! 0 = ECIES_VERSION" "m ! 1 = CIPHER_SUITE" "m ! 2 \<in> {Basic, WithLength, Multiple}"
  using assms by (auto simp: ecies_decrypt_def bind_res_Inr_iff vec_get_def HEADER_SIZE_def EPHEMERAL_KEY_SIZE_def IV_SIZE_def TAG_SIZE_def
      split: if_splits)

section \<open>Examples\<close>

definition toy :: crypto where
  "toy = \<lparr>cr_public = (\<lambda>a. 2 # a), cr_scalar = (\<lambda>a. length a = 32), cr_point = (\<lambda>p. length p = 33),
     cr_ecdh = (\<lambda>a p. Some (map2 (XOR) a (tl p))), cr_hkdf = (\<lambda>secret info. take 32 (secret @ replicate 32 0)),
     cr_seal = (\<lambda>key iv aad p. (p, take 16 key)),
     cr_open = (\<lambda>key iv aad c t. if t = take 16 key then Some c else None),
     cr_sign = (\<lambda>a msg. Some (a @ msg)), cr_verify = (\<lambda>p msg sig. sig = tl p @ msg)\<rparr>"

definition toy_pair :: "byte \<Rightarrow> EcKeyPair" where
  "toy_pair b = \<lparr>ek_private = replicate 32 b, ek_public = 2 # replicate 32 b\<rparr>"

definition toy_random :: ecies_random where
  "toy_random = \<lparr>er_secret = replicate 32 9, er_key = replicate 32 5, er_iv = replicate 12 1\<rparr>"

lemma toy_laws: "openssl_laws toy"
proof -
  have "map2 (XOR) a b = map2 (XOR) b a" for a b :: bytes
    by (induction a b rule: list_induct2') (simp_all add: xor.commute)
  then show ?thesis
    by (simp add: openssl_laws_def gcm_law_def curve_law_def toy_def KEY_SIZE_def TAG_SIZE_def EPHEMERAL_KEY_SIZE_def min_def)
qed

lemma toy_facts [simp]: "random_ok toy toy_random" "key_pair toy (toy_pair b)"
  by (simp_all add: random_ok_def key_pair_def toy_def toy_random_def toy_pair_def KEY_SIZE_def IV_SIZE_def)

theorem ecies_roundtrip_witness:
  "\<exists>m. encryptInternal toy all_succeed toy_random [1, 2, 3] (ek_public (toy_pair 7)) WithLength = Inr m \<and>
     ecies_decrypt toy all_succeed (\<lambda>_. all_succeed) m (toy_pair 7) = Inr [1, 2, 3]"
  by (rule ecies_roundtrip) (simp_all add: toy_laws)

lemma toy_wrapping: "wrapping_key toy toy_random (ek_public (toy_pair b)) = replicate 32 (9 XOR b)"
  by (simp add: wrapping_key_def toy_def toy_random_def toy_pair_def zip_replicate)

theorem every_recipient_decrypts_witness:
  "\<exists>m. encryptMultiple toy all_succeed (\<lambda>_. all_succeed) toy_random [1, 2, 3] (map ek_public [toy_pair 7, toy_pair 8]) = Inr m \<and>
     ecies_decrypt toy all_succeed (\<lambda>_. all_succeed) m (toy_pair 8) = Inr [1, 2, 3]"
proof (rule every_recipient_decrypts)
  show "authenticates toy toy_random (map ek_public [toy_pair 7, toy_pair 8]) (ek_public (toy_pair 8))"
    by (simp add: authenticates_def wrapped_def toy_wrapping) (simp add: toy_def)
qed (simp_all add: toy_laws)

end
