(* ===== verification/Members.thy ===== *)
theory Members
  imports VotingKeys Ecies BlockStore
begin

text \<open>
  \<open>member.{hpp,cpp}\<close>: a member of the system, its key pair and voting keys, and its text in JSON.
  SHA-256 and the mnemonics and key trees of trezor-crypto are parameters, as are OpenSSL's calls
  (\<open>Ecies\<close>, \<open>VotingKeys\<close>) and the text of JSON values.
\<close>

section \<open>Members\<close>

record Member =
  mb_id :: bytes
  mb_type :: byte
  mb_name :: string
  mb_email :: string
  mb_publicKey :: bytes
  mb_keyPair :: "EcKeyPair option"
  mb_dateCreated :: "64 word"
  mb_dateUpdated :: "64 word"
  mb_votingPublicKey :: "PaillierPublicKey option"
  mb_votingPrivateKey :: "PaillierPrivateKey option"

text \<open>The libraries; \<open>'n\<close> is a node of a key tree.\<close>

record 'n member_env =
  me_crypto :: crypto
  me_keys :: key_env
  me_sha256 :: "bytes \<Rightarrow> bytes"
  me_dump :: "doc \<Rightarrow> string"
  me_parse :: "string \<Rightarrow> doc option"
  me_mnemonic :: "string option"
  me_mnemonic_check :: "string \<Rightarrow> bool"
  me_seed :: "string \<Rightarrow> bytes"
  me_root :: "bytes \<Rightarrow> 'n"
  me_ckd_prime :: "nat \<Rightarrow> 'n \<Rightarrow> 'n"
  me_ckd :: "nat \<Rightarrow> 'n \<Rightarrow> 'n"
  me_private_key :: "'n \<Rightarrow> bytes"

text \<open>\<open>created\<close> and \<open>updated\<close> are two readings of the clock.\<close>

definition mkMember :: "'n member_env \<Rightarrow> 64 word \<Rightarrow> 64 word \<Rightarrow> byte \<Rightarrow> string \<Rightarrow> string \<Rightarrow> bytes \<Rightarrow> EcKeyPair option \<Rightarrow> Member res" where
  "mkMember E created updated ty name email publicKey keyPair =
     (if length publicKey \<noteq> 33 then Inl (InvalidArgument ''Public key must be 33 bytes (compressed)'')
      else Inr \<lparr>mb_id = take 16 (me_sha256 E publicKey), mb_type = ty, mb_name = name, mb_email = email,
        mb_publicKey = publicKey, mb_keyPair = keyPair, mb_dateCreated = created, mb_dateUpdated = updated,
        mb_votingPublicKey = None, mb_votingPrivateKey = None\<rparr>)"

definition generateId :: "ssl \<Rightarrow> bytes \<Rightarrow> bytes res" where
  "generateId ok random = (if \<not> ok Rand then ssl_failed ''Failed to generate random ID'' else Inr random)"

definition deriveKeyFromMnemonic :: "'n member_env \<Rightarrow> string \<Rightarrow> bytes" where
  "deriveKeyFromMnemonic E mnemonic =
     (let node0 = me_root E (me_seed E mnemonic);
          node1 = me_ckd_prime E 44 node0;
          node2 = me_ckd_prime E 60 node1;
          node3 = me_ckd_prime E 0 node2;
          node4 = me_ckd E 0 node3;
          node5 = me_ckd E 0 node4
      in me_private_key E node5)"

definition generateMnemonic :: "'n member_env \<Rightarrow> string res" where
  "generateMnemonic E =
     (case me_mnemonic E of None \<Rightarrow> Inl (RuntimeError ''Failed to generate mnemonic'') | Some m \<Rightarrow> Inr m)"

definition validateMnemonic :: "'n member_env \<Rightarrow> string \<Rightarrow> bool" where
  "validateMnemonic E mnemonic = me_mnemonic_check E mnemonic"

definition member_generate :: "'n member_env \<Rightarrow> ssl \<Rightarrow> 64 word \<Rightarrow> 64 word \<Rightarrow> bytes \<Rightarrow> byte \<Rightarrow> string \<Rightarrow> string \<Rightarrow> Member res" where
  "member_generate E ok created updated secret ty name email =
     bind_res (ec_generate (me_crypto E) ok secret) (\<lambda>k. mkMember E created updated ty name email (ek_public k) (Some k))"

definition fromMnemonic :: "'n member_env \<Rightarrow> ssl \<Rightarrow> 64 word \<Rightarrow> 64 word \<Rightarrow> string \<Rightarrow> byte \<Rightarrow> string \<Rightarrow> string \<Rightarrow> Member res" where
  "fromMnemonic E ok created updated mnemonic ty name email =
     bind_res (fromPrivateKey (me_crypto E) ok (deriveKeyFromMnemonic E mnemonic)) (\<lambda>k.
       mkMember E created updated ty name email (ek_public k) (Some k))"

definition fromKeys :: "'n member_env \<Rightarrow> ssl \<Rightarrow> 64 word \<Rightarrow> 64 word \<Rightarrow> byte \<Rightarrow> string \<Rightarrow> string \<Rightarrow> bytes \<Rightarrow> bytes \<Rightarrow> Member res" where
  "fromKeys E ok created updated ty name email publicKey privateKey =
     bind_res (fromPrivateKey (me_crypto E) ok privateKey) (\<lambda>k.
       if ek_public k \<noteq> publicKey then Inl (InvalidArgument ''Public key does not match private key'')
       else mkMember E created updated ty name email publicKey (Some k))"

definition fromPublicKey :: "'n member_env \<Rightarrow> 64 word \<Rightarrow> 64 word \<Rightarrow> byte \<Rightarrow> string \<Rightarrow> string \<Rightarrow> bytes \<Rightarrow> Member res" where
  "fromPublicKey E created updated ty name email publicKey = mkMember E created updated ty name email publicKey None"

definition idHex :: "Member \<Rightarrow> string" where
  "idHex m = toHex (mb_id m)"

definition no_private_key :: cpp_error where
  "no_private_key = RuntimeError ''No private key loaded''"

definition member_privateKey :: "Member \<Rightarrow> bytes res" where
  "member_privateKey m = (case mb_keyPair m of None \<Rightarrow> Inl no_private_key | Some k \<Rightarrow> Inr (ek_private k))"

definition member_sign :: "'n member_env \<Rightarrow> bytes \<Rightarrow> Member \<Rightarrow> bytes res" where
  "member_sign E msg m = (case mb_keyPair m of None \<Rightarrow> Inl no_private_key | Some k \<Rightarrow> ec_sign (me_crypto E) msg k)"

definition member_verify :: "'n member_env \<Rightarrow> ssl \<Rightarrow> bytes \<Rightarrow> bytes \<Rightarrow> Member \<Rightarrow> bool" where
  "member_verify E ok msg sig m = ec_verify (me_crypto E) ok msg sig (mb_publicKey m)"

definition verifySignature :: "'n member_env \<Rightarrow> ssl \<Rightarrow> bytes \<Rightarrow> bytes \<Rightarrow> bytes \<Rightarrow> bool" where
  "verifySignature E ok msg sig publicKey = ec_verify (me_crypto E) ok msg sig publicKey"

text \<open>\<open>None\<close>: the derivation does not end.\<close>

definition deriveVotingKeys :: "'n member_env \<Rightarrow> nat \<Rightarrow> nat \<Rightarrow> Member \<Rightarrow> Member res option" where
  "deriveVotingKeys E keypairBitLength primeTestIterations m =
     (case mb_keyPair m of
        None \<Rightarrow> Some (Inl no_private_key)
      | Some k \<Rightarrow> map_option (\<lambda>r. bind_res r (\<lambda>(pk, sk).
            Inr (m\<lparr>mb_votingPublicKey := Some pk, mb_votingPrivateKey := Some sk\<rparr>)))
          (deriveVotingKeysFromECDH (me_keys E) (ek_private k) (mb_publicKey m) keypairBitLength primeTestIterations))"

definition loadVotingKeys :: "PaillierPublicKey option \<Rightarrow> PaillierPrivateKey option \<Rightarrow> Member \<Rightarrow> Member" where
  "loadVotingKeys publicKey privateKey m = m\<lparr>mb_votingPublicKey := publicKey, mb_votingPrivateKey := privateKey\<rparr>"

definition unloadVotingPrivateKey :: "Member \<Rightarrow> Member" where
  "unloadVotingPrivateKey m = m\<lparr>mb_votingPrivateKey := None\<rparr>"

text \<open>A copy makes its key pair from the private key again.\<close>

definition copy_member :: "'n member_env \<Rightarrow> ssl \<Rightarrow> Member \<Rightarrow> Member res" where
  "copy_member E ok m = (case mb_keyPair m of
     None \<Rightarrow> Inr m
   | Some k \<Rightarrow> bind_res (fromPrivateKey (me_crypto E) ok (ek_private k)) (\<lambda>k'. Inr (m\<lparr>mb_keyPair := Some k'\<rparr>)))"

text \<open>Assignment: the key pair may fail when half of the member is assigned.\<close>

definition assign_member :: "'n member_env \<Rightarrow> ssl \<Rightarrow> Member \<Rightarrow> Member \<Rightarrow> unit res \<times> Member" where
  "assign_member E ok other m =
     (let m1 = m\<lparr>mb_id := mb_id other, mb_type := mb_type other, mb_name := mb_name other, mb_email := mb_email other,
            mb_publicKey := mb_publicKey other\<rparr>;
          rest = (\<lambda>k. m1\<lparr>mb_keyPair := k, mb_dateCreated := mb_dateCreated other, mb_dateUpdated := mb_dateUpdated other,
            mb_votingPublicKey := mb_votingPublicKey other, mb_votingPrivateKey := mb_votingPrivateKey other\<rparr>)
      in case mb_keyPair other of
           None \<Rightarrow> (Inr (), rest None)
         | Some k \<Rightarrow> (case fromPrivateKey (me_crypto E) ok (ek_private k) of
             Inl e \<Rightarrow> (Inl e, m1)
           | Inr k' \<Rightarrow> (Inr (), rest (Some k'))))"

section \<open>JSON\<close>

definition byte_array :: "bytes \<Rightarrow> doc" where
  "byte_array bs = DArr (map (\<lambda>b. DInt (uint b)) bs)"

definition member_json :: "bool \<Rightarrow> Member \<Rightarrow> (string \<times> doc) list" where
  "member_json includePrivateData m =
     [(''dateCreated'', DInt (sint (mb_dateCreated m))), (''dateUpdated'', DInt (sint (mb_dateUpdated m))),
      (''email'', DStr (mb_email m)), (''id'', DStr (idHex m)), (''name'', DStr (mb_name m))] @
     (case mb_keyPair m of
        Some k \<Rightarrow> if includePrivateData then [(''privateKey'', byte_array (ek_private k))] else []
      | None \<Rightarrow> []) @
     [(''publicKey'', byte_array (mb_publicKey m)), (''type'', DInt (uint (mb_type m)))] @
     (case mb_votingPrivateKey m of
        Some sk \<Rightarrow> if includePrivateData
          then [(''votingPrivateKey'', DObj [(''lambda'', DStr (lambdaHex sk)), (''mu'', DStr (muHex sk))])] else []
      | None \<Rightarrow> []) @
     (case mb_votingPublicKey m of
        Some pk \<Rightarrow> [(''votingPublicKey'', DObj [(''g'', DStr (gHex pk)), (''n'', DStr (nHex pk))])]
      | None \<Rightarrow> [])"

definition member_toJson :: "'n member_env \<Rightarrow> bool \<Rightarrow> Member \<Rightarrow> string" where
  "member_toJson E includePrivateData m = me_dump E (DObj (member_json includePrivateData m))"

definition hexToBytes :: "string \<Rightarrow> bytes" where
  "hexToBytes hex = hex_to_bytes hex"

definition bytes_at :: "doc \<Rightarrow> string \<Rightarrow> bytes res" where
  "bytes_at j k = bind_res (json_at j k) (\<lambda>v.
     map_res (\<lambda>b. bind_res (get_small b) (\<lambda>n. Inr (word_of_int n))) (elements v))"

definition text_at :: "doc \<Rightarrow> string \<Rightarrow> string res" where
  "text_at j k = bind_res (json_at j k) get_text"

definition date_at :: "doc \<Rightarrow> string \<Rightarrow> 64 word res" where
  "date_at j k = bind_res (json_at j k) (\<lambda>v. bind_res (get_integer v) (\<lambda>n. Inr (word_of_int n)))"

definition restore_key :: "'n member_env \<Rightarrow> ssl \<Rightarrow> doc \<Rightarrow> Member \<Rightarrow> Member res" where
  "restore_key E ok j m =
     (if member j ''privateKey'' = None then Inr m
      else bind_res (bytes_at j ''privateKey'') (\<lambda>privateKey.
        bind_res (fromPrivateKey (me_crypto E) ok privateKey) (\<lambda>k. Inr (m\<lparr>mb_keyPair := Some k\<rparr>))))"

definition restore_voting :: "doc \<Rightarrow> Member \<Rightarrow> Member res" where
  "restore_voting j m =
     (if member j ''votingPublicKey'' = None then Inr m
      else bind_res (json_at j ''votingPublicKey'') (\<lambda>vp.
        bind_res (text_at vp ''n'') (\<lambda>n.
        bind_res (text_at vp ''g'') (\<lambda>g.
          let pk = mkPublicKey (hexToBytes n) (hexToBytes g); m1 = m\<lparr>mb_votingPublicKey := Some pk\<rparr> in
          if member j ''votingPrivateKey'' = None then Inr m1
          else bind_res (json_at j ''votingPrivateKey'') (\<lambda>vs.
            bind_res (text_at vs ''lambda'') (\<lambda>lambda.
            bind_res (text_at vs ''mu'') (\<lambda>mu.
              Inr (m1\<lparr>mb_votingPrivateKey := Some \<lparr>sk_lambda = hexToBytes lambda, sk_mu = hexToBytes mu, sk_public = pk,
                sk_p = [], sk_q = []\<rparr>\<rparr>))))))))"

definition member_fromJson :: "'n member_env \<Rightarrow> ssl \<Rightarrow> 64 word \<Rightarrow> 64 word \<Rightarrow> string \<Rightarrow> Member res" where
  "member_fromJson E ok created updated json =
     bind_res (parse_json (me_parse E) json) (\<lambda>j.
     bind_res (bind_res (json_at j ''type'') get_small) (\<lambda>ty.
     bind_res (text_at j ''name'') (\<lambda>name.
     bind_res (text_at j ''email'') (\<lambda>email.
     bind_res (bytes_at j ''publicKey'') (\<lambda>publicKey.
     bind_res (mkMember E created updated (word_of_int ty) name email publicKey None) (\<lambda>m.
     bind_res (restore_key E ok j m) (\<lambda>m1.
     bind_res (restore_voting j m1) (\<lambda>m2.
     bind_res (date_at j ''dateCreated'') (\<lambda>dc.
     bind_res (date_at j ''dateUpdated'') (\<lambda>du.
       Inr (m2\<lparr>mb_dateCreated := dc, mb_dateUpdated := du\<rparr>)))))))))))"

section \<open>What members keep\<close>

definition pair_ok :: "'n member_env \<Rightarrow> EcKeyPair \<Rightarrow> bool" where
  "pair_ok E k \<longleftrightarrow> fromPrivateKey (me_crypto E) all_succeed (ek_private k) = Inr k"

definition member_ok :: "'n member_env \<Rightarrow> Member \<Rightarrow> bool" where
  "member_ok E m \<longleftrightarrow> length (mb_publicKey m) = 33 \<and> mb_id m = take 16 (me_sha256 E (mb_publicKey m)) \<and>
     pred_option (pair_ok E) (mb_keyPair m) \<and>
     pred_option (\<lambda>pk. pk = mkPublicKey (pk_n pk) (pk_g pk)) (mb_votingPublicKey m) \<and>
     pred_option (\<lambda>sk. mb_votingPublicKey m = Some (sk_public sk)) (mb_votingPrivateKey m)"

lemma made_ok:
  assumes "mkMember E created updated ty name email publicKey keyPair = Inr m" "pred_option (pair_ok E) keyPair"
  shows "member_ok E m"
  using assms by (auto simp: mkMember_def member_ok_def split: if_splits)

lemma derived_ok:
  assumes "member_ok E m" "deriveVotingKeys E L it m = Some (Inr m')"
  shows "member_ok E m'"
proof -
  obtain k where k: "mb_keyPair m = Some k" using assms(2) by (cases "mb_keyPair m") (simp_all add: deriveVotingKeys_def)
  obtain r where r: "deriveVotingKeysFromECDH (me_keys E) (ek_private k) (mb_publicKey m) L it = Some r"
    and bound: "bind_res r (\<lambda>(pk, sk). Inr (m\<lparr>mb_votingPublicKey := Some pk, mb_votingPrivateKey := Some sk\<rparr>)) = Inr m'"
    using assms(2) k by (auto simp: deriveVotingKeys_def)
  obtain pk sk where keys: "r = Inr (pk, sk)" and m': "m' = m\<lparr>mb_votingPublicKey := Some pk, mb_votingPrivateKey := Some sk\<rparr>"
    using bound by (cases r) auto
  obtain p q where "(pk, sk) = derive_keys (ke_inverse (me_keys E)) p q"
    using r derived_from_numbers unfolding keys by blast
  then have "sk_public sk = pk" "pk = mkPublicKey (pk_n pk) (pk_g pk)"
    by (auto simp: derive_keys_def Let_def mkPublicKey_def)
  with assms(1) m' show ?thesis by (simp add: member_ok_def)
qed

lemma unloaded_ok: "member_ok E m \<Longrightarrow> member_ok E (unloadVotingPrivateKey m)"
  by (simp add: member_ok_def unloadVotingPrivateKey_def)

lemma copied_ok: "member_ok E m \<Longrightarrow> copy_member E all_succeed m = Inr m"
  by (cases "mb_keyPair m") (simp_all add: member_ok_def copy_member_def pair_ok_def)

lemma assigned_ok: "member_ok E other \<Longrightarrow> assign_member E all_succeed other m = (Inr (), other)"
  by (cases "mb_keyPair other") (simp_all add: member_ok_def assign_member_def pair_ok_def)

section \<open>The members of the text\<close>

lemma member_json_at:
  "map_of (member_json b m) ''dateCreated'' = Some (DInt (sint (mb_dateCreated m)))"
  "map_of (member_json b m) ''dateUpdated'' = Some (DInt (sint (mb_dateUpdated m)))"
  "map_of (member_json b m) ''email'' = Some (DStr (mb_email m))"
  "map_of (member_json b m) ''name'' = Some (DStr (mb_name m))"
  "map_of (member_json b m) ''publicKey'' = Some (byte_array (mb_publicKey m))"
  "map_of (member_json b m) ''type'' = Some (DInt (uint (mb_type m)))"
  "map_of (member_json b m) ''privateKey'' =
     (if b then map_option (\<lambda>k. byte_array (ek_private k)) (mb_keyPair m) else None)"
  "map_of (member_json b m) ''votingPublicKey'' =
     map_option (\<lambda>pk. DObj [(''g'', DStr (gHex pk)), (''n'', DStr (nHex pk))]) (mb_votingPublicKey m)"
  "map_of (member_json b m) ''votingPrivateKey'' =
     (if b then map_option (\<lambda>sk. DObj [(''lambda'', DStr (lambdaHex sk)), (''mu'', DStr (muHex sk))]) (mb_votingPrivateKey m) else None)"
  by (simp_all add: member_json_def split: option.split)

lemma member_json_sorted: "map_wf (member_json b m)"
  by (cases "mb_keyPair m"; cases "mb_votingPrivateKey m"; cases "mb_votingPublicKey m"; cases b)
    (simp_all add: member_json_def map_wf_def)

lemma byte_array_trip:
  "map_res (\<lambda>b. bind_res (get_small b) (\<lambda>n. Inr (word_of_int n))) (elements (byte_array bs)) = Inr bs"
  by (induction bs) (simp_all add: byte_array_def elements_def get_int_simps)

definition restored :: "bool \<Rightarrow> Member \<Rightarrow> Member" where
  "restored b m = m\<lparr>mb_keyPair := (if b then mb_keyPair m else None),
     mb_votingPrivateKey := (if b then map_option (\<lambda>sk. sk\<lparr>sk_p := [], sk_q := []\<rparr>) (mb_votingPrivateKey m) else None)\<rparr>"

lemma restore_key_json:
  assumes "member_ok E m"
  shows "restore_key E all_succeed (DObj (member_json b m)) x = Inr (if b \<and> mb_keyPair m \<noteq> None then x\<lparr>mb_keyPair := mb_keyPair m\<rparr> else x)"
  using assms by (cases "mb_keyPair m")
    (auto simp: restore_key_def Documents.member_def members_def bytes_at_def json_at_def member_json_at byte_array_trip
      member_ok_def pair_ok_def)

lemma restore_voting_json:
  assumes "member_ok E m" "mb_votingPublicKey x = None" "mb_votingPrivateKey x = None"
  shows "restore_voting (DObj (member_json b m)) x =
    Inr (x\<lparr>mb_votingPublicKey := mb_votingPublicKey m, mb_votingPrivateKey := mb_votingPrivateKey (restored b m)\<rparr>)"
proof (cases "mb_votingPublicKey m")
  case None
  then have "mb_votingPrivateKey m = None" using assms(1) by (cases "mb_votingPrivateKey m") (auto simp: member_ok_def)
  with None assms(2,3) show ?thesis
    by (simp add: restore_voting_def Documents.member_def members_def member_json_at restored_def)
next
  case (Some pk)
  then have pk: "mkPublicKey (pk_n pk) (pk_g pk) = pk" using assms(1) by (simp add: member_ok_def)
  have sk: "sk_public sk = pk" if "mb_votingPrivateKey m = Some sk" for sk using that Some assms(1) by (simp add: member_ok_def)
  show ?thesis
    using Some pk sk assms(3) by (cases "mb_votingPrivateKey m")
      (auto simp: restore_voting_def Documents.member_def members_def member_json_at restored_def text_at_def json_at_def
        get_text_def nHex_def gHex_def lambdaHex_def muHex_def bigintToHex_def hexToBytes_def codec_simps Let_def)
qed

text \<open>
  C36: A member written as JSON and read back is the same member, its identity and dates, key pair and
  voting keys included, except for what the text leaves out: the private keys, unless they were asked
  for, and the two primes of the voting key, always.
\<close>

theorem member_roundtrip:
  assumes "\<And>d. me_parse E (me_dump E d) = Some d" "member_ok E m"
  shows "member_fromJson E all_succeed created updated (member_toJson E b m) = Inr (restored b m)"
proof -
  define x where "x = \<lparr>mb_id = mb_id m, mb_type = mb_type m, mb_name = mb_name m, mb_email = mb_email m,
    mb_publicKey = mb_publicKey m, mb_keyPair = None, mb_dateCreated = created, mb_dateUpdated = updated,
    mb_votingPublicKey = None, mb_votingPrivateKey = None\<rparr>"
  have "mkMember E created updated (mb_type m) (mb_name m) (mb_email m) (mb_publicKey m) None = Inr x"
    using assms(2) by (simp add: mkMember_def member_ok_def x_def)
  then have "member_fromJson E all_succeed created updated (member_toJson E b m) =
      bind_res (restore_key E all_succeed (DObj (member_json b m)) x) (\<lambda>m1.
      bind_res (restore_voting (DObj (member_json b m)) m1) (\<lambda>m2.
        Inr (m2\<lparr>mb_dateCreated := mb_dateCreated m, mb_dateUpdated := mb_dateUpdated m\<rparr>)))"
    by (simp add: member_fromJson_def member_toJson_def parse_json_def assms(1) json_at_def text_at_def get_text_def bytes_at_def
        date_at_def get_int_simps member_json_at byte_array_trip)
  then show ?thesis
    using assms(2) by (simp add: restore_key_json restore_voting_json x_def restored_def)
qed

text \<open>A member that was read back has no primes: the random factor is out of its reach.\<close>

lemma restored_no_factor:
  "mb_votingPrivateKey (restored b m) = Some sk \<Longrightarrow> \<exists>e. getRandomFactor minv c sk = Inl e"
  by (auto simp: restored_def getRandomFactor_def hasPrimes_def Let_def split: if_splits)

lemma signed_verifies:
  assumes "\<And>a msg sig. cr_sign (me_crypto E) a msg = Some sig \<Longrightarrow> cr_verify (me_crypto E) (cr_public (me_crypto E) a) msg sig"
    and "openssl_laws (me_crypto E)" "mb_keyPair m = Some k" "key_pair (me_crypto E) k" "mb_publicKey m = ek_public k"
    and "member_sign E msg m = Inr sig"
  shows "member_verify E all_succeed msg sig m"
  using assms(3-6) public_facts(1) [OF assms(2), of "ek_private k"] assms(1)
  by (simp add: member_sign_def member_verify_def ec_sign_def ec_verify_def key_pair_def ssl_failed_def split: option.splits)

section \<open>Examples\<close>

definition member_sample_env :: "unit member_env" where
  "member_sample_env = \<lparr>me_crypto = toy, me_keys = key_sample, me_sha256 = (\<lambda>bs. take 32 (bs @ replicate 32 0)),
     me_dump = put_doc, me_parse = read_doc, me_mnemonic = Some ''abandon'', me_mnemonic_check = (\<lambda>m. True),
     me_seed = text_bytes, me_root = (\<lambda>s. ()), me_ckd_prime = (\<lambda>i n. n), me_ckd = (\<lambda>i n. n),
     me_private_key = (\<lambda>n. replicate 32 1)\<rparr>"

definition sample_voting :: "PaillierPublicKey \<times> PaillierPrivateKey" where
  "sample_voting = derive_keys (ke_inverse key_sample) 11 17"

definition sample_person :: Member where
  "sample_person = \<lparr>mb_id = 2 # replicate 15 7, mb_type = 2, mb_name = ''Ada'', mb_email = ''ada@x'',
     mb_publicKey = ek_public (toy_pair 7), mb_keyPair = Some (toy_pair 7), mb_dateCreated = 1700000000,
     mb_dateUpdated = 1700000001, mb_votingPublicKey = Some (fst sample_voting), mb_votingPrivateKey = Some (snd sample_voting)\<rparr>"

theorem member_roundtrip_witness:
  "member_fromJson member_sample_env all_succeed 5 6 (member_toJson member_sample_env True sample_person) =
     Inr (restored True sample_person)"
proof (rule member_roundtrip)
  show "me_parse member_sample_env (me_dump member_sample_env d) = Some d" for d
    by (simp add: member_sample_env_def read_put_doc)
  have "pair_ok member_sample_env (toy_pair 7)"
    by (simp add: pair_ok_def fromPrivateKey_def member_sample_env_def toy_def toy_pair_def)
  moreover have "fst sample_voting = mkPublicKey (pk_n (fst sample_voting)) (pk_g (fst sample_voting))"
      "sk_public (snd sample_voting) = fst sample_voting"
    by (simp_all add: sample_voting_def derive_keys_def Let_def mkPublicKey_def)
  moreover have "take 16 (me_sha256 member_sample_env (ek_public (toy_pair 7))) = 2 # replicate 15 7"
    by (simp add: member_sample_env_def toy_pair_def)
  moreover have "length (ek_public (toy_pair 7)) = 33" by (simp add: toy_pair_def)
  ultimately show "member_ok member_sample_env sample_person" by (simp add: member_ok_def sample_person_def)
qed

end
