(* ===== verification/Upnp.thy ===== *)
theory Upnp
  imports DocumentAccess
begin

text \<open>
  \<open>upnp_manager.{hpp,cpp}\<close>: the mapping of ports on the router a node is behind. What miniupnpc answers
  is a parameter, as is whether the program was built with it. Fields of type \<open>int\<close> are integers in
  its range.
\<close>

section \<open>Configuration\<close>

record UpnpConfig =
  uc_enabled :: bool
  uc_httpPort :: "16 word"
  uc_websocketPort :: "16 word"
  uc_ttlSeconds :: int
  uc_refreshIntervalMs :: int
  uc_retryAttempts :: int
  uc_retryDelayMs :: int

definition default_upnp :: UpnpConfig where
  "default_upnp = \<lparr>uc_enabled = False, uc_httpPort = 3000, uc_websocketPort = 3000, uc_ttlSeconds = 3600,
     uc_refreshIntervalMs = 1800000, uc_retryAttempts = 3, uc_retryDelayMs = 5000\<rparr>"

definition upnp_toJson :: "UpnpConfig \<Rightarrow> doc" where
  "upnp_toJson c = DObj [(''enabled'', DBool (uc_enabled c)), (''httpPort'', DInt (uint (uc_httpPort c))),
     (''refreshIntervalMs'', DInt (uc_refreshIntervalMs c)), (''retryAttempts'', DInt (uc_retryAttempts c)),
     (''retryDelayMs'', DInt (uc_retryDelayMs c)), (''ttlSeconds'', DInt (uc_ttlSeconds c)),
     (''websocketPort'', DInt (uint (uc_websocketPort c)))]"

definition port_at :: "doc \<Rightarrow> string \<Rightarrow> 16 word res" where
  "port_at j k = bind_res (member_at j k) (\<lambda>v. bind_res (get_small v) (\<lambda>n. Inr (word_of_int n)))"

definition int_at :: "doc \<Rightarrow> string \<Rightarrow> int res" where
  "int_at j k = bind_res (member_at j k) (\<lambda>v. bind_res (get_small v) (\<lambda>n. Inr (signed_take_bit 31 n)))"

definition upnp_fromJson :: "doc \<Rightarrow> UpnpConfig res" where
  "upnp_fromJson j =
     bind_res (bind_res (member_at j ''enabled'') get_bool) (\<lambda>enabled.
     bind_res (port_at j ''httpPort'') (\<lambda>httpPort.
     bind_res (port_at j ''websocketPort'') (\<lambda>websocketPort.
     bind_res (int_at j ''ttlSeconds'') (\<lambda>ttl.
     bind_res (int_at j ''refreshIntervalMs'') (\<lambda>refreshMs.
     bind_res (int_at j ''retryAttempts'') (\<lambda>attempts.
     bind_res (int_at j ''retryDelayMs'') (\<lambda>delayMs.
       Inr \<lparr>uc_enabled = enabled, uc_httpPort = httpPort, uc_websocketPort = websocketPort, uc_ttlSeconds = ttl,
         uc_refreshIntervalMs = refreshMs, uc_retryAttempts = attempts, uc_retryDelayMs = delayMs\<rparr>)))))))"

text \<open>The product may exceed an \<open>int\<close>.\<close>

definition upnp_validate :: "UpnpConfig \<Rightarrow> bool res" where
  "upnp_validate c =
     (if uc_ttlSeconds c \<le> 0 then Inr False
      else if uc_refreshIntervalMs c \<le> 0 then Inr False
      else if uc_retryAttempts c < 0 then Inr False
      else if uc_retryDelayMs c < 0 then Inr False
      else if 2 ^ 31 \<le> uc_ttlSeconds c * 1000 then Inl UndefinedBehaviour
      else Inr (uc_refreshIntervalMs c < uc_ttlSeconds c * 1000))"

text \<open>
  The product of doubles is exact up to the greatest power; a delay that is no \<open>int\<close>, infinite or not
  a number must not be converted.
\<close>

definition calculateRetryDelay :: "UpnpConfig \<Rightarrow> int \<Rightarrow> int res" where
  "calculateRetryDelay c attempt =
     (if attempt \<le> 0 then Inr (uc_retryDelayMs c)
      else let delay = uc_retryDelayMs c * 2 ^ nat attempt in
        if 1024 \<le> attempt \<or> delay < - (2 ^ 31) \<or> 2 ^ 31 \<le> delay then Inl UndefinedBehaviour else Inr delay)"

section \<open>The manager\<close>

text \<open>\<open>um_waiting\<close>: a wait of the timer is pending.\<close>

record UpnpManager =
  um_config :: UpnpConfig
  um_externalIp :: string
  um_initialized :: bool
  um_refreshTimer :: bool
  um_waiting :: bool
  um_running :: bool
  um_activeMappings :: "(16 word \<times> string) list"

definition mkUpnpManager :: "UpnpConfig \<Rightarrow> UpnpManager" where
  "mkUpnpManager config = \<lparr>um_config = config, um_externalIp = [], um_initialized = False, um_refreshTimer = False,
     um_waiting = False, um_running = False, um_activeMappings = []\<rparr>"

definition getExternalIp :: "UpnpManager \<Rightarrow> string option" where
  "getExternalIp s = (if \<not> um_initialized s \<or> um_externalIp s = [] then None else Some (um_externalIp s))"

definition getMappedHttpPort :: "UpnpManager \<Rightarrow> 16 word" where
  "getMappedHttpPort s = uc_httpPort (um_config s)"

definition getMappedWsPort :: "UpnpManager \<Rightarrow> 16 word" where
  "getMappedWsPort s = uc_websocketPort (um_config s)"

text \<open>
  What the router answers: whether there is a device, and a valid gateway, its address, and whether
  the request for a port succeeds at an attempt.
\<close>

record upnp_net =
  un_device :: bool
  un_gateway :: bool
  un_ip :: "string option"
  un_add :: "16 word \<Rightarrow> nat \<Rightarrow> bool"

text \<open>Whether the port was mapped, and the pauses that were made.\<close>

fun tryCreateMapping :: "UpnpConfig \<Rightarrow> (nat \<Rightarrow> bool) \<Rightarrow> nat \<Rightarrow> nat \<Rightarrow> (bool \<times> int list) res" where
  "tryCreateMapping c add attempt 0 = Inr (False, [])"
| "tryCreateMapping c add attempt (Suc left) =
     (if add attempt then Inr (True, [])
      else if int attempt < uc_retryAttempts c
      then bind_res (calculateRetryDelay c (int attempt)) (\<lambda>delayMs.
        bind_res (tryCreateMapping c add (Suc attempt) left) (\<lambda>(ok, delays). Inr (ok, delayMs # delays)))
      else tryCreateMapping c add (Suc attempt) left)"

definition map_port :: "upnp_net \<Rightarrow> 16 word \<Rightarrow> UpnpManager \<Rightarrow> UpnpManager res" where
  "map_port net port s =
     bind_res (tryCreateMapping (um_config s) (un_add net port) 0 (nat (uc_retryAttempts (um_config s) + 1))) (\<lambda>(ok, delays).
       Inr (if ok then s\<lparr>um_activeMappings := um_activeMappings s @ [(port, ''TCP'')]\<rparr> else s))"

definition scheduleRefreshTimer :: "UpnpManager \<Rightarrow> UpnpManager" where
  "scheduleRefreshTimer s = (if \<not> um_running s \<or> \<not> um_refreshTimer s then s else s\<lparr>um_waiting := True\<rparr>)"

definition start_refreshing :: "UpnpManager \<Rightarrow> UpnpManager" where
  "start_refreshing s = scheduleRefreshTimer (s\<lparr>um_initialized := True, um_refreshTimer := True, um_running := True\<rparr>)"

definition upnp_initialize :: "bool \<Rightarrow> upnp_net \<Rightarrow> UpnpManager \<Rightarrow> UpnpManager res" where
  "upnp_initialize have_miniupnpc net s =
     (if \<not> uc_enabled (um_config s) then Inr s
      else bind_res (upnp_validate (um_config s)) (\<lambda>valid.
        if \<not> valid then Inl (InvalidArgument ''Invalid UpnpConfig: refreshIntervalMs must be < ttlSeconds * 1000'')
        else if \<not> have_miniupnpc then Inr (start_refreshing s)
        else if \<not> un_device net then Inr s
        else if \<not> un_gateway net then Inr s
        else let s1 = (case un_ip net of Some ip \<Rightarrow> s\<lparr>um_externalIp := ip\<rparr> | None \<Rightarrow> s);
                 http = uc_httpPort (um_config s); ws = uc_websocketPort (um_config s)
             in bind_res (map_port net http s1) (\<lambda>s2.
                bind_res (if ws \<noteq> http then map_port net ws s2 else Inr s2) (\<lambda>s3.
                  Inr (start_refreshing s3)))))"

definition removeAllMappings :: "UpnpManager \<Rightarrow> UpnpManager" where
  "removeAllMappings s = s\<lparr>um_activeMappings := []\<rparr>"

text \<open>The cancelled wait is called with an error later.\<close>

definition upnp_shutdown :: "UpnpManager \<Rightarrow> UpnpManager" where
  "upnp_shutdown s =
     (let s1 = s\<lparr>um_running := False\<rparr>;
          s2 = (if um_refreshTimer s1 then s1\<lparr>um_refreshTimer := False\<rparr> else s1);
          s3 = removeAllMappings s2
      in s3\<lparr>um_initialized := False\<rparr>)"

definition createMapping :: "16 word \<Rightarrow> 16 word \<Rightarrow> string \<Rightarrow> UpnpManager \<Rightarrow> UpnpManager" where
  "createMapping internalPort externalPort desc s =
     s\<lparr>um_activeMappings := um_activeMappings s @ [(externalPort, ''TCP'')]\<rparr>"

text \<open>Nothing is refreshed.\<close>

definition refreshMappings :: "UpnpManager \<Rightarrow> UpnpManager" where
  "refreshMappings s = s"

definition refreshTimerFired :: "bool \<Rightarrow> UpnpManager \<Rightarrow> UpnpManager" where
  "refreshTimerFired error s =
     (let s1 = s\<lparr>um_waiting := False\<rparr> in
      if error \<or> \<not> um_running s1 then s1 else scheduleRefreshTimer (refreshMappings s1))"

section \<open>What holds of the manager\<close>

definition upnp_ranges :: "UpnpConfig \<Rightarrow> bool" where
  "upnp_ranges c \<longleftrightarrow> (\<forall>n \<in> {uc_ttlSeconds c, uc_refreshIntervalMs c, uc_retryAttempts c, uc_retryDelayMs c}.
     - (2 ^ 31) \<le> n \<and> n < 2 ^ 31)"

lemma upnp_config_trip: "upnp_ranges c \<Longrightarrow> upnp_fromJson (upnp_toJson c) = Inr c"
  by (simp add: upnp_ranges_def upnp_fromJson_def upnp_toJson_def port_at_def int_at_def member_at_def get_bool_def get_int_simps
      signed_take_bit_int_eq_self)

text \<open>A lifetime of 25 days and more is not accepted or refused, but undefined.\<close>

lemma long_lifetime_overflows:
  "2147484 \<le> uc_ttlSeconds c \<Longrightarrow> 0 < uc_refreshIntervalMs c \<Longrightarrow> 0 \<le> uc_retryAttempts c \<Longrightarrow> 0 \<le> uc_retryDelayMs c \<Longrightarrow>
     upnp_validate c = Inl UndefinedBehaviour"
  by (simp add: upnp_validate_def)

text \<open>
  A port is asked for until a request succeeds, at most once more than there are retries, with pauses
  that double from one to the next.
\<close>

definition delays_fit :: "UpnpConfig \<Rightarrow> bool" where
  "delays_fit c \<longleftrightarrow> 0 \<le> uc_retryDelayMs c \<and> uc_retryAttempts c \<le> 1024 \<and>
     uc_retryDelayMs c * 2 ^ nat (uc_retryAttempts c) < 2 ^ 31"

lemma retry_delay:
  assumes "delays_fit c" "int k < uc_retryAttempts c"
  shows "calculateRetryDelay c (int k) = Inr (uc_retryDelayMs c * 2 ^ k)"
proof -
  have "(2 :: int) ^ k \<le> 2 ^ nat (uc_retryAttempts c)" using assms(2) by (intro power_increasing) auto
  then have "uc_retryDelayMs c * 2 ^ k \<le> uc_retryDelayMs c * 2 ^ nat (uc_retryAttempts c)"
    using assms(1) by (intro mult_left_mono) (auto simp: delays_fit_def)
  moreover have "0 \<le> uc_retryDelayMs c * 2 ^ k" using assms(1) by (simp add: delays_fit_def)
  moreover have "uc_retryDelayMs c * 2 ^ nat (uc_retryAttempts c) < 2 ^ 31" "int k < 1024"
    using assms by (simp_all add: delays_fit_def)
  ultimately have "\<not> uc_retryDelayMs c * 2 ^ k < - (2 ^ 31)" "\<not> 2 ^ 31 \<le> uc_retryDelayMs c * 2 ^ k" "\<not> 1024 \<le> int k"
    by linarith+
  then show ?thesis by (cases "k = 0") (simp_all add: calculateRetryDelay_def)
qed

lemma mapping_attempts:
  assumes "delays_fit c" "attempt + left = Suc r" "uc_retryAttempts c = int r"
  shows "tryCreateMapping c add attempt left =
    Inr (case find add [attempt..<Suc r] of
      Some k \<Rightarrow> (True, map (\<lambda>i. uc_retryDelayMs c * 2 ^ i) [attempt..<k])
    | None \<Rightarrow> (False, map (\<lambda>i. uc_retryDelayMs c * 2 ^ i) [attempt..<r]))"
  using assms(2)
proof (induction left arbitrary: attempt)
  case (Suc left)
  have upt: "[attempt..<Suc r] = attempt # [Suc attempt..<Suc r]" using Suc.prems upt_conv_Cons [of attempt "Suc r"] by simp
  show ?case
  proof (cases "add attempt")
    case True
    then show ?thesis by (simp add: upt del: upt_Suc)
  next
    case False
    note IH = Suc.IH [of "Suc attempt"]
    show ?thesis
    proof (cases "attempt < r")
      case True
      then have "[attempt..<k] = attempt # [Suc attempt..<k]" if "find add [Suc attempt..<Suc r] = Some k" for k
        using that upt_conv_Cons [of attempt k] by (auto simp: find_Some_iff simp del: upt_Suc)
      moreover have "[attempt..<r] = attempt # [Suc attempt..<r]" using True by (rule upt_conv_Cons)
      ultimately show ?thesis
        using False True IH Suc.prems assms(3) retry_delay [OF assms(1), of attempt]
        by (simp add: upt del: upt_Suc split: option.split)
    next
      case last: False
      then have "attempt = r" "left = 0" using Suc.prems by auto
      then show ?thesis using False assms(3) by simp
    qed
  qed
qed simp

lemma map_port_iff:
  assumes "delays_fit (um_config s)" "0 \<le> uc_retryAttempts (um_config s)"
  shows "map_port net port s = Inr (if \<exists>k. int k \<le> uc_retryAttempts (um_config s) \<and> un_add net port k
    then s\<lparr>um_activeMappings := um_activeMappings s @ [(port, ''TCP'')]\<rparr> else s)"
proof -
  define r where "r = nat (uc_retryAttempts (um_config s))"
  have r: "uc_retryAttempts (um_config s) = int r" "nat (uc_retryAttempts (um_config s) + 1) = Suc r"
    using assms(2) by (simp_all add: r_def nat_add_distrib)
  have "find (un_add net port) [0..<Suc r] \<noteq> None \<longleftrightarrow> (\<exists>k \<le> r. un_add net port k)"
    unfolding find_None_iff not_not by (auto simp del: upt_Suc) (metis le_imp_less_Suc less_Suc_eq_le)+
  moreover have "map_port net port s = Inr (if find (un_add net port) [0..<Suc r] \<noteq> None
      then s\<lparr>um_activeMappings := um_activeMappings s @ [(port, ''TCP'')]\<rparr> else s)"
    using mapping_attempts [OF assms(1) _ r(1), of 0 "Suc r" "un_add net port"]
    by (cases "find (un_add net port) [0..<Suc r]") (simp_all add: map_port_def r(2) del: upt_Suc tryCreateMapping.simps)
  ultimately show ?thesis using assms(2) by (auto simp: r(1) simp del: upt_Suc)
qed

section \<open>Reachable managers\<close>

inductive upnp_reach :: "UpnpConfig \<Rightarrow> UpnpManager \<Rightarrow> bool" for c where
  made: "upnp_reach c (mkUpnpManager c)"
| initialized: "upnp_reach c s \<Longrightarrow> upnp_initialize have_miniupnpc net s = Inr s' \<Longrightarrow> upnp_reach c s'"
| fired: "upnp_reach c s \<Longrightarrow> um_waiting s \<Longrightarrow> upnp_reach c (refreshTimerFired error s)"
| stopped: "upnp_reach c s \<Longrightarrow> upnp_reach c (upnp_shutdown s)"

definition upnp_inv :: "UpnpConfig \<Rightarrow> UpnpManager \<Rightarrow> bool" where
  "upnp_inv c s \<longleftrightarrow> um_config s = c \<and> um_initialized s = um_running s \<and> um_refreshTimer s = um_running s \<and>
     (um_running s \<longrightarrow> uc_enabled c \<and> upnp_validate c = Inr True)"

lemma map_port_keeps:
  "map_port net port s = Inr s' \<Longrightarrow> um_config s' = um_config s \<and> um_initialized s' = um_initialized s \<and>
     um_refreshTimer s' = um_refreshTimer s \<and> um_running s' = um_running s"
  by (auto simp: map_port_def bind_res_Inr_iff split: if_splits)

lemma upnp_initialize_cases:
  assumes "upnp_initialize have_miniupnpc net s = Inr s'"
  obtains (same) "s' = s"
  | (started) s3 where "s' = start_refreshing s3" "um_config s3 = um_config s" "uc_enabled (um_config s)"
      "upnp_validate (um_config s) = Inr True"
proof (cases "uc_enabled (um_config s)")
  case False
  then show thesis using assms same by (simp add: upnp_initialize_def)
next
  case True
  then obtain valid where v: "upnp_validate (um_config s) = Inr valid"
    using assms by (auto simp: upnp_initialize_def bind_res_Inr_iff)
  with True assms have valid by (cases valid) (simp_all add: upnp_initialize_def)
  with v have v: "upnp_validate (um_config s) = Inr True" by simp
  show thesis
  proof (cases "have_miniupnpc \<and> un_device net \<and> un_gateway net")
    case False
    then show thesis using assms True v same started [of s] by (auto simp: upnp_initialize_def split: if_splits)
  next
    case up: True
    define s1 where "s1 = (case un_ip net of Some ip \<Rightarrow> s\<lparr>um_externalIp := ip\<rparr> | None \<Rightarrow> s)"
    have "um_config s1 = um_config s" by (simp add: s1_def split: option.split)
    moreover obtain s2 s3 where s2: "map_port net (uc_httpPort (um_config s)) s1 = Inr s2"
      and s3: "(if uc_websocketPort (um_config s) \<noteq> uc_httpPort (um_config s)
          then map_port net (uc_websocketPort (um_config s)) s2 else Inr s2) = Inr s3" "s' = start_refreshing s3"
      using assms True v up by (auto simp: upnp_initialize_def bind_res_Inr_iff Let_def simp flip: s1_def)
    moreover have "um_config s3 = um_config s2" using s3(1) map_port_keeps by (auto split: if_splits)
    ultimately show thesis using started [of s3] True v map_port_keeps [OF s2] by simp
  qed
qed

lemma upnp_invariant: "upnp_reach c s \<Longrightarrow> upnp_inv c s"
proof (induction rule: upnp_reach.induct)
  case (initialized s have_miniupnpc net s')
  from initialized(2) show ?case
    by (cases rule: upnp_initialize_cases)
      (use initialized(3) in \<open>auto simp: upnp_inv_def start_refreshing_def scheduleRefreshTimer_def\<close>)
qed (auto simp: upnp_inv_def mkUpnpManager_def refreshTimerFired_def scheduleRefreshTimer_def refreshMappings_def Let_def
    upnp_shutdown_def removeAllMappings_def)

end
