(* ===== verification/BatchVotes.thy ===== *)
theory BatchVotes
  imports Prelude
begin

text \<open>
  \<open>batch_vote_processor.hpp\<close>: votes gathered into batches. The function that processes a batch acts on a
  state of its own and may throw.
\<close>

record ('v, 'w) BatchVoteProcessor =
  bp_batchSize :: nat
  bp_currentBatch :: "('v \<times> 'w) list"

definition mkBatchVoteProcessor :: "nat \<Rightarrow> ('v, 'w) BatchVoteProcessor" where
  "mkBatchVoteProcessor batchSize = \<lparr>bp_batchSize = batchSize, bp_currentBatch = []\<rparr>"

text \<open>Whether the batch is full, and the processor.\<close>

definition addVote :: "'v \<Rightarrow> 'w \<Rightarrow> ('v, 'w) BatchVoteProcessor \<Rightarrow> bool \<times> ('v, 'w) BatchVoteProcessor" where
  "addVote voter vote p =
     (let p1 = p\<lparr>bp_currentBatch := bp_currentBatch p @ [(voter, vote)]\<rparr>
      in (bp_batchSize p1 \<le> length (bp_currentBatch p1), p1))"

text \<open>A batch whose processing throws stays.\<close>

definition processBatch :: "(('v \<times> 'w) list \<Rightarrow> 's \<Rightarrow> 's res) \<Rightarrow> 's \<Rightarrow> ('v, 'w) BatchVoteProcessor \<Rightarrow>
    's res \<times> ('v, 'w) BatchVoteProcessor" where
  "processBatch processor s p =
     (if bp_currentBatch p = [] then (Inr s, p)
      else case processor (bp_currentBatch p) s of
        Inl e \<Rightarrow> (Inl e, p)
      | Inr s' \<Rightarrow> (Inr s', p\<lparr>bp_currentBatch := []\<rparr>))"

definition getBatchSize :: "('v, 'w) BatchVoteProcessor \<Rightarrow> nat" where
  "getBatchSize p = length (bp_currentBatch p)"

definition getBatchSizeLimit :: "('v, 'w) BatchVoteProcessor \<Rightarrow> nat" where
  "getBatchSizeLimit p = bp_batchSize p"

section \<open>Every vote is processed once\<close>

text \<open>A caller that processes the batch whenever it is full, and what was processed so far, batch by batch.\<close>

fun cast_all :: "('v \<times> 'w) list \<Rightarrow> ('v \<times> 'w) list list \<Rightarrow> ('v, 'w) BatchVoteProcessor \<Rightarrow>
    ('v \<times> 'w) list list \<times> ('v, 'w) BatchVoteProcessor" where
  "cast_all [] done_batches p = (done_batches, p)"
| "cast_all ((voter, vote) # votes) done_batches p =
     (let (full, p1) = addVote voter vote p in
      if full then (case processBatch (\<lambda>b bs. Inr (bs @ [b])) done_batches p1 of
          (Inr bs, p2) \<Rightarrow> cast_all votes bs p2
        | (Inl e, p2) \<Rightarrow> cast_all votes done_batches p2)
      else cast_all votes done_batches p1)"

lemma cast_all_step:
  "cast_all ((voter, vote) # votes) done_batches p =
     (let b = bp_currentBatch p @ [(voter, vote)] in
      if bp_batchSize p \<le> length b then cast_all votes (done_batches @ [b]) (p\<lparr>bp_currentBatch := []\<rparr>)
      else cast_all votes done_batches (p\<lparr>bp_currentBatch := b\<rparr>))"
  by (simp add: addVote_def processBatch_def Let_def)

lemma votes_processed_once:
  assumes "length (bp_currentBatch p) < max 1 (bp_batchSize p)" "\<forall>b \<in> set done_batches. length b = max 1 (bp_batchSize p)"
    and "cast_all votes done_batches p = (batches, p')"
  shows "concat batches @ bp_currentBatch p' = concat done_batches @ bp_currentBatch p @ votes \<and>
    length (bp_currentBatch p') < max 1 (bp_batchSize p) \<and> (\<forall>b \<in> set batches. length b = max 1 (bp_batchSize p))"
  using assms
proof (induction votes arbitrary: done_batches p)
  case (Cons v votes)
  obtain voter vote where v: "v = (voter, vote)" by fastforce
  define b where "b = bp_currentBatch p @ [v]"
  have step: "cast_all (v # votes) done_batches p =
      (if bp_batchSize p \<le> length b then cast_all votes (done_batches @ [b]) (p\<lparr>bp_currentBatch := []\<rparr>)
       else cast_all votes done_batches (p\<lparr>bp_currentBatch := b\<rparr>))"
    using cast_all_step [of voter vote votes done_batches p] unfolding b_def v Let_def .
  show ?case
  proof (cases "bp_batchSize p \<le> length b")
    case True
    moreover have "length b = Suc (length (bp_currentBatch p))" by (simp add: b_def)
    ultimately have "length b = max 1 (bp_batchSize p)" using Cons.prems(1) by linarith
    moreover have "cast_all votes (done_batches @ [b]) (p\<lparr>bp_currentBatch := []\<rparr>) = (batches, p')"
      using Cons.prems(3) True unfolding step by simp
    moreover have "length (bp_currentBatch (p\<lparr>bp_currentBatch := []\<rparr>)) < max 1 (bp_batchSize (p\<lparr>bp_currentBatch := []\<rparr>))" by simp
    moreover have "\<forall>c \<in> set (done_batches @ [b]). length c = max 1 (bp_batchSize (p\<lparr>bp_currentBatch := []\<rparr>))"
      using Cons.prems(2) calculation(1) unfolding set_append list.set ball_Un by simp
    ultimately have "concat batches @ bp_currentBatch p' = concat (done_batches @ [b]) @ bp_currentBatch (p\<lparr>bp_currentBatch := []\<rparr>) @ votes \<and>
        length (bp_currentBatch p') < max 1 (bp_batchSize (p\<lparr>bp_currentBatch := []\<rparr>)) \<and>
        (\<forall>b \<in> set batches. length b = max 1 (bp_batchSize (p\<lparr>bp_currentBatch := []\<rparr>)))"
      using Cons.IH by blast
    then show ?thesis unfolding b_def by simp
  next
    case False
    then have "cast_all votes done_batches (p\<lparr>bp_currentBatch := b\<rparr>) = (batches, p')"
      using Cons.prems(3) unfolding step by simp
    moreover have "length b < max 1 (bp_batchSize p)" using False by simp
    ultimately have "concat batches @ bp_currentBatch p' = concat done_batches @ b @ votes \<and>
        length (bp_currentBatch p') < max 1 (bp_batchSize p) \<and> (\<forall>b \<in> set batches. length b = max 1 (bp_batchSize p))"
      using Cons.IH [of "p\<lparr>bp_currentBatch := b\<rparr>" done_batches] Cons.prems(2) by simp
    then show ?thesis unfolding b_def by simp
  qed
qed auto

lemma failed_batch_stays:
  "processBatch processor s p = (Inl e, p') \<Longrightarrow> p' = p"
  by (auto simp: processBatch_def split: if_splits sum.splits)

end
