(* ===== verification/Spec2Isabelle.thy ===== *)
theory Spec2Isabelle
  imports VotingProperties Aggregation ShamirRoundtrip BloomFilter AnnouncementProperties
    RetryProperties PeerProperties HeadRegistry
    WebSocketProperties IntrospectionApi AuditLog BulletinBoard EventLogger Database
    Discovery BlockLists Members Upnp BatchVotes
begin

text \<open>
  A verification development for BrightChain: its voting system with its logs, its secret sharing, its
  members and their keys, the store of blocks and the document database above it, the gossip protocol
  that spreads block announcements between nodes, and the servers of a node. The sources are under
  \<open>src/src\<close> and \<open>src/include/brightchain\<close>; a definition has the name of the function it models, a record
  or datatype the name of the class.

  How the parts interact. Voters encode their choices as Paillier ciphertexts and cast them in a
  \<open>Poll\<close>; a \<open>PollTallier\<close> decrypts the closed poll and counts it, and aggregators add encrypted
  tallies up from precincts to the nation. The private key may be shared among guardians with
  Shamir's scheme. What happens to a poll is recorded in an audit log and an event log and published on
  a bulletin board. A \<open>Member\<close> has a key pair for signatures and ECIES, from which its voting keys are
  derived. A \<open>Collection\<close> of a database keeps documents as blocks of the \<open>DiskBlockStore\<close> and its index
  as a block that a head in the \<open>HeadRegistry\<close> names; larger contents are lists of blocks. The
  \<open>DiscoveryProtocol\<close> looks for the peers that hold a block. A \<open>GossipEngine\<close> queues announcements and
  sends them to peers through the \<open>PeerManager\<close>; received ones go to handlers, to the \<open>HeadRegistry\<close> and on to other peers. The
  \<open>RetryService\<close> sends messages again until their recipients have acknowledged them, the
  \<open>WebSocketServer\<close> accepts peers and clients, and the \<open>IntrospectionApi\<close> shows the state of a node.

  The model. Functions of the code are HOL functions that return \<open>error + 'a\<close> where the code throws
  or has undefined behaviour (\<open>Prelude\<close>: \<open>res\<close>, \<open>cpp_error\<close>); objects are records, and an operation
  takes the object and returns it updated. Integers of fixed width are words, or \<open>int\<close> with their
  ranges as hypotheses. \<open>std::map\<close> is an association list in key order, \<open>std::unordered_map\<close> one in
  the order of insertion. Clocks, random numbers, digests, the calls of OpenSSL, trezor-crypto and
  miniupnpc, the text of JSON values, sockets and the failures of files are arguments: functions, records of
  functions, or lists of outcomes; the laws assumed of them have names (\<open>openssl_laws\<close>,
  \<open>mod_inverse_law\<close>, \<open>std_sort\<close>, \<open>network_laws\<close>), which the witnesses show can hold.

  What may fail. Every read, write, rename and lock of a file may fail, the removal of a lock file too:
  \<open>lock_io\<close> says which, and where a removal throws in the destructor of the lock's guard the program
  ends (\<open>Terminated\<close>). Claims that need the system to answer say so: \<open>env_ok\<close> (every read, write, lock
  and registry update succeeds), or only \<open>whole_writes\<close> (a write of a block that fails after opening its
  file does not cut it off, which the code's own order of steps cannot prevent), \<open>locks_removed\<close> (lock
  files can be removed) and \<open>no_collision\<close> (different blocks have different checksums).

  The theories.
  \<^item> \<open>Prelude\<close>, \<open>Codec\<close>, \<open>HexText\<close>, \<open>Json\<close>: errors, vectors, maps; integers and bytes as
    hexadecimal and in either byte order; \<open>std::stoul\<close>; the interface of \<open>nlohmann::json\<close>, whose
    laws are the locale \<open>json_laws\<close>, interpreted on a datatype of JSON values.
  \<^item> \<open>VotingMethods\<close>, \<open>Polls\<close>, \<open>VoteEncoding\<close>, \<open>Tallying\<close>, \<open>Aggregation\<close>, \<open>BigintBytes\<close> model
    \<open>voting_method.cpp\<close>, \<open>poll.cpp\<close>, \<open>poll_factory.cpp\<close>, \<open>vote_encoder.cpp\<close>, \<open>poll_tallier.cpp\<close> and
    \<open>hierarchical_aggregator.cpp\<close>. \<open>TallyFacts\<close> and \<open>RunoffFacts\<close> relate the counts to sums and to an
    abstract instant runoff; \<open>PollRuns\<close> has the runs of a poll, which votes they accept and what form
    those have; \<open>VotingProperties\<close> has the properties from ballots to winners.
    \<open>BatchVotes\<close> models \<open>batch_vote_processor.hpp\<close>.
  \<^item> \<open>Paillier\<close> and \<open>VotingKeys\<close> model \<open>paillier.cpp\<close> and \<open>hmac_drbg.cpp\<close>, on the number theory of
    \<open>NumberFacts\<close>; \<open>HexPairs\<close> reads hexadecimal pairs.
  \<^item> \<open>Ecies\<close> models \<open>aes_gcm.cpp\<close>, \<open>ec_key_pair.cpp\<close> and \<open>ecies.cpp\<close>: encryption to one and several keys
    and what decryption does with arbitrary bytes, each read of which is checked against their end
    (\<open>fetch\<close>), so that one past it is \<open>UndefinedBehaviour\<close>. \<open>Members\<close> models \<open>member.cpp\<close>.
  \<^item> \<open>AuditLog\<close>, \<open>BulletinBoard\<close> and \<open>EventLogger\<close> model the files of these names; \<open>AppendOnly\<close> has the locale
    of logs that only grow, which each of them interprets. The first two show what their hashes bind,
    unless the digest collides.
  \<^item> \<open>Documents\<close>, \<open>DocumentAccess\<close> and \<open>DocumentText\<close> have JSON values, how they are read, and a text for
    them; \<open>QueryEngine\<close> and \<open>UpdateEngine\<close> model \<open>query_engine.cpp\<close> and \<open>update_engine.cpp\<close>, with
    properties in \<open>DocumentProperties\<close>.
  \<^item> \<open>BlockStore\<close> models \<open>disk_block_store.cpp\<close> with block sizes, checksums, metadata and raw blocks,
    \<open>BlockLists\<close> \<open>cbl.cpp\<close>, \<open>super_cbl.cpp\<close> and \<open>extended_cbl.cpp\<close>, whose headers share the locale
    \<open>header_codec\<close>.
  \<^item> \<open>Collection\<close> models \<open>collection.cpp\<close> as programs over a world of stores, heads and locks that may throw,
    \<open>Database\<close> \<open>brightchain_db.cpp\<close>. \<open>CollectionFrames\<close> has what every operation keeps (the locales
    \<open>kept\<close> and \<open>kept_by_all\<close>), \<open>CollectionViews\<close> the abstract map of documents a collection holds,
    \<open>CollectionLoading\<close> when the memory of a collection agrees with it, \<open>CollectionProperties\<close> the refinement of
    insertions, searches, updates and deletions to operations on that map, \<open>CollectionExamples\<close> their
    witnesses.
  \<^item> \<open>Shamir\<close> models \<open>shamir.cpp\<close>; \<open>XorField\<close> has Lagrange interpolation in a field of numbers with
    exclusive or as addition, a locale that \<open>ShamirTables\<close> interprets on the logarithm tables of the
    code; \<open>ShamirRoundtrip\<close> has the strings around it.
  \<^item> \<open>BloomFilter\<close>, \<open>Announcements\<close>, \<open>RetryService\<close>, \<open>PeerManager\<close>, \<open>GossipConfig\<close>, \<open>GossipEngine\<close>,
    \<open>Jwt\<close>, \<open>WebSocketServer\<close>, \<open>IntrospectionApi\<close> model the files of these names under \<open>gossip/\<close>,
    \<open>HeadRegistry\<close> \<open>head_registry.cpp\<close>; \<open>AnnouncementProperties\<close>, \<open>RetryProperties\<close>,
    \<open>PeerProperties\<close>, \<open>GossipProperties\<close> and \<open>WebSocketProperties\<close> their properties. What the engine
    needs of its peers is the locale \<open>transport\<close>, interpreted on the peer manager.
    \<open>GossipNetwork\<close> reads announcements back out of the texts the engines send and bounds the floods of a
    network. \<open>Discovery\<close> and
    \<open>Upnp\<close> model \<open>discovery_protocol.cpp\<close> and \<open>upnp_manager.cpp\<close>.

  Bounds. The Shamir round trip is proved for the fields of 3 to 10 bits, whose tables the kernel
  computes; the code admits 3 to 20. The loops that may run on are \<open>partial_function\<close>s (the
  chunks of a batch, whose size may be 0) or take a number of rounds that is proved to be enough
  (elimination counts: one per candidate). Sums of ballots are proved for totals below \<open>2 ^ 63\<close>, the
  range of the code's counters. The attempts at a prime are the code's 10000; a loop that does not end
  is \<open>None\<close>.

  Assumptions on values. A double is the rational number it stands for, and rounding is an argument; the
  order of an \<open>unordered_map\<close> where the code iterates over one is an argument as well. Text is valid UTF-8,
  so that writing JSON does not throw. Vectors are shorter than the \<open>int\<close> that OpenSSL takes. Where the
  code's arithmetic is undefined the model has one of the outcomes compilers give: counters of votes wrap
  around, the sequence number of a log entry has arbitrary high bytes; a retry delay that is not a
  number, from an initial timeout of 0, is not modelled.

  Not modelled. What is inside OpenSSL, trezor-crypto, miniupnpc, Boost and \<open>nlohmann::json\<close>; the
  allocation failures of single big numbers; two helpers of \<open>paillier.cpp\<close> that nothing calls; debug output;
  examples and helpers for tests.
  Mutexes and threads are left out: the operations that a mutex guards are the steps of the model, in any
  order, and the locks of files are steps that may time out.
\<close>

end
